(* ===== verification/Prelude.thy ===== *)
theory Prelude
  imports Main "HOL-Library.Signed_Division"
begin

text \<open>
  The prelude of the development: what every component shares.
  \<^item> Go's 64-bit and 32-bit signed integers as \<open>int\<close> with the wrap-around written out;
  \<^item> the parts of Go's standard library the sources use on strings
    (\<open>strings.TrimSpace\<close>, \<open>ToUpper\<close>, \<open>ToLower\<close>, \<open>Index\<close>, \<open>Join\<close>, \<open>strconv.Itoa\<close>). Strings are
    lists of bytes, \<open>len\<close> is \<open>length\<close>; upper/lower case and space are those of ASCII;
  \<^item> tables of rows as lists, with the select, update and delete of SQL by a key or a
    predicate, and the lemmas that carry the components' proofs;
  \<^item> the named collections \<open>go_simps\<close> and \<open>sql_simps\<close>.
\<close>

named_theorems go_simps "evaluation of the Go library functions on concrete inputs"
named_theorems sql_simps "select, update and delete on tables"

section \<open>Machine integers\<close>

text \<open>An \<open>int64\<close> is an \<open>int\<close> in the range of 64-bit two's complement; an operation that may
  leave the range wraps, as Go's does.\<close>

definition wrap64 :: "int \<Rightarrow> int" where
  "wrap64 x = (x + 2 ^ 63) mod 2 ^ 64 - 2 ^ 63"

definition is_int64 :: "int \<Rightarrow> bool" where
  "is_int64 x \<longleftrightarrow> - (2 ^ 63) \<le> x \<and> x < 2 ^ 63"

definition wrap32 :: "int \<Rightarrow> int" where
  "wrap32 x = (x + 2 ^ 31) mod 2 ^ 32 - 2 ^ 31"

definition add64 :: "int \<Rightarrow> int \<Rightarrow> int" where
  "add64 a b = wrap64 (a + b)"

definition sub64 :: "int \<Rightarrow> int \<Rightarrow> int" where
  "sub64 a b = wrap64 (a - b)"

definition mul64 :: "int \<Rightarrow> int \<Rightarrow> int" where
  "mul64 a b = wrap64 (a * b)"

text \<open>Go's integer division truncates towards zero, and so does \<open>sdiv\<close>; the remainder has the
  sign of the dividend, and so has \<open>smod\<close>.\<close>

definition div64 :: "int \<Rightarrow> int \<Rightarrow> int" where
  "div64 a b = wrap64 (a sdiv b)"

definition rem64 :: "int \<Rightarrow> int \<Rightarrow> int" where
  "rem64 a b = a smod b"

text \<open>The zero \<open>time.Time\<close>, the first second of year 1, as nanoseconds since 1970.\<close>

definition zero_time :: int where "zero_time = - 62135596800 * 10 ^ 9"

section \<open>Strings\<close>

definition is_space :: "char \<Rightarrow> bool" where
  "is_space c \<longleftrightarrow> c \<in> {CHR 0x09, CHR 0x0A, CHR 0x0B, CHR 0x0C, CHR 0x0D, CHR 0x20}"

definition TrimSpace :: "string \<Rightarrow> string" where
  "TrimSpace s = rev (dropWhile is_space (rev (dropWhile is_space s)))"

definition upper_char :: "char \<Rightarrow> char" where
  "upper_char c = (let n = of_char c :: nat in if 97 \<le> n \<and> n \<le> 122 then char_of (n - 32) else c)"

definition lower_char :: "char \<Rightarrow> char" where
  "lower_char c = (let n = of_char c :: nat in if 65 \<le> n \<and> n \<le> 90 then char_of (n + 32) else c)"

definition ToUpper :: "string \<Rightarrow> string" where
  "ToUpper s = map upper_char s"

definition ToLower :: "string \<Rightarrow> string" where
  "ToLower s = map lower_char s"

text \<open>\<open>strings.Index(s, sep)\<close>: the position of the first occurrence, \<open>None\<close> for Go's \<open>-1\<close>.\<close>

fun has_prefix :: "string \<Rightarrow> string \<Rightarrow> bool" where
  "has_prefix [] s = True"
| "has_prefix (c # cs) [] = False"
| "has_prefix (c # cs) (d # ds) = (c = d \<and> has_prefix cs ds)"

fun str_Index :: "string \<Rightarrow> string \<Rightarrow> nat option" where
  "str_Index sep [] = (if sep = [] then Some 0 else None)"
| "str_Index sep (c # cs) =
     (if has_prefix sep (c # cs) then Some 0 else map_option Suc (str_Index sep cs))"

fun str_Join :: "string \<Rightarrow> string list \<Rightarrow> string" where
  "str_Join sep [] = []"
| "str_Join sep [x] = x"
| "str_Join sep (x # y # xs) = x @ sep @ str_Join sep (y # xs)"

definition digit :: "nat \<Rightarrow> char" where
  "digit n = char_of (48 + n)"

fun nat_digits :: "nat \<Rightarrow> string" where
  "nat_digits n = (if n < 10 then [digit n] else nat_digits (n div 10) @ [digit (n mod 10)])"

declare nat_digits.simps [simp del]

definition Itoa :: "int \<Rightarrow> string" where
  "Itoa i = (if i < 0 then ''-'' @ nat_digits (nat (- i)) else nat_digits (nat i))"

text \<open>\<open>strconv.Atoi\<close>: an optional sign and decimal digits, \<open>None\<close> for a syntax error or a value
  outside 64 bits.\<close>

definition is_digit :: "char \<Rightarrow> bool" where
  "is_digit c \<longleftrightarrow> 48 \<le> (of_char c :: nat) \<and> (of_char c :: nat) \<le> 57"

definition digits_value :: "string \<Rightarrow> nat" where
  "digits_value ds = foldl (\<lambda>v c. v * 10 + (of_char c - 48)) 0 ds"

definition Atoi :: "string \<Rightarrow> int option" where
  "Atoi t =
     (let neg = (t \<noteq> [] \<and> hd t = CHR ''-'');
          ds = (if t \<noteq> [] \<and> (hd t = CHR ''-'' \<or> hd t = CHR ''+'') then tl t else t);
          v = (if neg then - int (digits_value ds) else int (digits_value ds))
      in if ds = [] \<or> \<not> list_all is_digit ds \<or> \<not> is_int64 v then None else Some v)"

text \<open>PostgreSQL's \<open>CHAR(3)\<close>: shorter values are padded with spaces, longer ones are refused unless
  the rest is spaces.\<close>

definition pg_char3 :: "string \<Rightarrow> string option" where
  "pg_char3 t = (if list_all (\<lambda>c. c = CHR '' '') (drop 3 t)
                 then Some (take 3 t @ replicate (3 - length t) (CHR '' '')) else None)"

section \<open>Tables\<close>

text \<open>A table is the list of its rows in insertion order. \<open>row_by key k rows\<close> is the row a
  query on a unique column returns; \<open>update_where\<close> is \<open>UPDATE ... WHERE\<close>.\<close>

definition row_by :: "('r \<Rightarrow> 'k) \<Rightarrow> 'k \<Rightarrow> 'r list \<Rightarrow> 'r option" where
  "row_by key k rows = find (\<lambda>r. key r = k) rows"

definition update_where :: "('r \<Rightarrow> bool) \<Rightarrow> ('r \<Rightarrow> 'r) \<Rightarrow> 'r list \<Rightarrow> 'r list" where
  "update_where P f rows = map (\<lambda>r. if P r then f r else r) rows"

definition delete_where :: "('r \<Rightarrow> bool) \<Rightarrow> 'r list \<Rightarrow> 'r list" where
  "delete_where P rows = filter (\<lambda>r. \<not> P r) rows"

section \<open>Lemmas: integers\<close>

lemma wrap64_id [simp]: "is_int64 x \<Longrightarrow> wrap64 x = x"
  by (simp add: is_int64_def wrap64_def)

lemma is_int64_wrap64 [simp]: "is_int64 (wrap64 x)"
  using pos_mod_bound [of "2 ^ 64 :: int" "x + 2 ^ 63"] pos_mod_sign [of "2 ^ 64 :: int" "x + 2 ^ 63"]
  by (simp add: is_int64_def wrap64_def)

lemma wrap64_mod: "wrap64 x mod 2 ^ 64 = x mod 2 ^ 64"
  by (simp add: wrap64_def mod_simps)

lemma add64_id: "is_int64 (a + b) \<Longrightarrow> add64 a b = a + b"
  by (simp add: add64_def)

lemma sub64_id: "is_int64 (a - b) \<Longrightarrow> sub64 a b = a - b"
  by (simp add: sub64_def)

lemma mul64_id: "is_int64 (a * b) \<Longrightarrow> mul64 a b = a * b"
  by (simp add: mul64_def)

lemma sdiv_nonneg: "0 \<le> a \<Longrightarrow> 0 < b \<Longrightarrow> a sdiv b = a div (b :: int)"
  by (simp add: signed_divide_int_def sgn_if)

lemma is_int64I: "- (2 ^ 63) \<le> x \<Longrightarrow> x < 2 ^ 63 \<Longrightarrow> is_int64 x"
  by (simp add: is_int64_def)

section \<open>Lemmas: strings\<close>

lemma TrimSpace_Nil [simp]: "TrimSpace [] = []"
  by (simp add: TrimSpace_def)

lemma ToUpper_Nil [simp]: "ToUpper [] = []"
  by (simp add: ToUpper_def)

lemma length_ToUpper [simp]: "length (ToUpper s) = length s"
  by (simp add: ToUpper_def)

lemma upper_char_idem [simp]: "upper_char (upper_char c) = upper_char c"
  by (auto simp: upper_char_def Let_def)

lemma ToUpper_idem [simp]: "ToUpper (ToUpper s) = ToUpper s"
  by (simp add: ToUpper_def comp_def)

lemma dropWhile_id: "(\<And>x. x \<in> set xs \<Longrightarrow> \<not> P x) \<Longrightarrow> dropWhile P xs = xs"
  by (cases xs) auto

lemma TrimSpace_id: "(\<And>c. c \<in> set s \<Longrightarrow> \<not> is_space c) \<Longrightarrow> TrimSpace s = s"
  using dropWhile_id [of s is_space] dropWhile_id [of "rev s" is_space] by (simp add: TrimSpace_def)

lemma has_prefix_append [simp]: "has_prefix p (p @ s)"
  by (induction p) auto

lemma of_char_digit: "n < 10 \<Longrightarrow> (of_char (digit n) :: nat) = 48 + n"
  by (simp add: digit_def of_char_of)

lemma digits_value_snoc: "digits_value (ds @ [c]) = digits_value ds * 10 + (of_char c - 48)"
  by (simp add: digits_value_def)

lemma nat_digits_correct: "digits_value (nat_digits n) = n \<and> list_all is_digit (nat_digits n) \<and> nat_digits n \<noteq> []"
proof (induction n rule: nat_digits.induct)
  case (1 n)
  show ?case
  proof (cases "n < 10")
    case True
    then show ?thesis
      by (simp add: nat_digits.simps [of n] digits_value_def is_digit_def of_char_digit)
  next
    case False
    have "n mod 10 < 10" by simp
    with False 1 [OF False] show ?thesis
      by (simp add: nat_digits.simps [of n] digits_value_snoc of_char_digit is_digit_def)
  qed
qed

lemma Atoi_Itoa:
  assumes "0 \<le> i" and "is_int64 i"
  shows "Atoi (Itoa i) = Some i"
proof -
  let ?ds = "nat_digits (nat i)"
  have d: "digits_value ?ds = nat i" "list_all is_digit ?ds" "?ds \<noteq> []"
    using nat_digits_correct [of "nat i"] by auto
  then have "is_digit (hd ?ds)" by (cases ?ds) auto
  then have "hd ?ds \<noteq> CHR ''-'' \<and> hd ?ds \<noteq> CHR ''+''" by (auto simp: is_digit_def)
  then show ?thesis using d assms by (simp add: Atoi_def Itoa_def Let_def)
qed

lemma Itoa_no_char: "\<not> is_digit c \<Longrightarrow> c \<noteq> CHR ''-'' \<Longrightarrow> c \<notin> set (Itoa i)"
proof -
  assume c: "\<not> is_digit c" "c \<noteq> CHR ''-''"
  then have "c \<notin> set (nat_digits n)" for n using nat_digits_correct [of n] by (auto simp: list_all_iff)
  with c show ?thesis by (simp add: Itoa_def)
qed

lemma Itoa_eq_iff: "Itoa i = Itoa j \<longleftrightarrow> i = j"
proof
  assume e: "Itoa i = Itoa j"
  have "\<not> is_digit (CHR ''-'')" by (simp add: is_digit_def)
  then have h: "hd (nat_digits n) \<noteq> CHR ''-''" for n
    using nat_digits_correct [of n] by (cases "nat_digits n") auto
  have inj: "nat_digits m = nat_digits n \<Longrightarrow> m = n" for m n using nat_digits_correct by metis
  show "i = j"
  proof (cases "i < 0"; cases "j < 0")
    assume "i < 0" "j < 0"
    with e inj [of "nat (- i)" "nat (- j)"] show ?thesis by (simp add: Itoa_def)
  next
    assume "i < 0" "\<not> j < 0"
    with e h [of "nat j"] show ?thesis by (metis Itoa_def append_Cons list.sel(1))
  next
    assume "\<not> i < 0" "j < 0"
    with e h [of "nat i"] show ?thesis by (metis Itoa_def append_Cons list.sel(1))
  next
    assume "\<not> i < 0" "\<not> j < 0"
    with e inj [of "nat i" "nat j"] show ?thesis by (simp add: Itoa_def)
  qed
qed simp

lemma split_at_first: "c \<notin> set xs \<Longrightarrow> c \<notin> set ys \<Longrightarrow> xs @ c # a = ys @ c # b \<longleftrightarrow> xs = ys \<and> a = b"
proof (induction xs arbitrary: ys)
  case Nil
  then show ?case by (cases ys) auto
next
  case (Cons x xs)
  then show ?case by (cases ys) auto
qed

lemma Itoa_nonempty [simp]: "Itoa i \<noteq> []"
  using nat_digits_correct by (simp add: Itoa_def)

lemma Itoa_no_space: "0 \<le> i \<Longrightarrow> TrimSpace (Itoa i) = Itoa i"
proof (rule TrimSpace_id)
  fix c assume "0 \<le> i" "c \<in> set (Itoa i)"
  then have "is_digit c" using nat_digits_correct [of "nat i"] by (simp add: Itoa_def list_all_iff)
  then show "\<not> is_space c" by (auto simp: is_digit_def is_space_def)
qed

section \<open>Lemmas: tables\<close>

lemma row_by_Nil [sql_simps, simp]: "row_by key k [] = None"
  by (simp add: row_by_def)

lemma row_by_Cons [sql_simps, simp]:
  "row_by key k (r # rs) = (if key r = k then Some r else row_by key k rs)"
  by (simp add: row_by_def)

lemma row_by_append [sql_simps]:
  "row_by key k (xs @ ys) = (case row_by key k xs of None \<Rightarrow> row_by key k ys | Some r \<Rightarrow> Some r)"
  by (induction xs) auto

lemma row_by_SomeD: "row_by key k rows = Some r \<Longrightarrow> r \<in> set rows \<and> key r = k"
  by (induction rows) (auto split: if_splits)

lemma row_by_None_iff: "row_by key k rows = None \<longleftrightarrow> k \<notin> key ` set rows"
  by (induction rows) auto

lemma row_by_SomeI: "distinct (map key rows) \<Longrightarrow> r \<in> set rows \<Longrightarrow> row_by key (key r) rows = Some r"
  by (induction rows) (auto simp: image_iff)

lemma row_unique: "distinct (map key rows) \<Longrightarrow> r \<in> set rows \<Longrightarrow> q \<in> set rows \<Longrightarrow> key r = key q \<Longrightarrow> r = q"
  by (metis option.inject row_by_SomeI)

lemma filter_unique_key:
  "distinct (map key rows) \<Longrightarrow> filter (\<lambda>r. key r = k) rows = (case row_by key k rows of None \<Rightarrow> [] | Some r \<Rightarrow> [r])"
proof (induction rows)
  case (Cons r rs)
  show ?case
  proof (cases "key r = k")
    case True
    then have "k \<notin> key ` set rs" using Cons.prems by auto
    then have "filter (\<lambda>r. key r = k) rs = []" by (auto simp: filter_empty_conv)
    with True show ?thesis by simp
  qed (use Cons in auto)
qed simp

lemma update_where_Nil [sql_simps, simp]: "update_where P f [] = []"
  by (simp add: update_where_def)

lemma update_where_Cons [sql_simps, simp]:
  "update_where P f (r # rs) = (if P r then f r else r) # update_where P f rs"
  by (simp add: update_where_def)

lemma map_update_where:
  "(\<And>r. P r \<Longrightarrow> key (f r) = key r) \<Longrightarrow> map key (update_where P f rows) = map key rows"
  by (simp add: update_where_def)

lemma set_update_where:
  "set (update_where P f rows) = {r \<in> set rows. \<not> P r} \<union> f ` {r \<in> set rows. P r}"
  by (auto simp: update_where_def)

lemma row_by_update_where:
  assumes "\<And>r. P r \<Longrightarrow> key (f r) = key r"
  shows "row_by key k (update_where P f rows) =
    map_option (\<lambda>r. if P r then f r else r) (row_by key k rows)"
  using assms by (induction rows) auto

text \<open>Updating the row a key selects, on a table whose key is unique.\<close>

lemma row_by_update_key:
  "(\<And>r. key (f r) = key r) \<Longrightarrow>
   row_by key k (update_where (\<lambda>r. key r = k') f rows) =
     (if k = k' then map_option f (row_by key k rows) else row_by key k rows)"
  by (induction rows) auto

lemma update_where_none: "(\<And>r. r \<in> set rows \<Longrightarrow> \<not> P r) \<Longrightarrow> update_where P f rows = rows"
  by (induction rows) auto

lemma delete_where_Nil [sql_simps, simp]: "delete_where P [] = []"
  by (simp add: delete_where_def)

lemma delete_where_Cons [sql_simps, simp]:
  "delete_where P (r # rs) = (if P r then delete_where P rs else r # delete_where P rs)"
  by (simp add: delete_where_def)

lemma sum_list_update_where:
  fixes g :: "'r \<Rightarrow> int"
  assumes "distinct (map key rows)" and "row_by key k rows = Some r" and "P r"
    and "\<And>x. P x \<Longrightarrow> key x = k"
  shows "sum_list (map g (update_where P f rows)) = sum_list (map g rows) - g r + g (f r)"
  using assms
proof (induction rows)
  case Nil
  then show ?case by simp
next
  case (Cons x xs)
  show ?case
  proof (cases "key x = k")
    case True
    with Cons.prems have "x = r" by simp
    moreover have "update_where P f xs = xs"
      using Cons.prems(1,4) True by (intro update_where_none) (auto simp: image_iff)
    ultimately show ?thesis using Cons.prems(3) by simp
  next
    case False
    with Cons show ?thesis by auto
  qed
qed

end
