(* ===== verification/Domain_Error.thy ===== *)
theory Domain_Error
  imports Prelude
begin

text \<open>
  Error values and the package \<open>pkg/shared/domainerr\<close>.
  \<^item> \<open>goerror\<close>: the dynamic types of \<open>error\<close> that occur in the services: the domain error of the
    package with its wrapped cause, the database driver's error with its SQLSTATE, the sentinel
    values \<open>pgx.ErrNoRows\<close> and \<open>redis.Nil\<close>, a context error, a gRPC status with its details, the
    bank adapter's \<open>transientError\<close>, and a plain error with an optional cause (\<open>errors.New\<close>,
    \<open>fmt.Errorf("...: %w", err)\<close>).
  \<^item> \<open>errors.As\<close> and \<open>errors.Is\<close> as searches along the chain of causes.
  \<^item> \<open>ToGRPC\<close> and \<open>FromGRPC\<close>, the encoding of a domain error as a gRPC status and back, with the
    lemmas on what the encoding keeps.
\<close>

datatype grpc_code =
    codes_OK | codes_Canceled | codes_Unknown | codes_InvalidArgument | codes_DeadlineExceeded
  | codes_NotFound | codes_AlreadyExists | codes_PermissionDenied | codes_ResourceExhausted
  | codes_FailedPrecondition | codes_Aborted | codes_OutOfRange | codes_Unimplemented
  | codes_Internal | codes_Unavailable | codes_DataLoss | codes_Unauthenticated

record error_info =
  ei_Reason :: string
  ei_Domain :: string

datatype goerror =
    DomainError string string "goerror option"
  | PgError string string
  | ErrNoRows
  | RedisNil
  | CtxError string
  | StatusError grpc_code string "error_info list"
  | TransientError string
  | OtherError string "goerror option"

type_synonym 'a res = "goerror + 'a"

abbreviation DomainPlatform :: string where "DomainPlatform \<equiv> ''vrp.platform''"
abbreviation CodeValidation :: string where "CodeValidation \<equiv> ''VALIDATION_ERROR''"
abbreviation CodeNotFound :: string where "CodeNotFound \<equiv> ''NOT_FOUND''"
abbreviation CodeAlreadyExists :: string where "CodeAlreadyExists \<equiv> ''ALREADY_EXISTS''"
abbreviation CodeConsentLimitExceeded :: string where
  "CodeConsentLimitExceeded \<equiv> ''CONSENT_LIMIT_EXCEEDED''"
abbreviation CodeConsentExpired :: string where "CodeConsentExpired \<equiv> ''CONSENT_EXPIRED''"
abbreviation CodeConsentRevoked :: string where "CodeConsentRevoked \<equiv> ''CONSENT_REVOKED''"
abbreviation CodeConsentInactive :: string where "CodeConsentInactive \<equiv> ''CONSENT_INACTIVE''"
abbreviation CodeRiskDeclined :: string where "CodeRiskDeclined \<equiv> ''RISK_DECLINED''"
abbreviation CodeBankRejected :: string where "CodeBankRejected \<equiv> ''BANK_REJECTED''"
abbreviation CodeBankUnavailable :: string where "CodeBankUnavailable \<equiv> ''BANK_UNAVAILABLE''"
abbreviation CodeMerchantSuspended :: string where "CodeMerchantSuspended \<equiv> ''MERCHANT_SUSPENDED''"
abbreviation CodeDuplicateIdempotency :: string where
  "CodeDuplicateIdempotency \<equiv> ''DUPLICATE_IDEMPOTENCY_KEY''"
abbreviation CodeConflict :: string where "CodeConflict \<equiv> ''CONFLICT''"
abbreviation CodeInternal :: string where "CodeInternal \<equiv> ''INTERNAL_ERROR''"

section \<open>The text of an error and searches along its causes\<close>

fun code_name :: "grpc_code \<Rightarrow> string" where
  "code_name codes_OK = ''OK''"
| "code_name codes_Canceled = ''Canceled''"
| "code_name codes_Unknown = ''Unknown''"
| "code_name codes_InvalidArgument = ''InvalidArgument''"
| "code_name codes_DeadlineExceeded = ''DeadlineExceeded''"
| "code_name codes_NotFound = ''NotFound''"
| "code_name codes_AlreadyExists = ''AlreadyExists''"
| "code_name codes_PermissionDenied = ''PermissionDenied''"
| "code_name codes_ResourceExhausted = ''ResourceExhausted''"
| "code_name codes_FailedPrecondition = ''FailedPrecondition''"
| "code_name codes_Aborted = ''Aborted''"
| "code_name codes_OutOfRange = ''OutOfRange''"
| "code_name codes_Unimplemented = ''Unimplemented''"
| "code_name codes_Internal = ''Internal''"
| "code_name codes_Unavailable = ''Unavailable''"
| "code_name codes_DataLoss = ''DataLoss''"
| "code_name codes_Unauthenticated = ''Unauthenticated''"

fun Error_text :: "goerror \<Rightarrow> string" where
  "Error_text (DomainError c m (Some e)) = c @ '': '' @ m @ '': '' @ Error_text e"
| "Error_text (DomainError c m None) = c @ '': '' @ m"
| "Error_text (PgError c t) = t"
| "Error_text ErrNoRows = ''no rows in result set''"
| "Error_text RedisNil = ''redis: nil''"
| "Error_text (CtxError t) = t"
| "Error_text (StatusError c m ds) = ''rpc error: code = '' @ code_name c @ '' desc = '' @ m"
| "Error_text (TransientError m) = m"
| "Error_text (OtherError m (Some e)) = m @ '': '' @ Error_text e"
| "Error_text (OtherError m None) = m"

text \<open>\<open>errors.As(err, &de)\<close> for \<open>*domainerr.Error\<close>, \<open>*pgconn.PgError\<close> and \<open>*transientError\<close>.\<close>

fun as_domain :: "goerror \<Rightarrow> (string \<times> string \<times> goerror option) option" where
  "as_domain (DomainError c m e) = Some (c, m, e)"
| "as_domain (OtherError m (Some e)) = as_domain e"
| "as_domain _ = None"

fun as_pg :: "goerror \<Rightarrow> string option" where
  "as_pg (PgError c t) = Some c"
| "as_pg (DomainError c m (Some e)) = as_pg e"
| "as_pg (OtherError m (Some e)) = as_pg e"
| "as_pg _ = None"

fun as_transient :: "goerror \<Rightarrow> string option" where
  "as_transient (TransientError t) = Some t"
| "as_transient (DomainError c m (Some e)) = as_transient e"
| "as_transient (OtherError m (Some e)) = as_transient e"
| "as_transient _ = None"

text \<open>\<open>errors.Is(err, pgx.ErrNoRows)\<close>.\<close>

fun is_no_rows :: "goerror \<Rightarrow> bool" where
  "is_no_rows ErrNoRows = True"
| "is_no_rows (DomainError c m (Some e)) = is_no_rows e"
| "is_no_rows (OtherError m (Some e)) = is_no_rows e"
| "is_no_rows _ = False"

text \<open>\<open>status.FromError\<close>: the status an error carries; a wrapped status keeps its code and details
  and takes the text of the whole error.\<close>

fun as_status :: "goerror \<Rightarrow> (grpc_code \<times> error_info list) option" where
  "as_status (StatusError c m ds) = Some (c, ds)"
| "as_status (DomainError c m (Some e)) = as_status e"
| "as_status (OtherError m (Some e)) = as_status e"
| "as_status _ = None"

definition status_FromError :: "goerror \<Rightarrow> (grpc_code \<times> string \<times> error_info list) option" where
  "status_FromError err =
     (case err of StatusError c m ds \<Rightarrow> Some (c, m, ds)
      | _ \<Rightarrow> map_option (\<lambda>(c, ds). (c, Error_text err, ds)) (as_status err))"

section \<open>The package domainerr\<close>

definition derr_New :: "string \<Rightarrow> string \<Rightarrow> goerror" where
  "derr_New code msg = DomainError code msg None"

definition derr_Wrap :: "string \<Rightarrow> string \<Rightarrow> goerror \<Rightarrow> goerror" where
  "derr_Wrap code msg err = DomainError code msg (Some err)"

definition derr_Is :: "goerror \<Rightarrow> string \<Rightarrow> bool" where
  "derr_Is err code = (case as_domain err of Some (c, _, _) \<Rightarrow> c = code | None \<Rightarrow> False)"

definition isKnownCode :: "string \<Rightarrow> bool" where
  "isKnownCode c \<longleftrightarrow> c \<in> {CodeValidation, CodeNotFound, CodeAlreadyExists, CodeConsentLimitExceeded,
     CodeConsentExpired, CodeConsentRevoked, CodeConsentInactive, CodeRiskDeclined,
     CodeBankRejected, CodeBankUnavailable, CodeMerchantSuspended,
     CodeDuplicateIdempotency, CodeConflict, CodeInternal}"

text \<open>\<open>Status.WithDetails\<close> refuses a status whose code is \<open>OK\<close>.\<close>

definition status_WithDetails :: "grpc_code \<Rightarrow> string \<Rightarrow> error_info \<Rightarrow> goerror option" where
  "status_WithDetails c msg d = (if c = codes_OK then None else Some (StatusError c msg [d]))"

definition makeFailedPrecondition :: "string \<Rightarrow> string \<Rightarrow> goerror" where
  "makeFailedPrecondition code msg =
     (case status_WithDetails codes_FailedPrecondition msg
             \<lparr>ei_Reason = code, ei_Domain = DomainPlatform\<rparr> of
        Some st \<Rightarrow> st
      | None \<Rightarrow> StatusError codes_FailedPrecondition (code @ '': '' @ msg) [])"

definition is_precondition_code :: "string \<Rightarrow> bool" where
  "is_precondition_code c \<longleftrightarrow> c \<in> {CodeConsentLimitExceeded, CodeConsentExpired, CodeConsentRevoked,
     CodeConsentInactive, CodeRiskDeclined, CodeBankRejected, CodeMerchantSuspended, CodeConflict}"

text \<open>\<open>ToGRPC\<close> on an error that is not nil (nil stays nil).\<close>

definition ToGRPC :: "goerror \<Rightarrow> goerror" where
  "ToGRPC err =
     (case as_domain err of
        None \<Rightarrow> StatusError codes_Internal (Error_text err) []
      | Some (code, msg, _) \<Rightarrow>
          if code = CodeValidation then StatusError codes_InvalidArgument msg []
          else if code = CodeNotFound then StatusError codes_NotFound msg []
          else if code = CodeAlreadyExists \<or> code = CodeDuplicateIdempotency
            then StatusError codes_AlreadyExists msg []
          else if is_precondition_code code then makeFailedPrecondition code msg
          else if code = CodeBankUnavailable then StatusError codes_Unavailable msg []
          else StatusError codes_Internal msg [])"

definition platform_detail :: "error_info list \<Rightarrow> error_info option" where
  "platform_detail ds = find (\<lambda>d. ei_Domain d = DomainPlatform) ds"

definition legacy_prefix :: "string \<Rightarrow> (string \<times> string) option" where
  "legacy_prefix msg =
     (case str_Index '': '' msg of
        Some i \<Rightarrow> if isKnownCode (take i msg) then Some (take i msg, drop (i + 2) msg) else None
      | None \<Rightarrow> None)"

fun standard_code :: "grpc_code \<Rightarrow> string" where
  "standard_code codes_InvalidArgument = CodeValidation"
| "standard_code codes_NotFound = CodeNotFound"
| "standard_code codes_AlreadyExists = CodeAlreadyExists"
| "standard_code codes_Unavailable = CodeBankUnavailable"
| "standard_code _ = CodeInternal"

definition FromGRPC :: "goerror \<Rightarrow> goerror" where
  "FromGRPC err =
     (case as_domain err of
        Some (c, m, e) \<Rightarrow> DomainError c m e
      | None \<Rightarrow>
          (case status_FromError err of
             None \<Rightarrow> derr_New CodeInternal (Error_text err)
           | Some (c, msg, ds) \<Rightarrow>
               (case platform_detail ds of
                  Some d \<Rightarrow> derr_New (ei_Reason d) msg
                | None \<Rightarrow>
                    (case legacy_prefix msg of
                       Some (code, rest) \<Rightarrow> derr_New code rest
                     | None \<Rightarrow> derr_New (standard_code c) msg))))"

definition CodeOf :: "goerror option \<Rightarrow> string" where
  "CodeOf err =
     (case err of
        None \<Rightarrow> CodeInternal
      | Some e \<Rightarrow>
          (case as_domain e of
             Some (c, _, _) \<Rightarrow> c
           | None \<Rightarrow> (case FromGRPC e of DomainError c _ _ \<Rightarrow> c | _ \<Rightarrow> CodeInternal)))"

definition MessageOf :: "goerror option \<Rightarrow> string" where
  "MessageOf err =
     (case err of
        None \<Rightarrow> []
      | Some e \<Rightarrow>
          (case as_domain e of
             Some (_, m, _) \<Rightarrow> m
           | None \<Rightarrow> (case FromGRPC e of DomainError _ m _ \<Rightarrow> m | _ \<Rightarrow> Error_text e)))"

section \<open>Lemmas\<close>

lemma as_domain_New [simp]: "as_domain (derr_New c m) = Some (c, m, None)"
  by (simp add: derr_New_def)

lemma as_domain_Wrap [simp]: "as_domain (derr_Wrap c m e) = Some (c, m, Some e)"
  by (simp add: derr_Wrap_def)

lemma derr_Is_New [simp]: "derr_Is (derr_New c m) code \<longleftrightarrow> c = code"
  by (simp add: derr_Is_def)

lemma derr_Is_Wrap [simp]: "derr_Is (derr_Wrap c m e) code \<longleftrightarrow> c = code"
  by (simp add: derr_Is_def)

lemma as_pg_New [simp]: "as_pg (derr_New c m) = None"
  by (simp add: derr_New_def)

lemma as_pg_Wrap [simp]: "as_pg (derr_Wrap c m e) = as_pg e"
  by (simp add: derr_Wrap_def)

lemma is_no_rows_New [simp]: "\<not> is_no_rows (derr_New c m)"
  by (simp add: derr_New_def)

lemma FromGRPC_domain: "\<exists>c m e. FromGRPC err = DomainError c m e"
  by (auto simp: FromGRPC_def derr_New_def split: option.splits)

lemma ToGRPC_status: "\<exists>c m ds. ToGRPC err = StatusError c m ds"
  by (auto simp: ToGRPC_def makeFailedPrecondition_def status_WithDetails_def split: option.splits)

text \<open>A status error of the platform decodes by its detail, by a known prefix or by its code.\<close>

lemma FromGRPC_status:
  "FromGRPC (StatusError c msg ds) =
     (case platform_detail ds of
        Some d \<Rightarrow> derr_New (ei_Reason d) msg
      | None \<Rightarrow> (case legacy_prefix msg of
                   Some (code, rest) \<Rightarrow> derr_New code rest
                 | None \<Rightarrow> derr_New (standard_code c) msg))"
  by (simp add: FromGRPC_def status_FromError_def)

lemma platform_detail_Nil [simp]: "platform_detail [] = None"
  by (simp add: platform_detail_def)

lemma ToGRPC_precondition:
  assumes "as_domain err = Some (code, msg, e)" and "is_precondition_code code"
  shows "ToGRPC err =
    StatusError codes_FailedPrecondition msg [\<lparr>ei_Reason = code, ei_Domain = DomainPlatform\<rparr>]"
  using assms
  by (auto simp: ToGRPC_def is_precondition_code_def makeFailedPrecondition_def status_WithDetails_def)

lemma CodeOf_FromGRPC:
  "as_domain e = None \<Longrightarrow> CodeOf (Some e) = (case FromGRPC e of DomainError c _ _ \<Rightarrow> c | _ \<Rightarrow> CodeInternal)"
  by (simp add: CodeOf_def)

text \<open>What the encoding keeps of a code: the precondition codes and the codes with a gRPC code of
  their own survive, the duplicate key becomes ALREADY_EXISTS and every other code INTERNAL_ERROR.\<close>

definition wire_code :: "string \<Rightarrow> string" where
  "wire_code c =
     (if is_precondition_code c \<or> c \<in> {CodeValidation, CodeNotFound, CodeAlreadyExists, CodeBankUnavailable}
      then c else if c = CodeDuplicateIdempotency then CodeAlreadyExists else CodeInternal)"

lemma ToGRPC_plain:
  assumes "as_domain err = Some (code, msg, e)" and "\<not> is_precondition_code code"
  shows "\<exists>c. ToGRPC err = StatusError c msg [] \<and> standard_code c = wire_code code"
proof -
  have "wire_code code = standard_code
    (if code = CodeValidation then codes_InvalidArgument
     else if code = CodeNotFound then codes_NotFound
     else if code = CodeAlreadyExists \<or> code = CodeDuplicateIdempotency then codes_AlreadyExists
     else if code = CodeBankUnavailable then codes_Unavailable else codes_Internal)"
    using assms(2) by (simp add: wire_code_def)
  with assms show ?thesis by (simp add: ToGRPC_def)
qed

text \<open>A domain error survives the wire: decoding the gRPC status an error is encoded as gives the same message and
  the code that the wire keeps, provided the code travels as a detail or the message does not itself begin with a
  known code.\<close>

theorem wire_roundtrip:
  assumes "as_domain err = Some (code, msg, e)"
    and "is_precondition_code code \<or> legacy_prefix msg = None"
  shows "FromGRPC (ToGRPC err) = DomainError (wire_code code) msg None"
proof (cases "is_precondition_code code")
  case True
  with assms(1) show ?thesis
    by (simp add: ToGRPC_precondition FromGRPC_status platform_detail_def derr_New_def wire_code_def)
next
  case False
  with assms obtain c where "ToGRPC err = StatusError c msg []" and "standard_code c = wire_code code"
    using ToGRPC_plain by blast
  with False assms(2) show ?thesis
    by (simp add: FromGRPC_status derr_New_def)
qed

theorem wire_roundtrip_witness:
  "FromGRPC (ToGRPC (derr_New CodeConsentRevoked ''consent revoked'')) = DomainError CodeConsentRevoked ''consent revoked'' None"
  using wire_roundtrip [of "derr_New CodeConsentRevoked ''consent revoked''" CodeConsentRevoked "''consent revoked''" None]
  by (simp add: is_precondition_code_def wire_code_def)

end
