(* ===== verification/Infra.thy ===== *)
theory Infra
  imports Domain_Error "HOL-Library.Word"
begin

text \<open>
  The environment of a service process: its clock, its source of random UUIDs, and the database
  or cache it talks to, whose calls may fail.
  \<^item> \<open>env\<close> is the base record every service state extends with its own tables. \<open>script\<close> is the
    fault script: each call of the database takes one entry, \<open>None\<close> lets the call through and
    \<open>Some e\<close> makes it fail with \<open>e\<close> and no effect; past its end no call fails. A theorem that
    quantifies over the state quantifies over every finite pattern of failures.
  \<^item> \<open>uuid_codec\<close> stands for the text form of UUIDs (\<open>github.com/google/uuid\<close> and PostgreSQL's
    own reader), which is not part of the repository: \<open>codec_ok\<close> is what the services rely on.
  \<^item> \<open>pool_call\<close> is a statement outside a transaction, \<open>tx_call\<close> one inside: PostgreSQL aborts
    the transaction when a statement fails, and every later statement of it fails with SQLSTATE
    25P02. \<open>BeginTxFunc\<close> is \<open>pgx.BeginFunc\<close>/\<open>BeginTxFunc\<close>: it rolls back when the function returns an
    error, when the transaction is aborted at commit, when a deferred constraint fails or when
    the commit itself fails.
  The clock stands still during one operation.
\<close>

type_synonym uuid = "128 word"

abbreviation uuid_Nil :: uuid where "uuid_Nil \<equiv> 0"

record uuid_codec =
  uc_Parse :: "string \<Rightarrow> uuid option"
  uc_String :: "uuid \<Rightarrow> string"
  uc_pg :: "string \<Rightarrow> uuid option"

record env =
  now :: int
  script :: "goerror option list"
  aborted :: bool
  uuid_src :: "nat \<Rightarrow> uuid"
  n_uuid :: nat
  codec :: uuid_codec

definition codec_ok :: "uuid_codec \<Rightarrow> bool" where
  "codec_ok c \<longleftrightarrow> (\<forall>u. uc_Parse c (uc_String c u) = Some u \<and> uc_pg c (uc_String c u) = Some u \<and> uc_String c u \<noteq> [])"

text \<open>An instance of the codec for concrete inputs: a UUID in unary.\<close>

definition unary_codec :: uuid_codec where
  "unary_codec =
     \<lparr>uc_Parse = (\<lambda>t. if t = [] then None else Some (word_of_nat (length t - 1))),
      uc_String = (\<lambda>u. replicate (Suc (unat u)) (CHR ''i'')),
      uc_pg = (\<lambda>t. if t = [] then None else Some (word_of_nat (length t - 1)))\<rparr>"

definition fresh_uuid :: "'z env_scheme \<Rightarrow> uuid \<times> 'z env_scheme" where
  "fresh_uuid s = (uuid_src s (n_uuid s), s\<lparr>n_uuid := Suc (n_uuid s)\<rparr>)"

definition pg_unique_violation :: goerror where
  "pg_unique_violation = PgError ''23505'' ''duplicate key value violates unique constraint''"

definition pg_aborted :: goerror where
  "pg_aborted = PgError ''25P02'' ''current transaction is aborted''"

definition pg_bad_uuid :: goerror where
  "pg_bad_uuid = PgError ''22P02'' ''invalid input syntax for type uuid''"

definition pg_out_of_range :: goerror where
  "pg_out_of_range = OtherError ''value out of range for int64'' None"

definition ErrTxCommitRollback :: goerror where
  "ErrTxCommitRollback = OtherError ''commit unexpectedly resulted in rollback'' None"

definition pool_call :: "('z env_scheme \<Rightarrow> 'a res \<times> 'z env_scheme) \<Rightarrow> 'z env_scheme \<Rightarrow> 'a res \<times> 'z env_scheme" where
  "pool_call f s =
     (case script s of
        [] \<Rightarrow> f s
      | None # xs \<Rightarrow> f (s\<lparr>script := xs\<rparr>)
      | Some e # xs \<Rightarrow> (Inl e, s\<lparr>script := xs\<rparr>))"

definition tx_call :: "('z env_scheme \<Rightarrow> 'a res \<times> 'z env_scheme) \<Rightarrow> 'z env_scheme \<Rightarrow> 'a res \<times> 'z env_scheme" where
  "tx_call f s =
     (if aborted s then (Inl pg_aborted, s)
      else case pool_call f s of
             (Inl e, s1) \<Rightarrow> (Inl e, if e = ErrNoRows then s1 else s1\<lparr>aborted := True\<rparr>)
           | (Inr x, s1) \<Rightarrow> (Inr x, s1))"

text \<open>A statement with a UUID parameter given as text.\<close>

definition with_uuid :: "string \<Rightarrow> (uuid \<Rightarrow> 'z env_scheme \<Rightarrow> 'a res \<times> 'z env_scheme) \<Rightarrow> 'z env_scheme \<Rightarrow> 'a res \<times> 'z env_scheme" where
  "with_uuid t f s = (case uc_pg (codec s) t of None \<Rightarrow> (Inl pg_bad_uuid, s) | Some u \<Rightarrow> f u s)"

text \<open>Rolling back restores the tables, not the script or the random source.\<close>

definition rollback_to :: "'z env_scheme \<Rightarrow> 'z env_scheme \<Rightarrow> 'z env_scheme" where
  "rollback_to s0 s1 = s0\<lparr>script := script s1, n_uuid := n_uuid s1, aborted := False\<rparr>"

definition commit_tx :: "('z env_scheme \<Rightarrow> 'z env_scheme \<Rightarrow> goerror option) \<Rightarrow> 'z env_scheme \<Rightarrow>
    'a \<Rightarrow> 'z env_scheme \<Rightarrow> 'a res \<times> 'z env_scheme" where
  "commit_tx chk s0 x s =
     (if aborted s then (Inl ErrTxCommitRollback, rollback_to s0 s)
      else case pool_call (\<lambda>s. (case chk s0 s of Some e \<Rightarrow> Inl e | None \<Rightarrow> Inr x, s)) s of
             (Inl e, s1) \<Rightarrow> (Inl e, rollback_to s0 s1)
           | (Inr y, s1) \<Rightarrow> (Inr y, s1))"

definition BeginTxFunc :: "('z env_scheme \<Rightarrow> 'z env_scheme \<Rightarrow> goerror option) \<Rightarrow>
    ('z env_scheme \<Rightarrow> 'a res \<times> 'z env_scheme) \<Rightarrow> 'z env_scheme \<Rightarrow> 'a res \<times> 'z env_scheme" where
  "BeginTxFunc chk fn s =
     (case pool_call (\<lambda>s. (Inr (), s)) s of
        (Inl e, s0) \<Rightarrow> (Inl e, s0)
      | (Inr _, s0) \<Rightarrow>
          (case fn (s0\<lparr>aborted := False\<rparr>) of
             (Inl e, s1) \<Rightarrow> (Inl e, rollback_to s0 s1)
           | (Inr x, s1) \<Rightarrow> commit_tx chk s0 x s1))"

abbreviation no_deferred :: "'z env_scheme \<Rightarrow> 'z env_scheme \<Rightarrow> goerror option" where
  "no_deferred \<equiv> \<lambda>_ _. None"

text \<open>Two states that differ in the environment's bookkeeping only.\<close>

definition env_only :: "'z env_scheme \<Rightarrow> 'z env_scheme \<Rightarrow> bool" where
  "env_only s s' \<longleftrightarrow>
     s'\<lparr>script := [], n_uuid := 0, aborted := False\<rparr> = s\<lparr>script := [], n_uuid := 0, aborted := False\<rparr>"

text \<open>A handler returns its service's error as a gRPC status.\<close>

definition rpc_result :: "'a res \<times> 's \<Rightarrow> 'a res \<times> 's" where
  "rpc_result = (\<lambda>(r, s). (case r of Inl err \<Rightarrow> Inl (ToGRPC err) | Inr x \<Rightarrow> Inr x, s))"

section \<open>Lemmas\<close>

lemma rpc_result_snd [simp]: "snd (rpc_result p) = snd p"
  by (simp add: rpc_result_def split: prod.splits)

lemma codec_ok_unary: "codec_ok unary_codec"
  by (simp add: codec_ok_def unary_codec_def)

lemma env_onlyE [elim?]:
  assumes "env_only s s'"
  obtains x n b where "s' = s\<lparr>script := x, n_uuid := n, aborted := b\<rparr>"
proof -
  have "s' = s\<lparr>script := script s', n_uuid := n_uuid s', aborted := aborted s'\<rparr>"
    using assms by (cases s; cases s') (simp add: env_only_def)
  then show thesis by (rule that)
qed

lemma env_only_refl [simp, intro]: "env_only s s"
  by (simp add: env_only_def)

lemma env_only_updates [simp]:
  "env_only s (s\<lparr>script := x\<rparr>)" "env_only s (s\<lparr>n_uuid := n\<rparr>)" "env_only s (s\<lparr>aborted := b\<rparr>)"
  "env_only s (s\<lparr>script := x, n_uuid := n\<rparr>)" "env_only s (s\<lparr>script := x, aborted := b\<rparr>)"
  "env_only s (s\<lparr>script := x, n_uuid := n, aborted := b\<rparr>)"
  by (simp_all add: env_only_def)

lemma env_only_trans: "env_only s t \<Longrightarrow> env_only t u \<Longrightarrow> env_only s u"
  by (simp add: env_only_def)

lemma env_only_aborted [simp]: "env_only s (t\<lparr>aborted := b\<rparr>) = env_only s t"
  by (simp add: env_only_def)

lemma env_only_now: "env_only s s' \<Longrightarrow> now s' = now s \<and> codec s' = codec s \<and> uuid_src s' = uuid_src s"
  by (auto elim: env_onlyE)

lemma env_only_rollback [simp]: "env_only s (rollback_to t u) = env_only s t"
  by (simp add: env_only_def rollback_to_def)

lemma pool_call_cases:
  assumes "pool_call f s = (r, s')"
  obtains (fault) e where "r = Inl e" "env_only s s'"
        | (run) s0 where "env_only s s0" "aborted s0 = aborted s" "f s0 = (r, s')"
proof (cases "script s")
  case Nil
  with assms show thesis by (intro run [of s]) (simp_all add: pool_call_def)
next
  case (Cons f0 xs)
  show thesis
  proof (cases f0)
    case None
    with Cons assms show thesis by (intro run [of "s\<lparr>script := xs\<rparr>"]) (simp_all add: pool_call_def)
  next
    case (Some e)
    with Cons assms show thesis by (intro fault [of e]) (auto simp: pool_call_def)
  qed
qed

lemma tx_call_cases:
  assumes "tx_call f s = (r, s')"
  obtains (fault) e where "r = Inl e" "env_only s s'" "e \<noteq> ErrNoRows \<Longrightarrow> aborted s'"
        | (failed) s0 e s1 where "env_only s s0" "\<not> aborted s0" "f s0 = (Inl e, s1)" "r = Inl e"
             "s' = (if e = ErrNoRows then s1 else s1\<lparr>aborted := True\<rparr>)"
        | (run) s0 x where "env_only s s0" "\<not> aborted s0" "r = Inr x" "f s0 = (Inr x, s')"
proof (cases "aborted s")
  case True
  with assms show thesis by (intro fault [of pg_aborted]) (auto simp: tx_call_def)
next
  case False
  obtain r1 s1 where pc: "pool_call f s = (r1, s1)" by fastforce
  from pc show thesis
  proof (cases rule: pool_call_cases)
    case (fault e)
    with False assms pc show thesis
      by (intro that(1) [of e]) (auto simp: tx_call_def intro: env_only_trans split: if_splits)
  next
    case (run s0)
    show thesis
    proof (cases r1)
      case (Inl e)
      with False assms pc run show thesis by (intro that(2) [of s0 e s1]) (simp_all add: tx_call_def)
    next
      case (Inr x)
      with False assms pc run show thesis by (intro that(3) [of s0 x]) (simp_all add: tx_call_def)
    qed
  qed
qed

lemma with_uuid_cases:
  assumes "with_uuid t f s = (r, s')"
  obtains "uc_pg (codec s) t = None" "r = Inl pg_bad_uuid" "s' = s"
        | u where "uc_pg (codec s) t = Some u" "f u s = (r, s')"
  using assms by (auto simp: with_uuid_def split: option.splits)

text \<open>A transaction either leaves the tables as they were and reports an error, or ends in the
  state its body reached, with the body's result and the deferred constraints satisfied.\<close>

lemma BeginTxFunc_cases:
  assumes "BeginTxFunc chk fn s = (r, s')"
  obtains (rolled_back) e where "r = Inl e" "env_only s s'"
        | (committed) s0 x s1 where "env_only s s0" "\<not> aborted s0" "fn s0 = (Inr x, s1)"
            "env_only s1 s'" "r = Inr x" "\<exists>t u. env_only s t \<and> env_only s1 u \<and> chk t u = None"
proof -
  obtain r0 s0 where b: "pool_call (\<lambda>s. (Inr (), s)) s = (r0, s0)" by fastforce
  have e0: "env_only s s0" using b by (cases rule: pool_call_cases) auto
  show thesis
  proof (cases r0)
    case (Inl e)
    with assms b e0 show thesis by (intro rolled_back [of e]) (simp_all add: BeginTxFunc_def)
  next
    case (Inr u0)
    obtain r1 s1 where f: "fn (s0\<lparr>aborted := False\<rparr>) = (r1, s1)" by fastforce
    show thesis
    proof (cases r1)
      case (Inl e)
      with assms b f Inr show thesis
        by (intro rolled_back [of e]) (auto simp: BeginTxFunc_def intro: env_only_trans [OF e0])
    next
      case r1: (Inr x)
      have c: "commit_tx chk s0 x s1 = (r, s')"
        using assms b f Inr r1 by (simp add: BeginTxFunc_def)
      obtain r2 s2 where p: "pool_call (\<lambda>s. (case chk s0 s of Some e \<Rightarrow> Inl e | None \<Rightarrow> Inr x, s)) s1 = (r2, s2)"
        by fastforce
      show thesis
      proof (cases "aborted s1 \<or> (\<exists>e. r2 = Inl e)")
        case True
        with c p e0 have "(\<exists>e. r = Inl e) \<and> env_only s s'"
          by (cases "aborted s1") (auto simp: commit_tx_def)
        then show thesis using rolled_back by blast
      next
        case False
        then obtain y where y: "r2 = Inr y" "\<not> aborted s1" by (cases r2) auto
        with p have k: "y = x \<and> env_only s1 s2 \<and> chk s0 s2 = None"
          by (cases rule: pool_call_cases) (auto split: option.splits)
        from c p y k have "r = Inr x \<and> s' = s2" by (simp add: commit_tx_def)
        with k f r1 e0 show thesis
          by (intro committed [of "s0\<lparr>aborted := False\<rparr>" x s1]) auto
      qed
    qed
  qed
qed

text \<open>An invariant of the tables is kept by a transaction when it ignores the environment's
  bookkeeping and the body keeps it.\<close>

definition env_blind :: "('z env_scheme \<Rightarrow> bool) \<Rightarrow> bool" where
  "env_blind P \<longleftrightarrow> (\<forall>s s'. env_only s s' \<longrightarrow> P s' = P s)"

lemma env_blindD: "env_blind P \<Longrightarrow> env_only s s' \<Longrightarrow> P s' = P s"
  by (auto simp: env_blind_def)

lemma pool_call_inv:
  assumes "env_blind P" and "\<And>s r s'. P s \<Longrightarrow> f s = (r, s') \<Longrightarrow> P s'"
    and "P s" and "pool_call f s = (r, s')"
  shows "P s'"
  using assms(4)
proof (cases rule: pool_call_cases)
  case (fault e)
  with assms(1,3) show ?thesis by (simp add: env_blindD)
next
  case (run s0)
  with assms show ?thesis by (metis env_blindD)
qed

lemma tx_call_inv:
  assumes "env_blind P" and "\<And>s r s'. P s \<Longrightarrow> f s = (r, s') \<Longrightarrow> P s'"
    and "P s" and "tx_call f s = (r, s')"
  shows "P s'"
  using assms(4)
proof (cases rule: tx_call_cases)
  case (fault e)
  with assms(1,3) show ?thesis by (simp add: env_blindD)
next
  case (failed s0 e s1)
  with assms(1-3) have "P s1" by (metis env_blindD)
  moreover have "env_only s1 s'" using failed by simp
  ultimately show ?thesis using assms(1) by (simp add: env_blindD)
next
  case (run s0 x)
  with assms(1-3) show ?thesis by (metis env_blindD)
qed

lemma BeginTxFunc_inv:
  assumes "env_blind P" and "\<And>s x s'. P s \<Longrightarrow> fn s = (Inr x, s') \<Longrightarrow> P s'"
    and "P s" and "BeginTxFunc chk fn s = (r, s')"
  shows "P s'"
  using assms(4)
proof (cases rule: BeginTxFunc_cases)
  case (rolled_back e)
  with assms(1,3) show ?thesis by (simp add: env_blindD)
next
  case (committed s0 x s1)
  with assms(1-3) show ?thesis by (metis env_blindD)
qed

text \<open>Without faults the calls are their bodies.\<close>

lemma pool_call_no_fault [simp]: "script s = [] \<Longrightarrow> pool_call f s = f s"
  by (simp add: pool_call_def)

lemma tx_call_no_fault:
  "script s = [] \<Longrightarrow> \<not> aborted s \<Longrightarrow> f s = (Inr x, s') \<Longrightarrow> tx_call f s = (Inr x, s')"
  by (simp add: tx_call_def)

lemma tx_call_no_rows:
  "script s = [] \<Longrightarrow> \<not> aborted s \<Longrightarrow> f s = (Inl ErrNoRows, s') \<Longrightarrow> tx_call f s = (Inl ErrNoRows, s')"
  by (simp add: tx_call_def)

text \<open>Statements that only read.\<close>

lemma read_pool:
  assumes "\<And>t. snd (f t) = t" and "pool_call f s = (r, s')"
  shows "env_only s s'"
  using assms(2)
proof (cases rule: pool_call_cases)
  case (run s0)
  then show ?thesis using assms(1) [of s0] by simp
qed

lemma read_tx:
  assumes "\<And>t. snd (f t) = t" and "tx_call f s = (r, s')"
  shows "env_only s s'"
  using assms(2)
proof (cases rule: tx_call_cases)
  case (failed s0 e s1)
  then show ?thesis using assms(1) [of s0] by auto
next
  case (run s0 x)
  then show ?thesis using assms(1) [of s0] by simp
qed

end
