(* ===== verification/Proto.thy ===== *)
theory Proto
  imports Infra
begin

text \<open>
  The gRPC messages and enumerations the services exchange (\<open>gen/*/v1/*.pb.go\<close>): a message is a
  record with the fields of the Go struct, a pointer to a message is an option, a timestamp is an
  \<open>int\<close> of nanoseconds. Enumerations that a client may send with a value outside the declared ones
  (proto3 enumerations are open) have a constructor for it.
\<close>

record pb_Money =
  mo_AmountPence :: int
  mo_Currency :: string

record PageRequest =
  pg_PageSize :: int
  pg_PageToken :: string

record PageResponse =
  pr_NextPageToken :: string
  pr_TotalCount :: int

section \<open>Ledger\<close>

datatype Direction = DIRECTION_UNSPECIFIED | Direction_DR | Direction_CR | Direction_other int

datatype AccountType = ACCOUNT_TYPE_UNSPECIFIED | CONSUMER_ESCROW | MERCHANT_ESCROW | PLATFORM_FEE
  | AccountType_other int

record JournalLine =
  jln_Id :: string
  jln_AccountType :: AccountType
  jln_OwnerRef :: string
  jln_Direction :: Direction
  jln_Amount :: "pb_Money option"

record JournalEntry =
  jen_Id :: string
  jen_PaymentId :: string
  jen_Description :: string
  jen_Lines :: "JournalLine list"
  jen_CreatedAt :: int

record PostEntryRequest =
  per_PaymentId :: string
  per_Description :: string
  per_Lines :: "JournalLine list"

record Ledger_ReverseRequest =
  lrr_PaymentId :: string
  lrr_Reason :: string

record BalanceRequest =
  bq_AccountType :: AccountType
  bq_OwnerRef :: string
  bq_Currency :: string

record BalanceResponse =
  br_Balance :: pb_Money
  br_AsOf :: int

record JournalEntryRequest =
  jer_PaymentId :: string

section \<open>Consent\<close>

datatype ConsentStatus = CONSENT_STATUS_UNSPECIFIED | Consent_PENDING | Consent_ACTIVE
  | Consent_REVOKED | Consent_EXPIRED | ConsentStatus_other int

record Consent =
  cn_Id :: string
  cn_MerchantId :: string
  cn_ConsumerId :: string
  cn_BankConsentRef :: string
  cn_Status :: ConsentStatus
  cn_MaxPerTransaction :: pb_Money
  cn_MaxPerMonth :: pb_Money
  cn_ValidFrom :: int
  cn_ValidUntil :: int
  cn_CreatedAt :: int
  cn_UpdatedAt :: int

record CreateConsentRequest =
  ccr_MerchantId :: string
  ccr_ConsumerId :: string
  ccr_BankConsentRef :: string
  ccr_MaxPerTransaction :: "pb_Money option"
  ccr_MaxPerMonth :: "pb_Money option"
  ccr_ValidUntil :: "int option"

record GetConsentRequest =
  gcr_ConsentId :: string
  gcr_MerchantId :: string

record RevokeConsentRequest =
  rcr_ConsentId :: string
  rcr_MerchantId :: string
  rcr_Reason :: string

record ListConsentsRequest =
  lcr_ConsumerId :: string
  lcr_MerchantId :: string
  lcr_Status :: ConsentStatus
  lcr_Page :: "PageRequest option"

record ListConsentsResponse =
  lcs_Consents :: "Consent list"
  lcs_Page :: PageResponse

record ReserveRequest =
  rrq_ConsentId :: string
  rrq_PaymentId :: string
  rrq_Amount :: "pb_Money option"

record ReserveResponse =
  rrs_ReservationId :: string
  rrs_RemainingMonthly :: pb_Money
  rrs_ConsumerId :: string
  rrs_BankConsentRef :: string

record ConfirmRequest =
  cfr_ReservationId :: string
  cfr_PaymentId :: string

record ReleaseRequest =
  rlr_ReservationId :: string
  rlr_Reason :: string

record UsageRequest =
  usr_ConsentId :: string

record UsageResponse =
  uss_UsedThisMonth :: pb_Money
  uss_RemainingThisMonth :: pb_Money
  uss_TxCountThisMonth :: int

section \<open>Risk\<close>

datatype RiskDecision = RISK_DECISION_UNSPECIFIED | Risk_ALLOW | Risk_REVIEW | Risk_DECLINE

record ScoreRequest =
  srq_MerchantId :: string
  srq_ConsumerId :: string
  srq_ConsentId :: string
  srq_PaymentId :: string
  srq_Amount :: "pb_Money option"
  srq_IpAddress :: string
  srq_UserAgent :: string

record ScoreResponse =
  srs_Score :: int
  srs_Decision :: RiskDecision
  srs_Reason :: string
  srs_RulesTriggered :: "string list"

record BlocklistRequest =
  blr_Type :: string
  blr_Value :: string
  blr_Reason :: string

record BlocklistEntry =
  ble_Id :: string
  ble_Type :: string
  ble_Value :: string
  ble_Reason :: string
  ble_CreatedAt :: int

section \<open>Bank\<close>

datatype BankPaymentStatus = BANK_PAYMENT_STATUS_UNSPECIFIED | Bank_PENDING | Bank_AUTHORISED
  | Bank_SETTLED | Bank_REJECTED | Bank_REVERSED

record InitiateRequest =
  irq_PaymentId :: string
  irq_BankConsentRef :: string
  irq_ConsumerId :: string
  irq_Amount :: "pb_Money option"
  irq_Description :: string

record InitiateResponse =
  irs_BankPaymentRef :: string
  irs_Status :: BankPaymentStatus
  irs_FailureReason :: string
  irs_InitiatedAt :: int

record StatusRequest =
  stq_BankPaymentRef :: string

record StatusResponse =
  sts_BankPaymentRef :: string
  sts_Status :: BankPaymentStatus
  sts_UpdatedAt :: int

record Bank_ReverseRequest =
  brr_BankPaymentRef :: string
  brr_Reason :: string

record Bank_ReverseResponse =
  brs_BankPaymentRef :: string
  brs_ReversalRef :: string
  brs_Status :: BankPaymentStatus

section \<open>Payment\<close>

datatype PaymentStatus = PAYMENT_STATUS_UNSPECIFIED | Pay_INITIATED | Pay_CONSENT_RESERVED
  | Pay_RISK_PASSED | Pay_AUTHORISING | Pay_SETTLED | Pay_FAILED | Pay_MANUAL_REVIEW

record pb_Payment =
  pp_Id :: string
  pp_IdempotencyKey :: string
  pp_MerchantId :: string
  pp_ConsentId :: string
  pp_ConsumerId :: string
  pp_Amount :: pb_Money
  pp_Status :: PaymentStatus
  pp_BankPaymentRef :: string
  pp_RiskScore :: int
  pp_RiskDecision :: string
  pp_FailureReason :: string
  pp_Description :: string
  pp_InitiatedAt :: int
  pp_SettledAt :: "int option"
  pp_UpdatedAt :: int

record InitiatePaymentRequest =
  ipr_IdempotencyKey :: string
  ipr_MerchantId :: string
  ipr_ConsentId :: string
  ipr_Amount :: "pb_Money option"
  ipr_Description :: string

record GetPaymentRequest =
  gpr_PaymentId :: string
  gpr_MerchantId :: string

record RetryPaymentRequest =
  rpr_PaymentId :: string
  rpr_MerchantId :: string

section \<open>Names of enumeration values\<close>

text \<open>\<open>RiskDecision.String()\<close> and \<open>PaymentStatus_value\<close>.\<close>

fun RiskDecision_String :: "RiskDecision \<Rightarrow> string" where
  "RiskDecision_String RISK_DECISION_UNSPECIFIED = ''RISK_DECISION_UNSPECIFIED''"
| "RiskDecision_String Risk_ALLOW = ''ALLOW''"
| "RiskDecision_String Risk_REVIEW = ''REVIEW''"
| "RiskDecision_String Risk_DECLINE = ''DECLINE''"

definition PaymentStatus_value :: "string \<Rightarrow> PaymentStatus option" where
  "PaymentStatus_value s = map_of
     [(''PAYMENT_STATUS_UNSPECIFIED'', PAYMENT_STATUS_UNSPECIFIED), (''INITIATED'', Pay_INITIATED),
      (''CONSENT_RESERVED'', Pay_CONSENT_RESERVED), (''RISK_PASSED'', Pay_RISK_PASSED),
      (''AUTHORISING'', Pay_AUTHORISING), (''SETTLED'', Pay_SETTLED), (''FAILED'', Pay_FAILED),
      (''MANUAL_REVIEW'', Pay_MANUAL_REVIEW)] s"

end
