(* ===== verification/Ledger.thy ===== *)
theory Ledger
  imports Proto
begin

text \<open>
  The ledger service: \<open>services/ledger-svc/internal/store.go\<close> and \<open>server.go\<close> over the tables of
  \<open>migrations/ledger\<close>.
  \<^item> \<open>ledger_db\<close> is the state: the tables \<open>account\<close>, \<open>journal_entry\<close> and \<open>journal_line\<close>.
  \<^item> One definition per SQL statement (with the constraints of the tables), per function of the
    store and per RPC of the server. \<open>withSerializable\<close> retries a transaction five times.
  \<^item> \<open>trg_journal_balance\<close> is the deferred constraint trigger of the migration; the commit of a
    transaction runs it on the lines the transaction inserted.
  The lemmas on the tables are in the theory \<open>Ledger_Props\<close>.
\<close>

record account_row =
  acc_id :: uuid
  acc_type :: string
  acc_owner :: string
  acc_currency :: string

record entry_row =
  je_id :: uuid
  je_payment :: string
  je_desc :: string
  je_reversed :: bool
  je_created :: int

record line_row =
  jl_id :: uuid
  jl_entry :: uuid
  jl_account :: uuid
  jl_dir :: string
  jl_amount :: int
  jl_created :: int

record ledger_db = env +
  accounts :: "account_row list"
  entries :: "entry_row list"
  jlines :: "line_row list"

record lineInput =
  li_accountType :: string
  li_ownerRef :: string
  li_direction :: string
  li_amountPence :: int
  li_currency :: string

type_synonym ('a) ledger_op = "ledger_db \<Rightarrow> 'a res \<times> ledger_db"

section \<open>SQL statements\<close>

definition account_key :: "account_row \<Rightarrow> string \<times> string \<times> string" where
  "account_key a = (acc_type a, acc_owner a, acc_currency a)"

definition select_entry :: "string \<Rightarrow> entry_row ledger_op" where
  "select_entry pid s =
     (case row_by je_payment pid (entries s) of None \<Rightarrow> (Inl ErrNoRows, s) | Some e \<Rightarrow> (Inr e, s))"

definition insert_entry :: "string \<Rightarrow> string \<Rightarrow> (uuid \<times> int) ledger_op" where
  "insert_entry pid desc s =
     (let (i, s1) = fresh_uuid s in
      if i \<in> je_id ` set (entries s1) \<or> pid \<in> je_payment ` set (entries s1)
      then (Inl pg_unique_violation, s1)
      else (Inr (i, now s1),
            s1\<lparr>entries := entries s1 @
               [\<lparr>je_id = i, je_payment = pid, je_desc = desc, je_reversed = False, je_created = now s1\<rparr>]\<rparr>))"

definition insert_line :: "uuid \<Rightarrow> uuid \<Rightarrow> string \<Rightarrow> int \<Rightarrow> uuid ledger_op" where
  "insert_line eid aid dir amt s =
     (let (i, s1) = fresh_uuid s in
      if i \<in> jl_id ` set (jlines s1) then (Inl pg_unique_violation, s1)
      else if eid \<notin> je_id ` set (entries s1) \<or> aid \<notin> acc_id ` set (accounts s1)
        then (Inl (PgError ''23503'' ''violates foreign key constraint''), s1)
      else if dir \<notin> {''DR'', ''CR''} \<or> amt \<le> 0
        then (Inl (PgError ''23514'' ''violates check constraint''), s1)
      else (Inr i,
            s1\<lparr>jlines := jlines s1 @
               [\<lparr>jl_id = i, jl_entry = eid, jl_account = aid, jl_dir = dir, jl_amount = amt,
                 jl_created = now s1\<rparr>]\<rparr>))"

text \<open>\<open>INSERT INTO account ... ON CONFLICT (type, owner_ref, currency) DO UPDATE ... RETURNING id\<close>.\<close>

definition upsert_account :: "string \<Rightarrow> string \<Rightarrow> string \<Rightarrow> uuid ledger_op" where
  "upsert_account typ owner cur s =
     (case row_by account_key (typ, owner, cur) (accounts s) of
        Some a \<Rightarrow> (Inr (acc_id a), s)
      | None \<Rightarrow>
          (let (i, s1) = fresh_uuid s in
           if i \<in> acc_id ` set (accounts s1) then (Inl pg_unique_violation, s1)
           else (Inr i, s1\<lparr>accounts := accounts s1 @
                   [\<lparr>acc_id = i, acc_type = typ, acc_owner = owner, acc_currency = cur\<rparr>]\<rparr>)))"

definition set_reversed :: "uuid \<Rightarrow> unit ledger_op" where
  "set_reversed eid s =
     (Inr (), s\<lparr>entries := update_where (\<lambda>e. je_id e = eid) (\<lambda>e. e\<lparr>je_reversed := True\<rparr>) (entries s)\<rparr>)"

definition entry_lines :: "ledger_db \<Rightarrow> uuid \<Rightarrow> line_row list" where
  "entry_lines s eid = filter (\<lambda>l. jl_entry l = eid) (jlines s)"

definition line_account :: "ledger_db \<Rightarrow> line_row \<Rightarrow> account_row option" where
  "line_account s l = row_by acc_id (jl_account l) (accounts s)"

text \<open>\<open>journal_line JOIN account ... ORDER BY created_at, id\<close>.\<close>

definition joined_lines :: "ledger_db \<Rightarrow> uuid \<Rightarrow> (line_row \<times> account_row) list" where
  "joined_lines s eid =
     sort_key (\<lambda>p. jl_created (fst p)) (sort_key (\<lambda>p. jl_id (fst p))
       (List.map_filter (\<lambda>l. map_option (Pair l) (line_account s l)) (entry_lines s eid)))"

section \<open>The balance trigger of the migration\<close>

definition signed_amount :: "line_row \<Rightarrow> int" where
  "signed_amount l = (if jl_dir l = ''DR'' then jl_amount l else - jl_amount l)"

definition imbalance :: "ledger_db \<Rightarrow> uuid \<Rightarrow> int" where
  "imbalance s eid = sum_list (map signed_amount (entry_lines s eid))"

definition check_journal_balance :: "ledger_db \<Rightarrow> uuid \<Rightarrow> goerror option" where
  "check_journal_balance s eid =
     (if length (entry_lines s eid) < 2 then None
      else if \<not> is_int64 (imbalance s eid) then Some (PgError ''22003'' ''bigint out of range'')
      else if imbalance s eid \<noteq> 0 then Some (PgError ''P0001'' ''Journal entry is not balanced'')
      else None)"

definition trg_journal_balance :: "ledger_db \<Rightarrow> ledger_db \<Rightarrow> goerror option" where
  "trg_journal_balance s0 s =
     (case List.map_filter (\<lambda>l. check_journal_balance s (jl_entry l)) (drop (length (jlines s0)) (jlines s)) of
        [] \<Rightarrow> None
      | e # _ \<Rightarrow> Some e)"

section \<open>Conversions\<close>

fun accountTypeToDB :: "AccountType \<Rightarrow> string res" where
  "accountTypeToDB CONSUMER_ESCROW = Inr ''CONSUMER_ESCROW''"
| "accountTypeToDB MERCHANT_ESCROW = Inr ''MERCHANT_ESCROW''"
| "accountTypeToDB PLATFORM_FEE = Inr ''PLATFORM_FEE''"
| "accountTypeToDB _ = Inl (derr_New CodeValidation ''invalid account_type'')"

definition accountTypeFromDB :: "string \<Rightarrow> AccountType" where
  "accountTypeFromDB t =
     (if t = ''CONSUMER_ESCROW'' then CONSUMER_ESCROW
      else if t = ''MERCHANT_ESCROW'' then MERCHANT_ESCROW
      else if t = ''PLATFORM_FEE'' then PLATFORM_FEE
      else ACCOUNT_TYPE_UNSPECIFIED)"

fun directionToDB :: "Direction \<Rightarrow> string res" where
  "directionToDB Direction_DR = Inr ''DR''"
| "directionToDB Direction_CR = Inr ''CR''"
| "directionToDB _ = Inl (derr_New CodeValidation ''invalid direction'')"

definition directionFromDB :: "string \<Rightarrow> Direction" where
  "directionFromDB d =
     (if d = ''DR'' then Direction_DR else if d = ''CR'' then Direction_CR else DIRECTION_UNSPECIFIED)"

definition ledger_isUniqueViolation :: "goerror \<Rightarrow> bool" where
  "ledger_isUniqueViolation err \<longleftrightarrow> as_pg err = Some ''23505''"

definition isSerializationFailure :: "goerror \<Rightarrow> bool" where
  "isSerializationFailure err \<longleftrightarrow> as_pg err = Some ''40001'' \<or> as_pg err = Some ''40P01''"

definition line_proto :: "uuid_codec \<Rightarrow> line_row \<times> account_row \<Rightarrow> JournalLine" where
  "line_proto c = (\<lambda>(l, a).
     \<lparr>jln_Id = uc_String c (jl_id l), jln_AccountType = accountTypeFromDB (acc_type a),
      jln_OwnerRef = acc_owner a, jln_Direction = directionFromDB (jl_dir l),
      jln_Amount = Some \<lparr>mo_AmountPence = jl_amount l, mo_Currency = acc_currency a\<rparr>\<rparr>)"

section \<open>The store\<close>

text \<open>A \<open>querier\<close> is the transaction or the pool.\<close>

definition q_call :: "bool \<Rightarrow> 'a ledger_op \<Rightarrow> 'a ledger_op" where
  "q_call in_tx f s = (if in_tx then tx_call f s else pool_call f s)"

definition loadEntryByPaymentID :: "bool \<Rightarrow> string \<Rightarrow> JournalEntry ledger_op" where
  "loadEntryByPaymentID in_tx pid s =
     (case q_call in_tx (select_entry pid) s of
        (Inl err, s1) \<Rightarrow>
          (Inl (if is_no_rows err then ErrNoRows else derr_Wrap CodeInternal ''load journal entry'' err), s1)
      | (Inr e, s1) \<Rightarrow>
          (case q_call in_tx (\<lambda>t. (Inr (joined_lines t (je_id e)), t)) s1 of
             (Inl err, s2) \<Rightarrow> (Inl (derr_Wrap CodeInternal ''load journal lines'' err), s2)
           | (Inr ls, s2) \<Rightarrow>
               (Inr \<lparr>jen_Id = uc_String (codec s2) (je_id e), jen_PaymentId = pid,
                     jen_Description = je_desc e, jen_Lines = map (line_proto (codec s2)) ls,
                     jen_CreatedAt = je_created e\<rparr>, s2)))"

definition ensureAccount :: "string \<Rightarrow> string \<Rightarrow> string \<Rightarrow> uuid ledger_op" where
  "ensureAccount typ owner cur s =
     (case tx_call (upsert_account typ owner cur) s of
        (Inl err, s1) \<Rightarrow> (Inl (derr_Wrap CodeInternal ''ensure account'' err), s1)
      | (Inr i, s1) \<Rightarrow> (Inr i, s1))"

fun withSerializable_loop :: "nat \<Rightarrow> goerror option \<Rightarrow> 'a ledger_op \<Rightarrow> 'a ledger_op" where
  "withSerializable_loop 0 prev fn s =
     (Inl (DomainError CodeConflict ''serializable transaction retries exhausted'' prev), s)"
| "withSerializable_loop (Suc n) prev fn s =
     (case BeginTxFunc trg_journal_balance fn s of
        (Inr x, s1) \<Rightarrow> (Inr x, s1)
      | (Inl err, s1) \<Rightarrow>
          if \<not> isSerializationFailure err then (Inl err, s1) else withSerializable_loop n (Some err) fn s1)"

definition withSerializable :: "'a ledger_op \<Rightarrow> 'a ledger_op" where
  "withSerializable fn s = withSerializable_loop 5 None fn s"

text \<open>The validation loop of \<open>PostDoubleEntry\<close>: \<open>i\<close>, \<open>debit\<close>, \<open>credit\<close> and \<open>currency\<close> are the loop's
  variables; the result has the lines with their currency normalised.\<close>

definition line_error :: "nat \<Rightarrow> string \<Rightarrow> goerror" where
  "line_error i msg = derr_New CodeValidation (''line '' @ Itoa (int i) @ '': '' @ msg)"

fun validate_lines :: "nat \<Rightarrow> int \<Rightarrow> int \<Rightarrow> string \<Rightarrow> lineInput list \<Rightarrow> (int \<times> int \<times> lineInput list) res" where
  "validate_lines i debit credit currency [] = Inr (debit, credit, [])"
| "validate_lines i debit credit currency (l # ls) =
     (let cur = ToUpper (TrimSpace (li_currency l)) in
      if li_accountType l = [] then Inl (line_error i ''account_type is required'')
      else if TrimSpace (li_ownerRef l) = [] then Inl (line_error i ''owner_ref is required'')
      else if li_direction l \<noteq> ''DR'' \<and> li_direction l \<noteq> ''CR''
        then Inl (line_error i ''direction must be DR or CR'')
      else if li_amountPence l \<le> 0 then Inl (line_error i ''amount must be positive'')
      else if length cur \<noteq> 3 then Inl (line_error i ''currency must be 3-letter ISO code'')
      else if currency \<noteq> [] \<and> cur \<noteq> currency
        then Inl (derr_New CodeValidation ''all lines must share the same currency'')
      else case validate_lines (Suc i)
                  (if li_direction l = ''DR'' then add64 debit (li_amountPence l) else debit)
                  (if li_direction l = ''CR'' then add64 credit (li_amountPence l) else credit)
                  cur ls of
             Inl err \<Rightarrow> Inl err
           | Inr (d, c, out) \<Rightarrow> Inr (d, c, l\<lparr>li_currency := cur\<rparr> # out))"

fun insert_lines :: "uuid \<Rightarrow> lineInput list \<Rightarrow> (JournalLine list) ledger_op" where
  "insert_lines eid [] s = (Inr [], s)"
| "insert_lines eid (l # ls) s =
     (case ensureAccount (li_accountType l) (li_ownerRef l) (li_currency l) s of
        (Inl err, s1) \<Rightarrow> (Inl err, s1)
      | (Inr aid, s1) \<Rightarrow>
          (case tx_call (insert_line eid aid (li_direction l) (li_amountPence l)) s1 of
             (Inl err, s2) \<Rightarrow> (Inl (derr_Wrap CodeInternal ''insert journal_line'' err), s2)
           | (Inr lid, s2) \<Rightarrow>
               (case insert_lines eid ls s2 of
                  (Inl err, s3) \<Rightarrow> (Inl err, s3)
                | (Inr out, s3) \<Rightarrow>
                    (Inr (\<lparr>jln_Id = uc_String (codec s) lid,
                           jln_AccountType = accountTypeFromDB (li_accountType l),
                           jln_OwnerRef = li_ownerRef l,
                           jln_Direction = directionFromDB (li_direction l),
                           jln_Amount = Some \<lparr>mo_AmountPence = li_amountPence l,
                                              mo_Currency = li_currency l\<rparr>\<rparr> # out), s3))))"

definition post_tx :: "string \<Rightarrow> string \<Rightarrow> lineInput list \<Rightarrow> JournalEntry ledger_op" where
  "post_tx pid desc lines s =
     (case loadEntryByPaymentID True pid s of
        (Inr existing, s1) \<Rightarrow> (Inr existing, s1)
      | (Inl err, s1) \<Rightarrow>
          if \<not> is_no_rows err then (Inl err, s1)
          else
            (case tx_call (insert_entry pid desc) s1 of
               (Inl err, s2) \<Rightarrow>
                 if ledger_isUniqueViolation err then
                   (case loadEntryByPaymentID True pid s2 of
                      (Inl le, s3) \<Rightarrow> (Inl (derr_Wrap CodeInternal ''reload after unique conflict'' le), s3)
                    | (Inr existing, s3) \<Rightarrow> (Inr existing, s3))
                 else (Inl (derr_Wrap CodeInternal ''insert journal_entry'' err), s2)
             | (Inr (eid, created), s2) \<Rightarrow>
                 (case insert_lines eid lines s2 of
                    (Inl err, s3) \<Rightarrow> (Inl err, s3)
                  | (Inr out, s3) \<Rightarrow>
                      (Inr \<lparr>jen_Id = uc_String (codec s3) eid, jen_PaymentId = pid,
                            jen_Description = desc, jen_Lines = out, jen_CreatedAt = created\<rparr>, s3))))"

definition PostDoubleEntry :: "string \<Rightarrow> string \<Rightarrow> lineInput list \<Rightarrow> JournalEntry ledger_op" where
  "PostDoubleEntry pid desc lines s =
     (if pid = [] then (Inl (derr_New CodeValidation ''payment_id is required''), s)
      else if length lines < 2
        then (Inl (derr_New CodeValidation ''at least two journal lines are required''), s)
      else case validate_lines 0 0 0 [] lines of
             Inl err \<Rightarrow> (Inl err, s)
           | Inr (debit, credit, norm) \<Rightarrow>
               if debit \<noteq> credit
               then (Inl (derr_New CodeValidation
                       (''unbalanced entry: debit='' @ Itoa debit @ '' credit='' @ Itoa credit)), s)
               else withSerializable (post_tx pid desc norm) s)"

text \<open>The lines of a reversal: the same accounts and amounts in the opposite direction.\<close>

fun insert_reversals :: "uuid \<Rightarrow> (line_row \<times> account_row) list \<Rightarrow> unit ledger_op" where
  "insert_reversals eid [] s = (Inr (), s)"
| "insert_reversals eid ((l, a) # ls) s =
     (let opp = (if jl_dir l = ''CR'' then ''DR'' else ''CR'') in
      case ensureAccount (acc_type a) (acc_owner a) (acc_currency a) s of
        (Inl err, s1) \<Rightarrow> (Inl err, s1)
      | (Inr aid, s1) \<Rightarrow>
          (case tx_call (insert_line eid aid opp (jl_amount l)) s1 of
             (Inl err, s2) \<Rightarrow> (Inl (derr_Wrap CodeInternal ''insert reverse journal_line'' err), s2)
           | (Inr _, s2) \<Rightarrow> insert_reversals eid ls s2))"

definition reversal_desc :: "string \<Rightarrow> string" where
  "reversal_desc reason = (if reason \<noteq> [] then ''REVERSAL: '' @ reason else ''REVERSAL'')"

definition write_reversal :: "entry_row \<Rightarrow> string \<Rightarrow> string \<Rightarrow> (line_row \<times> account_row) list \<Rightarrow> unit ledger_op" where
  "write_reversal e rev_pid reason orig s =
     (case tx_call (insert_entry rev_pid (reversal_desc reason)) s of
        (Inl err, s1) \<Rightarrow>
          if ledger_isUniqueViolation err then tx_call (set_reversed (je_id e)) s1
          else (Inl (derr_Wrap CodeInternal ''insert reverse journal_entry'' err), s1)
      | (Inr (rid, _), s1) \<Rightarrow>
          (case insert_reversals rid orig s1 of
             (Inl err, s2) \<Rightarrow> (Inl err, s2)
           | (Inr _, s2) \<Rightarrow>
               (case tx_call (set_reversed (je_id e)) s2 of
                  (Inl err, s3) \<Rightarrow> (Inl (derr_Wrap CodeInternal ''mark entry reversed'' err), s3)
                | (Inr _, s3) \<Rightarrow> (Inr (), s3))))"

definition reverse_tx :: "string \<Rightarrow> string \<Rightarrow> unit ledger_op" where
  "reverse_tx pid reason s =
     (let rev_pid = pid @ ''-rev'' in
      case tx_call (select_entry pid) s of
        (Inl err, s1) \<Rightarrow>
          (Inl (if is_no_rows err then derr_New CodeNotFound ''journal entry not found''
                else derr_Wrap CodeInternal ''load journal entry'' err), s1)
      | (Inr e, s1) \<Rightarrow>
          if je_reversed e then (Inr (), s1)
          else
            (case tx_call (select_entry rev_pid) s1 of
               (Inr _, s2) \<Rightarrow> (Inr (), snd (tx_call (set_reversed (je_id e)) s2))
             | (Inl err, s2) \<Rightarrow>
                 if \<not> is_no_rows err then (Inl (derr_Wrap CodeInternal ''check reverse entry'' err), s2)
                 else
                   (case tx_call (\<lambda>t. (Inr (joined_lines t (je_id e)), t)) s2 of
                      (Inl err, s3) \<Rightarrow> (Inl (derr_Wrap CodeInternal ''load journal lines'' err), s3)
                    | (Inr orig, s3) \<Rightarrow>
                        if orig = [] then (Inl (derr_New CodeInternal ''journal entry has no lines''), s3)
                        else write_reversal e rev_pid reason orig s3)))"

definition ReverseEntry :: "string \<Rightarrow> string \<Rightarrow> unit ledger_op" where
  "ReverseEntry pid reason s =
     (if pid = [] then (Inl (derr_New CodeValidation ''payment_id is required''), s)
      else withSerializable (reverse_tx pid reason) s)"

text \<open>\<open>account LEFT JOIN journal_line\<close> for one \<open>(type, owner_ref, currency)\<close>, summed with the sign
  of the direction.\<close>

definition credit_amount :: "line_row \<Rightarrow> int" where
  "credit_amount l = (if jl_dir l = ''DR'' then - jl_amount l else jl_amount l)"

definition sum_balance :: "ledger_db \<Rightarrow> string \<times> string \<times> string \<Rightarrow> int" where
  "sum_balance s k =
     sum_list (map (\<lambda>a. sum_list (map credit_amount (filter (\<lambda>l. jl_account l = acc_id a) (jlines s))))
       (filter (\<lambda>a. account_key a = k) (accounts s)))"

definition GetBalance :: "string \<Rightarrow> string \<Rightarrow> string \<Rightarrow> BalanceResponse ledger_op" where
  "GetBalance typ owner currency s =
     (let cur0 = ToUpper (TrimSpace currency); cur = (if cur0 = [] then ''GBP'' else cur0) in
      if typ = [] then (Inl (derr_New CodeValidation ''account_type is required''), s)
      else if TrimSpace owner = [] then (Inl (derr_New CodeValidation ''owner_ref is required''), s)
      else if length cur \<noteq> 3
        then (Inl (derr_New CodeValidation ''currency must be 3-letter ISO code''), s)
      else case pool_call (\<lambda>t. (let b = sum_balance t (typ, owner, cur) in
                                 if is_int64 b then Inr b else Inl pg_out_of_range, t)) s of
             (Inl err, s1) \<Rightarrow> (Inl (derr_Wrap CodeInternal ''get balance'' err), s1)
           | (Inr b, s1) \<Rightarrow>
               (Inr \<lparr>br_Balance = \<lparr>mo_AmountPence = b, mo_Currency = cur\<rparr>, br_AsOf = now s1\<rparr>, s1))"

definition GetJournalEntry :: "string \<Rightarrow> JournalEntry ledger_op" where
  "GetJournalEntry pid s =
     (if pid = [] then (Inl (derr_New CodeValidation ''payment_id is required''), s)
      else case loadEntryByPaymentID False pid s of
             (Inl err, s1) \<Rightarrow>
               (Inl (if is_no_rows err then derr_New CodeNotFound ''journal entry not found'' else err), s1)
           | (Inr e, s1) \<Rightarrow> (Inr e, s1))"

section \<open>The gRPC server\<close>

fun lines_from_proto :: "JournalLine list \<Rightarrow> (lineInput list) res" where
  "lines_from_proto [] = Inr []"
| "lines_from_proto (l # ls) =
     (case accountTypeToDB (jln_AccountType l) of
        Inl err \<Rightarrow> Inl (ToGRPC err)
      | Inr typ \<Rightarrow>
          (case directionToDB (jln_Direction l) of
             Inl err \<Rightarrow> Inl (ToGRPC err)
           | Inr dir \<Rightarrow>
               (case jln_Amount l of
                  None \<Rightarrow> Inl (ToGRPC (derr_New CodeValidation ''line amount is required''))
                | Some amt \<Rightarrow>
                    (case lines_from_proto ls of
                       Inl err \<Rightarrow> Inl err
                     | Inr out \<Rightarrow>
                         Inr (\<lparr>li_accountType = typ, li_ownerRef = jln_OwnerRef l, li_direction = dir,
                               li_amountPence = mo_AmountPence amt, li_currency = mo_Currency amt\<rparr> # out)))))"

definition request_required :: goerror where
  "request_required = ToGRPC (derr_New CodeValidation ''request is required'')"

definition rpc_PostDoubleEntry :: "PostEntryRequest option \<Rightarrow> JournalEntry ledger_op" where
  "rpc_PostDoubleEntry req s =
     (case req of
        None \<Rightarrow> (Inl request_required, s)
      | Some r \<Rightarrow>
          (case lines_from_proto (per_Lines r) of
             Inl err \<Rightarrow> (Inl err, s)
           | Inr lines \<Rightarrow> rpc_result (PostDoubleEntry (per_PaymentId r) (per_Description r) lines s)))"

definition rpc_ReverseEntry :: "Ledger_ReverseRequest option \<Rightarrow> unit ledger_op" where
  "rpc_ReverseEntry req s =
     (case req of
        None \<Rightarrow> (Inl request_required, s)
      | Some r \<Rightarrow> rpc_result (ReverseEntry (lrr_PaymentId r) (lrr_Reason r) s))"

definition rpc_GetBalance :: "BalanceRequest option \<Rightarrow> BalanceResponse ledger_op" where
  "rpc_GetBalance req s =
     (case req of
        None \<Rightarrow> (Inl request_required, s)
      | Some r \<Rightarrow>
          (case accountTypeToDB (bq_AccountType r) of
             Inl err \<Rightarrow> (Inl (ToGRPC err), s)
           | Inr typ \<Rightarrow> rpc_result (GetBalance typ (bq_OwnerRef r) (bq_Currency r) s)))"

definition rpc_GetJournalEntry :: "JournalEntryRequest option \<Rightarrow> JournalEntry ledger_op" where
  "rpc_GetJournalEntry req s =
     (case req of
        None \<Rightarrow> (Inl request_required, s)
      | Some r \<Rightarrow> rpc_result (GetJournalEntry (jer_PaymentId r) s))"

end
