(* ===== verification/Ledger_Props.thy ===== *)
theory Ledger_Props
  imports Ledger "HOL-Library.Multiset"
begin

text \<open>
  What the ledger's operations do to its tables.
  \<^item> \<open>ledger_wf\<close> are the constraints of the migration, \<open>books_balance\<close> says that every entry's debits
    and credits are equal, \<open>ledger_ok\<close> is both.
  \<^item> \<open>PostDoubleEntry_effect\<close> and \<open>ReverseEntry_effect\<close> are the case rules the other proofs use: an
    operation fails and leaves the tables, finds its work done before, or appends one entry.
  \<^item> Balances are sums over the lines of an account; posting and reversing refine addition and
    subtraction on the abstract books.
\<close>

definition ledger_wf :: "ledger_db \<Rightarrow> bool" where
  "ledger_wf s \<longleftrightarrow>
     distinct (map acc_id (accounts s)) \<and> distinct (map account_key (accounts s)) \<and>
     distinct (map je_id (entries s)) \<and> distinct (map je_payment (entries s)) \<and>
     distinct (map jl_id (jlines s)) \<and>
     (\<forall>l \<in> set (jlines s). jl_entry l \<in> je_id ` set (entries s) \<and> jl_account l \<in> acc_id ` set (accounts s) \<and>
        jl_dir l \<in> {''DR'', ''CR''} \<and> 0 < jl_amount l)"

definition books_balance :: "ledger_db \<Rightarrow> bool" where
  "books_balance s \<longleftrightarrow> (\<forall>e \<in> set (entries s). imbalance s (je_id e) = 0)"

definition ledger_ok :: "ledger_db \<Rightarrow> bool" where
  "ledger_ok s \<longleftrightarrow> ledger_wf s \<and> books_balance s"

definition line_key :: "ledger_db \<Rightarrow> line_row \<Rightarrow> (string \<times> string \<times> string) option" where
  "line_key s l = map_option account_key (line_account s l)"

definition li_key :: "lineInput \<Rightarrow> string \<times> string \<times> string" where
  "li_key l = (li_accountType l, li_ownerRef l, li_currency l)"

definition li_credit :: "lineInput \<Rightarrow> int" where
  "li_credit l = (if li_direction l = ''DR'' then - li_amountPence l else li_amountPence l)"

text \<open>The tables after a step that only appends accounts and the lines of one entry.\<close>

definition appends_lines :: "uuid \<Rightarrow> line_row list \<Rightarrow> ledger_db \<Rightarrow> ledger_db \<Rightarrow> bool" where
  "appends_lines eid js s s' \<longleftrightarrow>
     (\<exists>new. accounts s' = accounts s @ new) \<and> entries s' = entries s \<and>
     jlines s' = jlines s @ js \<and> (\<forall>j \<in> set js. jl_entry j = eid) \<and> codec s' = codec s \<and> now s' = now s"

definition line_matches :: "ledger_db \<Rightarrow> lineInput \<Rightarrow> line_row \<Rightarrow> bool" where
  "line_matches s l j \<longleftrightarrow> jl_dir j = li_direction l \<and> jl_amount j = li_amountPence l \<and> line_key s j = Some (li_key l)"

section \<open>Environment\<close>

lemma ledger_env_only [simp]:
  assumes "env_only s s'"
  shows "accounts s' = accounts s" "entries s' = entries s" "jlines s' = jlines s"
  using assms by (auto elim: env_onlyE)

lemma env_blind_wf: "env_blind ledger_wf"
  by (simp add: env_blind_def ledger_wf_def)

lemma ledger_wf_env [simp]: "env_only s s' \<Longrightarrow> ledger_wf s' = ledger_wf s"
  by (rule env_blindD [OF env_blind_wf])

lemma imbalance_env [simp]: "env_only s s' \<Longrightarrow> imbalance s' e = imbalance s e"
  by (simp add: imbalance_def entry_lines_def)

lemma books_balance_env [simp]: "env_only s s' \<Longrightarrow> books_balance s' = books_balance s"
  by (simp add: books_balance_def)

lemma sum_balance_env [simp]: "env_only s s' \<Longrightarrow> sum_balance s' k = sum_balance s k"
  by (simp add: sum_balance_def)

lemma ledger_ok_env [simp]: "env_only s s' \<Longrightarrow> ledger_ok s' = ledger_ok s"
  by (simp add: ledger_ok_def)

lemma line_key_env [simp]: "env_only s s' \<Longrightarrow> line_key s' = line_key s"
  by (simp add: fun_eq_iff line_key_def line_account_def)

lemma line_matches_env [simp]: "env_only s s' \<Longrightarrow> line_matches s' = line_matches s"
  by (simp add: fun_eq_iff line_matches_def)

lemma appends_lines_refl: "env_only s s' \<Longrightarrow> appends_lines e [] s s'"
  by (auto simp: appends_lines_def dest: env_only_now)

lemma appends_lines_trans:
  "appends_lines e xs s t \<Longrightarrow> appends_lines e ys t u \<Longrightarrow> appends_lines e (xs @ ys) s u"
  by (auto simp: appends_lines_def)

lemma appends_lines_key:
  assumes "appends_lines e js s s'" and "line_key s l = Some k"
  shows "line_key s' l = Some k"
  using assms by (auto simp: appends_lines_def line_key_def line_account_def row_by_append)

lemma appends_lines_matches:
  "appends_lines e js s s' \<Longrightarrow> line_matches s l j \<Longrightarrow> line_matches s' l j"
  by (auto simp: line_matches_def intro: appends_lines_key)

section \<open>The statements\<close>

lemma upsert_account_effect:
  assumes "upsert_account typ owner cur s = (Inr a, s')" and "ledger_wf s"
  shows "appends_lines e [] s s' \<and> ledger_wf s' \<and>
    map_option account_key (row_by acc_id a (accounts s')) = Some (typ, owner, cur)"
proof (cases "row_by account_key (typ, owner, cur) (accounts s)")
  case None
  then have n: "(typ, owner, cur) \<notin> account_key ` set (accounts s)" by (simp add: row_by_None_iff)
  with assms None show ?thesis
    by (auto simp: upsert_account_def fresh_uuid_def Let_def appends_lines_def ledger_wf_def
        row_by_append account_key_def row_by_None_iff [THEN iffD2] split: if_splits option.splits
        dest: row_by_SomeD)
next
  case (Some a')
  then have "a' \<in> set (accounts s)" and "account_key a' = (typ, owner, cur)" by (auto dest: row_by_SomeD)
  with assms Some show ?thesis
    by (auto simp: upsert_account_def appends_lines_def ledger_wf_def row_by_SomeI)
qed

lemma ensureAccount_effect:
  assumes "ensureAccount typ owner cur s = (Inr a, s')" and "ledger_wf s"
  shows "appends_lines e [] s s' \<and> ledger_wf s' \<and>
    map_option account_key (row_by acc_id a (accounts s')) = Some (typ, owner, cur)"
proof -
  from assms(1) have "tx_call (upsert_account typ owner cur) s = (Inr a, s')"
    by (auto simp: ensureAccount_def split: prod.splits sum.splits)
  then show ?thesis
  proof (cases rule: tx_call_cases)
    case (run s0 x)
    with assms(2) have "appends_lines e [] s0 s' \<and> ledger_wf s' \<and>
        map_option account_key (row_by acc_id a (accounts s')) = Some (typ, owner, cur)"
      by (intro upsert_account_effect) auto
    with run show ?thesis using appends_lines_trans [OF appends_lines_refl [of s s0]] by auto
  qed auto
qed

lemma insert_line_effect:
  assumes "insert_line eid aid dir amt s = (Inr i, s')" and "ledger_wf s"
  shows "\<exists>j. appends_lines eid [j] s s' \<and> ledger_wf s' \<and> jl_account j = aid \<and> jl_dir j = dir \<and> jl_amount j = amt"
  using assms
  by (auto simp: insert_line_def fresh_uuid_def Let_def appends_lines_def ledger_wf_def split: if_splits)

lemma tx_insert_line_effect:
  assumes "tx_call (insert_line eid aid dir amt) s = (Inr i, s')" and "ledger_wf s"
  shows "\<exists>j. appends_lines eid [j] s s' \<and> ledger_wf s' \<and> jl_account j = aid \<and> jl_dir j = dir \<and> jl_amount j = amt"
  using assms(1)
proof (cases rule: tx_call_cases)
  case (run s0 x)
  with assms(2) obtain j where "appends_lines eid [j] s0 s'" "ledger_wf s'" "jl_account j = aid" "jl_dir j = dir" "jl_amount j = amt"
    using insert_line_effect [of eid aid dir amt s0 x s'] by auto
  with run show ?thesis using appends_lines_trans [OF appends_lines_refl [of s s0]] by fastforce
qed auto

text \<open>One line: the account is ensured, then the line inserted.\<close>

lemma add_line_effect:
  assumes "ensureAccount typ owner cur s = (Inr aid, s1)"
    and "tx_call (insert_line eid aid dir amt) s1 = (Inr i, s2)" and "ledger_wf s"
  shows "\<exists>j. appends_lines eid [j] s s2 \<and> ledger_wf s2 \<and> jl_dir j = dir \<and> jl_amount j = amt \<and>
    line_key s2 j = Some (typ, owner, cur)"
proof -
  from ensureAccount_effect [OF assms(1,3)]
  have a: "appends_lines eid [] s s1" "ledger_wf s1"
    "map_option account_key (row_by acc_id aid (accounts s1)) = Some (typ, owner, cur)" by auto
  from tx_insert_line_effect [OF assms(2) a(2)] obtain j
    where j: "appends_lines eid [j] s1 s2" "ledger_wf s2" "jl_account j = aid" "jl_dir j = dir" "jl_amount j = amt"
    by blast
  have "line_key s1 j = Some (typ, owner, cur)" using a(3) j(3) by (simp add: line_key_def line_account_def)
  with j(1) have "line_key s2 j = Some (typ, owner, cur)" by (rule appends_lines_key)
  with a(1) j show ?thesis using appends_lines_trans by fastforce
qed

lemma insert_lines_effect:
  assumes "insert_lines eid ls s = (Inr out, s')" and "ledger_wf s"
  shows "\<exists>js. appends_lines eid js s s' \<and> ledger_wf s' \<and> list_all2 (line_matches s') ls js"
  using assms
proof (induction ls arbitrary: s out)
  case Nil
  then show ?case by (auto intro!: appends_lines_refl)
next
  case (Cons l ls)
  from Cons.prems(1) obtain aid s1 i s2 out' where
    st: "ensureAccount (li_accountType l) (li_ownerRef l) (li_currency l) s = (Inr aid, s1)"
    "tx_call (insert_line eid aid (li_direction l) (li_amountPence l)) s1 = (Inr i, s2)"
    "insert_lines eid ls s2 = (Inr out', s')"
    by (auto split: prod.splits sum.splits)
  from add_line_effect [OF st(1,2) Cons.prems(2)] obtain j where
    j: "appends_lines eid [j] s s2" "ledger_wf s2" "line_matches s2 l j"
    by (auto simp: line_matches_def li_key_def)
  from Cons.IH [OF st(3) j(2)] obtain js where
    js: "appends_lines eid js s2 s'" "ledger_wf s'" "list_all2 (line_matches s') ls js" by blast
  from j(3) js(1) have "line_matches s' l j" by (rule appends_lines_matches [rotated])
  with js appends_lines_trans [OF j(1) js(1)] show ?case by (intro exI [of _ "j # js"]) simp
qed

section \<open>Reads\<close>

lemma read_q: "(\<And>t. snd (f t) = t) \<Longrightarrow> q_call b f s = (r, s') \<Longrightarrow> env_only s s'"
  by (auto simp: q_call_def split: if_splits intro: read_pool read_tx)

lemma snd_select_entry [simp]: "snd (select_entry pid s) = s"
  by (simp add: select_entry_def split: option.splits)

lemma select_entry_found:
  assumes "select_entry pid s0 = (Inr e, s')" and "env_only s s0"
  shows "e \<in> set (entries s) \<and> je_payment e = pid \<and> env_only s s'"
  using assms by (auto simp: select_entry_def split: option.splits dest: row_by_SomeD)

lemma tx_select_entry:
  assumes "tx_call (select_entry pid) s = (Inr e, s')"
  shows "e \<in> set (entries s) \<and> je_payment e = pid \<and> env_only s s'"
  using assms by (cases rule: tx_call_cases) (simp_all add: select_entry_found)

lemma pool_select_entry:
  assumes "pool_call (select_entry pid) s = (Inr e, s')"
  shows "e \<in> set (entries s) \<and> je_payment e = pid \<and> env_only s s'"
  using assms by (cases rule: pool_call_cases) (simp_all add: select_entry_found)

lemma q_select_entry:
  assumes "q_call b (select_entry pid) s = (Inr e, s')"
  shows "e \<in> set (entries s) \<and> je_payment e = pid \<and> env_only s s'"
  using assms tx_select_entry [of pid s e s'] pool_select_entry [of pid s e s']
  by (simp add: q_call_def split: if_splits)

lemma tx_select_entry_none:
  assumes "tx_call (select_entry pid) s = (Inl err, s')" 
  shows "env_only s s'"
  using assms by (rule read_tx [rotated]) simp

lemma loadEntry_read: "loadEntryByPaymentID b pid s = (r, s') \<Longrightarrow> env_only s s'"
proof -
  assume a: "loadEntryByPaymentID b pid s = (r, s')"
  obtain r1 s1 where q: "q_call b (select_entry pid) s = (r1, s1)" by fastforce
  then have e1: "env_only s s1" by (rule read_q [rotated]) simp
  show ?thesis
  proof (cases r1)
    case (Inl e)
    with a q e1 show ?thesis by (simp add: loadEntryByPaymentID_def)
  next
    case (Inr e)
    obtain r2 s2 where q2: "q_call b (\<lambda>t. (Inr (joined_lines t (je_id e)), t)) s1 = (r2, s2)" by fastforce
    then have "env_only s1 s2" by (rule read_q [rotated]) simp
    with a q q2 Inr e1 show ?thesis
      by (auto simp: loadEntryByPaymentID_def split: sum.splits intro: env_only_trans)
  qed
qed

lemma loadEntry_found:
  "loadEntryByPaymentID b pid s = (Inr x, s') \<Longrightarrow> pid \<in> je_payment ` set (entries s)"
  by (auto simp: loadEntryByPaymentID_def split: prod.splits sum.splits dest!: q_select_entry)

lemma loadEntry_aborted: "aborted s \<Longrightarrow> \<exists>e. loadEntryByPaymentID True pid s = (Inl e, s)"
  by (simp add: loadEntryByPaymentID_def q_call_def tx_call_def)

section \<open>Posting\<close>

definition posted :: "string \<Rightarrow> string \<Rightarrow> uuid \<Rightarrow> line_row list \<Rightarrow> ledger_db \<Rightarrow> ledger_db \<Rightarrow> bool" where
  "posted pid desc eid js s s' \<longleftrightarrow>
     pid \<notin> je_payment ` set (entries s) \<and> eid \<notin> je_id ` set (entries s) \<and>
     entries s' = entries s @
       [\<lparr>je_id = eid, je_payment = pid, je_desc = desc, je_reversed = False, je_created = now s\<rparr>] \<and>
     (\<exists>new. accounts s' = accounts s @ new) \<and> jlines s' = jlines s @ js \<and>
     (\<forall>j \<in> set js. jl_entry j = eid) \<and> ledger_wf s'"

lemma posted_env: "env_only s t \<Longrightarrow> env_only u v \<Longrightarrow> posted pid desc eid js t u \<Longrightarrow> posted pid desc eid js s v"
  by (auto simp: posted_def dest: env_only_now)

lemma insert_entry_effect:
  assumes "tx_call (insert_entry pid desc) s = (Inr (eid, c), s')" and "ledger_wf s"
  shows "posted pid desc eid [] s s' \<and> c = now s"
  using assms(1)
proof (cases rule: tx_call_cases)
  case (run s0 x)
  with assms(2) have "posted pid desc eid [] s0 s' \<and> c = now s0"
    by (auto simp: insert_entry_def fresh_uuid_def Let_def posted_def ledger_wf_def split: if_splits)
  with run show ?thesis using posted_env [of s s0 s' s'] by (auto dest: env_only_now)
qed auto

lemma insert_entry_failed:
  assumes "tx_call (insert_entry pid desc) s = (Inl e, s')" and "ledger_isUniqueViolation e"
  shows "aborted s'"
proof -
  have "e \<noteq> ErrNoRows" using assms(2) by (auto simp: ledger_isUniqueViolation_def)
  with assms(1) show ?thesis by (cases rule: tx_call_cases) auto
qed

lemma posted_appends:
  assumes "posted pid desc eid [] s t" and "appends_lines eid js t u" and "ledger_wf u"
  shows "posted pid desc eid js s u"
  using assms by (auto simp: posted_def appends_lines_def)

lemma post_tx_effect:
  assumes "post_tx pid desc lines s = (Inr x, s')" and "ledger_wf s"
  shows "(env_only s s' \<and> pid \<in> je_payment ` set (entries s)) \<or>
    (\<exists>eid js. posted pid desc eid js s s' \<and> list_all2 (line_matches s') lines js)"
proof -
  obtain r1 s1 where l: "loadEntryByPaymentID True pid s = (r1, s1)" by fastforce
  then have e1: "env_only s s1" by (rule loadEntry_read)
  show ?thesis
  proof (cases r1)
    case (Inr y)
    with assms l e1 show ?thesis by (auto simp: post_tx_def dest: loadEntry_found)
  next
    case (Inl e)
    obtain r2 s2 where i: "tx_call (insert_entry pid desc) s1 = (r2, s2)" by fastforce
    show ?thesis
    proof (cases r2)
      case r2: (Inl err)
      have False
        using assms(1) l i Inl r2 insert_entry_failed [of pid desc s1 err s2] loadEntry_aborted [of s2 pid]
        by (auto simp: post_tx_def split: if_splits)
      then show ?thesis ..
    next
      case r2: (Inr p)
      obtain eid c where p: "p = (eid, c)" by fastforce
      from assms(2) e1 have "ledger_wf s1" by simp
      with i r2 p have po: "posted pid desc eid [] s1 s2" using insert_entry_effect by blast
      then have "ledger_wf s2" by (simp add: posted_def)
      moreover obtain out where "insert_lines eid lines s2 = (Inr out, s')"
        using assms(1) l i Inl r2 p by (auto simp: post_tx_def split: if_splits prod.splits sum.splits)
      ultimately obtain js where "appends_lines eid js s2 s'" "ledger_wf s'" "list_all2 (line_matches s') lines js"
        using insert_lines_effect by blast
      then show ?thesis using posted_env [OF e1 env_only_refl posted_appends [OF po]] by blast
    qed
  qed
qed

section \<open>Serializable transactions\<close>

lemma withSerializable_loop_cases:
  "withSerializable_loop n p fn s = (r, s') \<Longrightarrow>
   (\<exists>e. r = Inl e \<and> env_only s s') \<or>
   (\<exists>s0 x s1. env_only s s0 \<and> \<not> aborted s0 \<and> fn s0 = (Inr x, s1) \<and> env_only s1 s' \<and> r = Inr x \<and>
      (\<exists>t u. env_only s t \<and> env_only s1 u \<and> trg_journal_balance t u = None))"
proof (induction n arbitrary: s p)
  case 0
  then show ?case by auto
next
  case (Suc n)
  obtain r1 s1 where b: "BeginTxFunc trg_journal_balance fn s = (r1, s1)" by fastforce
  from b show ?case
  proof (cases rule: BeginTxFunc_cases)
    case (rolled_back e)
    show ?thesis
    proof (cases "isSerializationFailure e")
      case True
      with Suc.prems b rolled_back have "withSerializable_loop n (Some e) fn s1 = (r, s')" by simp
      note ih = Suc.IH [OF this]
      have tr: "env_only s1 t \<Longrightarrow> env_only s t" for t using rolled_back env_only_trans by blast
      from ih show ?thesis using tr by blast
    next
      case False
      with Suc.prems b rolled_back show ?thesis by auto
    qed
  next
    case (committed s0 x t)
    with Suc.prems b have "r = r1" "s' = s1" by auto
    with committed show ?thesis by blast
  qed
qed

lemma withSerializable_cases:
  assumes "withSerializable fn s = (r, s')"
  obtains (rolled_back) e where "r = Inl e" "env_only s s'"
        | (committed) s0 x s1 t u where "env_only s s0" "\<not> aborted s0" "fn s0 = (Inr x, s1)" "env_only s1 s'" "r = Inr x"
            "env_only s t" "env_only s1 u" "trg_journal_balance t u = None"
  using withSerializable_loop_cases [OF assms [unfolded withSerializable_def]] by metis

section \<open>Balance\<close>

lemma entry_lines_posted_old:
  assumes "posted pid desc eid js s s'" and "e \<noteq> eid"
  shows "entry_lines s' e = entry_lines s e"
  using assms by (auto simp: posted_def entry_lines_def filter_empty_conv)

lemma entry_lines_posted_new:
  assumes "posted pid desc eid js s s'" and "ledger_wf s"
  shows "entry_lines s' eid = js"
  using assms by (auto simp: posted_def entry_lines_def ledger_wf_def filter_empty_conv filter_id_conv)

lemma books_balance_posted:
  assumes "posted pid desc eid js s s'" and "ledger_wf s" and "books_balance s" and "sum_list (map signed_amount js) = 0"
  shows "books_balance s'"
proof -
  have "imbalance s' eid = 0"
    using assms by (simp add: imbalance_def entry_lines_posted_new)
  moreover have "imbalance s' (je_id e) = 0" if "e \<in> set (entries s)" for e
  proof -
    have "je_id e \<noteq> eid" using assms(1) that by (auto simp: posted_def)
    with that assms show ?thesis by (simp add: imbalance_def entry_lines_posted_old books_balance_def)
  qed
  ultimately show ?thesis using assms(1) by (auto simp: books_balance_def posted_def)
qed

lemma trg_balanced:
  assumes "trg_journal_balance t u = None" and "posted pid desc eid js t u" and "ledger_wf t" and "2 \<le> length js"
  shows "sum_list (map signed_amount js) = 0"
proof -
  have js: "entry_lines u eid = js" using assms(2,3) by (rule entry_lines_posted_new)
  obtain j js' where "js = j # js'" using assms(4) by (cases js) auto
  with assms(2) have "drop (length (jlines t)) (jlines u) = js" "j \<in> set js" "jl_entry j = eid"
    by (auto simp: posted_def)
  with assms(1) have "check_journal_balance u eid = None"
    by (auto simp: trg_journal_balance_def map_filter_def filter_empty_conv split: list.splits)
  with js assms(4) show ?thesis by (auto simp: check_journal_balance_def imbalance_def split: if_splits)
qed

lemma length_validate_lines:
  "validate_lines i d c cur ls = Inr (d', c', out) \<Longrightarrow> length out = length ls"
  by (induction ls arbitrary: i d c cur d' c' out) (auto simp: Let_def split: if_splits sum.splits)

text \<open>What a successful posting did: nothing, when the payment was posted before, or one new
  balanced entry with one line per input line.\<close>

lemma PostDoubleEntry_effect:
  assumes "PostDoubleEntry pid desc lines s = (r, s')" and "ledger_wf s"
  obtains (unchanged) "env_only s s'" "\<And>x. r = Inr x \<Longrightarrow> pid \<in> je_payment ` set (entries s)"
        | (entry) x eid js norm d where "r = Inr x" "posted pid desc eid js s s'"
            "validate_lines 0 0 0 [] lines = Inr (d, d, norm)"
            "list_all2 (line_matches s') norm js" "sum_list (map signed_amount js) = 0"
proof (cases "pid = [] \<or> length lines < 2")
  case True
  with assms(1) show thesis by (intro unchanged) (auto simp: PostDoubleEntry_def split: if_splits)
next
  case False
  show thesis
  proof (cases "validate_lines 0 0 0 [] lines")
    case (Inl e)
    with False assms(1) show thesis by (intro unchanged) (auto simp: PostDoubleEntry_def)
  next
    case (Inr v)
    obtain d c norm where v: "v = (d, c, norm)" by (cases v) auto
    show thesis
    proof (cases "d = c")
      case d: False
      with False Inr v assms(1) show thesis by (intro unchanged) (auto simp: PostDoubleEntry_def)
    next
      case d: True
      from False Inr v d assms(1) have "withSerializable (post_tx pid desc norm) s = (r, s')"
        by (simp add: PostDoubleEntry_def)
      then show thesis
      proof (cases rule: withSerializable_cases)
        case (rolled_back e)
        then show thesis by (intro unchanged) auto
      next
        case (committed s0 x s1 t u)
        then have "ledger_wf s0" using assms(2) by simp
        from post_tx_effect [OF committed(3) this] show thesis
        proof (elim disjE exE conjE)
          assume "env_only s0 s1" "pid \<in> je_payment ` set (entries s0)"
          with committed show thesis by (intro unchanged) (auto intro: env_only_trans)
        next
          fix eid js assume p: "posted pid desc eid js s0 s1" and m: "list_all2 (line_matches s1) norm js"
          have "2 \<le> length js"
            using False Inr v length_validate_lines list_all2_lengthD [OF m] by fastforce
          moreover have "posted pid desc eid js t u"
            using p committed by (auto simp: posted_def dest!: env_only_now)
          ultimately have "sum_list (map signed_amount js) = 0"
            using trg_balanced committed(6,8) assms(2) by simp
          moreover have "posted pid desc eid js s s'"
            using p committed by (auto intro: posted_env)
          ultimately show thesis
            using entry committed(4,5) m Inr v d by simp
        qed
      qed
    qed
  qed
qed

lemma PostDoubleEntry_ok:
  assumes "PostDoubleEntry pid desc lines s = (r, s')" and "ledger_ok s"
  shows "ledger_ok s'"
proof -
  have wf: "ledger_wf s" using assms(2) by (simp add: ledger_ok_def)
  from assms(1) wf show ?thesis
  proof (cases rule: PostDoubleEntry_effect)
    case unchanged
    with assms(2) show ?thesis by simp
  next
    case (entry x eid js norm d)
    with assms(2) wf have "books_balance s'" by (auto simp: ledger_ok_def intro: books_balance_posted)
    with entry show ?thesis by (simp add: ledger_ok_def posted_def)
  qed
qed

section \<open>Reversal\<close>

definition opposite :: "string \<Rightarrow> string" where
  "opposite d = (if d = ''CR'' then ''DR'' else ''CR'')"

definition reverses :: "ledger_db \<Rightarrow> line_row \<times> account_row \<Rightarrow> line_row \<Rightarrow> bool" where
  "reverses s = (\<lambda>(l, a) j. jl_dir j = opposite (jl_dir l) \<and> jl_amount j = jl_amount l \<and>
     line_key s j = Some (account_key a))"

lemma reverses_env [simp]: "env_only s s' \<Longrightarrow> reverses s' = reverses s"
  by (simp add: fun_eq_iff reverses_def)

lemma insert_reversals_effect:
  assumes "insert_reversals eid ls s = (Inr out, s')" and "ledger_wf s"
  shows "\<exists>js. appends_lines eid js s s' \<and> ledger_wf s' \<and> list_all2 (reverses s') ls js"
  using assms
proof (induction ls arbitrary: s out)
  case Nil
  then show ?case by (auto intro!: appends_lines_refl)
next
  case (Cons p ls)
  obtain l a where p: "p = (l, a)" by fastforce
  from Cons.prems(1) obtain aid s1 i s2 where
    st: "ensureAccount (acc_type a) (acc_owner a) (acc_currency a) s = (Inr aid, s1)"
    "tx_call (insert_line eid aid (opposite (jl_dir l)) (jl_amount l)) s1 = (Inr i, s2)"
    "insert_reversals eid ls s2 = (Inr out, s')"
    by (auto simp: p opposite_def Let_def split: prod.splits sum.splits)
  from add_line_effect [OF st(1,2) Cons.prems(2)] obtain j where
    j: "appends_lines eid [j] s s2" "ledger_wf s2" "reverses s2 p j"
    by (auto simp: reverses_def account_key_def p)
  from Cons.IH [OF st(3) j(2)] obtain js where
    js: "appends_lines eid js s2 s'" "ledger_wf s'" "list_all2 (reverses s') ls js" by blast
  from j(3) have "reverses s' p j" using appends_lines_key [OF js(1)] by (auto simp: reverses_def p)
  with js appends_lines_trans [OF j(1) js(1)] show ?case by (intro exI [of _ "j # js"]) simp
qed

text \<open>The join with the accounts loses no line, because every line has its account.\<close>

lemma mset_map_sort: "mset (map f (sort_key k xs)) = mset (map f xs)"
  by (simp only: mset_map mset_sort)

lemma mset_joined_lines:
  assumes "ledger_wf s"
  shows "mset (map fst (joined_lines s e)) = mset (entry_lines s e)"
    and "\<forall>(l, a) \<in> set (joined_lines s e). line_account s l = Some a"
proof -
  let ?f = "\<lambda>l. map_option (Pair l) (line_account s l)"
  have "line_account s l \<noteq> None" if "l \<in> set (entry_lines s e)" for l
    using assms that by (auto simp: ledger_wf_def entry_lines_def line_account_def row_by_None_iff)
  then have *: "\<forall>l \<in> set xs. line_account s l \<noteq> None \<Longrightarrow> map fst (List.map_filter ?f xs) = xs" for xs
    by (induction xs) (auto simp: map_filter_simps)
  have "\<forall>l \<in> set (entry_lines s e). line_account s l \<noteq> None"
    using \<open>\<And>l. l \<in> set (entry_lines s e) \<Longrightarrow> line_account s l \<noteq> None\<close> by blast
  from * [OF this] show "mset (map fst (joined_lines s e)) = mset (entry_lines s e)"
    by (simp only: joined_lines_def mset_map_sort)
  show "\<forall>(l, a) \<in> set (joined_lines s e). line_account s l = Some a"
    by (auto simp: joined_lines_def map_filter_def)
qed

lemma signed_opposite:
  "list_all2 (reverses s) ls js \<Longrightarrow> (\<forall>p \<in> set ls. jl_dir (fst p) \<in> {''DR'', ''CR''}) \<Longrightarrow>
   sum_list (map signed_amount js) = - sum_list (map (signed_amount \<circ> fst) ls)"
  by (induction rule: list_all2_induct) (auto simp: reverses_def signed_amount_def opposite_def)

lemma sum_joined_lines:
  assumes "ledger_wf s"
  shows "sum_list (map (f \<circ> fst) (joined_lines s e)) = (sum_list (map f (entry_lines s e)) :: int)"
proof -
  have "sum_list (map f (map fst (joined_lines s e))) = sum_mset (mset (map f (map fst (joined_lines s e))))"
    by (simp only: sum_mset_sum_list)
  also have "\<dots> = sum_mset (image_mset f (mset (entry_lines s e)))"
    using mset_joined_lines(1) [OF assms, of e] by (simp only: mset_map)
  finally show ?thesis by (simp add: sum_mset_sum_list [symmetric])
qed

lemma set_joined_lines: "ledger_wf s \<Longrightarrow> fst ` set (joined_lines s e) = set (entry_lines s e)"
  using mset_joined_lines(1) [of s e] by (metis set_map set_mset_mset)

definition with_reversed :: "uuid \<Rightarrow> entry_row list \<Rightarrow> entry_row list" where
  "with_reversed eid es = update_where (\<lambda>e. je_id e = eid) (\<lambda>e. e\<lparr>je_reversed := True\<rparr>) es"

lemma map_with_reversed [simp]:
  "map je_id (with_reversed e es) = map je_id es" "map je_payment (with_reversed e es) = map je_payment es"
  by (simp_all add: with_reversed_def map_update_where)

lemma image_with_reversed [simp]: "je_id ` set (with_reversed e es) = je_id ` set es"
  "je_payment ` set (with_reversed e es) = je_payment ` set es"
  by (metis list.set_map map_with_reversed(1)) (metis list.set_map map_with_reversed(2))

lemma ledger_ok_reversed:
  assumes "accounts s' = accounts s" "jlines s' = jlines s" "entries s' = with_reversed e (entries s)"
  shows "ledger_wf s' = ledger_wf s" and "ledger_ok s' = ledger_ok s"
proof -
  show wf: "ledger_wf s' = ledger_wf s" using assms by (simp add: ledger_wf_def)
  have b: "books_balance t = (\<forall>i \<in> je_id ` set (entries t). imbalance t i = 0)" for t
    by (simp add: books_balance_def)
  have "imbalance s' = imbalance s" using assms by (simp add: fun_eq_iff imbalance_def entry_lines_def)
  then have "books_balance s' = books_balance s"
    unfolding b assms(3) image_with_reversed by simp
  with wf show "ledger_ok s' = ledger_ok s" by (simp add: ledger_ok_def)
qed

lemma tx_set_reversed:
  assumes "tx_call (set_reversed eid) s = (r, s')"
  shows "accounts s' = accounts s" "jlines s' = jlines s" "r = Inr () \<Longrightarrow> entries s' = with_reversed eid (entries s)"
    "entries s' = with_reversed eid (entries s) \<or> entries s' = entries s"
proof -
  have "accounts s' = accounts s \<and> jlines s' = jlines s \<and> (r = Inr () \<longrightarrow> entries s' = with_reversed eid (entries s)) \<and>
    (entries s' = with_reversed eid (entries s) \<or> entries s' = entries s)"
    using assms by (cases rule: tx_call_cases) (auto simp: set_reversed_def with_reversed_def)
  then show "accounts s' = accounts s" "jlines s' = jlines s" "r = Inr () \<Longrightarrow> entries s' = with_reversed eid (entries s)"
    "entries s' = with_reversed eid (entries s) \<or> entries s' = entries s"
    by auto
qed

text \<open>What a successful reversal did: nothing to the books (the entry was reversed before), or one
  new entry whose lines mirror the lines of the original.\<close>

definition reversed_by :: "entry_row \<Rightarrow> string \<Rightarrow> string \<Rightarrow> uuid \<Rightarrow> line_row list \<Rightarrow> ledger_db \<Rightarrow> ledger_db \<Rightarrow> bool" where
  "reversed_by e pid desc rid js s s' \<longleftrightarrow>
     (\<exists>t. posted pid desc rid js s t \<and> accounts s' = accounts t \<and> jlines s' = jlines t \<and>
          entries s' = with_reversed (je_id e) (entries t)) \<and>
     list_all2 (reverses s') (joined_lines s (je_id e)) js"

lemma reversed_by_env:
  assumes "env_only s t" "env_only u v" "reversed_by e pid desc rid js t u"
  shows "reversed_by e pid desc rid js s v"
proof -
  have "joined_lines t (je_id e) = joined_lines s (je_id e)"
    using assms(1) by (simp add: joined_lines_def line_account_def [abs_def] entry_lines_def)
  with assms show ?thesis
    by (auto simp: reversed_by_def intro: posted_env [OF assms(1) env_only_refl])
qed

lemma line_key_cong: "accounts s' = accounts s \<Longrightarrow> line_key s' = line_key s"
  by (simp add: fun_eq_iff line_key_def line_account_def)

lemma write_reversal_effect:
  assumes "write_reversal e rev_pid reason (joined_lines s (je_id e)) s = (Inr x, s')" and "ledger_wf s"
  shows "\<exists>desc rid js. reversed_by e rev_pid desc rid js s s'"
proof -
  let ?desc = "reversal_desc reason"
  obtain r1 s1 where i: "tx_call (insert_entry rev_pid ?desc) s = (r1, s1)" by fastforce
  show ?thesis
  proof (cases r1)
    case (Inl err)
    have "tx_call (set_reversed (je_id e)) s1 = (Inl pg_aborted, s1)" if "ledger_isUniqueViolation err"
      using insert_entry_failed [OF i [unfolded Inl] that] by (simp add: tx_call_def)
    with assms(1) i Inl have False by (auto simp: write_reversal_def Let_def split: if_splits)
    then show ?thesis ..
  next
    case (Inr p)
    obtain rid c where p: "p = (rid, c)" by fastforce
    with i Inr assms(2) have po: "posted rev_pid ?desc rid [] s s1" using insert_entry_effect by blast
    obtain u s2 s3 where st: "insert_reversals rid (joined_lines s (je_id e)) s1 = (Inr u, s2)"
      "tx_call (set_reversed (je_id e)) s2 = (Inr (), s3)" "s' = s3"
      using assms(1) i Inr p by (auto simp: write_reversal_def Let_def split: prod.splits sum.splits)
    from po have "ledger_wf s1" by (simp add: posted_def)
    with st(1) obtain js where js: "appends_lines rid js s1 s2" "ledger_wf s2"
      "list_all2 (reverses s2) (joined_lines s (je_id e)) js"
      using insert_reversals_effect by blast
    have "posted rev_pid ?desc rid js s s2" using posted_appends po js by blast
    moreover have "reverses s' = reverses s2"
      using line_key_cong [OF tx_set_reversed(1) [OF st(2)]] st(3) by (simp add: fun_eq_iff reverses_def)
    ultimately have "reversed_by e rev_pid ?desc rid js s s'"
      using tx_set_reversed [OF st(2)] st(3) js(3) by (auto simp: reversed_by_def)
    then show ?thesis by blast
  qed
qed

lemma reverse_tx_effect:
  assumes "reverse_tx pid reason s = (Inr x, s')" and "ledger_wf s"
  shows "\<exists>e \<in> set (entries s). je_payment e = pid \<and>
    ((accounts s' = accounts s \<and> jlines s' = jlines s \<and>
      (entries s' = entries s \<or> entries s' = with_reversed (je_id e) (entries s)) \<and>
      (je_reversed e \<or> pid @ ''-rev'' \<in> je_payment ` set (entries s))) \<or>
     (\<not> je_reversed e \<and> (\<exists>desc rid js. reversed_by e (pid @ ''-rev'') desc rid js s s')))"
proof -
  obtain e s1 where s1: "tx_call (select_entry pid) s = (Inr e, s1)"
    using assms(1) by (auto simp: reverse_tx_def Let_def split: prod.splits sum.splits)
  then have e: "e \<in> set (entries s)" "je_payment e = pid" "env_only s s1" using tx_select_entry by blast+
  show ?thesis
  proof (cases "je_reversed e")
    case True
    with assms(1) s1 e show ?thesis by (auto simp: reverse_tx_def)
  next
    case False
    obtain r2 s2 where s2: "tx_call (select_entry (pid @ ''-rev'')) s1 = (r2, s2)" by fastforce
    then have e2: "env_only s1 s2" by (rule read_tx [rotated]) simp
    show ?thesis
    proof (cases r2)
      case (Inr d)
      then have "pid @ ''-rev'' \<in> je_payment ` set (entries s1)"
        using s2 tx_select_entry [of "pid @ ''-rev''" s1 d s2] image_eqI [of "pid @ ''-rev''" je_payment d] by simp
      moreover obtain r3 s3 where s3: "tx_call (set_reversed (je_id e)) s2 = (r3, s3)" by fastforce
      moreover have "s' = s3" using assms(1) s1 s2 s3 Inr False by (simp add: reverse_tx_def Let_def)
      ultimately show ?thesis using tx_set_reversed [OF s3] e e2 by auto
    next
      case (Inl err)
      obtain orig s3 where s3: "tx_call (\<lambda>t. (Inr (joined_lines t (je_id e)), t)) s2 = (Inr orig, s3)"
        "write_reversal e (pid @ ''-rev'') reason orig s3 = (Inr x, s')"
        using assms(1) s1 s2 Inl False by (auto simp: reverse_tx_def Let_def split: if_splits prod.splits sum.splits)
      from s3(1) have e3: "env_only s2 s3" by (rule read_tx [rotated]) simp
      from s3(1) have o: "orig = joined_lines s3 (je_id e)"
        by (cases rule: tx_call_cases) auto
      have es: "env_only s s3" using e(3) e2 e3 env_only_trans by blast
      then have "ledger_wf s3" using assms(2) by simp
      with s3(2) o obtain desc rid js where "reversed_by e (pid @ ''-rev'') desc rid js s3 s'"
        using write_reversal_effect by blast
      then have "reversed_by e (pid @ ''-rev'') desc rid js s s'"
        using reversed_by_env [OF es env_only_refl] by blast
      with e False show ?thesis by blast
    qed
  qed
qed

lemma reversed_by_ok:
  assumes "reversed_by e pid desc rid js s s'" and "ledger_ok s" and "e \<in> set (entries s)"
  shows "ledger_ok s'"
proof -
  have wf: "ledger_wf s" and b: "books_balance s" using assms(2) by (auto simp: ledger_ok_def)
  obtain t where t: "posted pid desc rid js s t" "accounts s' = accounts t" "jlines s' = jlines t"
    "entries s' = with_reversed (je_id e) (entries t)" and
    r: "list_all2 (reverses s') (joined_lines s (je_id e)) js"
    using assms(1) by (auto simp: reversed_by_def)
  have "\<forall>l \<in> set (entry_lines s (je_id e)). jl_dir l \<in> {''DR'', ''CR''}"
    using wf by (auto simp: ledger_wf_def entry_lines_def)
  then have "\<forall>p \<in> set (joined_lines s (je_id e)). jl_dir (fst p) \<in> {''DR'', ''CR''}"
    using set_joined_lines [OF wf, of "je_id e"] by (metis imageI)
  from signed_opposite [OF r this] sum_joined_lines [OF wf]
  have "sum_list (map signed_amount js) = - imbalance s (je_id e)" by (simp add: imbalance_def)
  with b assms(3) have "sum_list (map signed_amount js) = 0" by (simp add: books_balance_def)
  with t(1) wf b have "books_balance t" using books_balance_posted by blast
  then have "ledger_ok t" using t(1) by (simp add: ledger_ok_def posted_def)
  then show ?thesis using ledger_ok_reversed(2) [OF t(2,3,4)] by simp
qed

lemma ReverseEntry_effect:
  assumes "ReverseEntry pid reason s = (r, s')" and "ledger_wf s"
  obtains (failed) e where "r = Inl e" "env_only s s'"
        | (again) e where "r = Inr ()" "e \<in> set (entries s)" "je_payment e = pid" "accounts s' = accounts s" "jlines s' = jlines s"
            "entries s' = entries s \<or> entries s' = with_reversed (je_id e) (entries s)"
            "je_reversed e \<or> pid @ ''-rev'' \<in> je_payment ` set (entries s)"
        | (reversed) e desc rid js where "r = Inr ()" "e \<in> set (entries s)" "je_payment e = pid" "\<not> je_reversed e"
            "reversed_by e (pid @ ''-rev'') desc rid js s s'"
proof (cases "pid = []")
  case True
  with assms(1) show thesis by (intro failed) (auto simp: ReverseEntry_def)
next
  case False
  with assms(1) have "withSerializable (reverse_tx pid reason) s = (r, s')" by (simp add: ReverseEntry_def)
  then show thesis
  proof (cases rule: withSerializable_cases)
    case (rolled_back e)
    then show thesis by (rule failed)
  next
    case (committed s0 x s1 t u)
    have r: "r = Inr ()" using committed(5) by simp
    from committed(1) assms(2) have "ledger_wf s0" by simp
    from reverse_tx_effect [OF committed(3) this] obtain e where e: "e \<in> set (entries s)" "je_payment e = pid"
      and c: "(accounts s1 = accounts s \<and> jlines s1 = jlines s \<and>
        (entries s1 = entries s \<or> entries s1 = with_reversed (je_id e) (entries s)) \<and>
        (je_reversed e \<or> pid @ ''-rev'' \<in> je_payment ` set (entries s))) \<or>
       (\<not> je_reversed e \<and> (\<exists>desc rid js. reversed_by e (pid @ ''-rev'') desc rid js s0 s1))"
      using committed(1) by auto
    from c show thesis
    proof (elim disjE conjE exE)
      fix desc rid js assume "\<not> je_reversed e" "reversed_by e (pid @ ''-rev'') desc rid js s0 s1"
      then show thesis
        using reversed [OF r e] reversed_by_env [OF committed(1,4)] by blast
    qed (use again [OF r e] committed(4) in auto)
  qed
qed

lemma ReverseEntry_ok:
  assumes "ReverseEntry pid reason s = (r, s')" and "ledger_ok s"
  shows "ledger_ok s'"
proof -
  have wf: "ledger_wf s" using assms(2) by (simp add: ledger_ok_def)
  from assms(1) wf show ?thesis
  proof (cases rule: ReverseEntry_effect)
    case (failed e)
    with assms(2) show ?thesis by simp
  next
    case (again e)
    from again(6) show ?thesis
    proof
      assume "entries s' = entries s"
      with again(4,5) assms(2) show ?thesis
        by (simp add: ledger_ok_def ledger_wf_def books_balance_def imbalance_def entry_lines_def)
    next
      assume "entries s' = with_reversed (je_id e) (entries s)"
      from ledger_ok_reversed(2) [OF again(4,5) this] assms(2) show ?thesis by blast
    qed
  next
    case (reversed e desc rid js)
    with assms(2) show ?thesis using reversed_by_ok by blast
  qed
qed

section \<open>Balances\<close>

definition lines_at :: "ledger_db \<Rightarrow> string \<times> string \<times> string \<Rightarrow> line_row list \<Rightarrow> line_row list" where
  "lines_at s k ls = filter (\<lambda>l. line_key s l = Some k) ls"

definition credits :: "line_row list \<Rightarrow> int" where
  "credits ls = sum_list (map credit_amount ls)"

lemma credits_simps [simp]: "credits [] = 0" "credits (l # ls) = credit_amount l + credits ls"
  "credits (xs @ ys) = credits xs + credits ys"
  by (simp_all add: credits_def)

lemma lines_at_append [simp]: "lines_at s k (xs @ ys) = lines_at s k xs @ lines_at s k ys"
  by (simp add: lines_at_def)

text \<open>An account's balance is the sum over the lines booked on it.\<close>

lemma sum_balance_lines:
  assumes "ledger_wf s"
  shows "sum_balance s k = credits (lines_at s k (jlines s))"
proof (cases "row_by account_key k (accounts s)")
  case None
  then have "lines_at s k (jlines s) = []"
    by (auto simp: lines_at_def filter_empty_conv line_key_def line_account_def row_by_None_iff dest: row_by_SomeD)
  with None assms show ?thesis by (simp add: sum_balance_def filter_unique_key ledger_wf_def)
next
  case (Some a)
  then have a: "a \<in> set (accounts s)" "account_key a = k" by (auto dest: row_by_SomeD)
  have "jl_account l = acc_id a \<longleftrightarrow> line_key s l = Some k" for l
  proof
    assume "jl_account l = acc_id a"
    then have "line_account s l = Some a"
      using assms a(1) by (simp add: line_account_def row_by_SomeI ledger_wf_def)
    with a(2) show "line_key s l = Some k" by (simp add: line_key_def)
  next
    assume "line_key s l = Some k"
    then obtain b where b: "row_by acc_id (jl_account l) (accounts s) = Some b" "account_key b = k"
      by (auto simp: line_key_def line_account_def)
    then have "b \<in> set (accounts s)" "acc_id b = jl_account l" by (auto dest: row_by_SomeD)
    moreover have "row_by account_key (account_key b) (accounts s) = Some b"
      using assms \<open>b \<in> set (accounts s)\<close> by (intro row_by_SomeI) (auto simp: ledger_wf_def)
    ultimately show "jl_account l = acc_id a" using Some b(2) by simp
  qed
  then have "filter (\<lambda>l. jl_account l = acc_id a) (jlines s) = lines_at s k (jlines s)"
    by (simp add: lines_at_def)
  with Some assms show ?thesis by (simp add: sum_balance_def filter_unique_key ledger_wf_def credits_def)
qed

text \<open>Accounts are only ever added, so a line keeps its account.\<close>

lemma line_key_extends:
  assumes "accounts s' = accounts s @ new" and "ledger_wf s" and "l \<in> set (jlines s)"
  shows "line_key s' l = line_key s l"
proof -
  have "jl_account l \<in> acc_id ` set (accounts s)" using assms(2,3) by (simp add: ledger_wf_def)
  then obtain a where "row_by acc_id (jl_account l) (accounts s) = Some a"
    by (metis not_None_eq row_by_None_iff)
  with assms(1) show ?thesis by (simp add: line_key_def line_account_def row_by_append)
qed

lemma sum_balance_extends:
  assumes "accounts s' = accounts s @ new" and "jlines s' = jlines s @ js" and "ledger_wf s" and "ledger_wf s'"
  shows "sum_balance s' k = sum_balance s k + credits (lines_at s' k js)"
proof -
  have "lines_at s' k (jlines s) = lines_at s k (jlines s)"
    using line_key_extends [OF assms(1,3)] by (auto simp: lines_at_def intro: filter_cong)
  with assms show ?thesis by (simp add: sum_balance_lines)
qed

text \<open>The abstract books: a balance per account. Posting adds the credits of its lines.\<close>

definition book_delta :: "lineInput list \<Rightarrow> string \<times> string \<times> string \<Rightarrow> int" where
  "book_delta lines k = sum_list (map li_credit (filter (\<lambda>l. li_key l = k) lines))"

lemma credits_matches:
  "list_all2 (line_matches s) lines js \<Longrightarrow> credits (lines_at s k js) = book_delta lines k"
  by (induction rule: list_all2_induct)
     (auto simp: lines_at_def book_delta_def line_matches_def li_credit_def credit_amount_def)

lemma posted_balance:
  assumes "posted pid desc eid js s s'" and "ledger_wf s" and "list_all2 (line_matches s') lines js"
  shows "sum_balance s' k = sum_balance s k + book_delta lines k"
proof -
  from assms(1) obtain new where "accounts s' = accounts s @ new" "jlines s' = jlines s @ js" "ledger_wf s'"
    by (auto simp: posted_def)
  then show ?thesis using sum_balance_extends assms(2) credits_matches [OF assms(3)] by simp
qed

lemma credits_reverses:
  "list_all2 (reverses s) ls js \<Longrightarrow> \<forall>p \<in> set ls. jl_dir (fst p) \<in> {''DR'', ''CR''} \<Longrightarrow>
   credits (lines_at s k js) = - sum_list (map (credit_amount \<circ> fst) (filter (\<lambda>p. account_key (snd p) = k) ls))"
  by (induction rule: list_all2_induct)
     (auto simp: lines_at_def reverses_def credit_amount_def opposite_def)

lemma joined_lines_dirs:
  assumes "ledger_wf s"
  shows "\<forall>p \<in> set (joined_lines s e). jl_dir (fst p) \<in> {''DR'', ''CR''}"
proof -
  have "\<forall>l \<in> set (entry_lines s e). jl_dir l \<in> {''DR'', ''CR''}"
    using assms by (auto simp: ledger_wf_def entry_lines_def)
  then show ?thesis using set_joined_lines [OF assms, of e] by (metis imageI)
qed

lemma filter_joined_lines:
  assumes "ledger_wf s"
  shows "sum_list (map (f \<circ> fst) (filter (\<lambda>p. account_key (snd p) = k) (joined_lines s e))) =
    (sum_list (map f (lines_at s k (entry_lines s e))) :: int)"
proof -
  let ?g = "\<lambda>l. if line_key s l = Some k then f l else 0"
  have sum_filter: "sum_list (map h (filter P xs)) = sum_list (map (\<lambda>x. if P x then h x else 0) xs)"
    for h :: "'b \<Rightarrow> int" and P xs by (induction xs) auto
  have "\<forall>p \<in> set (joined_lines s e). (account_key (snd p) = k) = (line_key s (fst p) = Some k)"
    using mset_joined_lines(2) [OF assms, of e] by (auto simp: line_key_def)
  then have "map (\<lambda>p. if account_key (snd p) = k then (f \<circ> fst) p else 0) (joined_lines s e) =
      map (?g \<circ> fst) (joined_lines s e)" by (intro map_cong) auto
  with sum_joined_lines [OF assms, of ?g e] show ?thesis
    by (simp only: sum_filter lines_at_def)
qed

lemma reversed_by_balance:
  assumes "reversed_by e pid desc rid js s s'" and "ledger_wf s"
  shows "sum_balance s' k = sum_balance s k - credits (lines_at s k (entry_lines s (je_id e)))"
proof -
  from assms(1) obtain t where t: "posted pid desc rid js s t" "accounts s' = accounts t" "jlines s' = jlines t"
    "entries s' = with_reversed (je_id e) (entries t)"
    and r: "list_all2 (reverses s') (joined_lines s (je_id e)) js" by (auto simp: reversed_by_def)
  from t(1) obtain new where n: "accounts t = accounts s @ new" "jlines t = jlines s @ js" "ledger_wf t"
    by (auto simp: posted_def)
  have "ledger_wf s'" using ledger_ok_reversed(1) [OF t(2,3,4)] n(3) by simp
  with n t have "sum_balance s' k = sum_balance s k + credits (lines_at s' k js)"
    using sum_balance_extends [of s' s new js] assms(2) by simp
  with credits_reverses [OF r joined_lines_dirs [OF assms(2)], of k] filter_joined_lines [OF assms(2)]
  show ?thesis by (simp add: credits_def)
qed

text \<open>The trial balance: over all accounts, debits equal credits.\<close>

lemma sum_by_key:
  fixes f :: "'a \<Rightarrow> int"
  assumes "distinct ks" and "\<forall>x \<in> set xs. key x \<in> set ks"
  shows "sum_list (map f xs) = (\<Sum>k \<leftarrow> ks. sum_list (map f (filter (\<lambda>x. key x = k) xs)))"
  using assms(2)
proof (induction xs)
  case (Cons x xs)
  have "(\<Sum>k \<leftarrow> ks. sum_list (map f (filter (\<lambda>x. key x = k) (x # xs)))) =
      (\<Sum>k \<leftarrow> ks. (if key x = k then f x else 0) + sum_list (map f (filter (\<lambda>x. key x = k) xs)))"
    by (intro arg_cong [of _ _ sum_list] map_cong) auto
  also have "\<dots> = (\<Sum>k \<leftarrow> ks. if key x = k then f x else 0) + (\<Sum>k \<leftarrow> ks. sum_list (map f (filter (\<lambda>x. key x = k) xs)))"
    by (rule sum_list_addf)
  also have "(\<Sum>k \<leftarrow> ks. if key x = k then f x else 0) = f x"
    using assms(1) Cons.prems by (simp add: sum_list_distinct_conv_sum_set sum.delta)
  finally show ?case using Cons by simp
qed simp

definition trial_balance :: "ledger_db \<Rightarrow> int" where
  "trial_balance s = (\<Sum>a \<leftarrow> accounts s. sum_balance s (account_key a))"

lemma trial_balance_zero:
  assumes "ledger_ok s"
  shows "trial_balance s = 0"
proof -
  have wf: "ledger_wf s" and b: "books_balance s" using assms by (auto simp: ledger_ok_def)
  have "credits (jlines s) = (\<Sum>i \<leftarrow> map je_id (entries s). sum_list (map credit_amount (entry_lines s i)))"
    unfolding credits_def entry_lines_def using wf by (intro sum_by_key) (auto simp: ledger_wf_def)
  moreover have "sum_list (map credit_amount ls) = - sum_list (map signed_amount ls)" for ls
    by (induction ls) (auto simp: credit_amount_def signed_amount_def)
  ultimately have c: "credits (jlines s) = 0"
    using b by (simp add: books_balance_def imbalance_def comp_def sum_list_0 cong: map_cong)
  have "credits (jlines s) =
      (\<Sum>i \<leftarrow> map acc_id (accounts s). sum_list (map credit_amount (filter (\<lambda>l. jl_account l = i) (jlines s))))"
    unfolding credits_def using wf by (intro sum_by_key) (auto simp: ledger_wf_def)
  also have "\<dots> = trial_balance s"
  proof -
    have "sum_balance s (account_key a) = sum_list (map credit_amount (filter (\<lambda>l. jl_account l = acc_id a) (jlines s)))"
      if "a \<in> set (accounts s)" for a
      using wf that by (simp add: sum_balance_def filter_unique_key row_by_SomeI ledger_wf_def)
    then show ?thesis by (simp add: trial_balance_def comp_def cong: map_cong)
  qed
  finally show ?thesis using c by simp
qed

section \<open>Posting without faults\<close>

text \<open>The random source yields \<open>m\<close> more identifiers that no table has.\<close>

definition ledger_ids :: "ledger_db \<Rightarrow> uuid set" where
  "ledger_ids s = acc_id ` set (accounts s) \<union> je_id ` set (entries s) \<union> jl_id ` set (jlines s)"

definition fresh_supply :: "nat \<Rightarrow> ledger_db \<Rightarrow> bool" where
  "fresh_supply m s \<longleftrightarrow> inj_on (uuid_src s) {n_uuid s ..< n_uuid s + m} \<and>
     uuid_src s ` {n_uuid s ..< n_uuid s + m} \<inter> ledger_ids s = {}"

definition calm :: "nat \<Rightarrow> ledger_db \<Rightarrow> bool" where
  "calm m s \<longleftrightarrow> script s = [] \<and> \<not> aborted s \<and> fresh_supply m s"

lemma calm_less:
  assumes "calm n s" and "m \<le> n"
  shows "calm m s"
proof -
  have "{n_uuid s ..< n_uuid s + m} \<subseteq> {n_uuid s ..< n_uuid s + n}" using assms(2) by auto
  with assms(1) show ?thesis unfolding calm_def fresh_supply_def by (blast intro: inj_on_subset)
qed

lemma calm_next: "calm (Suc m) s \<Longrightarrow> uuid_src s (n_uuid s) \<notin> ledger_ids s"
  by (force simp: calm_def fresh_supply_def)

lemma calm_consume:
  assumes "calm (Suc m) s" and "script s' = []" "\<not> aborted s'" "uuid_src s' = uuid_src s" "n_uuid s' = Suc (n_uuid s)"
    and "ledger_ids s' \<subseteq> insert (uuid_src s (n_uuid s)) (ledger_ids s)"
  shows "calm m s'"
proof -
  let ?R = "{n_uuid s ..< n_uuid s + Suc m}" and ?R' = "{Suc (n_uuid s) ..< Suc (n_uuid s) + m}"
  have sub: "?R' \<subseteq> ?R" "n_uuid s \<in> ?R" "n_uuid s \<notin> ?R'" by auto
  have i: "inj_on (uuid_src s) ?R" and d: "uuid_src s ` ?R \<inter> ledger_ids s = {}"
    using assms(1) by (auto simp: calm_def fresh_supply_def)
  have "uuid_src s (n_uuid s) \<notin> uuid_src s ` ?R'"
    using inj_on_image_mem_iff [OF i sub(2,1)] sub(3) by blast
  moreover have "uuid_src s ` ?R' \<inter> ledger_ids s = {}" using d sub(1) by blast
  ultimately have "uuid_src s ` ?R' \<inter> insert (uuid_src s (n_uuid s)) (ledger_ids s) = {}" by simp
  moreover have "A \<inter> C = {}" if "A \<inter> B = {}" "C \<subseteq> B" for A B C :: "uuid set" using that by blast
  ultimately have "uuid_src s ` ?R' \<inter> ledger_ids s' = {}" using assms(6) by blast
  then show ?thesis using assms(2-5) inj_on_subset [OF i sub(1)] by (simp add: calm_def fresh_supply_def)
qed

lemma ensureAccount_succeeds:
  assumes "calm (Suc m) s"
  shows "\<exists>a s'. ensureAccount typ owner cur s = (Inr a, s') \<and> calm m s' \<and> a \<in> acc_id ` set (accounts s') \<and>
    entries s' = entries s"
proof (cases "row_by account_key (typ, owner, cur) (accounts s)")
  case (Some a)
  then have "a \<in> set (accounts s)" by (auto dest: row_by_SomeD)
  with Some assms calm_less [OF assms, of m] show ?thesis
    by (simp add: ensureAccount_def upsert_account_def tx_call_def calm_def)
next
  case None
  let ?i = "uuid_src s (n_uuid s)"
  let ?s = "s\<lparr>n_uuid := Suc (n_uuid s),
    accounts := accounts s @ [\<lparr>acc_id = ?i, acc_type = typ, acc_owner = owner, acc_currency = cur\<rparr>]\<rparr>"
  have c: "script s = []" "\<not> aborted s" using assms by (auto simp: calm_def)
  have "?i \<notin> acc_id ` set (accounts s)" using calm_next [OF assms] by (auto simp: ledger_ids_def)
  then have "ensureAccount typ owner cur s = (Inr ?i, ?s)"
    using None c by (simp add: ensureAccount_def upsert_account_def tx_call_def fresh_uuid_def)
  moreover have "calm m ?s" using assms c by (intro calm_consume [OF assms]) (auto simp: ledger_ids_def)
  ultimately show ?thesis by simp
qed

lemma insert_line_succeeds:
  assumes "calm (Suc m) s" and "eid \<in> je_id ` set (entries s)" and "aid \<in> acc_id ` set (accounts s)"
    and "dir \<in> {''DR'', ''CR''}" and "0 < amt"
  shows "\<exists>i s'. tx_call (insert_line eid aid dir amt) s = (Inr i, s') \<and> calm m s' \<and> entries s' = entries s"
proof -
  let ?i = "uuid_src s (n_uuid s)"
  let ?s = "s\<lparr>n_uuid := Suc (n_uuid s), jlines := jlines s @
    [\<lparr>jl_id = ?i, jl_entry = eid, jl_account = aid, jl_dir = dir, jl_amount = amt, jl_created = now s\<rparr>]\<rparr>"
  have c: "script s = []" "\<not> aborted s" using assms by (auto simp: calm_def)
  have i: "?i \<notin> jl_id ` set (jlines s)" using calm_next [OF assms(1)] by (auto simp: ledger_ids_def)
  have "insert_line eid aid dir amt s = (Inr ?i, ?s)"
    using i assms(2-5) by (auto simp: insert_line_def fresh_uuid_def)
  then have "tx_call (insert_line eid aid dir amt) s = (Inr ?i, ?s)" using c by (rule tx_call_no_fault [rotated 2])
  moreover have "calm m ?s" using c by (intro calm_consume [OF assms(1)]) (auto simp: ledger_ids_def)
  ultimately show ?thesis by simp
qed

lemma insert_lines_succeeds:
  assumes "calm (2 * length ls + m) s" and "eid \<in> je_id ` set (entries s)"
    and "\<forall>l \<in> set ls. li_direction l \<in> {''DR'', ''CR''} \<and> 0 < li_amountPence l"
  shows "\<exists>out s'. insert_lines eid ls s = (Inr out, s') \<and> calm m s'"
  using assms
proof (induction ls arbitrary: s)
  case (Cons l ls)
  have "calm (Suc (Suc (2 * length ls + m))) s" using Cons.prems(1) by simp
  from ensureAccount_succeeds [OF this] obtain aid s1 where
    e: "ensureAccount (li_accountType l) (li_ownerRef l) (li_currency l) s = (Inr aid, s1)"
    "calm (Suc (2 * length ls + m)) s1" "aid \<in> acc_id ` set (accounts s1)" "entries s1 = entries s" by blast
  obtain i s2 where
    i: "tx_call (insert_line eid aid (li_direction l) (li_amountPence l)) s1 = (Inr i, s2)"
    "calm (2 * length ls + m) s2" "entries s2 = entries s"
    using insert_line_succeeds [OF e(2) _ e(3), of eid "li_direction l" "li_amountPence l"] Cons.prems(2,3) e(4)
    by auto
  obtain out s' where "insert_lines eid ls s2 = (Inr out, s')" "calm m s'"
    using Cons.IH [OF i(2)] Cons.prems(2,3) i(3) by auto
  with e(1) i(1) show ?case by simp
qed auto

lemma post_tx_succeeds:
  assumes "calm (Suc (2 * length ls + m)) s" and "pid \<notin> je_payment ` set (entries s)"
    and "\<forall>l \<in> set ls. li_direction l \<in> {''DR'', ''CR''} \<and> 0 < li_amountPence l"
  shows "\<exists>x s'. post_tx pid desc ls s = (Inr x, s') \<and> calm m s'"
proof -
  let ?i = "uuid_src s (n_uuid s)"
  let ?s = "s\<lparr>n_uuid := Suc (n_uuid s), entries := entries s @
    [\<lparr>je_id = ?i, je_payment = pid, je_desc = desc, je_reversed = False, je_created = now s\<rparr>]\<rparr>"
  have c: "script s = []" "\<not> aborted s" using assms by (auto simp: calm_def)
  have "select_entry pid s = (Inl ErrNoRows, s)"
    using assms(2) by (simp add: select_entry_def row_by_None_iff [THEN iffD2])
  then have l: "loadEntryByPaymentID True pid s = (Inl ErrNoRows, s)"
    using c by (simp add: loadEntryByPaymentID_def q_call_def tx_call_no_rows)
  have "?i \<notin> je_id ` set (entries s)" using calm_next [OF assms(1)] by (auto simp: ledger_ids_def)
  then have "insert_entry pid desc s = (Inr (?i, now s), ?s)"
    using assms(2) by (simp add: insert_entry_def fresh_uuid_def)
  then have i: "tx_call (insert_entry pid desc) s = (Inr (?i, now s), ?s)"
    using c by (rule tx_call_no_fault [rotated 2])
  have "calm (2 * length ls + m) ?s" using c by (intro calm_consume [OF assms(1)]) (auto simp: ledger_ids_def)
  from insert_lines_succeeds [OF this _ assms(3), of ?i] obtain out s' where
    "insert_lines ?i ls ?s = (Inr out, s')" "calm m s'" by auto
  with l i show ?thesis by (simp add: post_tx_def)
qed

text \<open>A request the validation accepts: the lines of one currency with positive amounts.\<close>

definition valid_line :: "string \<Rightarrow> lineInput \<Rightarrow> bool" where
  "valid_line cur l \<longleftrightarrow> li_accountType l \<noteq> [] \<and> TrimSpace (li_ownerRef l) \<noteq> [] \<and>
     li_direction l \<in> {''DR'', ''CR''} \<and> 0 < li_amountPence l \<and> length cur = 3 \<and>
     ToUpper (TrimSpace (li_currency l)) = cur"

definition side_total :: "string \<Rightarrow> lineInput list \<Rightarrow> int" where
  "side_total dir ls = sum_list (map li_amountPence (filter (\<lambda>l. li_direction l = dir) ls))"

lemma side_total_nonneg: "\<forall>l \<in> set ls. valid_line cur l \<Longrightarrow> 0 \<le> side_total dir ls"
  by (induction ls) (auto simp: side_total_def valid_line_def)

lemma validate_lines_accepts:
  assumes "\<forall>l \<in> set ls. valid_line cur l" and "c0 = [] \<or> c0 = cur"
    and "0 \<le> d" "0 \<le> c" "d + side_total ''DR'' ls < 2 ^ 63" "c + side_total ''CR'' ls < 2 ^ 63"
  shows "validate_lines i d c c0 ls =
    Inr (d + side_total ''DR'' ls, c + side_total ''CR'' ls, map (\<lambda>l. l\<lparr>li_currency := cur\<rparr>) ls)"
  using assms
proof (induction ls arbitrary: i d c c0)
  case Nil
  then show ?case by (simp add: side_total_def)
next
  case (Cons l ls)
  have v: "valid_line cur l" and vs: "\<forall>l \<in> set ls. valid_line cur l" using Cons.prems(1) by auto
  have n: "0 \<le> side_total ''DR'' ls" "0 \<le> side_total ''CR'' ls" using side_total_nonneg [OF vs] by auto
  define a where "a = li_amountPence l"
  have a: "0 < a" using v by (simp add: valid_line_def a_def)
  define d' c' where "d' = (if li_direction l = ''DR'' then d + a else d)"
    and "c' = (if li_direction l = ''CR'' then c + a else c)"
  have st: "d' + side_total ''DR'' ls = d + side_total ''DR'' (l # ls)"
    "c' + side_total ''CR'' ls = c + side_total ''CR'' (l # ls)"
    by (simp_all add: d'_def c'_def side_total_def a_def)
  then have b: "0 \<le> d'" "0 \<le> c'" "d' + side_total ''DR'' ls < 2 ^ 63" "c' + side_total ''CR'' ls < 2 ^ 63"
    using Cons.prems a by (simp_all add: d'_def c'_def)
  then have "is_int64 d'" "is_int64 c'" using n by (auto simp: is_int64_def)
  then have w: "(if li_direction l = ''DR'' then add64 d a else d) = d'"
    "(if li_direction l = ''CR'' then add64 c a else c) = c'"
    by (auto simp: d'_def c'_def add64_id split: if_splits)
  have "validate_lines (Suc i) d' c' cur ls =
    Inr (d' + side_total ''DR'' ls, c' + side_total ''CR'' ls, map (\<lambda>l. l\<lparr>li_currency := cur\<rparr>) ls)"
    using vs b by (intro Cons.IH) auto
  moreover have "validate_lines i d c c0 (l # ls) =
    (case validate_lines (Suc i) d' c' cur ls of Inl err \<Rightarrow> Inl err
      | Inr (d, c, out) \<Rightarrow> Inr (d, c, l\<lparr>li_currency := cur\<rparr> # out))"
    using v Cons.prems(2) w by (auto simp: valid_line_def Let_def a_def [symmetric])
  ultimately show ?case using st by simp
qed

lemma signed_matches:
  "list_all2 (line_matches s) ls js \<Longrightarrow> \<forall>l \<in> set ls. li_direction l \<in> {''DR'', ''CR''} \<Longrightarrow>
   sum_list (map signed_amount js) = side_total ''DR'' ls - side_total ''CR'' ls"
  by (induction rule: list_all2_induct) (auto simp: line_matches_def signed_amount_def side_total_def)

lemma trg_passes:
  assumes "posted pid desc eid js t u" and "ledger_wf t" and "sum_list (map signed_amount js) = 0"
  shows "trg_journal_balance t u = None"
proof -
  have j: "entry_lines u eid = js" using assms(1,2) by (rule entry_lines_posted_new)
  then have "check_journal_balance u eid = None"
    using assms(3) by (simp add: check_journal_balance_def imbalance_def is_int64_def)
  then have "List.map_filter (\<lambda>l. check_journal_balance u (jl_entry l)) js = []"
    using assms(1) by (auto simp: map_filter_def filter_empty_conv posted_def)
  then show ?thesis using assms(1) by (simp add: trg_journal_balance_def posted_def)
qed

lemma PostDoubleEntry_succeeds:
  assumes "ledger_wf s" and "script s = []" and "fresh_supply (Suc (2 * length ls)) s"
    and "pid \<noteq> []" and "pid \<notin> je_payment ` set (entries s)"
    and "2 \<le> length ls" and "\<forall>l \<in> set ls. valid_line cur l"
    and "side_total ''DR'' ls = side_total ''CR'' ls" and "side_total ''DR'' ls < 2 ^ 63"
  shows "\<exists>x s'. PostDoubleEntry pid desc ls s = (Inr x, s') \<and>
    (\<forall>k. sum_balance s' k = sum_balance s k + book_delta (map (\<lambda>l. l\<lparr>li_currency := cur\<rparr>) ls) k)"
proof -
  let ?n = "map (\<lambda>l. l\<lparr>li_currency := cur\<rparr>) ls" and ?s = "s\<lparr>aborted := False\<rparr>"
  have side: "side_total d ?n = side_total d ls" for d by (simp add: side_total_def filter_map comp_def)
  have dirs: "\<forall>l \<in> set ?n. li_direction l \<in> {''DR'', ''CR''} \<and> 0 < li_amountPence l"
    using assms(7) by (auto simp: valid_line_def)
  have v: "validate_lines 0 0 0 [] ls = Inr (side_total ''DR'' ls, side_total ''CR'' ls, ?n)"
    using validate_lines_accepts [of ls cur "[]" 0 0 0] assms(7-9) by simp
  have "calm (Suc (2 * length ?n + 0)) ?s"
    using assms(2,3) by (simp add: calm_def fresh_supply_def ledger_ids_def)
  from post_tx_succeeds [OF this _ dirs, of pid desc] assms(5) obtain x s1 where
    p: "post_tx pid desc ?n ?s = (Inr x, s1)" and c: "calm 0 s1" by auto
  have wf: "ledger_wf ?s" using assms(1) by (simp add: ledger_wf_def)
  from post_tx_effect [OF p wf] assms(5) obtain eid js where
    j: "posted pid desc eid js ?s s1" "list_all2 (line_matches s1) ?n js" by auto
  have "sum_list (map signed_amount js) = 0"
    using signed_matches [OF j(2)] dirs side assms(8) by simp
  then have t: "trg_journal_balance ?s s1 = None" using trg_passes j(1) wf by blast
  then have "trg_journal_balance s s1 = None" by (simp add: trg_journal_balance_def)
  then have "BeginTxFunc trg_journal_balance (post_tx pid desc ?n) s = (Inr x, s1)"
    using p c assms(2) by (simp add: BeginTxFunc_def commit_tx_def calm_def)
  then have "withSerializable (post_tx pid desc ?n) s = (Inr x, s1)"
    by (simp add: withSerializable_def numeral_eq_Suc)
  then have "PostDoubleEntry pid desc ls s = (Inr x, s1)"
    using assms(4,6,8) v by (simp add: PostDoubleEntry_def)
  moreover have "sum_balance s1 k = sum_balance s k + book_delta ?n k" for k
    using posted_balance [OF j(1) wf j(2)] by (simp add: sum_balance_def)
  ultimately show ?thesis by blast
qed

section \<open>The journal's contract\<close>

text \<open>
  What a client of the ledger relies on, over the operations it calls: \<open>posted_ref s p\<close> says that
  payment \<open>p\<close> has an entry, \<open>balance\<close> are the abstract books. A posting that fails changes nothing,
  one for a payment that has an entry changes nothing, and any other adds the deltas of its lines.
\<close>

locale journal =
  fixes ok :: "'s \<Rightarrow> bool"
    and has_entry :: "'s \<Rightarrow> 'p \<Rightarrow> bool"
    and balance :: "'s \<Rightarrow> 'k \<Rightarrow> int"
    and post :: "'p \<Rightarrow> 'd \<Rightarrow> 'l \<Rightarrow> 's \<Rightarrow> ('e + 'a) \<times> 's"
    and delta :: "'l \<Rightarrow> 'k \<Rightarrow> int"
  assumes post_ok: "ok s \<Longrightarrow> post p d ls s = (r, s') \<Longrightarrow> ok s'"
    and post_failed: "ok s \<Longrightarrow> post p d ls s = (Inl e, s') \<Longrightarrow> balance s' = balance s \<and> has_entry s' = has_entry s"
    and post_again: "ok s \<Longrightarrow> has_entry s p \<Longrightarrow> post p d ls s = (r, s') \<Longrightarrow>
        balance s' = balance s \<and> has_entry s' = has_entry s"
    and post_new: "ok s \<Longrightarrow> \<not> has_entry s p \<Longrightarrow> post p d ls s = (Inr x, s') \<Longrightarrow>
        (\<forall>k. balance s' k = balance s k + delta ls k) \<and> has_entry s' = (has_entry s)(p := True)"
begin

text \<open>A client that sends the same posting again and again, whatever each attempt returned:
  the books take it at most once, and exactly once when one attempt succeeded.\<close>

primrec attempts :: "nat \<Rightarrow> 'p \<Rightarrow> 'd \<Rightarrow> 'l \<Rightarrow> 's \<Rightarrow> ('e + 'a) list \<times> 's" where
  "attempts 0 p d ls s = ([], s)"
| "attempts (Suc n) p d ls s =
     (let (r, s1) = post p d ls s; (rs, s2) = attempts n p d ls s1 in (r # rs, s2))"

lemma attempts_posted:
  "ok s \<Longrightarrow> has_entry s p \<Longrightarrow> attempts n p d ls s = (rs, s') \<Longrightarrow>
   balance s' = balance s \<and> has_entry s' = has_entry s"
proof (induction n arbitrary: s rs)
  case (Suc n)
  obtain r s1 where p: "post p d ls s = (r, s1)" by fastforce
  obtain rs1 where a: "attempts n p d ls s1 = (rs1, s')"
    using Suc.prems(3) p by (auto split: prod.splits)
  from post_again [OF Suc.prems(1,2) p] have "balance s1 = balance s" "has_entry s1 = has_entry s" by auto
  with Suc.IH [OF post_ok [OF Suc.prems(1) p] _ a] Suc.prems(2) show ?case by simp
qed simp

lemma attempts_once:
  assumes "ok s" and "\<not> has_entry s p" and "attempts n p d ls s = (rs, s')"
  shows "balance s' k = balance s k + (if \<exists>x. Inr x \<in> set rs then delta ls k else 0)"
  using assms
proof (induction n arbitrary: s rs)
  case (Suc n)
  obtain r s1 where p: "post p d ls s = (r, s1)" by fastforce
  obtain rs1 where a: "attempts n p d ls s1 = (rs1, s')" "rs = r # rs1"
    using Suc.prems(3) p by (auto split: prod.splits)
  have ok1: "ok s1" using post_ok Suc.prems(1) p by blast
  show ?case
  proof (cases r)
    case (Inl e)
    with post_failed [OF Suc.prems(1)] p have b: "balance s1 = balance s" "has_entry s1 = has_entry s" by auto
    with Suc.IH [OF ok1 _ a(1)] Suc.prems(2) have "balance s' k = balance s k + (if \<exists>x. Inr x \<in> set rs1 then delta ls k else 0)"
      by simp
    with a(2) Inl show ?thesis by simp
  next
    case (Inr x)
    with post_new [OF Suc.prems(1,2)] p have "balance s1 k = balance s k + delta ls k" "has_entry s1 p" by auto
    with attempts_posted [OF ok1 _ a(1)] Inr a(2) show ?thesis by auto
  qed
qed simp

end

definition normalise :: "lineInput \<Rightarrow> lineInput" where
  "normalise l = l\<lparr>li_currency := ToUpper (TrimSpace (li_currency l))\<rparr>"

lemma validate_lines_normalise:
  "validate_lines i d c cur ls = Inr (d', c', out) \<Longrightarrow> out = map normalise ls"
  by (induction ls arbitrary: i d c cur d' c' out)
     (auto simp: normalise_def Let_def split: if_splits sum.splits)

definition has_entry :: "ledger_db \<Rightarrow> string \<Rightarrow> bool" where
  "has_entry s pid \<longleftrightarrow> pid \<in> je_payment ` set (entries s)"

lemma has_entry_env [simp]: "env_only s s' \<Longrightarrow> has_entry s' = has_entry s"
  by (simp add: fun_eq_iff has_entry_def)

definition delta_of :: "lineInput list \<Rightarrow> string \<times> string \<times> string \<Rightarrow> int" where
  "delta_of ls = book_delta (map normalise ls)"

lemma PostDoubleEntry_again:
  assumes "ledger_wf s" and "has_entry s pid" and "PostDoubleEntry pid desc ls s = (r, s')"
  shows "env_only s s'"
  using assms(3,1)
proof (cases rule: PostDoubleEntry_effect)
  case (entry x eid js norm d)
  with assms(2) show ?thesis by (simp add: posted_def has_entry_def)
qed simp

lemma PostDoubleEntry_failed:
  assumes "ledger_wf s" and "PostDoubleEntry pid desc ls s = (Inl e, s')"
  shows "env_only s s'"
  using assms(2,1) by (cases rule: PostDoubleEntry_effect) auto

lemma PostDoubleEntry_new:
  assumes "ledger_wf s" and "\<not> has_entry s pid" and "PostDoubleEntry pid desc ls s = (Inr x, s')"
  obtains eid js where "posted pid desc eid js s s'" "list_all2 (line_matches s') (map normalise ls) js"
    "has_entry s' = (has_entry s)(pid := True)" "\<And>k. sum_balance s' k = sum_balance s k + delta_of ls k"
  using assms(3,1)
proof (cases rule: PostDoubleEntry_effect)
  case unchanged
  with assms(2) show thesis by (simp add: has_entry_def)
next
  case (entry x eid js norm d)
  have n: "norm = map normalise ls" using entry(3) by (rule validate_lines_normalise)
  have "has_entry s' = (has_entry s)(pid := True)"
    using entry(2) by (auto simp: posted_def has_entry_def fun_eq_iff)
  with that entry n posted_balance [OF entry(2) assms(1)] show thesis by (simp add: delta_of_def)
qed

interpretation store_journal: journal ledger_ok has_entry sum_balance PostDoubleEntry delta_of
proof unfold_locales
  fix s p d ls r s' assume "ledger_ok s" "PostDoubleEntry p d ls s = (r, s')"
  then show "ledger_ok s'" by (rule PostDoubleEntry_ok [rotated])
next
  fix s p d ls e s' assume "ledger_ok s" "PostDoubleEntry p d ls s = (Inl e, s')"
  then have "env_only s s'" using PostDoubleEntry_failed by (simp add: ledger_ok_def)
  then show "sum_balance s' = sum_balance s \<and> has_entry s' = has_entry s" by (simp add: fun_eq_iff)
next
  fix s p d ls r s' assume "ledger_ok s" "has_entry s p" "PostDoubleEntry p d ls s = (r, s')"
  then have "env_only s s'" using PostDoubleEntry_again by (simp add: ledger_ok_def)
  then show "sum_balance s' = sum_balance s \<and> has_entry s' = has_entry s" by (simp add: fun_eq_iff)
next
  fix s p d ls x s' assume "ledger_ok s" "\<not> has_entry s p" "PostDoubleEntry p d ls s = (Inr x, s')"
  then show "(\<forall>k. sum_balance s' k = sum_balance s k + delta_of ls k) \<and> has_entry s' = (has_entry s)(p := True)"
    by (metis PostDoubleEntry_new ledger_ok_def)
qed

section \<open>The ledger as a state machine\<close>

text \<open>The states the service reaches from an empty database by its RPCs; between two of them time
  passes and the environment draws a new fault script.\<close>

definition ledger_init :: "ledger_db \<Rightarrow> bool" where
  "ledger_init s \<longleftrightarrow> accounts s = [] \<and> entries s = [] \<and> jlines s = []"

inductive ledger_step :: "ledger_db \<Rightarrow> ledger_db \<Rightarrow> bool" where
  tick: "ledger_step s (s\<lparr>now := t, script := x, uuid_src := u, n_uuid := n\<rparr>)"
| post: "rpc_PostDoubleEntry req s = (r, s') \<Longrightarrow> ledger_step s s'"
| reverse: "rpc_ReverseEntry req s = (r, s') \<Longrightarrow> ledger_step s s'"
| get_balance: "rpc_GetBalance breq s = (b, s') \<Longrightarrow> ledger_step s s'"
| get_entry: "rpc_GetJournalEntry ereq s = (e, s') \<Longrightarrow> ledger_step s s'"

inductive ledger_reachable :: "ledger_db \<Rightarrow> bool" where
  init: "ledger_init s \<Longrightarrow> ledger_reachable s"
| step: "ledger_reachable s \<Longrightarrow> ledger_step s s' \<Longrightarrow> ledger_reachable s'"

inductive_cases ledger_stepE: "ledger_step s s'"

lemma GetBalance_read:
  assumes "GetBalance typ owner cur s = (res, s')"
  shows "env_only s s'"
proof -
  let ?cur = "if ToUpper (TrimSpace cur) = [] then ''GBP'' else ToUpper (TrimSpace cur)"
  obtain r s1 where p: "pool_call (\<lambda>t. (let b = sum_balance t (typ, owner, ?cur) in
      if is_int64 b then Inr b else Inl pg_out_of_range, t)) s = (r, s1)" by fastforce
  then have "env_only s s1" by (rule read_pool [rotated]) simp
  with p assms show ?thesis by (auto simp: GetBalance_def Let_def split: sum.splits if_splits)
qed

lemma GetJournalEntry_read:
  assumes "GetJournalEntry pid s = (res, s')"
  shows "env_only s s'"
proof -
  obtain r s1 where "loadEntryByPaymentID False pid s = (r, s1)" by fastforce
  with loadEntry_read [OF this] assms show ?thesis by (auto simp: GetJournalEntry_def split: sum.splits if_splits)
qed

lemma ledger_ok_tick: "ledger_ok (s\<lparr>now := t, script := x, uuid_src := u, n_uuid := n\<rparr>) = ledger_ok s"
  by (simp add: ledger_ok_def ledger_wf_def books_balance_def imbalance_def entry_lines_def)

lemma ledger_step_ok:
  assumes "ledger_step s s'" and "ledger_ok s"
  shows "ledger_ok s'"
  using assms(1)
proof cases
  case (tick t x u n)
  with assms(2) show ?thesis by (simp add: ledger_ok_tick)
next
  case (post req r)
  then have "s' = s \<or> (\<exists>pid desc ls r0. PostDoubleEntry pid desc ls s = (r0, s'))"
    by (auto simp: rpc_PostDoubleEntry_def rpc_result_def split: option.splits sum.splits prod.splits)
  with PostDoubleEntry_ok assms(2) show ?thesis by blast
next
  case (reverse req r)
  then have "s' = s \<or> (\<exists>pid reason r0. ReverseEntry pid reason s = (r0, s'))"
    by (auto simp: rpc_ReverseEntry_def rpc_result_def split: option.splits sum.splits prod.splits)
  with ReverseEntry_ok assms(2) show ?thesis by blast
next
  case (get_balance req r)
  then have "s' = s \<or> (\<exists>typ owner cur r0. GetBalance typ owner cur s = (r0, s'))"
    by (auto simp: rpc_GetBalance_def rpc_result_def split: option.splits sum.splits prod.splits)
  then have "env_only s s'" using GetBalance_read by blast
  with assms(2) show ?thesis by simp
next
  case (get_entry req r)
  then have "s' = s \<or> (\<exists>pid r0. GetJournalEntry pid s = (r0, s'))"
    by (auto simp: rpc_GetJournalEntry_def rpc_result_def split: option.splits sum.splits prod.splits)
  then have "env_only s s'" using GetJournalEntry_read by blast
  with assms(2) show ?thesis by simp
qed

lemma ledger_reachable_inv: "ledger_reachable s \<Longrightarrow> ledger_ok s"
proof (induction rule: ledger_reachable.induct)
  case (init s)
  then show ?case by (simp add: ledger_init_def ledger_ok_def ledger_wf_def books_balance_def)
next
  case (step s s')
  then show ?case by (simp add: ledger_step_ok)
qed

end
