(* ===== verification/Ledger_Correct.thy ===== *)
theory Ledger_Correct
  imports Ledger_Props
begin

text \<open>
  The properties of the ledger service, each with a witness on a concrete ledger: the books balance
  in every reachable state, posting is at most once and adds its lines to the balances, reversal
  cancels, unbalanced postings are refused, a valid posting succeeds.
\<close>

section \<open>Properties of the ledger\<close>

text \<open>A concrete ledger and postings for the witnesses: one payment of 1000 pence with its fee.\<close>

definition ex_ledger :: ledger_db where
  "ex_ledger = \<lparr>now = 0, script = [], aborted = False, uuid_src = word_of_nat, n_uuid = 1,
     codec = unary_codec, accounts = [], entries = [], jlines = []\<rparr>"

definition ex_line :: "string \<Rightarrow> string \<Rightarrow> string \<Rightarrow> int \<Rightarrow> lineInput" where
  "ex_line typ owner dir amt =
     \<lparr>li_accountType = typ, li_ownerRef = owner, li_direction = dir, li_amountPence = amt, li_currency = ''gbp''\<rparr>"

definition ex_lines :: "lineInput list" where
  "ex_lines = [ex_line ''CONSUMER_ESCROW'' ''c1'' ''DR'' 1000, ex_line ''MERCHANT_ESCROW'' ''m1'' ''CR'' 990,
     ex_line ''PLATFORM_FEE'' ''platform'' ''CR'' 10]"

abbreviation ex_post :: "ledger_db \<Rightarrow> JournalEntry res \<times> ledger_db" where
  "ex_post \<equiv> PostDoubleEntry ''p1'' ''test'' ex_lines"

lemma ex_ledger_ok: "ledger_ok ex_ledger"
  by (simp add: ex_ledger_def ledger_ok_def ledger_wf_def books_balance_def)

lemma ex_post_Inr: "case ex_post ex_ledger of (Inr x, s) \<Rightarrow> jen_PaymentId x = ''p1'' | _ \<Rightarrow> False"
  by code_simp

definition ex_post_request :: PostEntryRequest where
  "ex_post_request = \<lparr>per_PaymentId = ''p1'', per_Description = ''test'',
     per_Lines = map (\<lambda>l. \<lparr>jln_Id = [], jln_AccountType = accountTypeFromDB (li_accountType l),
        jln_OwnerRef = li_ownerRef l, jln_Direction = directionFromDB (li_direction l),
        jln_Amount = Some \<lparr>mo_AmountPence = li_amountPence l, mo_Currency = li_currency l\<rparr>\<rparr>) ex_lines\<rparr>"

definition ex_booked :: ledger_db where
  "ex_booked = snd (rpc_PostDoubleEntry (Some ex_post_request) ex_ledger)"

lemma ex_booked_reachable: "ledger_reachable ex_booked"
proof (rule ledger_reachable.step)
  show "ledger_reachable ex_ledger" by (rule ledger_reachable.init) (simp add: ledger_init_def ex_ledger_def)
  show "ledger_step ex_ledger ex_booked"
    unfolding ex_booked_def by (rule ledger_step.post [OF prod.collapse [symmetric]])
qed

lemma validate_lines_dirs:
  "validate_lines i d c cur ls = Inr (d', c', out) \<Longrightarrow> \<forall>l \<in> set out. li_direction l \<in> {''DR'', ''CR''}"
  by (induction ls arbitrary: i d c cur d' c' out) (fastforce simp: Let_def split: if_splits sum.splits)+

text \<open>A reversal that finds the reversing entry leaves the lines alone.\<close>

lemma ReverseEntry_again_balance:
  assumes "ledger_ok s" and "has_entry s (pid @ ''-rev'')" and "ReverseEntry pid reason s = (r, s')"
  shows "sum_balance s' k = sum_balance s k"
proof -
  have wf: "ledger_wf s" using assms(1) by (simp add: ledger_ok_def)
  from assms(3) wf show ?thesis
  proof (cases rule: ReverseEntry_effect)
    case (again e)
    then show ?thesis by (simp add: sum_balance_def)
  next
    case (reversed e desc rid js)
    with assms(2) show ?thesis by (auto simp: reversed_by_def posted_def has_entry_def)
  qed simp
qed

text \<open>C6: in every state the ledger service reaches, whatever its requests and the failures of its
  database, each journal entry has equal debits and credits and the balances of all accounts add up
  to zero.\<close>

theorem ledger_balanced:
  assumes "ledger_reachable s"
  shows "trial_balance s = 0 \<and> (\<forall>e \<in> set (entries s). imbalance s (je_id e) = 0)"
  using ledger_reachable_inv [OF assms] trial_balance_zero by (auto simp: ledger_ok_def books_balance_def)

theorem ledger_balanced_witness:
  "trial_balance ex_booked = 0 \<and> list_all (\<lambda>e. imbalance ex_booked (je_id e) = 0) (entries ex_booked) \<and>
   length (entries ex_booked) = 1"
proof -
  have "length (entries ex_booked) = 1" by code_simp
  with ledger_balanced [OF ex_booked_reachable] show ?thesis by (simp add: list_all_iff)
qed

text \<open>C11: posting refines addition on the abstract books, and is at most once per payment: of two
  postings for one payment, with any lines and any failures, exactly the first that succeeds adds its
  lines to the balances.\<close>

theorem post_at_most_once:
  assumes "ledger_ok s" and "\<not> has_entry s pid"
    and "PostDoubleEntry pid d1 ls1 s = (r1, s1)" and "PostDoubleEntry pid d2 ls2 s1 = (r2, s2)"
  shows "sum_balance s2 k = sum_balance s k +
    (case (r1, r2) of (Inr _, _) \<Rightarrow> delta_of ls1 k | (Inl _, Inr _) \<Rightarrow> delta_of ls2 k | _ \<Rightarrow> 0)"
proof (cases r1)
  case (Inl e)
  with store_journal.post_failed [OF assms(1)] assms(3)
  have b: "sum_balance s1 = sum_balance s" "has_entry s1 = has_entry s" by auto
  note ok1 = store_journal.post_ok [OF assms(1,3)]
  show ?thesis
  proof (cases r2)
    case r2: (Inl e2)
    with store_journal.post_failed [OF ok1] assms(4) b Inl show ?thesis by simp
  next
    case r2: (Inr y)
    have "\<not> has_entry s1 pid" using assms(2) b by simp
    from store_journal.post_new [OF ok1 this assms(4) [unfolded r2]] b Inl r2 show ?thesis
      by (simp del: split_paired_All)
  qed
next
  case (Inr x)
  have "sum_balance s1 k = sum_balance s k + delta_of ls1 k" "has_entry s1 pid"
    using store_journal.post_new [OF assms(1,2) assms(3) [unfolded Inr]] by (simp_all del: split_paired_All)
  with store_journal.post_again [OF store_journal.post_ok [OF assms(1,3)] _ assms(4)] Inr show ?thesis by simp
qed

theorem post_at_most_once_witness:
  "sum_balance (snd (ex_post (snd (ex_post ex_ledger)))) (''MERCHANT_ESCROW'', ''m1'', ''GBP'') = 990"
proof -
  have "\<not> has_entry ex_ledger ''p1''" by (simp add: has_entry_def ex_ledger_def)
  moreover have "case fst (ex_post ex_ledger) of Inr _ \<Rightarrow> True | Inl _ \<Rightarrow> False" by code_simp
  moreover have "sum_balance ex_ledger (''MERCHANT_ESCROW'', ''m1'', ''GBP'') = 0" by code_simp
  moreover have "delta_of ex_lines (''MERCHANT_ESCROW'', ''m1'', ''GBP'') = 990" by code_simp
  ultimately show ?thesis
    using post_at_most_once [OF ex_ledger_ok _ prod.collapse [symmetric] prod.collapse [symmetric]]
    by (auto split: sum.splits)
qed

text \<open>The lines of a new entry carry the posting's credits.\<close>

lemma posted_credits:
  assumes "posted pid desc eid js s s'" and "ledger_wf s" and "list_all2 (line_matches s') ls js"
  shows "credits (lines_at s' k (entry_lines s' eid)) = book_delta ls k"
  using entry_lines_posted_new [OF assms(1,2)] credits_matches [OF assms(3)] by simp

lemma posted_entry_unique:
  assumes "posted pid desc eid js s s'" and "e \<in> set (entries s')" and "je_payment e = pid"
  shows "je_id e = eid \<and> \<not> je_reversed e"
proof -
  have "e \<notin> set (entries s)" using assms(1,3) by (auto simp: posted_def)
  with assms(1,2) have "e = \<lparr>je_id = eid, je_payment = pid, je_desc = desc, je_reversed = False, je_created = now s\<rparr>"
    by (simp add: posted_def)
  then show ?thesis by simp
qed

lemma reversal_undoes:
  assumes "ledger_ok s" and "\<not> has_entry s pid" and "\<not> has_entry s (pid @ ''-rev'')"
    and "PostDoubleEntry pid d ls s = (Inr x, t)" and "env_only t s1" and "ReverseEntry pid reason s1 = (Inr (), s2)"
  shows "sum_balance s2 k = sum_balance s k \<and> has_entry s2 (pid @ ''-rev'')"
proof -
  have wf: "ledger_wf s" using assms(1) by (simp add: ledger_ok_def)
  have wf1: "ledger_wf s1" using store_journal.post_ok [OF assms(1,4)] ledger_wf_env [OF assms(5)] by (simp add: ledger_ok_def)
  obtain eid js where q: "posted pid d eid js s t" "list_all2 (line_matches t) (map normalise ls) js"
    "has_entry t = (has_entry s)(pid := True)" "sum_balance t k = sum_balance s k + delta_of ls k"
    using PostDoubleEntry_new [OF wf assms(2,4)] by metis
  have p: "posted pid d eid js s s1" "list_all2 (line_matches s1) (map normalise ls) js"
    "has_entry s1 = (has_entry s)(pid := True)" "sum_balance s1 k = sum_balance s k + delta_of ls k"
    using q posted_env [OF env_only_refl assms(5)] line_matches_env [OF assms(5)] sum_balance_env [OF assms(5)] has_entry_env [OF assms(5)]
    by simp_all
  have fresh: "e \<in> set (entries s1) \<Longrightarrow> je_payment e = pid \<Longrightarrow> \<not> je_reversed e" for e
    using posted_entry_unique p(1) by blast
  have norev: "\<not> has_entry s1 (pid @ ''-rev'')" using p(3) assms(3) by simp
  from assms(6) wf1 show ?thesis
  proof (cases rule: ReverseEntry_effect)
    case (again e)
    with fresh norev show ?thesis by (auto simp: has_entry_def)
  next
    case (reversed e desc rid js')
    have "sum_balance s2 k = sum_balance s1 k - credits (lines_at s1 k (entry_lines s1 (je_id e)))"
      using reversed(5) wf1 by (rule reversed_by_balance)
    moreover have "je_id e = eid" using posted_entry_unique p(1) reversed(2,3) by blast
    moreover have "has_entry s2 (pid @ ''-rev'')"
      using reversed(5) by (auto simp: reversed_by_def posted_def has_entry_def image_with_reversed)
    ultimately show ?thesis using posted_credits [OF p(1) wf p(2)] p(4) by (simp add: delta_of_def)
  qed simp
qed

text \<open>C12: reversing a posting cancels it: after a posting and a successful reversal every balance is
  what it was before, and a second reversal changes nothing.\<close>

theorem reverse_cancels:
  assumes "ledger_ok s" and "\<not> has_entry s pid" and "\<not> has_entry s (pid @ ''-rev'')"
    and "PostDoubleEntry pid d ls s = (Inr x, s1)" and "ReverseEntry pid reason s1 = (Inr (), s2)"
    and "ReverseEntry pid reason' s2 = (r, s3)"
  shows "sum_balance s2 k = sum_balance s k \<and> sum_balance s3 k = sum_balance s k"
proof -
  have "ledger_ok s2" using ReverseEntry_ok [OF assms(5) store_journal.post_ok [OF assms(1,4)]] .
  then show ?thesis using reversal_undoes [OF assms(1-4) env_only_refl assms(5), of k] ReverseEntry_again_balance [OF _ _ assms(6)] by auto
qed

lemma ex_posted: "case ex_post ex_ledger of (Inr x, s1) \<Rightarrow>
    (case ReverseEntry ''p1'' ''r'' s1 of (Inr _, s2) \<Rightarrow>
      (case ReverseEntry ''p1'' ''r'' s2 of (Inr _, s3) \<Rightarrow> length (entries s3) = 2 | _ \<Rightarrow> False) | _ \<Rightarrow> False) | _ \<Rightarrow> False"
  by code_simp

theorem reverse_cancels_witness:
  "\<exists>x s1 s2 r s3. ex_post ex_ledger = (Inr x, s1) \<and> ReverseEntry ''p1'' ''r'' s1 = (Inr (), s2) \<and>
     ReverseEntry ''p1'' ''r'' s2 = (r, s3) \<and> sum_balance s3 (''PLATFORM_FEE'', ''platform'', ''GBP'') = 0"
proof -
  have n: "\<not> has_entry ex_ledger ''p1''" "\<not> has_entry ex_ledger (''p1'' @ ''-rev'')"
    by (simp_all add: has_entry_def ex_ledger_def)
  have z: "sum_balance ex_ledger (''PLATFORM_FEE'', ''platform'', ''GBP'') = 0" by code_simp
  from ex_posted obtain x s1 s2 r s3 where p: "ex_post ex_ledger = (Inr x, s1)"
    "ReverseEntry ''p1'' ''r'' s1 = (Inr (), s2)" "ReverseEntry ''p1'' ''r'' s2 = (r, s3)"
    by (auto split: prod.splits sum.splits)
  with reverse_cancels [OF ex_ledger_ok n p] z show ?thesis by auto
qed

text \<open>A valid posting for a new payment succeeds when no database call fails and the random
  identifiers are new, and adds exactly its lines to the balances: the service is not stuck.\<close>

theorem post_succeeds:
  assumes "ledger_wf s" and "script s = []" and "fresh_supply (Suc (2 * length ls)) s"
    and "pid \<noteq> []" and "\<not> has_entry s pid"
    and "2 \<le> length ls" and "\<forall>l \<in> set ls. valid_line cur l"
    and "side_total ''DR'' ls = side_total ''CR'' ls" and "side_total ''DR'' ls < 2 ^ 63"
  shows "\<exists>x s'. PostDoubleEntry pid desc ls s = (Inr x, s') \<and>
    (\<forall>k. sum_balance s' k = sum_balance s k + delta_of ls k)"
proof -
  have "map (\<lambda>l. l\<lparr>li_currency := cur\<rparr>) ls = map normalise ls"
    using assms(7) by (simp add: valid_line_def normalise_def)
  with PostDoubleEntry_succeeds [OF assms(1-4) _ assms(6-9), of desc] assms(5) show ?thesis
    by (simp add: has_entry_def delta_of_def del: split_paired_All)
qed

lemma ex_supply: "fresh_supply 7 ex_ledger"
proof -
  have "inj_on (word_of_nat :: nat \<Rightarrow> uuid) {1 ..< 8}"
    by (rule inj_onI) (simp add: word_of_nat_eq_iff take_bit_nat_eq_self)
  then show ?thesis by (simp add: fresh_supply_def ex_ledger_def ledger_ids_def)
qed

theorem post_succeeds_witness:
  "\<exists>x s'. ex_post ex_ledger = (Inr x, s') \<and>
    (\<forall>k. sum_balance s' k = sum_balance ex_ledger k + delta_of ex_lines k)"
proof (rule post_succeeds [where cur = "''GBP''"])
  show "ledger_wf ex_ledger" using ex_ledger_ok by (simp add: ledger_ok_def)
  show "fresh_supply (Suc (2 * length ex_lines)) ex_ledger" using ex_supply by (simp add: ex_lines_def)
  show "\<forall>l \<in> set ex_lines. valid_line ''GBP'' l" by code_simp
  show "side_total ''DR'' ex_lines = side_total ''CR'' ex_lines" by code_simp
  show "side_total ''DR'' ex_lines < 2 ^ 63" by code_simp
qed (simp_all add: ex_ledger_def has_entry_def ex_lines_def)

text \<open>A posting whose debits and credits differ is refused and leaves the tables as they are,
  even when the 64-bit sums of the validation wrap around to the same value.\<close>

theorem unbalanced_rejected:
  assumes "ledger_wf s" and "\<not> has_entry s pid" and "side_total ''DR'' ls \<noteq> side_total ''CR'' ls"
    and "PostDoubleEntry pid desc ls s = (r, s')"
  shows "(\<exists>e. r = Inl e) \<and> accounts s' = accounts s \<and> entries s' = entries s \<and> jlines s' = jlines s"
  using assms(4,1)
proof (cases rule: PostDoubleEntry_effect)
  case unchanged
  with assms(2) show ?thesis by (cases r) (auto simp: has_entry_def)
next
  case (entry x eid js norm d)
  have n: "norm = map normalise ls" using entry(3) by (rule validate_lines_normalise)
  have "\<forall>l \<in> set norm. li_direction l \<in> {''DR'', ''CR''}"
    using entry(3) by (rule validate_lines_dirs)
  from signed_matches [OF entry(4) this] entry(5) have "side_total ''DR'' norm = side_total ''CR'' norm" by simp
  moreover have "side_total dir norm = side_total dir ls" for dir
    by (simp add: n side_total_def filter_map comp_def normalise_def)
  ultimately show ?thesis using assms(3) by simp
qed

text \<open>Debits that wrap around in the validation's 64-bit sum to the credits' 5 pence.\<close>

definition ex_wrapping :: "lineInput list" where
  "ex_wrapping = [ex_line ''CONSUMER_ESCROW'' ''c1'' ''DR'' (2 ^ 63 - 1), ex_line ''CONSUMER_ESCROW'' ''c1'' ''DR'' (2 ^ 63 - 1),
     ex_line ''CONSUMER_ESCROW'' ''c1'' ''DR'' 7, ex_line ''MERCHANT_ESCROW'' ''m1'' ''CR'' 5]"

theorem unbalanced_rejected_witness:
  "(case validate_lines 0 0 0 [] ex_wrapping of Inr (d, c, _) \<Rightarrow> d = c | Inl _ \<Rightarrow> False) \<and>
   (\<exists>e. fst (PostDoubleEntry ''p1'' ''test'' ex_wrapping ex_ledger) = Inl e)"
proof
  show "case validate_lines 0 0 0 [] ex_wrapping of Inr (d, c, _) \<Rightarrow> d = c | Inl _ \<Rightarrow> False" by code_simp
  have "ledger_wf ex_ledger" using ex_ledger_ok by (simp add: ledger_ok_def)
  moreover have "\<not> has_entry ex_ledger ''p1''" by (simp add: has_entry_def ex_ledger_def)
  moreover have "side_total ''DR'' ex_wrapping \<noteq> side_total ''CR'' ex_wrapping" by code_simp
  ultimately show "\<exists>e. fst (PostDoubleEntry ''p1'' ''test'' ex_wrapping ex_ledger) = Inl e"
    using unbalanced_rejected [OF _ _ _ prod.collapse [symmetric]] by blast
qed

text \<open>A posting for a payment that has an entry reports success and changes nothing, also when
  the entry was reversed before: the caller is told that the money is booked although the entry and its
  reversal cancel, as the witness shows.\<close>

theorem repost_after_reversal:
  assumes "has_entry s pid" and "script s = []"
    and "pid \<noteq> []" and "2 \<le> length ls" and "validate_lines 0 0 0 [] ls = Inr (d, d, norm)"
  shows "\<exists>x. PostDoubleEntry pid desc ls s = (Inr x, s\<lparr>aborted := False\<rparr>)"
proof -
  let ?s = "s\<lparr>aborted := False\<rparr>"
  obtain e where e: "row_by je_payment pid (entries s) = Some e"
    using assms(1) row_by_None_iff [of je_payment pid "entries s"] by (auto simp: has_entry_def)
  then obtain x where "post_tx pid desc norm ?s = (Inr x, ?s)"
    using assms(2) by (simp add: post_tx_def loadEntryByPaymentID_def q_call_def tx_call_def select_entry_def)
  then have "BeginTxFunc trg_journal_balance (post_tx pid desc norm) s = (Inr x, ?s)"
    using assms(2) by (simp add: BeginTxFunc_def commit_tx_def trg_journal_balance_def map_filter_simps)
  then have "withSerializable (post_tx pid desc norm) s = (Inr x, ?s)"
    by (simp add: withSerializable_def numeral_eq_Suc)
  with assms(3-5) show ?thesis by (simp add: PostDoubleEntry_def)
qed

theorem repost_after_reversal_witness:
  "\<exists>s x. ex_post s = (Inr x, s\<lparr>aborted := False\<rparr>) \<and> sum_balance s (''MERCHANT_ESCROW'', ''m1'', ''GBP'') = 0 \<and> entries s \<noteq> []"
proof -
  let ?s = "snd (ReverseEntry ''p1'' ''r'' (snd (ex_post ex_ledger)))"
  have "has_entry ?s ''p1''" by code_simp
  moreover have "script ?s = []" by code_simp
  moreover have "2 \<le> length ex_lines" by code_simp
  moreover have "validate_lines 0 0 0 [] ex_lines = Inr (1000, 1000, map normalise ex_lines)" by code_simp
  ultimately have "\<exists>x. ex_post ?s = (Inr x, ?s\<lparr>aborted := False\<rparr>)"
    by (intro repost_after_reversal) auto
  moreover have "sum_balance ?s (''MERCHANT_ESCROW'', ''m1'', ''GBP'') = 0" by code_simp
  moreover have "entries ?s \<noteq> []" by code_simp
  ultimately show ?thesis by blast
qed

text \<open>The balance RPC returns the sum of the account's lines in the normalised currency, GBP
  when none is given.\<close>

theorem balance_rpc:
  assumes "script s = []" and "accountTypeToDB (bq_AccountType q) = Inr typ" and "TrimSpace (bq_OwnerRef q) \<noteq> []"
    and "cur = (if ToUpper (TrimSpace (bq_Currency q)) = [] then ''GBP'' else ToUpper (TrimSpace (bq_Currency q)))"
    and "length cur = 3" and "is_int64 (sum_balance s (typ, bq_OwnerRef q, cur))"
  shows "rpc_GetBalance (Some q) s =
    (Inr \<lparr>br_Balance = \<lparr>mo_AmountPence = sum_balance s (typ, bq_OwnerRef q, cur), mo_Currency = cur\<rparr>, br_AsOf = now s\<rparr>, s)"
proof -
  have "typ \<noteq> []" using assms(2) by (cases "bq_AccountType q") auto
  with assms show ?thesis by (simp add: rpc_GetBalance_def rpc_result_def GetBalance_def Let_def)
qed

theorem balance_rpc_witness:
  "rpc_GetBalance (Some \<lparr>bq_AccountType = MERCHANT_ESCROW, bq_OwnerRef = ''m1'', bq_Currency = []\<rparr>) ex_booked =
    (Inr \<lparr>br_Balance = \<lparr>mo_AmountPence = 990, mo_Currency = ''GBP''\<rparr>, br_AsOf = 0\<rparr>, ex_booked)"
proof -
  have "sum_balance ex_booked (''MERCHANT_ESCROW'', ''m1'', ''GBP'') = 990" "script ex_booked = []" "now ex_booked = 0"
    "TrimSpace ''m1'' \<noteq> []"
    by code_simp+
  then show ?thesis
    using balance_rpc [of ex_booked "\<lparr>bq_AccountType = MERCHANT_ESCROW, bq_OwnerRef = ''m1'', bq_Currency = []\<rparr>"
        "''MERCHANT_ESCROW''" "''GBP''"] by (simp add: is_int64_def)
qed

end
