(* ===== verification/Consent.thy ===== *)
theory Consent
  imports Proto
begin

text \<open>
  The consent service: \<open>services/consent-svc/internal/repo.go\<close>, \<open>service.go\<close> and \<open>handler.go\<close> over the
  tables of \<open>migrations/consent\<close> and the Redis cache of consents.
  \<^item> \<open>consent_db\<close> is the state: the tables \<open>consent\<close>, \<open>consent_reservation\<close> and \<open>consent_usage\<close>, whether
    a Redis client is configured, and the cache (a consent and the time its key expires). A cached
    value is the row itself: its JSON text is not modelled.
  \<^item> \<open>repo_...\<close> are the methods of \<open>Repo\<close>, each one SQL statement on the pool or in a transaction; the
    methods of \<open>Service\<close> are \<open>svc_...\<close>, those of \<open>Handler\<close> \<open>rpc_...\<close>.
  \<^item> Identifiers are UUIDs in the tables and text in the program; a text that is no UUID is an error
    of the database. A row lock (\<open>FOR UPDATE\<close>) serialises transactions, which run one after another.
  The lemmas are in the theory \<open>Consent_Props\<close>.
\<close>

abbreviation StatusPending :: string where "StatusPending \<equiv> ''PENDING''"
abbreviation StatusActive :: string where "StatusActive \<equiv> ''ACTIVE''"
abbreviation StatusRevoked :: string where "StatusRevoked \<equiv> ''REVOKED''"
abbreviation StatusExpired :: string where "StatusExpired \<equiv> ''EXPIRED''"
abbreviation ResHeld :: string where "ResHeld \<equiv> ''HELD''"
abbreviation ResConfirmed :: string where "ResConfirmed \<equiv> ''CONFIRMED''"
abbreviation ResReleased :: string where "ResReleased \<equiv> ''RELEASED''"
abbreviation defaultCurrency :: string where "defaultCurrency \<equiv> ''GBP''"

text \<open>Durations in nanoseconds.\<close>

definition minutes :: "int \<Rightarrow> int" where "minutes n = n * 60 * 10 ^ 9"
definition days :: "int \<Rightarrow> int" where "days n = n * 24 * 60 * 60 * 10 ^ 9"

definition cacheTTL :: int where "cacheTTL = minutes 5"
definition hold_time :: int where "hold_time = minutes 10"
definition usage_window :: int where "usage_window = days 30"

record ConsentRow =
  cr_ID :: string
  cr_MerchantID :: string
  cr_ConsumerID :: string
  cr_BankConsentRef :: string
  cr_Status :: string
  cr_MaxAmountPence :: int
  cr_MaxMonthlyPence :: int
  cr_Currency :: string
  cr_ValidFrom :: int
  cr_ValidUntil :: int
  cr_CreatedAt :: int
  cr_UpdatedAt :: int

record ReservationRow =
  rr_ID :: string
  rr_ConsentID :: string
  rr_PaymentID :: string
  rr_AmountPence :: int
  rr_Status :: string
  rr_ExpiresAt :: int
  rr_CreatedAt :: int

record consent_tbl =
  cs_id :: uuid
  cs_merchant :: uuid
  cs_consumer :: string
  cs_bankref :: string
  cs_status :: string
  cs_max :: int
  cs_month :: int
  cs_currency :: string
  cs_from :: int
  cs_until :: int
  cs_created :: int
  cs_updated :: int

record reservation_tbl =
  rv_id :: uuid
  rv_consent :: uuid
  rv_payment :: uuid
  rv_amount :: int
  rv_status :: string
  rv_expires :: int
  rv_created :: int

record usage_tbl =
  ug_id :: uuid
  ug_consent :: uuid
  ug_payment :: uuid
  ug_amount :: int
  ug_settled :: int

record consent_db = env +
  consents :: "consent_tbl list"
  reservations :: "reservation_tbl list"
  usages :: "usage_tbl list"
  has_rdb :: bool
  rcache :: "string \<Rightarrow> (ConsentRow \<times> int) option"

type_synonym 'a consent_op = "consent_db \<Rightarrow> 'a res \<times> consent_db"

record CreateInput =
  ci_MerchantID :: string
  ci_ConsumerID :: string
  ci_BankConsentRef :: string
  ci_MaxAmountPence :: int
  ci_MaxMonthlyPence :: int
  ci_Currency :: string
  ci_ValidUntil :: int

record ReserveInput =
  ri_ConsentID :: string
  ri_PaymentID :: string
  ri_AmountPence :: int
  ri_Currency :: string

record ReserveResult =
  rs_ReservationID :: string
  rs_RemainingMonthly :: int
  rs_Currency :: string
  rs_ConsumerID :: string
  rs_BankConsentRef :: string

record UsageResult =
  ur_UsedPence :: int
  ur_RemainingPence :: int
  ur_Currency :: string
  ur_TxCount :: int

section \<open>The repository\<close>

definition scanConsent :: "uuid_codec \<Rightarrow> consent_tbl \<Rightarrow> ConsentRow" where
  "scanConsent c t =
     \<lparr>cr_ID = uc_String c (cs_id t), cr_MerchantID = uc_String c (cs_merchant t), cr_ConsumerID = cs_consumer t,
      cr_BankConsentRef = cs_bankref t, cr_Status = cs_status t, cr_MaxAmountPence = cs_max t,
      cr_MaxMonthlyPence = cs_month t, cr_Currency = cs_currency t, cr_ValidFrom = cs_from t,
      cr_ValidUntil = cs_until t, cr_CreatedAt = cs_created t, cr_UpdatedAt = cs_updated t\<rparr>"

definition scanReservation :: "uuid_codec \<Rightarrow> reservation_tbl \<Rightarrow> ReservationRow" where
  "scanReservation c t =
     \<lparr>rr_ID = uc_String c (rv_id t), rr_ConsentID = uc_String c (rv_consent t),
      rr_PaymentID = uc_String c (rv_payment t), rr_AmountPence = rv_amount t, rr_Status = rv_status t,
      rr_ExpiresAt = rv_expires t, rr_CreatedAt = rv_created t\<rparr>"

definition insert_consent :: "ConsentRow \<Rightarrow> ConsentRow consent_op" where
  "insert_consent c = with_uuid (cr_MerchantID c) (\<lambda>mid s.
     let (i, s1) = fresh_uuid s in
     case pg_char3 (cr_Currency c) of
       None \<Rightarrow> (Inl (PgError ''22001'' ''value too long for type character(3)''), s1)
     | Some cur \<Rightarrow>
         if cr_Status c \<notin> {StatusPending, StatusActive, StatusRevoked, StatusExpired}
         then (Inl (PgError ''23514'' ''violates check constraint''), s1)
         else if i \<in> cs_id ` set (consents s1) \<or> cr_BankConsentRef c \<in> cs_bankref ` set (consents s1)
         then (Inl pg_unique_violation, s1)
         else (Inr (c\<lparr>cr_ID := uc_String (codec s1) i, cr_ValidFrom := now s1, cr_CreatedAt := now s1, cr_UpdatedAt := now s1\<rparr>),
               s1\<lparr>consents := consents s1 @
                  [\<lparr>cs_id = i, cs_merchant = mid, cs_consumer = cr_ConsumerID c, cs_bankref = cr_BankConsentRef c,
                    cs_status = cr_Status c, cs_max = cr_MaxAmountPence c, cs_month = cr_MaxMonthlyPence c,
                    cs_currency = cur, cs_from = now s1, cs_until = cr_ValidUntil c, cs_created = now s1,
                    cs_updated = now s1\<rparr>]\<rparr>))"

definition repo_InsertConsent :: "ConsentRow \<Rightarrow> ConsentRow consent_op" where
  "repo_InsertConsent c = pool_call (insert_consent c)"

definition select_consent :: "string \<Rightarrow> ConsentRow consent_op" where
  "select_consent cid = with_uuid cid (\<lambda>u s.
     case row_by cs_id u (consents s) of
       None \<Rightarrow> (Inl ErrNoRows, s)
     | Some c \<Rightarrow> (Inr (scanConsent (codec s) c), s))"

definition repo_GetConsent :: "string \<Rightarrow> ConsentRow consent_op" where
  "repo_GetConsent cid = pool_call (select_consent cid)"

definition repo_LockConsent :: "string \<Rightarrow> ConsentRow consent_op" where
  "repo_LockConsent cid = tx_call (select_consent cid)"

text \<open>\<open>UPDATE consent ... WHERE id AND status = 'ACTIVE' [AND merchant_id] RETURNING\<close>: at most one row,
  \<open>id\<close> being the key.\<close>

definition update_revoked :: "(uuid \<Rightarrow> bool) \<Rightarrow> uuid \<Rightarrow> ConsentRow consent_op" where
  "update_revoked mine u s =
     (case row_by cs_id u (consents s) of
        None \<Rightarrow> (Inl ErrNoRows, s)
      | Some c \<Rightarrow>
          if cs_status c = StatusActive \<and> mine (cs_merchant c)
          then (let f = (\<lambda>c. c\<lparr>cs_status := StatusRevoked, cs_updated := now s\<rparr>) in
                (Inr (scanConsent (codec s) (f c)),
                 s\<lparr>consents := update_where (\<lambda>c. cs_id c = u) f (consents s)\<rparr>))
          else (Inl ErrNoRows, s))"

definition repo_RevokeConsent :: "string \<Rightarrow> string \<Rightarrow> ConsentRow consent_op" where
  "repo_RevokeConsent cid merchantID = pool_call
     (if merchantID = [] then with_uuid cid (update_revoked (\<lambda>_. True))
      else with_uuid cid (\<lambda>u. with_uuid merchantID (\<lambda>mid. update_revoked (\<lambda>m. m = mid) u)))"

definition list_filter :: "string \<Rightarrow> (uuid \<Rightarrow> bool) \<Rightarrow> string \<Rightarrow> consent_tbl \<Rightarrow> bool" where
  "list_filter consumerID mine status c \<longleftrightarrow>
     (consumerID = [] \<or> cs_consumer c = consumerID) \<and> mine (cs_merchant c) \<and> (status = [] \<or> cs_status c = status)"

text \<open>\<open>ORDER BY created_at DESC LIMIT OFFSET\<close>; the window count comes with the rows, so an empty page
  has the count 0.\<close>

definition list_page :: "(consent_tbl \<Rightarrow> bool) \<Rightarrow> int \<Rightarrow> int \<Rightarrow> (ConsentRow list \<times> int) consent_op" where
  "list_page P limit offset s =
     (let found = sort_key (\<lambda>c. - cs_created c) (filter P (consents s));
          page = take (nat limit) (drop (nat offset) found)
      in (Inr (map (scanConsent (codec s)) page, if page = [] then 0 else int (length found)), s))"

definition list_query :: "string \<Rightarrow> string \<Rightarrow> string \<Rightarrow> int \<Rightarrow> int \<Rightarrow> (ConsentRow list \<times> int) consent_op" where
  "list_query consumerID merchantID status limit offset =
     (if merchantID = [] then list_page (list_filter consumerID (\<lambda>_. True) status) limit offset
      else with_uuid merchantID (\<lambda>mid. list_page (list_filter consumerID (\<lambda>m. m = mid) status) limit offset))"

definition repo_ListConsents :: "string \<Rightarrow> string \<Rightarrow> string \<Rightarrow> int \<Rightarrow> int \<Rightarrow> (ConsentRow list \<times> int) consent_op" where
  "repo_ListConsents consumerID merchantID status limit offset s =
     (case pool_call (list_query consumerID merchantID status limit offset) s of
        (Inl err, s1) \<Rightarrow> (Inl (OtherError ''list consents'' (Some err)), s1)
      | (Inr x, s1) \<Rightarrow> (Inr x, s1))"

definition select_reservation :: "(reservation_tbl \<Rightarrow> uuid) \<Rightarrow> string \<Rightarrow> ReservationRow consent_op" where
  "select_reservation key t = with_uuid t (\<lambda>u s.
     case row_by key u (reservations s) of
       None \<Rightarrow> (Inl ErrNoRows, s)
     | Some r \<Rightarrow> (Inr (scanReservation (codec s) r), s))"

definition repo_GetReservationByPaymentID :: "string \<Rightarrow> ReservationRow consent_op" where
  "repo_GetReservationByPaymentID pid = tx_call (select_reservation rv_payment pid)"

definition repo_GetReservation :: "string \<Rightarrow> ReservationRow consent_op" where
  "repo_GetReservation rid = tx_call (select_reservation rv_id rid)"

text \<open>Settled usage of the last 30 days and unexpired holds.\<close>

definition used_of :: "consent_db \<Rightarrow> uuid \<Rightarrow> int" where
  "used_of s u = sum_list (map ug_amount
     (filter (\<lambda>g. ug_consent g = u \<and> ug_settled g > now s - usage_window) (usages s)))"

definition held_of :: "consent_db \<Rightarrow> uuid \<Rightarrow> int" where
  "held_of s u = sum_list (map rv_amount
     (filter (\<lambda>r. rv_consent r = u \<and> rv_status r = ResHeld \<and> rv_expires r > now s) (reservations s)))"

definition select_usage :: "string \<Rightarrow> (int \<times> int) consent_op" where
  "select_usage cid = with_uuid cid (\<lambda>u s.
     (if is_int64 (used_of s u) \<and> is_int64 (held_of s u) then Inr (used_of s u, held_of s u)
      else Inl pg_out_of_range, s))"

definition wrap_usage :: "'a res \<times> consent_db \<Rightarrow> 'a res \<times> consent_db" where
  "wrap_usage = (\<lambda>(r, s). (case r of Inl err \<Rightarrow> Inl (OtherError ''rolling usage'' (Some err)) | Inr x \<Rightarrow> Inr x, s))"

definition repo_RollingUsage :: "string \<Rightarrow> (int \<times> int) consent_op" where
  "repo_RollingUsage cid s = wrap_usage (tx_call (select_usage cid) s)"

definition repo_RollingUsagePool :: "string \<Rightarrow> (int \<times> int) consent_op" where
  "repo_RollingUsagePool cid s = wrap_usage (pool_call (select_usage cid) s)"

definition repo_TxCountThisMonth :: "string \<Rightarrow> int consent_op" where
  "repo_TxCountThisMonth cid = pool_call (with_uuid cid (\<lambda>u s.
     (let n = int (length (filter (\<lambda>g. ug_consent g = u \<and> ug_settled g > now s - usage_window) (usages s)))
      in if n < 2 ^ 31 then Inr n else Inl (PgError ''22003'' ''integer out of range''), s)))"

definition insert_reservation :: "uuid \<Rightarrow> uuid \<Rightarrow> int \<Rightarrow> ReservationRow consent_op" where
  "insert_reservation cid pid amt s =
     (let (i, s1) = fresh_uuid s;
          r = \<lparr>rv_id = i, rv_consent = cid, rv_payment = pid, rv_amount = amt, rv_status = ResHeld,
               rv_expires = now s1 + hold_time, rv_created = now s1\<rparr>
      in if i \<in> rv_id ` set (reservations s1) \<or> pid \<in> rv_payment ` set (reservations s1)
         then (Inl pg_unique_violation, s1)
         else if cid \<notin> cs_id ` set (consents s1)
         then (Inl (PgError ''23503'' ''violates foreign key constraint''), s1)
         else (Inr (scanReservation (codec s1) r), s1\<lparr>reservations := reservations s1 @ [r]\<rparr>))"

definition repo_InsertReservation :: "string \<Rightarrow> string \<Rightarrow> int \<Rightarrow> ReservationRow consent_op" where
  "repo_InsertReservation cid pid amt s =
     (case tx_call (with_uuid cid (\<lambda>c. with_uuid pid (\<lambda>p. insert_reservation c p amt))) s of
        (Inl err, s1) \<Rightarrow> (Inl (OtherError ''insert reservation'' (Some err)), s1)
      | (Inr r, s1) \<Rightarrow> (Inr r, s1))"

text \<open>\<open>UPDATE consent_reservation SET status WHERE id AND status = 'HELD' [AND payment_id] RETURNING\<close>.\<close>

definition update_held :: "string \<Rightarrow> (uuid \<Rightarrow> bool) \<Rightarrow> uuid \<Rightarrow> ReservationRow consent_op" where
  "update_held status mine u s =
     (case row_by rv_id u (reservations s) of
        None \<Rightarrow> (Inl ErrNoRows, s)
      | Some r \<Rightarrow>
          if rv_status r = ResHeld \<and> mine (rv_payment r)
          then (Inr (scanReservation (codec s) (r\<lparr>rv_status := status\<rparr>)),
                s\<lparr>reservations := update_where (\<lambda>r. rv_id r = u) (\<lambda>r. r\<lparr>rv_status := status\<rparr>) (reservations s)\<rparr>)
          else (Inl ErrNoRows, s))"

definition repo_ConfirmReservation :: "string \<Rightarrow> string \<Rightarrow> ReservationRow consent_op" where
  "repo_ConfirmReservation rid paymentID = tx_call
     (if paymentID \<noteq> [] then with_uuid rid (\<lambda>u. with_uuid paymentID (\<lambda>p. update_held ResConfirmed (\<lambda>q. q = p) u))
      else with_uuid rid (update_held ResConfirmed (\<lambda>_. True)))"

definition repo_ReleaseReservation :: "string \<Rightarrow> ReservationRow consent_op" where
  "repo_ReleaseReservation rid = tx_call (with_uuid rid (update_held ResReleased (\<lambda>_. True)))"

definition insert_usage :: "uuid \<Rightarrow> uuid \<Rightarrow> int \<Rightarrow> unit consent_op" where
  "insert_usage cid pid amt s =
     (let (i, s1) = fresh_uuid s in
      if pid \<in> ug_payment ` set (usages s1) then (Inr (), s1)
      else if i \<in> ug_id ` set (usages s1) then (Inl pg_unique_violation, s1)
      else if cid \<notin> cs_id ` set (consents s1) then (Inl (PgError ''23503'' ''violates foreign key constraint''), s1)
      else (Inr (), s1\<lparr>usages := usages s1 @
             [\<lparr>ug_id = i, ug_consent = cid, ug_payment = pid, ug_amount = amt, ug_settled = now s1\<rparr>]\<rparr>))"

definition repo_InsertUsage :: "string \<Rightarrow> string \<Rightarrow> int \<Rightarrow> unit consent_op" where
  "repo_InsertUsage cid pid amt = tx_call (with_uuid cid (\<lambda>c. with_uuid pid (\<lambda>p. insert_usage c p amt)))"

section \<open>The cache\<close>

definition cacheKey :: "string \<Rightarrow> string" where
  "cacheKey i = ''consent:'' @ i"

definition redis_get :: "string \<Rightarrow> ConsentRow consent_op" where
  "redis_get k s =
     (case rcache s k of
        Some (c, expiry) \<Rightarrow> if now s < expiry then (Inr c, s) else (Inl RedisNil, s)
      | None \<Rightarrow> (Inl RedisNil, s))"

definition cacheGet :: "string \<Rightarrow> consent_db \<Rightarrow> ConsentRow option \<times> consent_db" where
  "cacheGet i s =
     (if \<not> has_rdb s then (None, s)
      else case pool_call (redis_get (cacheKey i)) s of
             (Inl err, s1) \<Rightarrow> (None, s1)
           | (Inr c, s1) \<Rightarrow> (Some c, s1))"

definition cacheSet :: "ConsentRow \<Rightarrow> consent_db \<Rightarrow> consent_db" where
  "cacheSet c s =
     (if \<not> has_rdb s then s
      else snd (pool_call (\<lambda>t. (Inr (), t\<lparr>rcache := (rcache t)(cacheKey (cr_ID c) \<mapsto> (c, now t + cacheTTL))\<rparr>)) s))"

definition cacheDel :: "string \<Rightarrow> consent_db \<Rightarrow> consent_db" where
  "cacheDel i s =
     (if \<not> has_rdb s then s
      else snd (pool_call (\<lambda>t. (Inr (), t\<lparr>rcache := (rcache t)(cacheKey i := None)\<rparr>)) s))"

definition consent_isUniqueViolation :: "goerror \<Rightarrow> bool" where
  "consent_isUniqueViolation err \<longleftrightarrow> as_pg err = Some ''23505''"

section \<open>The service\<close>

definition not_found :: goerror where
  "not_found = derr_New CodeNotFound ''consent not found''"

definition check_create :: "int \<Rightarrow> CreateInput \<Rightarrow> goerror option" where
  "check_create t inp =
     (if ci_MerchantID inp = [] then Some (derr_New CodeValidation ''merchant_id is required'')
      else if ci_ConsumerID inp = [] then Some (derr_New CodeValidation ''consumer_id is required'')
      else if ci_BankConsentRef inp = [] then Some (derr_New CodeValidation ''bank_consent_ref is required'')
      else if ci_MaxAmountPence inp \<le> 0 then Some (derr_New CodeValidation ''max_per_transaction must be positive'')
      else if ci_MaxMonthlyPence inp \<le> 0 then Some (derr_New CodeValidation ''max_per_month must be positive'')
      else if ci_MaxAmountPence inp > ci_MaxMonthlyPence inp
        then Some (derr_New CodeValidation ''max_per_transaction cannot exceed max_per_month'')
      else if ci_ValidUntil inp = zero_time \<or> \<not> ci_ValidUntil inp > t
        then Some (derr_New CodeValidation ''valid_until must be in the future'')
      else None)"

definition new_consent :: "CreateInput \<Rightarrow> ConsentRow" where
  "new_consent inp =
     \<lparr>cr_ID = [], cr_MerchantID = ci_MerchantID inp, cr_ConsumerID = ci_ConsumerID inp,
      cr_BankConsentRef = ci_BankConsentRef inp, cr_Status = StatusActive,
      cr_MaxAmountPence = ci_MaxAmountPence inp, cr_MaxMonthlyPence = ci_MaxMonthlyPence inp,
      cr_Currency = (if ci_Currency inp = [] then defaultCurrency else ci_Currency inp), cr_ValidFrom = zero_time,
      cr_ValidUntil = ci_ValidUntil inp, cr_CreatedAt = zero_time, cr_UpdatedAt = zero_time\<rparr>"

definition svc_CreateConsent :: "CreateInput \<Rightarrow> ConsentRow consent_op" where
  "svc_CreateConsent inp s =
     (case check_create (now s) inp of
        Some err \<Rightarrow> (Inl err, s)
      | None \<Rightarrow>
          (case repo_InsertConsent (new_consent inp) s of
             (Inl err, s1) \<Rightarrow>
               (Inl (if consent_isUniqueViolation err
                     then derr_Wrap CodeAlreadyExists ''bank_consent_ref already registered'' err
                     else derr_Wrap CodeInternal ''insert consent'' err), s1)
           | (Inr c, s1) \<Rightarrow> (Inr c, cacheSet c s1)))"

definition get_error :: "goerror \<Rightarrow> goerror" where
  "get_error err = (if is_no_rows err then not_found else derr_Wrap CodeInternal ''get consent'' err)"

definition svc_GetConsent :: "string \<Rightarrow> string \<Rightarrow> ConsentRow consent_op" where
  "svc_GetConsent cid mid s =
     (if cid = [] then (Inl (derr_New CodeValidation ''consent_id is required''), s)
      else case cacheGet cid s of
             (Some c, s1) \<Rightarrow> if mid \<noteq> [] \<and> cr_MerchantID c \<noteq> mid then (Inl not_found, s1) else (Inr c, s1)
           | (None, s1) \<Rightarrow>
               (case repo_GetConsent cid s1 of
                  (Inl err, s2) \<Rightarrow> (Inl (get_error err), s2)
                | (Inr row, s2) \<Rightarrow>
                    if mid \<noteq> [] \<and> cr_MerchantID row \<noteq> mid then (Inl not_found, s2)
                    else (Inr row, cacheSet row s2)))"

definition svc_RevokeConsent :: "string \<Rightarrow> string \<Rightarrow> string \<Rightarrow> ConsentRow consent_op" where
  "svc_RevokeConsent cid mid reason s =
     (if cid = [] then (Inl (derr_New CodeValidation ''consent_id is required''), s)
      else case repo_GetConsent cid s of
             (Inl err, s1) \<Rightarrow> (Inl (get_error err), s1)
           | (Inr existing, s1) \<Rightarrow>
               if mid \<noteq> [] \<and> cr_MerchantID existing \<noteq> mid then (Inl not_found, s1)
               else if cr_Status existing = StatusRevoked then (Inr existing, cacheDel cid s1)
               else if cr_Status existing \<noteq> StatusActive
                 then (Inl (derr_New CodeConsentInactive ''consent is not active''), s1)
               else (case repo_RevokeConsent cid mid s1 of
                       (Inl err, s2) \<Rightarrow>
                         (Inl (if is_no_rows err then derr_New CodeConflict ''consent could not be revoked''
                               else derr_Wrap CodeInternal ''revoke consent'' err), s2)
                     | (Inr row, s2) \<Rightarrow> (Inr row, cacheDel cid s2)))"

definition svc_ListConsents :: "string \<Rightarrow> string \<Rightarrow> string \<Rightarrow> int \<Rightarrow> int \<Rightarrow> (ConsentRow list \<times> int) consent_op" where
  "svc_ListConsents consumerID merchantID status limit offset s =
     (let l0 = (if limit \<le> 0 then 20 else limit); l = (if l0 > 100 then 100 else l0);
          o' = (if offset < 0 then 0 else offset)
      in case repo_ListConsents consumerID merchantID status l o' s of
           (Inl err, s1) \<Rightarrow> (Inl (derr_Wrap CodeInternal ''list consents'' err), s1)
         | (Inr x, s1) \<Rightarrow> (Inr x, s1))"

definition clamp0 :: "int \<Rightarrow> int" where
  "clamp0 x = (if x < 0 then 0 else x)"

definition reserve_result :: "string \<Rightarrow> int \<Rightarrow> ConsentRow \<Rightarrow> ReserveResult" where
  "reserve_result rid remaining c =
     \<lparr>rs_ReservationID = rid, rs_RemainingMonthly = clamp0 remaining, rs_Currency = cr_Currency c,
      rs_ConsumerID = cr_ConsumerID c, rs_BankConsentRef = cr_BankConsentRef c\<rparr>"

text \<open>The transaction's branch for a payment that has a reservation.\<close>

definition reserve_existing :: "ReservationRow \<Rightarrow> ReserveResult consent_op" where
  "reserve_existing existing s =
     (case repo_LockConsent (rr_ConsentID existing) s of
        (Inl err, s1) \<Rightarrow> (Inl (derr_Wrap CodeInternal ''lock consent'' err), s1)
      | (Inr c, s1) \<Rightarrow>
          (case repo_RollingUsage (cr_ID c) s1 of
             (Inl err, s2) \<Rightarrow> (Inl (derr_Wrap CodeInternal ''rolling usage'' err), s2)
           | (Inr (used, held), s2) \<Rightarrow>
               (Inr (reserve_result (rr_ID existing) (sub64 (sub64 (cr_MaxMonthlyPence c) used) held) c), s2)))"

definition check_consent :: "int \<Rightarrow> ReserveInput \<Rightarrow> ConsentRow \<Rightarrow> goerror option" where
  "check_consent t inp c =
     (if cr_Status c = StatusRevoked then Some (derr_New CodeConsentRevoked ''consent revoked'')
      else if cr_Status c = StatusExpired \<or> \<not> cr_ValidUntil c > t
        then Some (derr_New CodeConsentExpired ''consent expired'')
      else if cr_Status c \<noteq> StatusActive then Some (derr_New CodeConsentInactive ''consent is not active'')
      else if ri_Currency inp \<noteq> [] \<and> cr_Currency c \<noteq> [] \<and> ri_Currency inp \<noteq> cr_Currency c
        then Some (derr_New CodeValidation ''currency mismatch'')
      else if ri_AmountPence inp > cr_MaxAmountPence c
        then Some (derr_New CodeConsentLimitExceeded ''amount exceeds per-transaction limit'')
      else None)"

definition reserve_insert :: "ReserveInput \<Rightarrow> ConsentRow \<Rightarrow> int \<Rightarrow> int \<Rightarrow> ReserveResult consent_op" where
  "reserve_insert inp c used held s =
     (case repo_InsertReservation (cr_ID c) (ri_PaymentID inp) (ri_AmountPence inp) s of
        (Inl err, s1) \<Rightarrow>
          if consent_isUniqueViolation err then
            (case repo_GetReservationByPaymentID (ri_PaymentID inp) s1 of
               (Inl rerr, s2) \<Rightarrow> (Inl (derr_Wrap CodeInternal ''re-read reservation'' rerr), s2)
             | (Inr existing, s2) \<Rightarrow>
                 (Inr (reserve_result (rr_ID existing) (sub64 (sub64 (cr_MaxMonthlyPence c) used) held) c), s2))
          else (Inl (derr_Wrap CodeInternal ''insert reservation'' err), s1)
      | (Inr res, s1) \<Rightarrow>
          (Inr (reserve_result (rr_ID res)
             (sub64 (sub64 (sub64 (cr_MaxMonthlyPence c) used) held) (ri_AmountPence inp)) c), s1))"

definition reserve_new :: "ReserveInput \<Rightarrow> ReserveResult consent_op" where
  "reserve_new inp s =
     (case repo_LockConsent (ri_ConsentID inp) s of
        (Inl err, s1) \<Rightarrow>
          (Inl (if is_no_rows err then not_found else derr_Wrap CodeInternal ''lock consent'' err), s1)
      | (Inr c, s1) \<Rightarrow>
          (case check_consent (now s1) inp c of
             Some err \<Rightarrow> (Inl err, s1)
           | None \<Rightarrow>
               (case repo_RollingUsage (cr_ID c) s1 of
                  (Inl err, s2) \<Rightarrow> (Inl (derr_Wrap CodeInternal ''rolling usage'' err), s2)
                | (Inr (used, held), s2) \<Rightarrow>
                    if add64 (add64 used held) (ri_AmountPence inp) > cr_MaxMonthlyPence c
                    then (Inl (derr_New CodeConsentLimitExceeded ''amount exceeds monthly limit''), s2)
                    else reserve_insert inp c used held s2)))"

definition reserve_tx :: "ReserveInput \<Rightarrow> ReserveResult consent_op" where
  "reserve_tx inp s =
     (case repo_GetReservationByPaymentID (ri_PaymentID inp) s of
        (Inr existing, s1) \<Rightarrow> reserve_existing existing s1
      | (Inl err, s1) \<Rightarrow>
          if \<not> is_no_rows err then (Inl (derr_Wrap CodeInternal ''lookup reservation'' err), s1)
          else reserve_new inp s1)"

definition svc_ValidateAndReserve :: "ReserveInput \<Rightarrow> ReserveResult consent_op" where
  "svc_ValidateAndReserve inp s =
     (if ri_ConsentID inp = [] then (Inl (derr_New CodeValidation ''consent_id is required''), s)
      else if ri_PaymentID inp = [] then (Inl (derr_New CodeValidation ''payment_id is required''), s)
      else if ri_AmountPence inp \<le> 0 then (Inl (derr_New CodeValidation ''amount must be positive''), s)
      else BeginTxFunc no_deferred (reserve_tx inp) s)"

definition get_reservation_error :: "goerror \<Rightarrow> goerror" where
  "get_reservation_error err =
     (if is_no_rows err then derr_New CodeNotFound ''reservation not found''
      else derr_Wrap CodeInternal ''get reservation'' err)"

definition confirm_tx :: "string \<Rightarrow> string \<Rightarrow> unit consent_op" where
  "confirm_tx rid pid s =
     (case repo_GetReservation rid s of
        (Inl err, s1) \<Rightarrow> (Inl (get_reservation_error err), s1)
      | (Inr res, s1) \<Rightarrow>
          if pid \<noteq> [] \<and> rr_PaymentID res \<noteq> pid
            then (Inl (derr_New CodeValidation ''payment_id does not match reservation''), s1)
          else if rr_Status res = ResConfirmed
            then repo_InsertUsage (rr_ConsentID res) (rr_PaymentID res) (rr_AmountPence res) s1
          else if rr_Status res = ResReleased
            then (Inl (derr_New CodeConflict ''reservation already released''), s1)
          else if rr_Status res \<noteq> ResHeld then (Inl (derr_New CodeConflict ''reservation is not held''), s1)
          else (case repo_ConfirmReservation rid pid s1 of
                  (Inl err, s2) \<Rightarrow>
                    (Inl (if is_no_rows err then derr_New CodeConflict ''reservation could not be confirmed''
                          else derr_Wrap CodeInternal ''confirm reservation'' err), s2)
                | (Inr updated, s2) \<Rightarrow>
                    (case repo_InsertUsage (rr_ConsentID updated) (rr_PaymentID updated) (rr_AmountPence updated) s2 of
                       (Inl err, s3) \<Rightarrow> (Inl (derr_Wrap CodeInternal ''insert usage'' err), s3)
                     | (Inr _, s3) \<Rightarrow> (Inr (), s3))))"

definition svc_ConfirmReservation :: "string \<Rightarrow> string \<Rightarrow> unit consent_op" where
  "svc_ConfirmReservation rid pid s =
     (if rid = [] then (Inl (derr_New CodeValidation ''reservation_id is required''), s)
      else BeginTxFunc no_deferred (confirm_tx rid pid) s)"

definition release_tx :: "string \<Rightarrow> unit consent_op" where
  "release_tx rid s =
     (case repo_GetReservation rid s of
        (Inl err, s1) \<Rightarrow> (Inl (get_reservation_error err), s1)
      | (Inr res, s1) \<Rightarrow>
          if rr_Status res = ResReleased then (Inr (), s1)
          else if rr_Status res = ResConfirmed
            then (Inl (derr_New CodeConflict ''reservation already confirmed''), s1)
          else if rr_Status res \<noteq> ResHeld then (Inl (derr_New CodeConflict ''reservation is not held''), s1)
          else (case repo_ReleaseReservation rid s1 of
                  (Inl err, s2) \<Rightarrow>
                    (Inl (if is_no_rows err then derr_New CodeConflict ''reservation could not be released''
                          else derr_Wrap CodeInternal ''release reservation'' err), s2)
                | (Inr _, s2) \<Rightarrow> (Inr (), s2)))"

definition svc_ReleaseReservation :: "string \<Rightarrow> string \<Rightarrow> unit consent_op" where
  "svc_ReleaseReservation rid reason s =
     (if rid = [] then (Inl (derr_New CodeValidation ''reservation_id is required''), s)
      else BeginTxFunc no_deferred (release_tx rid) s)"

definition svc_GetRollingUsage :: "string \<Rightarrow> UsageResult consent_op" where
  "svc_GetRollingUsage cid s =
     (if cid = [] then (Inl (derr_New CodeValidation ''consent_id is required''), s)
      else case repo_GetConsent cid s of
             (Inl err, s1) \<Rightarrow> (Inl (get_error err), s1)
           | (Inr c, s1) \<Rightarrow>
               (case repo_RollingUsagePool cid s1 of
                  (Inl err, s2) \<Rightarrow> (Inl (derr_Wrap CodeInternal ''rolling usage'' err), s2)
                | (Inr (used, held), s2) \<Rightarrow>
                    (case repo_TxCountThisMonth cid s2 of
                       (Inl err, s3) \<Rightarrow> (Inl (derr_Wrap CodeInternal ''tx count'' err), s3)
                     | (Inr n, s3) \<Rightarrow>
                         (Inr \<lparr>ur_UsedPence = add64 used held,
                               ur_RemainingPence = clamp0 (sub64 (sub64 (cr_MaxMonthlyPence c) used) held),
                               ur_Currency = cr_Currency c, ur_TxCount = n\<rparr>, s3))))"

section \<open>The gRPC handler\<close>

definition moneyFromProto :: "pb_Money option \<Rightarrow> (int \<times> string) res" where
  "moneyFromProto mo =
     (case mo of
        None \<Rightarrow> Inl (derr_New CodeValidation ''money is required'')
      | Some x \<Rightarrow>
          (let c0 = ToUpper (TrimSpace (mo_Currency x)); cur = (if c0 = [] then defaultCurrency else c0) in
           if length cur \<noteq> 3 then Inl (derr_New CodeValidation ''currency must be 3-letter ISO code'')
           else if mo_AmountPence x \<le> 0 then Inl (derr_New CodeValidation ''amount must be positive'')
           else Inr (mo_AmountPence x, cur)))"

definition mapStatus :: "string \<Rightarrow> ConsentStatus" where
  "mapStatus t =
     (if t = StatusPending then Consent_PENDING
      else if t = StatusActive then Consent_ACTIVE
      else if t = StatusRevoked then Consent_REVOKED
      else if t = StatusExpired then Consent_EXPIRED
      else CONSENT_STATUS_UNSPECIFIED)"

definition toProtoConsent :: "int \<Rightarrow> ConsentRow \<Rightarrow> Consent" where
  "toProtoConsent t c =
     \<lparr>cn_Id = cr_ID c, cn_MerchantId = cr_MerchantID c, cn_ConsumerId = cr_ConsumerID c,
      cn_BankConsentRef = cr_BankConsentRef c,
      cn_Status = (if cr_Status c = StatusActive \<and> \<not> cr_ValidUntil c > t then Consent_EXPIRED
                   else mapStatus (cr_Status c)),
      cn_MaxPerTransaction = \<lparr>mo_AmountPence = cr_MaxAmountPence c, mo_Currency = cr_Currency c\<rparr>,
      cn_MaxPerMonth = \<lparr>mo_AmountPence = cr_MaxMonthlyPence c, mo_Currency = cr_Currency c\<rparr>,
      cn_ValidFrom = cr_ValidFrom c, cn_ValidUntil = cr_ValidUntil c,
      cn_CreatedAt = cr_CreatedAt c, cn_UpdatedAt = cr_UpdatedAt c\<rparr>"

definition proto_result :: "ConsentRow res \<times> consent_db \<Rightarrow> Consent res \<times> consent_db" where
  "proto_result = (\<lambda>(r, s). (case r of Inl err \<Rightarrow> Inl (ToGRPC err) | Inr c \<Rightarrow> Inr (toProtoConsent (now s) c), s))"

definition rpc_CreateConsent :: "CreateConsentRequest \<Rightarrow> Consent consent_op" where
  "rpc_CreateConsent req s =
     (case moneyFromProto (ccr_MaxPerTransaction req) of
        Inl err \<Rightarrow> (Inl (ToGRPC err), s)
      | Inr (maxTx, cur) \<Rightarrow>
          (case moneyFromProto (ccr_MaxPerMonth req) of
             Inl err \<Rightarrow> (Inl (ToGRPC err), s)
           | Inr (maxMo, cur2) \<Rightarrow>
               proto_result (svc_CreateConsent
                 \<lparr>ci_MerchantID = ccr_MerchantId req, ci_ConsumerID = ccr_ConsumerId req,
                  ci_BankConsentRef = ccr_BankConsentRef req, ci_MaxAmountPence = maxTx, ci_MaxMonthlyPence = maxMo,
                  ci_Currency = (if cur = [] then cur2 else cur),
                  ci_ValidUntil = (case ccr_ValidUntil req of None \<Rightarrow> zero_time | Some t \<Rightarrow> t)\<rparr> s)))"

definition rpc_GetConsent :: "GetConsentRequest \<Rightarrow> Consent consent_op" where
  "rpc_GetConsent req s = proto_result (svc_GetConsent (gcr_ConsentId req) (gcr_MerchantId req) s)"

definition rpc_RevokeConsent :: "RevokeConsentRequest \<Rightarrow> Consent consent_op" where
  "rpc_RevokeConsent req s =
     proto_result (svc_RevokeConsent (rcr_ConsentId req) (rcr_MerchantId req) (rcr_Reason req) s)"

fun status_filter :: "ConsentStatus \<Rightarrow> string" where
  "status_filter Consent_PENDING = StatusPending"
| "status_filter Consent_ACTIVE = StatusActive"
| "status_filter Consent_REVOKED = StatusRevoked"
| "status_filter Consent_EXPIRED = StatusExpired"
| "status_filter _ = []"

definition page_params :: "PageRequest option \<Rightarrow> (int \<times> int) res" where
  "page_params p =
     (case p of
        None \<Rightarrow> Inr (20, 0)
      | Some q \<Rightarrow>
          (let limit = (if pg_PageSize q > 0 then pg_PageSize q else 20); tok = TrimSpace (pg_PageToken q) in
           if tok = [] then Inr (limit, 0)
           else case Atoi tok of
                  None \<Rightarrow> Inl (ToGRPC (derr_New CodeValidation ''page_token must be an integer offset''))
                | Some n \<Rightarrow> if n < 0 then Inl (ToGRPC (derr_New CodeValidation ''page_token must be an integer offset''))
                            else Inr (limit, n)))"

definition rpc_ListConsents :: "ListConsentsRequest \<Rightarrow> ListConsentsResponse consent_op" where
  "rpc_ListConsents req s =
     (case page_params (lcr_Page req) of
        Inl err \<Rightarrow> (Inl err, s)
      | Inr (limit, offset) \<Rightarrow>
          (case svc_ListConsents (lcr_ConsumerId req) (lcr_MerchantId req) (status_filter (lcr_Status req)) limit offset s of
             (Inl err, s1) \<Rightarrow> (Inl (ToGRPC err), s1)
           | (Inr (rows, cnt), s1) \<Rightarrow>
               (let reached = add64 offset (int (length rows)) in
                (Inr \<lparr>lcs_Consents = map (toProtoConsent (now s1)) rows,
                      lcs_Page = \<lparr>pr_NextPageToken = (if reached < cnt then Itoa reached else []),
                                  pr_TotalCount = wrap32 cnt\<rparr>\<rparr>, s1))))"

definition rpc_ValidateAndReserve :: "ReserveRequest \<Rightarrow> ReserveResponse consent_op" where
  "rpc_ValidateAndReserve req s =
     (case moneyFromProto (rrq_Amount req) of
        Inl err \<Rightarrow> (Inl (ToGRPC err), s)
      | Inr (amt, cur) \<Rightarrow>
          (case svc_ValidateAndReserve \<lparr>ri_ConsentID = rrq_ConsentId req, ri_PaymentID = rrq_PaymentId req,
                  ri_AmountPence = amt, ri_Currency = cur\<rparr> s of
             (Inl err, s1) \<Rightarrow> (Inl (ToGRPC err), s1)
           | (Inr res, s1) \<Rightarrow>
               (Inr \<lparr>rrs_ReservationId = rs_ReservationID res,
                     rrs_RemainingMonthly = \<lparr>mo_AmountPence = rs_RemainingMonthly res, mo_Currency = rs_Currency res\<rparr>,
                     rrs_ConsumerId = rs_ConsumerID res, rrs_BankConsentRef = rs_BankConsentRef res\<rparr>, s1)))"

definition rpc_ConfirmReservation :: "ConfirmRequest \<Rightarrow> unit consent_op" where
  "rpc_ConfirmReservation req s = rpc_result (svc_ConfirmReservation (cfr_ReservationId req) (cfr_PaymentId req) s)"

definition rpc_ReleaseReservation :: "ReleaseRequest \<Rightarrow> unit consent_op" where
  "rpc_ReleaseReservation req s = rpc_result (svc_ReleaseReservation (rlr_ReservationId req) (rlr_Reason req) s)"

definition rpc_GetRollingUsage :: "UsageRequest \<Rightarrow> UsageResponse consent_op" where
  "rpc_GetRollingUsage req s =
     (case svc_GetRollingUsage (usr_ConsentId req) s of
        (Inl err, s1) \<Rightarrow> (Inl (ToGRPC err), s1)
      | (Inr u, s1) \<Rightarrow>
          (Inr \<lparr>uss_UsedThisMonth = \<lparr>mo_AmountPence = ur_UsedPence u, mo_Currency = ur_Currency u\<rparr>,
                uss_RemainingThisMonth = \<lparr>mo_AmountPence = ur_RemainingPence u, mo_Currency = ur_Currency u\<rparr>,
                uss_TxCountThisMonth = ur_TxCount u\<rparr>, s1))"

end
