(* ===== verification/Consent_Props.thy ===== *)
theory Consent_Props
  imports Consent
begin

text \<open>
  What the consent service's operations do to its tables.
  \<^item> \<open>consent_wf\<close>: the constraints of the migration, and that usage rows and confirmed reservations
    correspond one to one.
  \<^item> \<open>svc_ValidateAndReserve_effect\<close>, \<open>svc_ConfirmReservation_effect\<close> and the rules like them: every
    operation is refused and leaves the tables, finds its work done before, or makes one change.
  \<^item> \<open>consent_step\<close> are the transitions of the service, \<open>hold_lifecycle\<close> the contract that a reservation
    only ever moves forward, and \<open>cap_ok\<close> the monthly limit.
\<close>

section \<open>Environment\<close>

definition tables :: "consent_db \<Rightarrow> consent_tbl list \<times> reservation_tbl list \<times> usage_tbl list" where
  "tables s = (consents s, reservations s, usages s)"

lemma consent_env:
  assumes "env_only s s'"
  shows "consents s' = consents s" "reservations s' = reservations s" "usages s' = usages s" "now s' = now s"
    "codec s' = codec s" "rcache s' = rcache s" "has_rdb s' = has_rdb s" "uuid_src s' = uuid_src s"
  using assms by (auto elim: env_onlyE)

lemma used_of_env: "env_only s s' \<Longrightarrow> used_of s' u = used_of s u"
  by (simp add: used_of_def consent_env)

lemma held_of_env: "env_only s s' \<Longrightarrow> held_of s' u = held_of s u"
  by (simp add: held_of_def consent_env)

definition new_hold :: "consent_db \<Rightarrow> uuid \<Rightarrow> uuid \<Rightarrow> uuid \<Rightarrow> int \<Rightarrow> reservation_tbl" where
  "new_hold s i c p amt =
     \<lparr>rv_id = i, rv_consent = c, rv_payment = p, rv_amount = amt, rv_status = ResHeld,
      rv_expires = now s + hold_time, rv_created = now s\<rparr>"

section \<open>Reads\<close>

lemma scanConsent_sel [simp]:
  "cr_ID (scanConsent k c) = uc_String k (cs_id c)" "cr_MerchantID (scanConsent k c) = uc_String k (cs_merchant c)"
  "cr_ConsumerID (scanConsent k c) = cs_consumer c" "cr_BankConsentRef (scanConsent k c) = cs_bankref c"
  "cr_Status (scanConsent k c) = cs_status c" "cr_MaxAmountPence (scanConsent k c) = cs_max c"
  "cr_MaxMonthlyPence (scanConsent k c) = cs_month c" "cr_Currency (scanConsent k c) = cs_currency c"
  "cr_ValidUntil (scanConsent k c) = cs_until c"
  by (simp_all add: scanConsent_def)

lemma scanReservation_sel [simp]:
  "rr_ID (scanReservation k r) = uc_String k (rv_id r)" "rr_ConsentID (scanReservation k r) = uc_String k (rv_consent r)"
  "rr_PaymentID (scanReservation k r) = uc_String k (rv_payment r)" "rr_AmountPence (scanReservation k r) = rv_amount r"
  "rr_Status (scanReservation k r) = rv_status r" "rr_ExpiresAt (scanReservation k r) = rv_expires r"
  by (simp_all add: scanReservation_def)

lemma new_hold_sel [simp]:
  "rv_id (new_hold s i c p amt) = i" "rv_consent (new_hold s i c p amt) = c" "rv_payment (new_hold s i c p amt) = p"
  "rv_amount (new_hold s i c p amt) = amt" "rv_status (new_hold s i c p amt) = ResHeld"
  "rv_expires (new_hold s i c p amt) = now s + hold_time"
  by (simp_all add: new_hold_def)

lemma codec_okD: "codec_ok c \<Longrightarrow> uc_pg c (uc_String c u) = Some u"
  by (simp add: codec_ok_def)

lemma codec_inj: "codec_ok c \<Longrightarrow> uc_String c u = uc_String c v \<Longrightarrow> u = v"
  by (metis codec_ok_def option.inject)

lemma snd_select_consent [simp]: "snd (select_consent t s) = s"
  by (simp add: select_consent_def with_uuid_def split: option.splits)

lemma snd_select_reservation [simp]: "snd (select_reservation key t s) = s"
  by (simp add: select_reservation_def with_uuid_def split: option.splits)

lemma snd_select_usage [simp]: "snd (select_usage t s) = s"
  by (simp add: select_usage_def with_uuid_def split: option.splits)

lemma select_consent_found:
  assumes "select_consent t s = (Inr x, s')"
  shows "\<exists>c \<in> set (consents s). uc_pg (codec s) t = Some (cs_id c) \<and> x = scanConsent (codec s) c"
  using assms by (auto simp: select_consent_def with_uuid_def split: option.splits dest: row_by_SomeD)

lemma select_reservation_found:
  assumes "select_reservation key t s = (Inr x, s')"
  shows "\<exists>r \<in> set (reservations s). uc_pg (codec s) t = Some (key r) \<and> x = scanReservation (codec s) r"
  using assms by (auto simp: select_reservation_def with_uuid_def split: option.splits dest: row_by_SomeD)

text \<open>A read inside a transaction that returned a row saw the tables as they are.\<close>

lemma tx_read_found:
  assumes "tx_call f s = (Inr x, s')" and "\<And>t. snd (f t) = t"
  obtains s0 where "env_only s s0" "\<not> aborted s0" "f s0 = (Inr x, s0)" "s' = s0"
  using assms(1)
proof (cases rule: tx_call_cases)
  case (run s0 y)
  then have "s' = s0" using assms(2) [of s0] by simp
  with run that show thesis by auto
qed auto

lemma pool_read_found:
  assumes "pool_call f s = (Inr x, s')" and "\<And>t. snd (f t) = t"
  obtains s0 where "env_only s s0" "f s0 = (Inr x, s0)" "s' = s0"
  using assms(1)
proof (cases rule: pool_call_cases)
  case (run s0)
  then have "s' = s0" using assms(2) [of s0] by simp
  with run that show thesis by auto
qed auto

lemma repo_LockConsent_found:
  assumes "repo_LockConsent t s = (Inr x, s')"
  shows "env_only s s' \<and> (\<exists>c \<in> set (consents s). uc_pg (codec s) t = Some (cs_id c) \<and> x = scanConsent (codec s) c)"
proof -
  from assms obtain s0 where s0: "env_only s s0" "select_consent t s0 = (Inr x, s0)" "s' = s0"
    unfolding repo_LockConsent_def by (rule tx_read_found) auto
  with select_consent_found [OF s0(2)] show ?thesis by (simp add: consent_env [OF s0(1)])
qed

lemma repo_GetConsent_found:
  assumes "repo_GetConsent t s = (Inr x, s')"
  shows "env_only s s' \<and> (\<exists>c \<in> set (consents s). uc_pg (codec s) t = Some (cs_id c) \<and> x = scanConsent (codec s) c)"
proof -
  from assms obtain s0 where s0: "env_only s s0" "select_consent t s0 = (Inr x, s0)" "s' = s0"
    unfolding repo_GetConsent_def by (rule pool_read_found) auto
  with select_consent_found [OF s0(2)] show ?thesis by (simp add: consent_env [OF s0(1)])
qed

lemma tx_select_reservation_found:
  assumes "tx_call (select_reservation key t) s = (Inr x, s')"
  shows "env_only s s' \<and> \<not> aborted s' \<and>
    (\<exists>r \<in> set (reservations s). uc_pg (codec s) t = Some (key r) \<and> x = scanReservation (codec s) r)"
proof -
  from assms obtain s0 where s0: "env_only s s0" "\<not> aborted s0" "select_reservation key t s0 = (Inr x, s0)" "s' = s0"
    by (rule tx_read_found) auto
  with select_reservation_found [OF s0(3)] show ?thesis by (simp add: consent_env [OF s0(1)])
qed

lemma repo_RollingUsage_found:
  assumes "repo_RollingUsage t s = (Inr (used, held), s')"
  shows "env_only s s' \<and> (\<exists>u. uc_pg (codec s) t = Some u \<and> used = used_of s u \<and> held = held_of s u \<and>
    is_int64 used \<and> is_int64 held)"
proof -
  have "tx_call (select_usage t) s = (Inr (used, held), s')"
    using assms by (auto simp: repo_RollingUsage_def wrap_usage_def split: prod.splits sum.splits)
  then obtain s0 where s0: "env_only s s0" "select_usage t s0 = (Inr (used, held), s0)" "s' = s0"
    by (rule tx_read_found) auto
  then show ?thesis
    by (auto simp: select_usage_def with_uuid_def consent_env [OF s0(1)] used_of_env [OF s0(1)] held_of_env [OF s0(1)]
        split: option.splits if_splits)
qed

section \<open>Reserving\<close>

definition guards_pass :: "consent_db \<Rightarrow> ReserveInput \<Rightarrow> consent_tbl \<Rightarrow> bool" where
  "guards_pass s inp c \<longleftrightarrow> cs_status c = StatusActive \<and> now s < cs_until c \<and>
     (ri_Currency inp = [] \<or> cs_currency c = [] \<or> ri_Currency inp = cs_currency c) \<and>
     0 < ri_AmountPence inp \<and> ri_AmountPence inp \<le> cs_max c \<and>
     add64 (add64 (used_of s (cs_id c)) (held_of s (cs_id c))) (ri_AmountPence inp) \<le> cs_month c"

definition holds :: "ReserveInput \<Rightarrow> consent_tbl \<Rightarrow> uuid \<Rightarrow> uuid \<Rightarrow> consent_db \<Rightarrow> consent_db \<Rightarrow> bool" where
  "holds inp c p i s s' \<longleftrightarrow>
     c \<in> set (consents s) \<and> uc_pg (codec s) (ri_ConsentID inp) = Some (cs_id c) \<and>
     uc_pg (codec s) (ri_PaymentID inp) = Some p \<and> p \<notin> rv_payment ` set (reservations s) \<and>
     i \<notin> rv_id ` set (reservations s) \<and> guards_pass s inp c \<and>
     is_int64 (used_of s (cs_id c)) \<and> is_int64 (held_of s (cs_id c)) \<and>
     consents s' = consents s \<and> usages s' = usages s \<and> now s' = now s \<and> codec s' = codec s \<and>
     reservations s' = reservations s @ [new_hold s i (cs_id c) p (ri_AmountPence inp)]"

lemma guards_pass_env: "env_only s s' \<Longrightarrow> guards_pass s' = guards_pass s"
  by (simp add: fun_eq_iff guards_pass_def consent_env used_of_env held_of_env)

lemma holds_env:
  assumes "env_only s t" and "env_only u v" and "holds inp c p i t u"
  shows "holds inp c p i s v"
  using assms(3)
  by (simp add: holds_def new_hold_def guards_pass_env [OF assms(1)] used_of_env [OF assms(1)] held_of_env [OF assms(1)]
      consent_env [OF assms(1)] consent_env [OF assms(2)])

lemma check_consent_None:
  "check_consent t inp (scanConsent k c) = None \<longleftrightarrow>
   cs_status c = StatusActive \<and> t < cs_until c \<and>
   (ri_Currency inp = [] \<or> cs_currency c = [] \<or> ri_Currency inp = cs_currency c) \<and> ri_AmountPence inp \<le> cs_max c"
  by (auto simp: check_consent_def scanConsent_def)

lemma insert_reservation_effect:
  assumes "tx_call (with_uuid cid (\<lambda>c. with_uuid pid (\<lambda>p. insert_reservation c p amt))) s = (Inr x, s')"
  shows "\<exists>c p i. uc_pg (codec s) cid = Some c \<and> uc_pg (codec s) pid = Some p \<and>
    p \<notin> rv_payment ` set (reservations s) \<and> i \<notin> rv_id ` set (reservations s) \<and>
    x = scanReservation (codec s) (new_hold s i c p amt) \<and>
    consents s' = consents s \<and> usages s' = usages s \<and> now s' = now s \<and> codec s' = codec s \<and>
    reservations s' = reservations s @ [new_hold s i c p amt]"
  using assms
proof (cases rule: tx_call_cases)
  case (run s0 y)
  from run(3,4) show ?thesis
    by (auto simp: with_uuid_def insert_reservation_def fresh_uuid_def Let_def new_hold_def consent_env [OF run(1)]
        split: option.splits if_splits)
qed auto

lemma insert_reservation_unique:
  assumes "repo_InsertReservation cid pid amt s = (Inl err, s')" and "consent_isUniqueViolation err"
  shows "aborted s'"
proof -
  obtain e where t: "tx_call (with_uuid cid (\<lambda>c. with_uuid pid (\<lambda>p. insert_reservation c p amt))) s = (Inl e, s')"
    and "err = OtherError ''insert reservation'' (Some e)"
    using assms(1) by (auto simp: repo_InsertReservation_def split: prod.splits sum.splits)
  with assms(2) have "e \<noteq> ErrNoRows" by (auto simp: consent_isUniqueViolation_def)
  with t show ?thesis by (cases rule: tx_call_cases) auto
qed

lemma reserve_insert_effect:
  assumes "reserve_insert inp c used held s = (Inr x, s')"
  shows "\<exists>res. repo_InsertReservation (cr_ID c) (ri_PaymentID inp) (ri_AmountPence inp) s = (Inr res, s') \<and>
    x = reserve_result (rr_ID res) (sub64 (sub64 (sub64 (cr_MaxMonthlyPence c) used) held) (ri_AmountPence inp)) c"
proof -
  obtain r1 s1 where i: "repo_InsertReservation (cr_ID c) (ri_PaymentID inp) (ri_AmountPence inp) s = (r1, s1)" by fastforce
  show ?thesis
  proof (cases r1)
    case (Inl err)
    have "aborted s1" if "consent_isUniqueViolation err"
      using insert_reservation_unique [OF i [unfolded Inl] that] .
    with assms i Inl show ?thesis
      by (auto simp: reserve_insert_def repo_GetReservationByPaymentID_def tx_call_def split: if_splits)
  next
    case (Inr res)
    with assms i show ?thesis by (simp add: reserve_insert_def)
  qed
qed

text \<open>What a successful new reservation reports.\<close>

definition reserved_result :: "consent_db \<Rightarrow> consent_tbl \<Rightarrow> uuid \<Rightarrow> int \<Rightarrow> ReserveResult" where
  "reserved_result s c i amt = reserve_result (uc_String (codec s) i)
     (sub64 (sub64 (sub64 (cs_month c) (used_of s (cs_id c))) (held_of s (cs_id c))) amt) (scanConsent (codec s) c)"

lemma reserve_new_effect:
  assumes "reserve_new inp s = (Inr x, s')" and "codec_ok (codec s)" and "0 < ri_AmountPence inp"
  shows "\<exists>c p i. holds inp c p i s s' \<and> x = reserved_result s c i (ri_AmountPence inp)"
proof -
  obtain cr s1 where l: "repo_LockConsent (ri_ConsentID inp) s = (Inr cr, s1)"
    using assms(1) by (auto simp: reserve_new_def split: prod.splits sum.splits)
  from repo_LockConsent_found [OF l] obtain c where
    c: "env_only s s1" "c \<in> set (consents s)" "uc_pg (codec s) (ri_ConsentID inp) = Some (cs_id c)" "cr = scanConsent (codec s) c"
    by auto
  note e1 = consent_env [OF c(1)]
  have ck: "check_consent (now s) inp cr = None"
    using assms(1) l by (auto simp: reserve_new_def e1 split: option.splits)
  obtain used held s2 where u: "repo_RollingUsage (cr_ID cr) s1 = (Inr (used, held), s2)"
    and m: "\<not> add64 (add64 used held) (ri_AmountPence inp) > cr_MaxMonthlyPence cr"
    and i: "reserve_insert inp cr used held s2 = (Inr x, s')"
    using assms(1) l ck by (auto simp: reserve_new_def e1 split: prod.splits sum.splits if_splits)
  have cid: "uc_pg (codec s) (cr_ID cr) = Some (cs_id c)"
    using c(4) assms(2) by (simp add: scanConsent_def codec_okD)
  from repo_RollingUsage_found [OF u] cid have uu: "env_only s1 s2" "used = used_of s (cs_id c)" "held = held_of s (cs_id c)"
    "is_int64 used" "is_int64 held" by (auto simp: e1 used_of_env [OF c(1)] held_of_env [OF c(1)])
  have e2: "env_only s s2" using c(1) uu(1) by (rule env_only_trans)
  note e2s = consent_env [OF e2]
  from reserve_insert_effect [OF i] obtain res where
    ri: "repo_InsertReservation (cr_ID cr) (ri_PaymentID inp) (ri_AmountPence inp) s2 = (Inr res, s')"
    "x = reserve_result (rr_ID res) (sub64 (sub64 (sub64 (cr_MaxMonthlyPence cr) used) held) (ri_AmountPence inp)) cr" by blast
  from ri(1) have "tx_call (with_uuid (cr_ID cr) (\<lambda>c. with_uuid (ri_PaymentID inp) (\<lambda>p. insert_reservation c p (ri_AmountPence inp)))) s2 = (Inr res, s')"
    by (auto simp: repo_InsertReservation_def split: prod.splits sum.splits)
  from insert_reservation_effect [OF this] cid obtain p k where
    k: "uc_pg (codec s) (ri_PaymentID inp) = Some p" "p \<notin> rv_payment ` set (reservations s)" "k \<notin> rv_id ` set (reservations s)"
    "res = scanReservation (codec s) (new_hold s k (cs_id c) p (ri_AmountPence inp))"
    "consents s' = consents s" "usages s' = usages s" "now s' = now s" "codec s' = codec s"
    "reservations s' = reservations s @ [new_hold s k (cs_id c) p (ri_AmountPence inp)]"
    by (auto simp: e2s new_hold_def)
  have "guards_pass s inp c"
    using ck c(4) m uu assms(3) by (auto simp: guards_pass_def check_consent_None)
  with k c uu(2-) have "holds inp c p k s s'" by (simp add: holds_def)
  moreover have "x = reserved_result s c k (ri_AmountPence inp)"
    using ri(2) k(4) c(4) uu(2,3) by (simp add: reserved_result_def scanReservation_def scanConsent_def new_hold_def)
  ultimately show ?thesis by blast
qed

lemma reserve_existing_effect:
  assumes "reserve_existing x s = (r, s')"
  shows "env_only s s' \<and> (\<forall>y. r = Inr y \<longrightarrow> rs_ReservationID y = rr_ID x)"
proof -
  obtain r1 s1 where l: "repo_LockConsent (rr_ConsentID x) s = (r1, s1)" by fastforce
  then have e1: "env_only s s1" unfolding repo_LockConsent_def by (rule read_tx [rotated]) simp
  show ?thesis
  proof (cases r1)
    case (Inl e)
    with assms l e1 show ?thesis by (auto simp: reserve_existing_def)
  next
    case (Inr c)
    obtain r2 s2 where u: "repo_RollingUsage (cr_ID c) s1 = (r2, s2)" by fastforce
    then have "\<exists>r3. tx_call (select_usage (cr_ID c)) s1 = (r3, s2)"
      by (auto simp: repo_RollingUsage_def wrap_usage_def split: prod.splits)
    then have "env_only s1 s2" using read_tx [of "select_usage (cr_ID c)" s1] by auto
    with e1 have "env_only s s2" by (rule env_only_trans)
    with assms l u Inr show ?thesis by (auto simp: reserve_existing_def reserve_result_def split: sum.splits)
  qed
qed

text \<open>The reservation's case rule: refused without a trace, found by its payment, or a new hold with
  every guard of the source satisfied.\<close>

lemma svc_ValidateAndReserve_effect:
  assumes "svc_ValidateAndReserve inp s = (r, s')" and "codec_ok (codec s)"
  obtains (refused) e where "r = Inl e" "env_only s s'"
        | (found) x v where "r = Inr x" "env_only s s'" "v \<in> set (reservations s)"
            "uc_pg (codec s) (ri_PaymentID inp) = Some (rv_payment v)" "rs_ReservationID x = uc_String (codec s) (rv_id v)"
        | (held) c p i where "r = Inr (reserved_result s c i (ri_AmountPence inp))" "holds inp c p i s s'"
proof (cases "ri_ConsentID inp = [] \<or> ri_PaymentID inp = [] \<or> ri_AmountPence inp \<le> 0")
  case True
  with assms(1) have "(\<exists>e. r = Inl e) \<and> s' = s" by (auto simp: svc_ValidateAndReserve_def split: if_splits)
  then show thesis using refused by blast
next
  case False
  with assms(1) have "BeginTxFunc no_deferred (reserve_tx inp) s = (r, s')" by (simp add: svc_ValidateAndReserve_def)
  then show thesis
  proof (cases rule: BeginTxFunc_cases)
    case (rolled_back e)
    then show thesis by (rule refused)
  next
    case (committed s0 x s1)
    note e0 = consent_env [OF committed(1)]
    obtain r2 s2 where g: "repo_GetReservationByPaymentID (ri_PaymentID inp) s0 = (r2, s2)" by fastforce
    then have e2: "env_only s0 s2" unfolding repo_GetReservationByPaymentID_def by (rule read_tx [rotated]) simp
    show thesis
    proof (cases r2)
      case (Inr v)
      have re: "reserve_existing v s2 = (Inr x, s1)" using committed(3) g Inr by (simp add: reserve_tx_def)
      from tx_select_reservation_found [OF g [unfolded Inr repo_GetReservationByPaymentID_def]] obtain rv where
        rv: "rv \<in> set (reservations s)" "uc_pg (codec s) (ri_PaymentID inp) = Some (rv_payment rv)" "v = scanReservation (codec s) rv"
        by (auto simp: e0)
      from reserve_existing_effect [OF re] rv(3) have "env_only s2 s1" "rs_ReservationID x = uc_String (codec s) (rv_id rv)" by auto
      moreover have "env_only s s'"
        using committed(1) e2 calculation(1) committed(4) by (meson env_only_trans)
      ultimately show thesis using found committed(5) rv by blast
    next
      case (Inl e)
      have rn: "reserve_new inp s2 = (Inr x, s1)"
        using committed(3) g Inl by (simp add: reserve_tx_def split: if_splits)
      have es: "env_only s s2" using committed(1) e2 by (rule env_only_trans)
      have "codec_ok (codec s2)" using assms(2) by (simp add: consent_env [OF es])
      from reserve_new_effect [OF rn this] False obtain c p i where
        h: "holds inp c p i s2 s1" "x = reserved_result s2 c i (ri_AmountPence inp)" by auto
      have "x = reserved_result s c i (ri_AmountPence inp)"
        using h(2) by (simp add: reserved_result_def consent_env [OF es] used_of_env [OF es] held_of_env [OF es])
      with held committed(5) holds_env [OF es committed(4) h(1)] show thesis by blast
    qed
  qed
qed

section \<open>Confirming and releasing\<close>

definition usage_for :: "reservation_tbl \<Rightarrow> usage_tbl \<Rightarrow> bool" where
  "usage_for r g \<longleftrightarrow> ug_payment g = rv_payment r \<and> ug_consent g = rv_consent r \<and> ug_amount g = rv_amount r"

definition consent_wf :: "consent_db \<Rightarrow> bool" where
  "consent_wf s \<longleftrightarrow> codec_ok (codec s) \<and>
     distinct (map cs_id (consents s)) \<and> distinct (map cs_bankref (consents s)) \<and>
     distinct (map rv_id (reservations s)) \<and> distinct (map rv_payment (reservations s)) \<and>
     distinct (map ug_id (usages s)) \<and> distinct (map ug_payment (usages s)) \<and>
     (\<forall>c \<in> set (consents s). 0 < cs_max c \<and> cs_max c \<le> cs_month c \<and> cs_status c \<in> {StatusActive, StatusRevoked}) \<and>
     (\<forall>r \<in> set (reservations s). rv_consent r \<in> cs_id ` set (consents s) \<and> 0 < rv_amount r \<and>
        rv_status r \<in> {ResHeld, ResConfirmed, ResReleased}) \<and>
     (\<forall>r \<in> set (reservations s). rv_status r = ResConfirmed \<longrightarrow> (\<exists>g \<in> set (usages s). usage_for r g)) \<and>
     (\<forall>g \<in> set (usages s). \<exists>r \<in> set (reservations s). rv_status r = ResConfirmed \<and> usage_for r g)"

definition with_status :: "string \<Rightarrow> uuid \<Rightarrow> reservation_tbl list \<Rightarrow> reservation_tbl list" where
  "with_status st u rs = update_where (\<lambda>r. rv_id r = u) (\<lambda>r. r\<lparr>rv_status := st\<rparr>) rs"

definition sets_status :: "string \<Rightarrow> reservation_tbl \<Rightarrow> consent_db \<Rightarrow> consent_db \<Rightarrow> bool" where
  "sets_status st r s s' \<longleftrightarrow> r \<in> set (reservations s) \<and> rv_status r = ResHeld \<and>
     reservations s' = with_status st (rv_id r) (reservations s) \<and>
     consents s' = consents s \<and> now s' = now s \<and> codec s' = codec s"

definition confirms :: "reservation_tbl \<Rightarrow> uuid \<Rightarrow> consent_db \<Rightarrow> consent_db \<Rightarrow> bool" where
  "confirms r i s s' \<longleftrightarrow> sets_status ResConfirmed r s s' \<and> i \<notin> ug_id ` set (usages s) \<and>
     rv_payment r \<notin> ug_payment ` set (usages s) \<and>
     usages s' = usages s @ [\<lparr>ug_id = i, ug_consent = rv_consent r, ug_payment = rv_payment r,
       ug_amount = rv_amount r, ug_settled = now s\<rparr>]"

definition releases :: "reservation_tbl \<Rightarrow> consent_db \<Rightarrow> consent_db \<Rightarrow> bool" where
  "releases r s s' \<longleftrightarrow> sets_status ResReleased r s s' \<and> usages s' = usages s"

lemma sets_status_env:
  assumes "env_only s t" "env_only u v" "sets_status st r t u"
  shows "sets_status st r s v"
  using assms(3) by (simp add: sets_status_def consent_env [OF assms(1)] consent_env [OF assms(2)])

lemma confirms_env:
  assumes "env_only s t" "env_only u v" "confirms r i t u"
  shows "confirms r i s v"
  using assms(3) sets_status_env [OF assms(1,2)] by (simp add: confirms_def consent_env [OF assms(1)] consent_env [OF assms(2)])

lemma releases_env:
  assumes "env_only s t" "env_only u v" "releases r t u"
  shows "releases r s v"
  using assms(3) sets_status_env [OF assms(1,2)] by (simp add: releases_def consent_env [OF assms(1)] consent_env [OF assms(2)])

lemma consent_wf_env: "env_only s s' \<Longrightarrow> consent_wf s' = consent_wf s"
  by (simp add: consent_wf_def consent_env)

lemma update_held_effect:
  assumes "update_held st mine u s = (Inr x, s')"
  shows "\<exists>r. sets_status st r s s' \<and> rv_id r = u \<and> mine (rv_payment r) \<and> usages s' = usages s \<and>
    x = scanReservation (codec s) (r\<lparr>rv_status := st\<rparr>)"
proof -
  from assms obtain r where r: "row_by rv_id u (reservations s) = Some r" "rv_status r = ResHeld" "mine (rv_payment r)"
    "x = scanReservation (codec s) (r\<lparr>rv_status := st\<rparr>)" "s' = s\<lparr>reservations := with_status st u (reservations s)\<rparr>"
    by (auto simp: update_held_def with_status_def split: option.splits if_splits)
  with row_by_SomeD [OF r(1)] show ?thesis by (intro exI [of _ r]) (simp add: sets_status_def)
qed

lemma tx_update_held:
  assumes "tx_call (with_uuid rid f) s = (Inr x, s')"
    and "\<And>u t x t'. f u t = (Inr x, t') \<Longrightarrow> \<exists>r. sets_status st r t t' \<and> rv_id r = u \<and> usages t' = usages t \<and>
      x = scanReservation (codec t) (r\<lparr>rv_status := st\<rparr>)"
  shows "\<exists>r. sets_status st r s s' \<and> uc_pg (codec s) rid = Some (rv_id r) \<and> usages s' = usages s \<and>
    x = scanReservation (codec s) (r\<lparr>rv_status := st\<rparr>)"
  using assms(1)
proof (cases rule: tx_call_cases)
  case (run s0 y)
  from run(3,4) obtain u where u: "uc_pg (codec s) rid = Some u" "f u s0 = (Inr x, s')"
    by (auto simp: with_uuid_def consent_env [OF run(1)] split: option.splits)
  from assms(2) [OF u(2)] obtain r where r: "sets_status st r s0 s'" "rv_id r = u" "usages s' = usages s0"
    "x = scanReservation (codec s0) (r\<lparr>rv_status := st\<rparr>)" by blast
  with u(1) sets_status_env [OF run(1) env_only_refl r(1)] show ?thesis by (auto simp: consent_env [OF run(1)])
qed auto

lemma repo_ConfirmReservation_effect:
  assumes "repo_ConfirmReservation rid pid s = (Inr x, s')"
  shows "\<exists>r. sets_status ResConfirmed r s s' \<and> uc_pg (codec s) rid = Some (rv_id r) \<and> usages s' = usages s \<and>
    x = scanReservation (codec s) (r\<lparr>rv_status := ResConfirmed\<rparr>)"
proof (cases "pid = []")
  case True
  with assms have "tx_call (with_uuid rid (update_held ResConfirmed (\<lambda>_. True))) s = (Inr x, s')"
    by (simp add: repo_ConfirmReservation_def)
  then show ?thesis by (rule tx_update_held) (drule update_held_effect, blast)
next
  case False
  with assms have "tx_call (with_uuid rid (\<lambda>u. with_uuid pid (\<lambda>p. update_held ResConfirmed (\<lambda>q. q = p) u))) s = (Inr x, s')"
    by (simp add: repo_ConfirmReservation_def)
  then show ?thesis
  proof (rule tx_update_held)
    fix u t x t' assume "with_uuid pid (\<lambda>p. update_held ResConfirmed (\<lambda>q. q = p) u) t = (Inr x, t')"
    then show "\<exists>r. sets_status ResConfirmed r t t' \<and> rv_id r = u \<and> usages t' = usages t \<and>
      x = scanReservation (codec t) (r\<lparr>rv_status := ResConfirmed\<rparr>)"
      by (auto simp: with_uuid_def split: option.splits dest!: update_held_effect)
  qed
qed

lemma repo_InsertUsage_effect:
  assumes "repo_InsertUsage (uc_String (codec s) c) (uc_String (codec s) p) amt s = (Inr x, s')" and "codec_ok (codec s)"
  shows "(p \<in> ug_payment ` set (usages s) \<and> env_only s s') \<or>
    (p \<notin> ug_payment ` set (usages s) \<and> (\<exists>i. i \<notin> ug_id ` set (usages s) \<and> 
      usages s' = usages s @ [\<lparr>ug_id = i, ug_consent = c, ug_payment = p, ug_amount = amt, ug_settled = now s\<rparr>] \<and>
      consents s' = consents s \<and> reservations s' = reservations s \<and> now s' = now s \<and> codec s' = codec s))"
proof -
  from assms(1) have "tx_call (with_uuid (uc_String (codec s) c) (\<lambda>c. with_uuid (uc_String (codec s) p) (\<lambda>p. insert_usage c p amt))) s = (Inr x, s')"
    by (simp add: repo_InsertUsage_def)
  then show ?thesis
  proof (cases rule: tx_call_cases)
    case (run s0 y)
    note e0 = consent_env [OF run(1)]
    from run(3,4) have "insert_usage c p amt s0 = (Inr x, s')"
      by (simp add: with_uuid_def e0 codec_okD [OF assms(2)])
    then show ?thesis using env_only_trans [OF run(1)]
      by (auto simp: insert_usage_def fresh_uuid_def Let_def e0 split: if_splits)
  qed auto
qed

lemma svc_ConfirmReservation_effect:
  assumes "svc_ConfirmReservation rid pid s = (r, s')" and "consent_wf s"
  obtains (refused) e where "r = Inl e" "env_only s s'"
        | (again) v where "r = Inr ()" "env_only s s'" "v \<in> set (reservations s)" "rv_status v = ResConfirmed"
            "uc_pg (codec s) rid = Some (rv_id v)" "pid \<noteq> [] \<Longrightarrow> pid = uc_String (codec s) (rv_payment v)"
        | (confirmed) v i where "r = Inr ()" "confirms v i s s'" "uc_pg (codec s) rid = Some (rv_id v)"
            "pid \<noteq> [] \<Longrightarrow> pid = uc_String (codec s) (rv_payment v)"
proof (cases "rid = []")
  case True
  with assms(1) show thesis by (intro refused) (auto simp: svc_ConfirmReservation_def)
next
  case False
  with assms(1) have "BeginTxFunc no_deferred (confirm_tx rid pid) s = (r, s')" by (simp add: svc_ConfirmReservation_def)
  then show thesis
  proof (cases rule: BeginTxFunc_cases)
    case (rolled_back e)
    then show thesis by (rule refused)
  next
    case (committed s0 x s1)
    note e0 = consent_env [OF committed(1)]
    have ok: "codec_ok (codec s)" using assms(2) by (simp add: consent_wf_def)
    obtain res s2 where g: "repo_GetReservation rid s0 = (Inr res, s2)"
      using committed(3) by (auto simp: confirm_tx_def split: prod.splits sum.splits)
    from tx_select_reservation_found [OF g [unfolded repo_GetReservation_def]] obtain v where
      v: "env_only s0 s2" "v \<in> set (reservations s)" "uc_pg (codec s) rid = Some (rv_id v)" "res = scanReservation (codec s) v"
      by (auto simp: e0)
    have es: "env_only s s2" using committed(1) v(1) by (rule env_only_trans)
    note e2 = consent_env [OF es]
    have pid: "pid \<noteq> [] \<Longrightarrow> pid = uc_String (codec s) (rv_payment v)"
      using committed(3) g v(4) by (auto simp: confirm_tx_def split: if_splits)
    consider "rv_status v = ResConfirmed" | "rv_status v = ResHeld" | "rv_status v = ResReleased"
      using v(2) assms(2) by (auto simp: consent_wf_def)
    then show thesis
    proof cases
      case 1
      have "repo_InsertUsage (rr_ConsentID res) (rr_PaymentID res) (rr_AmountPence res) s2 = (Inr x, s1)"
        using committed(3) g v(4) 1 by (auto simp: confirm_tx_def split: if_splits)
      then have iu: "repo_InsertUsage (uc_String (codec s2) (rv_consent v)) (uc_String (codec s2) (rv_payment v)) (rv_amount v) s2 = (Inr x, s1)"
        using v(4) by (simp add: e2)
      have "rv_payment v \<in> ug_payment ` set (usages s)"
        using 1 v(2) assms(2) by (force simp: consent_wf_def usage_for_def)
      with repo_InsertUsage_effect [OF iu] ok have "env_only s2 s1" by (auto simp: e2)
      then have "env_only s s'" using es committed(4) by (meson env_only_trans)
      with again committed(5) 1 v pid show thesis by simp
    next
      case 2
      obtain upd s3 s4 where u: "repo_ConfirmReservation rid pid s2 = (Inr upd, s3)"
        "repo_InsertUsage (rr_ConsentID upd) (rr_PaymentID upd) (rr_AmountPence upd) s3 = (Inr (), s1)"
        using committed(3) g v(4) 2 by (auto simp: confirm_tx_def split: if_splits prod.splits sum.splits)
      from repo_ConfirmReservation_effect [OF u(1)] obtain w where
        w: "sets_status ResConfirmed w s2 s3" "uc_pg (codec s) rid = Some (rv_id w)" "usages s3 = usages s"
        "upd = scanReservation (codec s) (w\<lparr>rv_status := ResConfirmed\<rparr>)" by (auto simp: e2)
      have "w \<in> set (reservations s)" "rv_id w = rv_id v" using w(1,2) v(3) by (simp_all add: sets_status_def e2)
      then have wv: "w = v"
        using v(2) assms(2) by (intro row_unique [of rv_id "reservations s"]) (simp_all add: consent_wf_def)
      have c3: "codec s3 = codec s" "now s3 = now s" using w(1) by (simp_all add: sets_status_def e2)
      have iu: "repo_InsertUsage (uc_String (codec s3) (rv_consent v)) (uc_String (codec s3) (rv_payment v)) (rv_amount v) s3 = (Inr (), s1)"
        using u(2) w(4) wv by (simp add: c3)
      have "rv_payment v \<notin> ug_payment ` set (usages s)"
      proof
        assume "rv_payment v \<in> ug_payment ` set (usages s)"
        then obtain z where "z \<in> set (reservations s)" "rv_status z = ResConfirmed" "rv_payment z = rv_payment v"
          using assms(2) by (auto simp: consent_wf_def usage_for_def)
        moreover have "z = v"
          using calculation v(2) assms(2) by (intro row_unique [of rv_payment "reservations s"]) (simp_all add: consent_wf_def)
        ultimately show False using 2 by simp
      qed
      with repo_InsertUsage_effect [OF iu] ok w wv c3 obtain i where "confirms v i s2 s1"
        by (auto simp: confirms_def sets_status_def e2)
      then have "confirms v i s s'" using confirms_env [OF es committed(4)] by blast
      with confirmed committed(5) v(3) pid show thesis by simp
    next
      case 3
      with committed(3) g v(4) show thesis by (auto simp: confirm_tx_def split: if_splits)
    qed
  qed
qed

lemma svc_ReleaseReservation_effect:
  assumes "svc_ReleaseReservation rid reason s = (r, s')" and "consent_wf s"
  obtains (refused) e where "r = Inl e" "env_only s s'"
        | (again) v where "r = Inr ()" "env_only s s'" "v \<in> set (reservations s)" "rv_status v = ResReleased"
            "uc_pg (codec s) rid = Some (rv_id v)"
        | (released) v where "r = Inr ()" "releases v s s'" "uc_pg (codec s) rid = Some (rv_id v)"
proof (cases "rid = []")
  case True
  with assms(1) show thesis by (intro refused) (auto simp: svc_ReleaseReservation_def)
next
  case False
  with assms(1) have "BeginTxFunc no_deferred (release_tx rid) s = (r, s')" by (simp add: svc_ReleaseReservation_def)
  then show thesis
  proof (cases rule: BeginTxFunc_cases)
    case (rolled_back e)
    then show thesis by (rule refused)
  next
    case (committed s0 x s1)
    note e0 = consent_env [OF committed(1)]
    obtain res s2 where g: "repo_GetReservation rid s0 = (Inr res, s2)"
      using committed(3) by (auto simp: release_tx_def split: prod.splits sum.splits)
    from tx_select_reservation_found [OF g [unfolded repo_GetReservation_def]] obtain v where
      v: "env_only s0 s2" "v \<in> set (reservations s)" "uc_pg (codec s) rid = Some (rv_id v)" "res = scanReservation (codec s) v"
      by (auto simp: e0)
    have es: "env_only s s2" using committed(1) v(1) by (rule env_only_trans)
    note e2 = consent_env [OF es]
    show thesis
    proof (cases "rv_status v = ResReleased")
      case True
      with committed(3) g v(4) have "s1 = s2" by (simp add: release_tx_def)
      with es committed(4) have "env_only s s'" by (auto intro: env_only_trans)
      with again committed(5) True v show thesis by simp
    next
      case False
      with committed(3) g v(4) obtain upd where "repo_ReleaseReservation rid s2 = (Inr upd, s1)"
        by (auto simp: release_tx_def split: if_splits prod.splits sum.splits)
      then have "tx_call (with_uuid rid (update_held ResReleased (\<lambda>_. True))) s2 = (Inr upd, s1)"
        by (simp add: repo_ReleaseReservation_def)
      then have "\<exists>r. sets_status ResReleased r s2 s1 \<and> uc_pg (codec s2) rid = Some (rv_id r) \<and> usages s1 = usages s2 \<and>
          upd = scanReservation (codec s2) (r\<lparr>rv_status := ResReleased\<rparr>)"
        by (rule tx_update_held) (drule update_held_effect, blast)
      then obtain w where "releases w s2 s1" "uc_pg (codec s) rid = Some (rv_id w)" by (auto simp: releases_def e2)
      with released [of w] committed(5) releases_env [OF es committed(4)] show thesis by simp
    qed
  qed
qed

section \<open>Creating and revoking\<close>

text \<open>The tables, the clock and the codec stay; the cache and the environment's bookkeeping may change.\<close>

definition quiet :: "consent_db \<Rightarrow> consent_db \<Rightarrow> bool" where
  "quiet s s' \<longleftrightarrow> consents s' = consents s \<and> reservations s' = reservations s \<and> usages s' = usages s \<and>
     now s' = now s \<and> codec s' = codec s"

lemma quiet_env: "env_only s s' \<Longrightarrow> quiet s s'"
  by (simp add: quiet_def consent_env)

lemma quiet_refl [simp]: "quiet s s"
  by (simp add: quiet_def)

lemma quiet_trans: "quiet s t \<Longrightarrow> quiet t u \<Longrightarrow> quiet s u"
  by (simp add: quiet_def)

lemma quiet_pool:
  assumes "pool_call f s = (r, s')" and "\<And>t. quiet t (snd (f t))"
  shows "quiet s s'"
  using assms(1)
proof (cases rule: pool_call_cases)
  case (run s0)
  then show ?thesis using quiet_trans [OF quiet_env] assms(2) [of s0] by simp
qed (rule quiet_env)

lemma quiet_cacheSet [simp]: "quiet s (cacheSet c s)"
  by (auto simp: cacheSet_def intro!: quiet_pool [OF prod.collapse [symmetric]]) (simp add: quiet_def)

lemma quiet_cacheDel [simp]: "quiet s (cacheDel i s)"
  by (auto simp: cacheDel_def intro!: quiet_pool [OF prod.collapse [symmetric]]) (simp add: quiet_def)

lemma cacheGet_read: "cacheGet i s = (r, s') \<Longrightarrow> env_only s s'"
proof -
  assume a: "cacheGet i s = (r, s')"
  obtain r1 s1 where p: "pool_call (redis_get (cacheKey i)) s = (r1, s1)" by fastforce
  then have "env_only s s1" by (rule read_pool [rotated]) (simp add: redis_get_def split: option.splits)
  with a p show ?thesis by (auto simp: cacheGet_def split: if_splits sum.splits)
qed

definition creates :: "consent_tbl \<Rightarrow> consent_db \<Rightarrow> consent_db \<Rightarrow> bool" where
  "creates c s s' \<longleftrightarrow> consents s' = consents s @ [c] \<and> reservations s' = reservations s \<and> usages s' = usages s \<and>
     now s' = now s \<and> codec s' = codec s \<and> cs_id c \<notin> cs_id ` set (consents s) \<and>
     cs_bankref c \<notin> cs_bankref ` set (consents s) \<and> cs_status c = StatusActive \<and>
     0 < cs_max c \<and> cs_max c \<le> cs_month c \<and> now s < cs_until c"

lemma insert_consent_effect:
  assumes "insert_consent row s = (Inr x, s')"
  shows "\<exists>c. consents s' = consents s @ [c] \<and> reservations s' = reservations s \<and> usages s' = usages s \<and>
     now s' = now s \<and> codec s' = codec s \<and> cs_id c \<notin> cs_id ` set (consents s) \<and>
     cs_bankref c \<notin> cs_bankref ` set (consents s) \<and> cs_status c = cr_Status row \<and>
     cs_max c = cr_MaxAmountPence row \<and> cs_month c = cr_MaxMonthlyPence row \<and> cs_until c = cr_ValidUntil row"
  using assms
  by (auto simp: insert_consent_def with_uuid_def fresh_uuid_def Let_def split: option.splits if_splits)

lemma insert_consent_failed:
  "insert_consent row s = (Inl e, s') \<Longrightarrow> env_only s s'"
  by (auto simp: insert_consent_def with_uuid_def fresh_uuid_def Let_def split: option.splits if_splits)

lemma check_create_None:
  "check_create t inp = None \<Longrightarrow> 0 < ci_MaxAmountPence inp \<and> ci_MaxAmountPence inp \<le> ci_MaxMonthlyPence inp \<and> t < ci_ValidUntil inp"
  by (auto simp: check_create_def split: if_splits)

lemma svc_CreateConsent_effect:
  assumes "svc_CreateConsent inp s = (r, s')"
  obtains (refused) e where "r = Inl e" "env_only s s'"
        | (created) x c where "r = Inr x" "creates c s s'"
proof (cases "check_create (now s) inp")
  case (Some e)
  with assms show thesis by (intro refused) (auto simp: svc_CreateConsent_def)
next
  case None
  note ck = check_create_None [OF None]
  define row where "row = new_consent inp"
  have row: "cr_Status row = StatusActive" "cr_MaxAmountPence row = ci_MaxAmountPence inp"
      "cr_MaxMonthlyPence row = ci_MaxMonthlyPence inp" "cr_ValidUntil row = ci_ValidUntil inp"
    by (simp_all add: row_def new_consent_def)
  have rest: "(case repo_InsertConsent row s of
        (Inl err, s1) \<Rightarrow> (Inl (if consent_isUniqueViolation err
           then derr_Wrap CodeAlreadyExists ''bank_consent_ref already registered'' err
           else derr_Wrap CodeInternal ''insert consent'' err), s1)
      | (Inr c, s1) \<Rightarrow> (Inr c, cacheSet c s1)) = (r, s')"
    using assms None by (simp add: svc_CreateConsent_def row_def)
  obtain r1 s1 where i: "pool_call (insert_consent row) s = (r1, s1)" by fastforce
  from i show thesis
  proof (cases rule: pool_call_cases)
    case (fault e)
    with rest i show thesis by (intro refused) (auto simp: repo_InsertConsent_def)
  next
    case (run s0)
    note e0 = consent_env [OF run(1)]
    show thesis
    proof (cases r1)
      case (Inl e)
      with run insert_consent_failed have "env_only s s1" by (metis env_only_trans)
      with rest i Inl show thesis by (intro refused) (auto simp: repo_InsertConsent_def)
    next
      case (Inr x)
      with rest i have rr: "r = Inr x" "s' = cacheSet x s1" by (auto simp: repo_InsertConsent_def)
      from insert_consent_effect [OF run(3) [unfolded Inr]] ck row obtain c where "creates c s s1"
        by (auto simp: creates_def e0)
      moreover have "quiet s1 s'" using rr by simp
      ultimately have "creates c s s'" by (simp add: creates_def quiet_def)
      with created rr show thesis by blast
    qed
  qed
qed

definition revokes :: "consent_tbl \<Rightarrow> consent_db \<Rightarrow> consent_db \<Rightarrow> bool" where
  "revokes c s s' \<longleftrightarrow> c \<in> set (consents s) \<and> cs_status c = StatusActive \<and>
     consents s' = update_where (\<lambda>x. cs_id x = cs_id c) (\<lambda>x. x\<lparr>cs_status := StatusRevoked, cs_updated := now s\<rparr>) (consents s) \<and>
     reservations s' = reservations s \<and> usages s' = usages s \<and> now s' = now s \<and> codec s' = codec s"

lemma update_revoked_effect:
  assumes "update_revoked mine u s = (r, s')"
  shows "(\<exists>e. r = Inl e \<and> s' = s) \<or> (\<exists>x c. r = Inr x \<and> revokes c s s' \<and> cs_id c = u)"
proof (cases "row_by cs_id u (consents s)")
  case (Some c)
  with assms row_by_SomeD [OF Some] show ?thesis by (auto simp: update_revoked_def revokes_def Let_def split: if_splits)
qed (use assms in \<open>auto simp: update_revoked_def\<close>)

lemma repo_RevokeConsent_effect:
  assumes "repo_RevokeConsent cid mid s = (r, s')"
  shows "(\<exists>e. r = Inl e \<and> env_only s s') \<or> (\<exists>x c. r = Inr x \<and> revokes c s s' \<and> uc_pg (codec s) cid = Some (cs_id c))"
  using assms unfolding repo_RevokeConsent_def
proof (cases rule: pool_call_cases)
  case (run s0)
  note e0 = consent_env [OF run(1)]
  from run(3) have "(\<exists>e. r = Inl e \<and> s' = s0) \<or> (\<exists>mine u. uc_pg (codec s) cid = Some u \<and> update_revoked mine u s0 = (r, s'))"
    by (auto simp: with_uuid_def e0 split: if_splits option.splits)
  then show ?thesis
  proof (elim disjE exE conjE)
    fix mine u assume u: "uc_pg (codec s) cid = Some u" "update_revoked mine u s0 = (r, s')"
    from update_revoked_effect [OF u(2)] show ?thesis
      using run(1) u(1) by (auto simp: revokes_def e0)
  qed (use run in auto)
qed auto

lemma svc_RevokeConsent_effect:
  assumes "svc_RevokeConsent cid mid reason s = (r, s')"
  obtains (refused) e where "r = Inl e" "quiet s s'"
        | (already) x c where "r = Inr x" "quiet s s'" "c \<in> set (consents s)" "cs_status c = StatusRevoked"
            "uc_pg (codec s) cid = Some (cs_id c)"
        | (revoked) x c where "r = Inr x" "revokes c s s'" "uc_pg (codec s) cid = Some (cs_id c)"
proof (cases "cid = []")
  case True
  with assms show thesis by (intro refused) (auto simp: svc_RevokeConsent_def)
next
  case False
  obtain r1 s1 where g: "repo_GetConsent cid s = (r1, s1)" by fastforce
  then have e1: "env_only s s1" unfolding repo_GetConsent_def by (rule read_pool [rotated]) simp
  note es1 = consent_env [OF e1]
  show thesis
  proof (cases r1)
    case (Inl e)
    with assms g e1 False show thesis by (intro refused) (auto simp: svc_RevokeConsent_def quiet_env)
  next
    case (Inr x)
    from repo_GetConsent_found [OF g [unfolded Inr]] obtain c where
      c: "c \<in> set (consents s)" "uc_pg (codec s) cid = Some (cs_id c)" "x = scanConsent (codec s) c" by blast
    consider "(\<exists>e. r = Inl e) \<and> s' = s1"
      | "cs_status c = StatusRevoked" "r = Inr x" "s' = cacheDel cid s1"
      | r2 s2 where "repo_RevokeConsent cid mid s1 = (r2, s2)"
          "(\<exists>e. r2 = Inl e) \<and> (\<exists>e. r = Inl e) \<and> s' = s2 \<or> (\<exists>y. r2 = Inr y \<and> r = Inr y \<and> s' = cacheDel cid s2)"
      using assms False g Inr c(3) by (auto simp: svc_RevokeConsent_def split: if_splits prod.splits sum.splits)
    then show thesis
    proof cases
      case 1
      with refused quiet_env [OF e1] show thesis by blast
    next
      case 2
      have "quiet s s'" using 2(3) quiet_trans [OF quiet_env [OF e1] quiet_cacheDel] by simp
      with already 2 c show thesis by blast
    next
      case (3 r2 s2)
      from repo_RevokeConsent_effect [OF 3(1)] show thesis
      proof (elim disjE exE conjE)
        fix e assume "r2 = Inl e" "env_only s1 s2"
        with 3(2) e1 have "(\<exists>e. r = Inl e) \<and> quiet s s'" by (auto intro: quiet_env env_only_trans)
        with refused show thesis by blast
      next
        fix y c' assume y: "r2 = Inr y" "revokes c' s1 s2" "uc_pg (codec s1) cid = Some (cs_id c')"
        with 3(2) have "r = Inr y" "quiet s2 s'" by auto
        moreover have "revokes c' s s'" using y(2) calculation(2) by (simp add: revokes_def quiet_def es1)
        ultimately show thesis using revoked y(3) by (simp add: es1)
      qed
    qed
  qed
qed

section \<open>The invariant\<close>

lemma consent_wf_quiet: "quiet s s' \<Longrightarrow> consent_wf s' = consent_wf s"
  by (simp add: consent_wf_def quiet_def)

lemma map_with_status [simp]:
  "map rv_id (with_status st u rs) = map rv_id rs" "map rv_payment (with_status st u rs) = map rv_payment rs"
  by (simp_all add: with_status_def map_update_where)

lemma in_with_status:
  "x \<in> set (with_status st u rs) \<longleftrightarrow> (\<exists>r \<in> set rs. x = (if rv_id r = u then r\<lparr>rv_status := st\<rparr> else r))"
  by (force simp: with_status_def update_where_def)

lemma creates_wf:
  assumes "creates c s s'" and "consent_wf s"
  shows "consent_wf s'"
  using assms by (auto simp: creates_def consent_wf_def)

lemma revokes_wf:
  assumes "revokes c s s'" and "consent_wf s"
  shows "consent_wf s'"
proof -
  let ?f = "\<lambda>x. x\<lparr>cs_status := StatusRevoked, cs_updated := now s\<rparr>"
  have m: "map cs_id (consents s') = map cs_id (consents s)" "map cs_bankref (consents s') = map cs_bankref (consents s)"
    using assms(1) by (simp_all add: revokes_def map_update_where)
  have i: "cs_id ` set (consents s') = cs_id ` set (consents s)" using m(1) by (metis set_map)
  have "\<forall>x \<in> set (consents s'). 0 < cs_max x \<and> cs_max x \<le> cs_month x \<and> cs_status x \<in> {StatusActive, StatusRevoked}"
    using assms by (auto simp: revokes_def update_where_def consent_wf_def)
  with assms show ?thesis unfolding consent_wf_def m i by (simp add: revokes_def)
qed

lemma holds_wf:
  assumes "holds inp c p i s s'" and "consent_wf s"
  shows "consent_wf s'"
  using assms by (auto simp: holds_def consent_wf_def guards_pass_def)

lemma sets_status_row:
  assumes "sets_status st v s s'" and "consent_wf s" and "x \<in> set (reservations s')"
  shows "x = v\<lparr>rv_status := st\<rparr> \<or> x \<in> set (reservations s) \<and> rv_id x \<noteq> rv_id v"
proof -
  from assms(1,3) obtain r where r: "r \<in> set (reservations s)" "x = (if rv_id r = rv_id v then r\<lparr>rv_status := st\<rparr> else r)"
    by (auto simp: sets_status_def in_with_status)
  show ?thesis
  proof (cases "rv_id r = rv_id v")
    case True
    then have "r = v" using r(1) assms(1,2) row_unique [of rv_id "reservations s" r v]
      by (simp add: sets_status_def consent_wf_def)
    with r(2) show ?thesis by simp
  qed (use r in auto)
qed

lemma sets_status_keeps:
  assumes "sets_status st v s s'" and "r \<in> set (reservations s)" and "rv_status r = ResConfirmed"
    and "consent_wf s"
  shows "r \<in> set (reservations s')"
proof -
  have "rv_id r \<noteq> rv_id v"
    using assms row_unique [of rv_id "reservations s" r v] by (auto simp: sets_status_def consent_wf_def)
  with assms(1,2) show ?thesis by (auto simp: sets_status_def in_with_status intro!: bexI [of _ r])
qed

lemma sets_status_new:
  "sets_status st v s s' \<Longrightarrow> v\<lparr>rv_status := st\<rparr> \<in> set (reservations s')"
  by (auto simp: sets_status_def in_with_status intro!: bexI [of _ v])

lemma releases_wf:
  assumes "releases v s s'" and "consent_wf s"
  shows "consent_wf s'"
proof -
  have st: "sets_status ResReleased v s s'" and u: "usages s' = usages s" using assms(1) by (auto simp: releases_def)
  note row = sets_status_row [OF st assms(2)]
  have "rv_consent x \<in> cs_id ` set (consents s) \<and> 0 < rv_amount x \<and> rv_status x \<in> {ResHeld, ResConfirmed, ResReleased} \<and>
      (rv_status x = ResConfirmed \<longrightarrow> (\<exists>g \<in> set (usages s). usage_for x g))" if "x \<in> set (reservations s')" for x
    using row [OF that] assms(2) st by (auto simp: consent_wf_def sets_status_def)
  moreover have "\<exists>r \<in> set (reservations s'). rv_status r = ResConfirmed \<and> usage_for r g" if "g \<in> set (usages s)" for g
    using that assms(2) sets_status_keeps [OF st _ _ assms(2)] by (metis consent_wf_def)
  ultimately show ?thesis using assms(2) st u by (simp add: consent_wf_def sets_status_def)
qed

lemma confirms_wf:
  assumes "confirms v i s s'" and "consent_wf s"
  shows "consent_wf s'"
proof -
  have st: "sets_status ResConfirmed v s s'" using assms(1) by (auto simp: confirms_def)
  note row = sets_status_row [OF st assms(2)]
  obtain g where u: "usages s' = usages s @ [g]" and g: "usage_for v g" "ug_id g \<notin> ug_id ` set (usages s)"
    "ug_payment g \<notin> ug_payment ` set (usages s)" using assms(1) by (auto simp: confirms_def usage_for_def)
  have "rv_consent x \<in> cs_id ` set (consents s) \<and> 0 < rv_amount x \<and> rv_status x \<in> {ResHeld, ResConfirmed, ResReleased} \<and>
      (rv_status x = ResConfirmed \<longrightarrow> (\<exists>g \<in> set (usages s'). usage_for x g))" if "x \<in> set (reservations s')" for x
    using row [OF that] assms(2) st g(1) by (auto simp: consent_wf_def sets_status_def u usage_for_def)
  moreover have "\<exists>r \<in> set (reservations s'). rv_status r = ResConfirmed \<and> usage_for r h" if "h \<in> set (usages s')" for h
  proof (cases "h = g")
    case True
    with g(1) sets_status_new [OF st] show ?thesis by (auto simp: usage_for_def intro!: bexI [of _ "v\<lparr>rv_status := ResConfirmed\<rparr>"])
  next
    case False
    then have "h \<in> set (usages s)" using that u by simp
    then show ?thesis using assms(2) sets_status_keeps [OF st _ _ assms(2)] by (metis consent_wf_def)
  qed
  ultimately show ?thesis using assms(2) st u g by (simp add: consent_wf_def sets_status_def)
qed

section \<open>The service as a state machine\<close>

definition consent_init :: "consent_db \<Rightarrow> bool" where
  "consent_init s \<longleftrightarrow> codec_ok (codec s) \<and> consents s = [] \<and> reservations s = [] \<and> usages s = []"

inductive consent_step :: "consent_db \<Rightarrow> consent_db \<Rightarrow> bool" where
  tick: "now s \<le> t \<Longrightarrow> consent_step s (s\<lparr>now := t, script := x, uuid_src := u, n_uuid := n\<rparr>)"
| create: "rpc_CreateConsent creq s = (r, s') \<Longrightarrow> consent_step s s'"
| get: "rpc_GetConsent greq s = (r, s') \<Longrightarrow> consent_step s s'"
| revoke: "rpc_RevokeConsent vreq s = (r, s') \<Longrightarrow> consent_step s s'"
| list: "rpc_ListConsents lreq s = (l, s') \<Longrightarrow> consent_step s s'"
| reserve: "rpc_ValidateAndReserve rreq s = (x, s') \<Longrightarrow> consent_step s s'"
| confirm: "rpc_ConfirmReservation freq s = (y, s') \<Longrightarrow> consent_step s s'"
| release: "rpc_ReleaseReservation qreq s = (y, s') \<Longrightarrow> consent_step s s'"
| usage: "rpc_GetRollingUsage ureq s = (z, s') \<Longrightarrow> consent_step s s'"

inductive_cases consent_stepE: "consent_step s s'"

lemma svc_GetConsent_quiet:
  assumes "svc_GetConsent cid mid s = (r, s')"
  shows "quiet s s'"
proof -
  obtain r1 s1 where c: "cacheGet cid s = (r1, s1)" by fastforce
  then have e1: "env_only s s1" by (rule cacheGet_read)
  obtain r2 s2 where g: "repo_GetConsent cid s1 = (r2, s2)" by fastforce
  then have "env_only s1 s2" unfolding repo_GetConsent_def by (rule read_pool [rotated]) simp
  with e1 have e2: "env_only s s2" by (rule env_only_trans)
  have "s' \<in> {s, s1, s2} \<or> (\<exists>row. s' = cacheSet row s2)"
    using assms c g by (auto simp: svc_GetConsent_def split: if_splits option.splits sum.splits)
  then show ?thesis using quiet_env [OF e1] quiet_env [OF e2] quiet_trans [OF quiet_env [OF e2] quiet_cacheSet] by auto
qed

lemma svc_ListConsents_read:
  assumes "svc_ListConsents c m st l k s = (r, s')"
  shows "env_only s s'"
proof -
  obtain l' k' r1 where "pool_call (list_query c m st l' k') s = (r1, s')"
    using assms by (auto simp: svc_ListConsents_def repo_ListConsents_def Let_def split: prod.splits sum.splits)
  then show ?thesis
    by (rule read_pool [rotated]) (simp add: list_query_def list_page_def with_uuid_def Let_def split: option.splits)
qed

lemma svc_GetRollingUsage_read:
  assumes "svc_GetRollingUsage cid s = (r, s')"
  shows "env_only s s'"
proof -
  obtain r1 s1 where g: "repo_GetConsent cid s = (r1, s1)" by fastforce
  then have e1: "env_only s s1" unfolding repo_GetConsent_def by (rule read_pool [rotated]) simp
  obtain r2 s2 where u: "repo_RollingUsagePool cid s1 = (r2, s2)" by fastforce
  then have "\<exists>r3. pool_call (select_usage cid) s1 = (r3, s2)"
    by (auto simp: repo_RollingUsagePool_def wrap_usage_def split: prod.splits)
  then have "env_only s1 s2" using read_pool [of "select_usage cid"] by auto
  with e1 have e2: "env_only s s2" by (rule env_only_trans)
  obtain r3 s3 where t: "repo_TxCountThisMonth cid s2 = (r3, s3)" by fastforce
  then have "env_only s2 s3" unfolding repo_TxCountThisMonth_def
    by (rule read_pool [rotated]) (simp add: with_uuid_def split: option.splits)
  with e2 have "env_only s s3" by (rule env_only_trans)
  then show ?thesis
    using assms g u t e1 e2 by (auto simp: svc_GetRollingUsage_def split: if_splits sum.splits)
qed

text \<open>Every transition is one of seven table changes.\<close>

lemma consent_step_cases:
  assumes "consent_step s s'" and "consent_wf s"
  obtains (time) t x u n where "now s \<le> t" "s' = s\<lparr>now := t, script := x, uuid_src := u, n_uuid := n\<rparr>"
        | (quiet) "quiet s s'"
        | (created) c where "creates c s s'"
        | (revoked) c where "revokes c s s'"
        | (held) inp c p i where "holds inp c p i s s'"
        | (confirmed) v i req where "confirms v i s s'" "rpc_ConfirmReservation req s = (Inr (), s')"
        | (released) v where "releases v s s'"
  using assms(1)
proof cases
  case (tick t x u n)
  then show thesis by (intro that(1))
next
  case (create creq r)
  then have "s' = s \<or> (\<exists>inp r0. svc_CreateConsent inp s = (r0, s'))"
    by (auto simp: rpc_CreateConsent_def proto_result_def split: sum.splits prod.splits)
  then show thesis
  proof (elim disjE exE)
    fix inp r0 assume "svc_CreateConsent inp s = (r0, s')"
    then show thesis by (cases rule: svc_CreateConsent_effect) (use that(2,3) quiet_env in blast)+
  qed (use that(2) in simp)
next
  case (get greq r)
  then have "\<exists>r0. svc_GetConsent (gcr_ConsentId greq) (gcr_MerchantId greq) s = (r0, s')"
    by (auto simp: rpc_GetConsent_def proto_result_def split: prod.splits)
  then show thesis using svc_GetConsent_quiet that(2) by blast
next
  case (revoke vreq r)
  then obtain r0 where "svc_RevokeConsent (rcr_ConsentId vreq) (rcr_MerchantId vreq) (rcr_Reason vreq) s = (r0, s')"
    by (auto simp: rpc_RevokeConsent_def proto_result_def split: prod.splits)
  then show thesis by (cases rule: svc_RevokeConsent_effect) (use that(2,4) in blast)+
next
  case (list lreq l)
  then have "s' = s \<or> (\<exists>c m st k j r0. svc_ListConsents c m st k j s = (r0, s'))"
    by (auto simp: rpc_ListConsents_def Let_def split: sum.splits prod.splits)
  then show thesis using svc_ListConsents_read quiet_env quiet_refl that(2) by blast
next
  case (reserve rreq x)
  then have "s' = s \<or> (\<exists>inp r0. svc_ValidateAndReserve inp s = (r0, s'))"
    by (auto simp: rpc_ValidateAndReserve_def split: sum.splits prod.splits)
  then show thesis
  proof (elim disjE exE)
    fix inp r0 assume a: "svc_ValidateAndReserve inp s = (r0, s')"
    have "codec_ok (codec s)" using assms(2) by (simp add: consent_wf_def)
    from a this show thesis
      by (cases rule: svc_ValidateAndReserve_effect) (use that(2,5) quiet_env in blast)+
  qed (use that(2) in simp)
next
  case (confirm freq y)
  then obtain r0 where a: "svc_ConfirmReservation (cfr_ReservationId freq) (cfr_PaymentId freq) s = (r0, s')"
    "y = (case r0 of Inl e \<Rightarrow> Inl (ToGRPC e) | Inr x \<Rightarrow> Inr x)"
    by (auto simp: rpc_ConfirmReservation_def rpc_result_def split: prod.splits)
  from a(1) assms(2) show thesis
  proof (cases rule: svc_ConfirmReservation_effect)
    case (confirmed v i)
    with a(2) confirm that(6) show thesis by simp
  qed (use that(2) quiet_env in blast)+
next
  case (release qreq y)
  then obtain r0 where "svc_ReleaseReservation (rlr_ReservationId qreq) (rlr_Reason qreq) s = (r0, s')"
    by (auto simp: rpc_ReleaseReservation_def rpc_result_def split: prod.splits)
  from this assms(2) show thesis
    by (cases rule: svc_ReleaseReservation_effect) (use that(2,7) quiet_env in blast)+
next
  case (usage ureq z)
  then have "\<exists>r0. svc_GetRollingUsage (usr_ConsentId ureq) s = (r0, s')"
    by (auto simp: rpc_GetRollingUsage_def split: sum.splits prod.splits)
  then show thesis using svc_GetRollingUsage_read quiet_env that(2) by blast
qed

lemma consent_step_wf:
  assumes "consent_step s s'" and "consent_wf s"
  shows "consent_wf s'"
  using assms
proof (cases rule: consent_step_cases)
  case (time t x u n)
  with assms(2) show ?thesis by (simp add: consent_wf_def)
next
  case quiet
  with assms(2) show ?thesis by (simp add: consent_wf_quiet)
qed (use assms(2) creates_wf revokes_wf holds_wf confirms_wf releases_wf in blast)+

section \<open>The monthly limit\<close>

definition committed :: "consent_db \<Rightarrow> uuid \<Rightarrow> int" where
  "committed s u = used_of s u + held_of s u"

text \<open>The limit of a consent whose limit leaves room in 64 bits for one more payment.\<close>

definition cap_ok :: "consent_db \<Rightarrow> bool" where
  "cap_ok s \<longleftrightarrow> (\<forall>c \<in> set (consents s). cs_month c < 2 ^ 62 \<longrightarrow> committed s (cs_id c) \<le> cs_month c)"

lemma sum_list_filter_mono:
  fixes f :: "'a \<Rightarrow> int"
  assumes "\<And>x. x \<in> set xs \<Longrightarrow> 0 \<le> f x" and "\<And>x. x \<in> set xs \<Longrightarrow> P x \<Longrightarrow> Q x"
  shows "sum_list (map f (filter P xs)) \<le> sum_list (map f (filter Q xs))"
  using assms by (induction xs) (force simp: add_increasing)+

lemma sum_list_filter_nonneg:
  fixes f :: "'a \<Rightarrow> int"
  shows "(\<And>x. x \<in> set xs \<Longrightarrow> 0 \<le> f x) \<Longrightarrow> 0 \<le> sum_list (map f (filter P xs))"
  by (induction xs) auto

lemma usage_positive:
  assumes "consent_wf s" and "g \<in> set (usages s)"
  shows "0 < ug_amount g \<and> ug_consent g \<in> cs_id ` set (consents s)"
proof -
  from assms obtain r where "r \<in> set (reservations s)" "usage_for r g" by (auto simp: consent_wf_def)
  with assms(1) show ?thesis by (auto simp: consent_wf_def usage_for_def)
qed

lemma used_nonneg: "consent_wf s \<Longrightarrow> 0 \<le> used_of s u"
  unfolding used_of_def using usage_positive by (intro sum_list_filter_nonneg) fastforce

lemma held_nonneg: "consent_wf s \<Longrightarrow> 0 \<le> held_of s u"
  unfolding held_of_def by (intro sum_list_filter_nonneg) (auto simp: consent_wf_def)

lemma committed_quiet: "quiet s s' \<Longrightarrow> committed s' u = committed s u"
  by (simp add: quiet_def committed_def used_of_def held_of_def)

lemma cap_quiet: "quiet s s' \<Longrightarrow> cap_ok s' = cap_ok s"
  by (simp add: cap_ok_def committed_quiet) (simp add: quiet_def)

lemma cap_time:
  assumes "consent_wf s" and "cap_ok s" and "now s \<le> t"
  shows "cap_ok (s\<lparr>now := t, script := x, uuid_src := u, n_uuid := n\<rparr>)"
proof -
  let ?s = "s\<lparr>now := t, script := x, uuid_src := u, n_uuid := n\<rparr>"
  have "used_of ?s c \<le> used_of s c" for c
    unfolding used_of_def using assms(3) usage_positive [OF assms(1)]
    by (simp, intro sum_list_filter_mono) (auto intro: less_imp_le)
  moreover have "held_of ?s c \<le> held_of s c" for c
    unfolding held_of_def using assms(1,3)
    by (simp, intro sum_list_filter_mono) (auto simp: consent_wf_def intro: less_imp_le)
  ultimately have "committed ?s c \<le> committed s c" for c by (simp add: committed_def add_mono)
  with assms(2) show ?thesis by (simp add: cap_ok_def) (meson order_trans)
qed

lemma unused_consent:
  assumes "consent_wf s" and "u \<notin> cs_id ` set (consents s)"
  shows "committed s u = 0"
proof -
  have "filter (\<lambda>g. ug_consent g = u \<and> ug_settled g > now s - usage_window) (usages s) = []"
    using assms usage_positive [OF assms(1)] by (auto simp: filter_empty_conv)
  moreover have "filter (\<lambda>r. rv_consent r = u \<and> rv_status r = ResHeld \<and> rv_expires r > now s) (reservations s) = []"
    using assms by (auto simp: filter_empty_conv consent_wf_def)
  ultimately show ?thesis by (simp add: committed_def used_of_def held_of_def)
qed

lemma cap_created:
  assumes "creates c s s'" and "consent_wf s" and "cap_ok s"
  shows "cap_ok s'"
proof -
  have m: "committed s' u = committed s u" for u
    using assms(1) by (simp add: creates_def committed_def used_of_def held_of_def)
  have "committed s (cs_id c) = 0" using unused_consent assms(1,2) by (simp add: creates_def)
  with assms m show ?thesis by (auto simp: cap_ok_def creates_def)
qed

lemma cap_revoked:
  assumes "revokes c s s'" and "cap_ok s"
  shows "cap_ok s'"
proof -
  have m: "committed s' u = committed s u" for u
    using assms(1) by (simp add: revokes_def committed_def used_of_def held_of_def)
  with assms show ?thesis by (auto simp: cap_ok_def revokes_def update_where_def)
qed

lemma hold_time_pos [simp]: "0 < hold_time"
  by (simp add: hold_time_def minutes_def)

lemma usage_window_pos [simp]: "0 < usage_window"
  by (simp add: usage_window_def days_def)

lemma committed_held:
  assumes "holds inp c p i s s'"
  shows "committed s' u = committed s u + (if u = cs_id c then ri_AmountPence inp else 0)"
  using assms by (auto simp: holds_def committed_def used_of_def held_of_def)

lemma cap_held:
  assumes "holds inp c p i s s'" and "consent_wf s" and "cap_ok s"
  shows "cap_ok s'"
proof -
  have c: "c \<in> set (consents s)" and g: "guards_pass s inp c" and cs: "consents s' = consents s"
    using assms(1) by (auto simp: holds_def)
  have "committed s (cs_id c) + ri_AmountPence inp \<le> cs_month c" if m: "cs_month c < 2 ^ 62"
  proof -
    let ?a = "ri_AmountPence inp" and ?u = "used_of s (cs_id c)" and ?h = "held_of s (cs_id c)"
    have b: "?u + ?h \<le> cs_month c" using assms(3) c m by (auto simp: cap_ok_def committed_def)
    have "0 \<le> ?u" "0 \<le> ?h" using assms(2) used_nonneg held_nonneg by auto
    moreover have "0 < ?a" "?a \<le> cs_max c" "cs_max c \<le> cs_month c"
      using g c assms(2) by (auto simp: guards_pass_def consent_wf_def)
    ultimately have "is_int64 (?u + ?h)" "is_int64 (?u + ?h + ?a)" using b m by (auto simp: is_int64_def)
    then show ?thesis using g by (simp add: guards_pass_def add64_id committed_def)
  qed
  moreover have "x = c" if "x \<in> set (consents s)" "cs_id x = cs_id c" for x
    using that c assms(2) row_unique [of cs_id "consents s" x c] by (simp add: consent_wf_def)
  ultimately show ?thesis
    using assms(3) committed_held [OF assms(1)] cs by (auto simp: cap_ok_def)
qed

text \<open>The reservation that changes its status leaves the sum of holds.\<close>

lemma held_of_sets_status:
  assumes "sets_status st v s s'" and "consent_wf s" and "st \<noteq> ResHeld"
  shows "held_of s' u = held_of s u - (if rv_consent v = u \<and> now s < rv_expires v then rv_amount v else 0)"
proof -
  let ?g = "\<lambda>r. if rv_consent r = u \<and> rv_status r = ResHeld \<and> rv_expires r > now s then rv_amount r else 0"
  have h: "held_of t u = sum_list (map ?g (reservations t))" if "now t = now s" for t
    unfolding held_of_def using that by (induction "reservations t") (simp_all add: sum_list_map_filter')
  have v: "row_by rv_id (rv_id v) (reservations s) = Some v"
    using assms(1,2) by (intro row_by_SomeI) (auto simp: sets_status_def consent_wf_def)
  have "sum_list (map ?g (reservations s')) = sum_list (map ?g (reservations s)) - ?g v + ?g (v\<lparr>rv_status := st\<rparr>)"
    using assms(1,2) sum_list_update_where [OF _ v, of "\<lambda>r. rv_id r = rv_id v" ?g "\<lambda>r. r\<lparr>rv_status := st\<rparr>"]
    by (simp add: sets_status_def with_status_def consent_wf_def)
  with assms(1,3) h [of s] h [of s'] show ?thesis by (simp add: sets_status_def)
qed

lemma used_of_confirms:
  assumes "confirms v i s s'"
  shows "used_of s' u = used_of s u + (if rv_consent v = u then rv_amount v else 0)"
  using assms by (auto simp: confirms_def sets_status_def used_of_def)

lemma committed_confirms:
  assumes "confirms v i s s'" and "consent_wf s"
  shows "committed s' u = committed s u + (if rv_consent v = u \<and> \<not> now s < rv_expires v then rv_amount v else 0)"
proof -
  have "sets_status ResConfirmed v s s'" using assms(1) by (simp add: confirms_def)
  from held_of_sets_status [OF this assms(2)] used_of_confirms [OF assms(1)] show ?thesis by (simp add: committed_def)
qed

lemma cap_released:
  assumes "releases v s s'" and "consent_wf s" and "cap_ok s"
  shows "cap_ok s'"
proof -
  have st: "sets_status ResReleased v s s'" and u: "usages s' = usages s" using assms(1) by (auto simp: releases_def)
  have "0 < rv_amount v" using st assms(2) by (auto simp: sets_status_def consent_wf_def)
  then have "held_of s' c \<le> held_of s c" for c using held_of_sets_status [OF st assms(2)] by simp
  moreover have "used_of s' c = used_of s c" for c using st u by (simp add: used_of_def sets_status_def)
  ultimately have "committed s' c \<le> committed s c" for c by (simp add: committed_def)
  with assms(3) st show ?thesis by (simp add: cap_ok_def sets_status_def) (meson order_trans)
qed

lemma cap_confirmed:
  assumes "confirms v i s s'" and "consent_wf s" and "cap_ok s" and "now s < rv_expires v"
  shows "cap_ok s'"
  using assms committed_confirms [OF assms(1,2)] by (auto simp: cap_ok_def confirms_def sets_status_def)

text \<open>Confirmations that arrive before their hold expires.\<close>

definition timely :: "consent_db \<Rightarrow> consent_db \<Rightarrow> bool" where
  "timely s s' \<longleftrightarrow> (\<forall>v i. confirms v i s s' \<longrightarrow> now s < rv_expires v)"

lemma consent_step_cap:
  assumes "consent_step s s'" and "consent_wf s" and "cap_ok s" and "timely s s'"
  shows "cap_ok s'"
  using assms(1,2)
proof (cases rule: consent_step_cases)
  case (time t x u n)
  with assms show ?thesis using cap_time by simp
next
  case quiet
  with assms(3) show ?thesis by (simp add: cap_quiet)
next
  case (revoked c)
  with assms show ?thesis using cap_revoked by blast
next
  case (confirmed v i req)
  with assms show ?thesis using cap_confirmed by (auto simp: timely_def)
qed (use assms cap_created cap_held cap_released in blast)+

section \<open>The life of a reservation\<close>

datatype hold_state = Unheld | Holding | Settled | Freed

fun hold_le :: "hold_state \<Rightarrow> hold_state \<Rightarrow> bool" where
  "hold_le Unheld _ = True"
| "hold_le Holding h = (h \<noteq> Unheld)"
| "hold_le Settled h = (h = Settled)"
| "hold_le Freed h = (h = Freed)"

lemma hold_le_refl [simp]: "hold_le h h"
  by (cases h) auto

lemma hold_le_trans: "hold_le a b \<Longrightarrow> hold_le b c \<Longrightarrow> hold_le a c"
  by (cases a; cases b) auto

text \<open>The contract a client of reservations relies on: whatever the service does, the hold of a
  payment moves forward only; once settled or freed it stays so.\<close>

locale hold_lifecycle =
  fixes inv :: "'s \<Rightarrow> bool" and step :: "'s \<Rightarrow> 's \<Rightarrow> bool" and hold :: "'s \<Rightarrow> 'p \<Rightarrow> hold_state"
  assumes step_inv: "inv s \<Longrightarrow> step s s' \<Longrightarrow> inv s'"
    and step_hold: "inv s \<Longrightarrow> step s s' \<Longrightarrow> hold_le (hold s p) (hold s' p)"
begin

lemma run_inv: "step\<^sup>*\<^sup>* s s' \<Longrightarrow> inv s \<Longrightarrow> inv s'"
  by (induction rule: rtranclp_induct) (auto intro: step_inv)

lemma run_hold: "step\<^sup>*\<^sup>* s s' \<Longrightarrow> inv s \<Longrightarrow> hold_le (hold s p) (hold s' p)"
proof (induction rule: rtranclp_induct)
  case (step t u)
  with run_inv step_hold hold_le_trans show ?case by blast
qed simp

lemma settled_stays: "step\<^sup>*\<^sup>* s s' \<Longrightarrow> inv s \<Longrightarrow> hold s p = Settled \<Longrightarrow> hold s' p = Settled"
  using run_hold [of s s' p] by simp

lemma freed_stays: "step\<^sup>*\<^sup>* s s' \<Longrightarrow> inv s \<Longrightarrow> hold s p = Freed \<Longrightarrow> hold s' p = Freed"
  using run_hold [of s s' p] by simp

end

definition hold_of :: "consent_db \<Rightarrow> uuid \<Rightarrow> hold_state" where
  "hold_of s p =
     (case row_by rv_payment p (reservations s) of
        None \<Rightarrow> Unheld
      | Some r \<Rightarrow> if rv_status r = ResConfirmed then Settled else if rv_status r = ResReleased then Freed else Holding)"

lemma hold_of_sets_status:
  assumes "sets_status st v s s'" and "consent_wf s"
  shows "hold_le (hold_of s p) (hold_of s' p)"
proof (cases "row_by rv_payment p (reservations s)")
  case None
  then show ?thesis by (simp add: hold_of_def)
next
  case (Some r)
  have "row_by rv_payment p (reservations s') = map_option (\<lambda>r. if rv_id r = rv_id v then r\<lparr>rv_status := st\<rparr> else r) (Some r)"
    using assms(1) row_by_update_where [of "\<lambda>r. rv_id r = rv_id v" rv_payment "\<lambda>r. r\<lparr>rv_status := st\<rparr>" p "reservations s"] Some
    by (simp add: sets_status_def with_status_def)
  moreover have "r = v" if "rv_id r = rv_id v"
    using that row_by_SomeD [OF Some] assms row_unique [of rv_id "reservations s" r v]
    by (simp add: sets_status_def consent_wf_def)
  ultimately show ?thesis using Some assms(1) by (auto simp: hold_of_def sets_status_def)
qed

interpretation consent_holds: hold_lifecycle consent_wf consent_step hold_of
proof unfold_locales
  fix s s' assume "consent_wf s" "consent_step s s'"
  then show "consent_wf s'" by (rule consent_step_wf [rotated])
next
  fix s s' p assume a: "consent_wf s" "consent_step s s'"
  have same: "reservations s' = reservations s \<Longrightarrow> hold_le (hold_of s p) (hold_of s' p)" by (simp add: hold_of_def)
  from a(2,1) show "hold_le (hold_of s p) (hold_of s' p)"
  proof (cases rule: consent_step_cases)
    case (held inp c q i)
    then show ?thesis by (auto simp: holds_def hold_of_def row_by_append split: option.splits)
  next
    case (confirmed v i req)
    then show ?thesis using hold_of_sets_status a(1) by (auto simp: confirms_def)
  next
    case (released v)
    then show ?thesis using hold_of_sets_status a(1) by (auto simp: releases_def)
  qed (use same in \<open>auto simp: quiet_def creates_def revokes_def\<close>)
qed

end
