(* ===== verification/Consent_Correct.thy ===== *)
theory Consent_Correct
  imports Consent_Props
begin

text \<open>
  The properties of the consent service, each with a witness on a concrete run: the monthly limit holds
  in every reachable state, with the two ways around it (a late confirmation and a wrapped sum);
  reservations are guarded, final and counted once; a revoked consent refuses new payments; a repeated
  request finds the old reservation in any state; listing returns every consent.
\<close>

section \<open>Concrete runs\<close>

definition ex_consent0 :: consent_db where
  "ex_consent0 = \<lparr>now = 0, script = [], aborted = False, uuid_src = word_of_nat, n_uuid = 1, codec = unary_codec,
     consents = [], reservations = [], usages = [], has_rdb = True, rcache = (\<lambda>_. None)\<rparr>"

abbreviation pence :: "int \<Rightarrow> pb_Money option" where
  "pence n \<equiv> Some \<lparr>mo_AmountPence = n, mo_Currency = ''gbp''\<rparr>"

definition ex_create :: "int \<Rightarrow> int \<Rightarrow> CreateConsentRequest" where
  "ex_create mx month = \<lparr>ccr_MerchantId = ''iiiii'', ccr_ConsumerId = ''c1'', ccr_BankConsentRef = ''bank'',
     ccr_MaxPerTransaction = pence mx, ccr_MaxPerMonth = pence month, ccr_ValidUntil = Some (days 365)\<rparr>"

text \<open>The consent gets the first identifier, 1 (two characters in unary), the payments are 7 and 8.\<close>

definition ex_reserve :: "string \<Rightarrow> int \<Rightarrow> ReserveRequest" where
  "ex_reserve pid n = \<lparr>rrq_ConsentId = ''ii'', rrq_PaymentId = pid, rrq_Amount = pence n\<rparr>"

abbreviation pay7 :: string where "pay7 \<equiv> ''iiiiiiii''"
abbreviation pay8 :: string where "pay8 \<equiv> ''iiiiiiiii''"

definition ex_consent1 :: "int \<Rightarrow> int \<Rightarrow> consent_db" where
  "ex_consent1 mx month = snd (rpc_CreateConsent (ex_create mx month) ex_consent0)"

definition ex_consent2 :: consent_db where
  "ex_consent2 = snd (rpc_ValidateAndReserve (ex_reserve pay7 60) (ex_consent1 60 100))"

lemma ex_consent0_wf: "consent_wf ex_consent0"
  by (simp add: consent_wf_def ex_consent0_def codec_ok_unary)

lemma ex_consent1_step: "consent_step ex_consent0 (ex_consent1 mx month)"
  unfolding ex_consent1_def by (rule consent_step.create [OF prod.collapse [symmetric]])

lemma ex_consent2_step: "consent_step (ex_consent1 60 100) ex_consent2"
  unfolding ex_consent2_def by (rule consent_step.reserve [OF prod.collapse [symmetric]])

lemma ex_consent1_wf: "consent_wf (ex_consent1 mx month)"
  using consent_step_wf ex_consent1_step ex_consent0_wf by blast

lemma ex_consent2_wf: "consent_wf ex_consent2"
  using consent_step_wf ex_consent2_step ex_consent1_wf by blast

section \<open>The monthly limit\<close>

text \<open>The states the service reaches from an empty database when every confirmation arrives before its
  hold expires.\<close>

inductive consent_reach :: "consent_db \<Rightarrow> bool" where
  init: "consent_init s \<Longrightarrow> consent_reach s"
| step: "consent_reach s \<Longrightarrow> consent_step s s' \<Longrightarrow> timely s s' \<Longrightarrow> consent_reach s'"

lemma consent_reach_inv: "consent_reach s \<Longrightarrow> consent_wf s \<and> cap_ok s"
proof (induction rule: consent_reach.induct)
  case (init s)
  then show ?case by (simp add: consent_init_def consent_wf_def cap_ok_def)
next
  case (step s s')
  then show ?case using consent_step_wf consent_step_cap by blast
qed

lemma timely_usages: "usages s' = usages s \<Longrightarrow> timely s s'"
  by (simp add: timely_def confirms_def)



text \<open>A confirmation does not check that its hold has expired: confirming an expired hold succeeds
  and adds its amount to what the consent has committed, although the hold had given its share of the
  limit back.\<close>

theorem late_confirmation_counts:
  assumes "consent_wf s" and "v \<in> set (reservations s)" and "rv_status v = ResHeld" and "rv_expires v \<le> now s"
    and "uc_pg (codec s) (cfr_ReservationId req) = Some (rv_id v)"
    and "rpc_ConfirmReservation req s = (Inr (), s')"
  shows "used_of s' (rv_consent v) + held_of s' (rv_consent v) =
    used_of s (rv_consent v) + held_of s (rv_consent v) + rv_amount v"
proof -
  have "svc_ConfirmReservation (cfr_ReservationId req) (cfr_PaymentId req) s = (Inr (), s')"
    using assms(6) by (auto simp: rpc_ConfirmReservation_def rpc_result_def split: prod.splits sum.splits)
  from this assms(1) obtain i where "confirms v i s s'"
  proof (cases rule: svc_ConfirmReservation_effect)
    case (again w)
    have "w = v"
      by (rule row_unique [of rv_id "reservations s"]) (use again assms(1,2,5) in \<open>simp_all add: consent_wf_def\<close>)
    with again(4) assms(3) show thesis by simp
  next
    case (confirmed w i)
    have "w = v"
      by (rule row_unique [of rv_id "reservations s"])
        (use confirmed assms(1,2,5) in \<open>simp_all add: consent_wf_def confirms_def sets_status_def\<close>)
    with that confirmed show thesis by blast
  qed simp
  with committed_confirms [OF _ assms(1), of v i s' "rv_consent v"] assms(4) show ?thesis by (simp add: committed_def)
qed

text \<open>A hold of 60, expired; a second hold of 60 confirmed; then the first one confirmed.\<close>

definition ex_late1 :: consent_db where
  "ex_late1 = ex_consent2\<lparr>now := minutes 11\<rparr>"

definition ex_late2 :: consent_db where
  "ex_late2 = snd (rpc_ValidateAndReserve (ex_reserve pay8 60) ex_late1)"

definition ex_confirm :: "string \<Rightarrow> string \<Rightarrow> ConfirmRequest" where
  "ex_confirm rid pid = \<lparr>cfr_ReservationId = rid, cfr_PaymentId = pid\<rparr>"

definition ex_late3 :: consent_db where
  "ex_late3 = snd (rpc_ConfirmReservation (ex_confirm ''iiii'' pay8) ex_late2)"

definition ex_late4 :: consent_db where
  "ex_late4 = snd (rpc_ConfirmReservation (ex_confirm ''iii'' pay7) ex_late3)"

lemma ex_late3_wf: "consent_wf ex_late3"
proof -
  have t: "consent_step ex_consent2 (ex_consent2\<lparr>now := minutes 11, script := script ex_consent2,
      uuid_src := uuid_src ex_consent2, n_uuid := n_uuid ex_consent2\<rparr>)"
    by (rule consent_step.tick) code_simp
  then have "consent_wf ex_late1" using consent_step_wf ex_consent2_wf by (fastforce simp: ex_late1_def)
  then have "consent_wf ex_late2" unfolding ex_late2_def
    using consent_step_wf consent_step.reserve [OF prod.collapse [symmetric]] by blast
  then show ?thesis unfolding ex_late3_def
    using consent_step_wf consent_step.confirm [OF prod.collapse [symmetric]] by blast
qed

theorem late_confirmation_witness:
  "fst (rpc_ConfirmReservation (ex_confirm ''iii'' pay7) ex_late3) = Inr () \<and>
   used_of ex_late4 1 + held_of ex_late4 1 = 120 \<and> map cs_month (consents ex_late4) = [100]"
proof -
  have f: "fst (rpc_ConfirmReservation (ex_confirm ''iii'' pay7) ex_late3) = Inr ()" by code_simp
  have m: "map cs_month (consents ex_late4) = [100]" "used_of ex_late3 1 + held_of ex_late3 1 = 60" by code_simp+
  have "map (\<lambda>v. (rv_id v, rv_consent v, rv_status v, rv_amount v, rv_expires v \<le> now ex_late3)) (reservations ex_late3) =
    [(2, 1, ResHeld, 60, True), (3, 1, ResConfirmed, 60, False)]" by code_simp
  then obtain v where v: "v \<in> set (reservations ex_late3)" "rv_id v = 2" "rv_consent v = 1" "rv_status v = ResHeld"
    "rv_amount v = 60" "rv_expires v \<le> now ex_late3" by (cases "reservations ex_late3") auto
  have "uc_pg (codec ex_late3) (cfr_ReservationId (ex_confirm ''iii'' pay7)) = Some 2" by code_simp
  moreover have "rpc_ConfirmReservation (ex_confirm ''iii'' pay7) ex_late3 = (Inr (), ex_late4)"
    using f by (simp add: ex_late4_def prod_eq_iff)
  ultimately have "used_of ex_late4 1 + held_of ex_late4 1 = 120"
    using late_confirmation_counts [OF ex_late3_wf v(1,4,6)] v m by simp
  with f m show ?thesis by simp
qed

text \<open>The sum of the monthly check wraps around in 64 bits: with a limit of 2 to the 63 minus 1 a
  second payment of the full limit is accepted while the first one's hold is live.\<close>

theorem monthly_check_wraps:
  "let lim = 2 ^ 63 - 1; s1 = snd (rpc_ValidateAndReserve (ex_reserve pay7 lim) (ex_consent1 lim lim));
       (r, s2) = rpc_ValidateAndReserve (ex_reserve pay8 lim) s1
   in (case r of Inr _ \<Rightarrow> True | Inl _ \<Rightarrow> False) \<and> held_of s2 1 = 2 * lim \<and> map cs_month (consents s2) = [lim]"
  by code_simp

section \<open>Reserving\<close>

lemma reserve_new_hold:
  assumes "consent_wf s" and "rpc_ValidateAndReserve req s = (Inr x, s')"
    and "uc_pg (codec s) (rrq_PaymentId req) = Some p" and "hold_of s p = Unheld"
  shows "\<exists>c \<in> set (consents s). \<exists>amt cur. moneyFromProto (rrq_Amount req) = Inr (amt, cur) \<and>
    uc_pg (codec s) (rrq_ConsentId req) = Some (cs_id c) \<and> cs_status c = StatusActive \<and> now s < cs_until c \<and>
    (cur = cs_currency c \<or> cs_currency c = []) \<and> amt \<le> cs_max c \<and>
    add64 (add64 (used_of s (cs_id c)) (held_of s (cs_id c))) amt \<le> cs_month c \<and>
    held_of s' (cs_id c) = held_of s (cs_id c) + amt \<and> hold_of s' p = Holding"
proof -
  obtain amt cur y where m: "moneyFromProto (rrq_Amount req) = Inr (amt, cur)"
    and y: "svc_ValidateAndReserve \<lparr>ri_ConsentID = rrq_ConsentId req, ri_PaymentID = rrq_PaymentId req,
       ri_AmountPence = amt, ri_Currency = cur\<rparr> s = (Inr y, s')"
    using assms(2) by (auto simp: rpc_ValidateAndReserve_def split: sum.splits prod.splits)
  have cur: "cur \<noteq> []" using m by (auto simp: moneyFromProto_def Let_def split: option.splits if_splits)
  have u: "p \<notin> rv_payment ` set (reservations s)"
    using assms(4) by (auto simp: hold_of_def row_by_None_iff split: option.splits if_splits)
  have "codec_ok (codec s)" using assms(1) by (simp add: consent_wf_def)
  from y this show ?thesis
  proof (cases rule: svc_ValidateAndReserve_effect)
    case (found z v)
    with assms(3) u show ?thesis by auto
  next
    case (held c q i)
    have "q = p" using held(2) assms(3) by (simp add: holds_def)
    with held(2) u have "hold_of s' p = Holding"
      by (auto simp: holds_def hold_of_def row_by_append row_by_None_iff [THEN iffD2])
    moreover have "held_of s' (cs_id c) = held_of s (cs_id c) + amt"
      using held(2) by (auto simp: holds_def held_of_def)
    ultimately show ?thesis using held(2) m cur by (auto simp: holds_def guards_pass_def)
  qed simp
qed



text \<open>Once revoked, a consent stays revoked.\<close>

definition is_revoked :: "uuid \<Rightarrow> consent_db \<Rightarrow> bool" where
  "is_revoked u s \<longleftrightarrow> (\<exists>c \<in> set (consents s). cs_id c = u \<and> cs_status c = StatusRevoked)"

lemma revokes_revoked:
  assumes "revokes c s s'" and "d \<in> set (consents s)" and "cs_status d = StatusRevoked \<or> cs_id d = cs_id c"
  shows "is_revoked (cs_id d) s'"
proof -
  let ?f = "\<lambda>x. if cs_id x = cs_id c then x\<lparr>cs_status := StatusRevoked, cs_updated := now s\<rparr> else x"
  have "?f d \<in> set (consents s')" using assms(1,2) by (auto simp: revokes_def update_where_def)
  moreover have "cs_id (?f d) = cs_id d" "cs_status (?f d) = StatusRevoked" using assms(3) by auto
  ultimately show ?thesis unfolding is_revoked_def by blast
qed

lemma revoked_step:
  assumes "consent_step s s'" and "consent_wf s" and "is_revoked u s"
  shows "is_revoked u s'"
  using assms(1,2)
proof (cases rule: consent_step_cases)
  case (revoked c)
  with assms(3) revokes_revoked show ?thesis by (auto simp: is_revoked_def [of u s])
next
  case (confirmed v i req)
  with assms(3) show ?thesis by (simp add: is_revoked_def confirms_def sets_status_def)
qed (use assms(3) in \<open>auto simp: is_revoked_def quiet_def creates_def holds_def releases_def sets_status_def\<close>)

lemma codec_step:
  assumes "consent_step s s'" and "consent_wf s"
  shows "codec s' = codec s"
  using assms by (cases rule: consent_step_cases)
    (auto simp: quiet_def creates_def revokes_def holds_def confirms_def releases_def sets_status_def)

lemma revoked_run:
  assumes "consent_step\<^sup>*\<^sup>* s s'" and "consent_wf s" and "is_revoked u s"
  shows "is_revoked u s' \<and> codec s' = codec s"
  using assms
proof (induction rule: rtranclp_induct)
  case (step t v)
  then have "consent_wf t" using consent_holds.run_inv by blast
  with step revoked_step codec_step show ?case by metis
qed simp

lemma revoke_revokes:
  assumes "svc_RevokeConsent cid mid reason s = (Inr x, s')" and "uc_pg (codec s) cid = Some u"
  shows "is_revoked u s' \<and> codec s' = codec s"
  using assms(1)
proof (cases rule: svc_RevokeConsent_effect)
  case (already y c)
  with assms(2) show ?thesis by (auto simp: is_revoked_def quiet_def)
next
  case (revoked y c)
  with assms(2) revokes_revoked [of c s s' c] show ?thesis by (auto simp: revokes_def)
qed simp


definition ex_revoke :: RevokeConsentRequest where
  "ex_revoke = \<lparr>rcr_ConsentId = ''ii'', rcr_MerchantId = ''iiiii'', rcr_Reason = ''user''\<rparr>"

definition ex_revoked :: consent_db where
  "ex_revoked = snd (rpc_RevokeConsent ex_revoke ex_consent2)"


section \<open>The life of a reservation\<close>

lemma usage_row:
  assumes "consent_wf s"
  shows "length (filter (\<lambda>g. ug_payment g = p) (usages s)) = (if hold_of s p = Settled then 1 else 0)"
proof -
  have f: "filter (\<lambda>g. ug_payment g = p) (usages s) = (case row_by ug_payment p (usages s) of None \<Rightarrow> [] | Some g \<Rightarrow> [g])"
    using assms by (intro filter_unique_key) (simp add: consent_wf_def)
  show ?thesis
  proof (cases "row_by ug_payment p (usages s)")
    case None
    have "hold_of s p \<noteq> Settled"
    proof
      assume "hold_of s p = Settled"
      then obtain r where "r \<in> set (reservations s)" "rv_payment r = p" "rv_status r = ResConfirmed"
        by (auto simp: hold_of_def split: option.splits if_splits dest: row_by_SomeD)
      with assms obtain g where "g \<in> set (usages s)" "ug_payment g = p" by (auto simp: consent_wf_def usage_for_def)
      with None show False by (auto simp: row_by_None_iff)
    qed
    with f None show ?thesis by simp
  next
    case (Some g)
    from row_by_SomeD [OF this] have "g \<in> set (usages s)" "ug_payment g = p" by auto
    with assms obtain r where r: "r \<in> set (reservations s)" "rv_status r = ResConfirmed" "rv_payment r = p"
      by (auto simp: consent_wf_def usage_for_def)
    then have "row_by rv_payment p (reservations s) = Some r"
      using assms row_by_SomeI [of rv_payment "reservations s" r] by (simp add: consent_wf_def)
    with r f Some show ?thesis by (simp add: hold_of_def)
  qed
qed

text \<open>C20: over every run of the service a payment's reservation only moves forward, from none to held and
  from held to confirmed or released, which are final; and the usage table has exactly one row for a
  payment whose reservation is confirmed and none for any other: a deposit counts once.\<close>

theorem reservation_lifecycle:
  assumes "consent_wf s" and "consent_step\<^sup>*\<^sup>* s s'"
  shows "hold_le (hold_of s p) (hold_of s' p) \<and>
    length (filter (\<lambda>g. ug_payment g = p) (usages s')) = (if hold_of s' p = Settled then 1 else 0)"
  using consent_holds.run_hold [OF assms(2,1)] usage_row [OF consent_holds.run_inv [OF assms(2,1)]] by blast

section \<open>Retries\<close>

lemma tx_quiet_read: "script s = [] \<Longrightarrow> \<not> aborted s \<Longrightarrow> f s = (Inr x, s) \<Longrightarrow> tx_call f s = (Inr x, s)"
  by (rule tx_call_no_fault)

text \<open>A reservation request for a payment that has a reservation succeeds with this reservation,
  whatever its status, the amount asked for and the consent's status: a retry after a release is told
  that it holds an amount that nobody holds, also on a consent revoked in between.\<close>

theorem reserve_again:
  assumes "consent_wf s" and "script s = []" and "v \<in> set (reservations s)"
    and "uc_pg (codec s) (rrq_PaymentId req) = Some (rv_payment v)" and "rrq_PaymentId req \<noteq> []" and "rrq_ConsentId req \<noteq> []"
    and "moneyFromProto (rrq_Amount req) = Inr (amt, cur)"
    and "is_int64 (used_of s (rv_consent v))" and "is_int64 (held_of s (rv_consent v))"
  shows "\<exists>x. rpc_ValidateAndReserve req s = (Inr x, s\<lparr>aborted := False\<rparr>) \<and>
    rrs_ReservationId x = uc_String (codec s) (rv_id v)"
proof -
  let ?s = "s\<lparr>aborted := False\<rparr>" and ?k = "codec s"
  let ?inp = "\<lparr>ri_ConsentID = rrq_ConsentId req, ri_PaymentID = rrq_PaymentId req, ri_AmountPence = amt, ri_Currency = cur\<rparr>"
  have ok: "codec_ok ?k" using assms(1) by (simp add: consent_wf_def)
  have amt: "0 < amt" using assms(7) by (auto simp: moneyFromProto_def Let_def split: option.splits if_splits)
  have v: "row_by rv_payment (rv_payment v) (reservations s) = Some v"
    using assms(1,3) by (intro row_by_SomeI) (simp_all add: consent_wf_def)
  obtain c where c: "row_by cs_id (rv_consent v) (consents s) = Some c" "cs_id c = rv_consent v"
    using assms(1,3) row_by_None_iff [of cs_id "rv_consent v" "consents s"] row_by_SomeD [of cs_id]
    by (fastforce simp: consent_wf_def)
  have g: "repo_GetReservationByPaymentID (rrq_PaymentId req) ?s = (Inr (scanReservation ?k v), ?s)"
    unfolding repo_GetReservationByPaymentID_def using assms(2,4) v
    by (intro tx_quiet_read) (simp_all add: select_reservation_def with_uuid_def)
  have l: "repo_LockConsent (uc_String ?k (rv_consent v)) ?s = (Inr (scanConsent ?k c), ?s)"
    unfolding repo_LockConsent_def using assms(2) c ok
    by (intro tx_quiet_read) (simp_all add: select_consent_def with_uuid_def codec_okD)
  have us: "used_of ?s u = used_of s u" "held_of ?s u = held_of s u" for u by (simp_all add: used_of_def held_of_def)
  have "tx_call (select_usage (uc_String ?k (cs_id c))) ?s = (Inr (used_of s (rv_consent v), held_of s (rv_consent v)), ?s)"
    using assms(2,8,9) c(2) ok by (intro tx_quiet_read) (simp_all add: select_usage_def with_uuid_def codec_okD us)
  then have u: "repo_RollingUsage (uc_String ?k (cs_id c)) ?s = (Inr (used_of s (rv_consent v), held_of s (rv_consent v)), ?s)"
    by (simp add: repo_RollingUsage_def wrap_usage_def)
  obtain x where x: "reserve_tx ?inp ?s = (Inr x, ?s)" "rs_ReservationID x = uc_String ?k (rv_id v)"
    using g l u by (simp add: reserve_tx_def reserve_existing_def reserve_result_def)
  then have "BeginTxFunc no_deferred (reserve_tx ?inp) s = (Inr x, ?s)"
    using assms(2) by (simp add: BeginTxFunc_def commit_tx_def)
  with assms(5,6) amt have "svc_ValidateAndReserve ?inp s = (Inr x, ?s)" by (simp add: svc_ValidateAndReserve_def)
  with x(2) assms(7) show ?thesis by (simp add: rpc_ValidateAndReserve_def)
qed

section \<open>Listing\<close>

text \<open>A client that follows the page tokens.\<close>

fun walk_pages :: "nat \<Rightarrow> ListConsentsRequest \<Rightarrow> int \<Rightarrow> string \<Rightarrow> consent_db \<Rightarrow> Consent list option" where
  "walk_pages 0 req psize tok s = None"
| "walk_pages (Suc n) req psize tok s =
     (case rpc_ListConsents (req\<lparr>lcr_Page := Some \<lparr>pg_PageSize = psize, pg_PageToken = tok\<rparr>\<rparr>) s of
        (Inl err, s1) \<Rightarrow> None
      | (Inr resp, s1) \<Rightarrow>
          if pr_NextPageToken (lcs_Page resp) = [] then Some (lcs_Consents resp)
          else map_option ((@) (lcs_Consents resp)) (walk_pages n req psize (pr_NextPageToken (lcs_Page resp)) s1))"

definition matching :: "ListConsentsRequest \<Rightarrow> consent_db \<Rightarrow> consent_tbl list" where
  "matching req s = sort_key (\<lambda>c. - cs_created c) (filter
     (list_filter (lcr_ConsumerId req)
        (\<lambda>m. lcr_MerchantId req = [] \<or> uc_pg (codec s) (lcr_MerchantId req) = Some m)
        (status_filter (lcr_Status req))) (consents s))"

definition merchant_valid :: "ListConsentsRequest \<Rightarrow> consent_db \<Rightarrow> bool" where
  "merchant_valid req s \<longleftrightarrow> lcr_MerchantId req = [] \<or> uc_pg (codec s) (lcr_MerchantId req) \<noteq> None"

lemma list_query_page:
  assumes "merchant_valid req s"
  shows "list_query (lcr_ConsumerId req) (lcr_MerchantId req) (status_filter (lcr_Status req)) l k s =
    (let page = take (nat l) (drop (nat k) (matching req s)) in
     (Inr (map (scanConsent (codec s)) page, if page = [] then 0 else int (length (matching req s))), s))"
proof (cases "lcr_MerchantId req = []")
  case True
  then show ?thesis by (simp add: list_query_def list_page_def matching_def Let_def)
next
  case False
  with assms obtain m where "uc_pg (codec s) (lcr_MerchantId req) = Some m" by (auto simp: merchant_valid_def)
  moreover have "(\<lambda>x. x = m) = (\<lambda>x. m = x)" by auto
  ultimately show ?thesis using False by (simp add: list_query_def list_page_def matching_def with_uuid_def Let_def)
qed

lemma rpc_ListConsents_page:
  assumes "script s = []" and "merchant_valid req s" and "0 < psize"
    and "page_params (Some \<lparr>pg_PageSize = psize, pg_PageToken = tok\<rparr>) = Inr (psize, int k)"
    and "page = take (nat (if psize > 100 then 100 else psize)) (drop k (matching req s))"
    and "int (length (matching req s)) < 2 ^ 63" and "k \<le> length (matching req s)"
  shows "\<exists>resp. rpc_ListConsents (req\<lparr>lcr_Page := Some \<lparr>pg_PageSize = psize, pg_PageToken = tok\<rparr>\<rparr>) s = (Inr resp, s) \<and>
    lcs_Consents resp = map (toProtoConsent (now s) \<circ> scanConsent (codec s)) page \<and>
    pr_NextPageToken (lcs_Page resp) =
      (if page \<noteq> [] \<and> k + length page < length (matching req s) then Itoa (int (k + length page)) else [])"
proof -
  have q: "repo_ListConsents (lcr_ConsumerId req) (lcr_MerchantId req) (status_filter (lcr_Status req))
      (if psize > 100 then 100 else psize) (int k) s =
    (Inr (map (scanConsent (codec s)) page, if page = [] then 0 else int (length (matching req s))), s)"
    using assms(1,2,5) by (simp add: repo_ListConsents_def list_query_page Let_def)
  have "k + length page \<le> length (matching req s)" using assms(5,7) by simp
  then have "add64 (int k) (int (length page)) = int (k + length page)"
    using assms(6) by (simp add: add64_id is_int64_def)
  with q assms(3,4) show ?thesis
    by (auto simp: rpc_ListConsents_def svc_ListConsents_def Let_def comp_def)
qed

lemma page_params_token:
  assumes "0 < psize" and "int k < 2 ^ 63"
  shows "page_params (Some \<lparr>pg_PageSize = psize, pg_PageToken = Itoa (int k)\<rparr>) = Inr (psize, int k)"
  using assms by (simp add: page_params_def Itoa_no_space Atoi_Itoa is_int64_def)

lemma take_drop_length: "take l xs @ drop (length (take l xs)) xs = xs"
  by (cases "l \<le> length xs") auto

lemma walk_from:
  assumes "script s = []" and "merchant_valid req s" and "0 < psize" and "int (length (matching req s)) < 2 ^ 63"
  shows "page_params (Some \<lparr>pg_PageSize = psize, pg_PageToken = tok\<rparr>) = Inr (psize, int k) \<Longrightarrow>
    k \<le> length (matching req s) \<Longrightarrow> length (matching req s) - k < n \<Longrightarrow>
    walk_pages n req psize tok s = Some (map (toProtoConsent (now s) \<circ> scanConsent (codec s)) (drop k (matching req s)))"
proof (induction n arbitrary: tok k)
  case (Suc n)
  define page where "page = take (nat (if psize > 100 then 100 else psize)) (drop k (matching req s))"
  obtain resp where r: "rpc_ListConsents (req\<lparr>lcr_Page := Some \<lparr>pg_PageSize = psize, pg_PageToken = tok\<rparr>\<rparr>) s = (Inr resp, s)"
    "lcs_Consents resp = map (toProtoConsent (now s) \<circ> scanConsent (codec s)) page"
    "pr_NextPageToken (lcs_Page resp) =
      (if page \<noteq> [] \<and> k + length page < length (matching req s) then Itoa (int (k + length page)) else [])"
    using rpc_ListConsents_page [OF assms(1,2,3) Suc.prems(1) page_def assms(4) Suc.prems(2)] by blast
  show ?case
  proof (cases "page \<noteq> [] \<and> k + length page < length (matching req s)")
    case True
    have "page_params (Some \<lparr>pg_PageSize = psize, pg_PageToken = Itoa (int (k + length page))\<rparr>) = Inr (psize, int (k + length page))"
      using True assms(3,4) by (intro page_params_token) auto
    moreover have "length (matching req s) - (k + length page) < n"
      using True Suc.prems(3) by (cases page) auto
    ultimately have "walk_pages n req psize (Itoa (int (k + length page))) s =
        Some (map (toProtoConsent (now s) \<circ> scanConsent (codec s)) (drop (k + length page) (matching req s)))"
      using True by (intro Suc.IH) auto
    moreover have "page @ drop (k + length page) (matching req s) = drop k (matching req s)"
    proof -
      have "drop (length page) (drop k (matching req s)) = drop (k + length page) (matching req s)" by (simp add: add.commute)
      moreover have "page @ drop (length page) (drop k (matching req s)) = drop k (matching req s)"
        unfolding page_def by (rule take_drop_length)
      ultimately show ?thesis by simp
    qed
    ultimately show ?thesis using r True by (simp flip: map_append)
  next
    case False
    have "page = drop k (matching req s)"
    proof (cases "page = []")
      case True
      then show ?thesis using assms(3) by (auto simp: page_def split: if_splits)
    next
      case p: False
      with False have "length (drop k (matching req s)) \<le> length page" by simp
      then show ?thesis by (simp add: page_def)
    qed
    moreover have "pr_NextPageToken (lcs_Page resp) = []" using r(3) False by auto
    ultimately show ?thesis using r(1,2) by simp
  qed
qed simp

text \<open>Following the page tokens from the first page returns every consent the filter selects, newest
  first, each once, for every page size.\<close>

theorem listing_complete:
  assumes "script s = []" and "merchant_valid req s" and "0 < psize" and "int (length (matching req s)) < 2 ^ 63"
    and "length (matching req s) < n"
  shows "walk_pages n req psize [] s =
    Some (map (toProtoConsent (now s) \<circ> scanConsent (codec s)) (matching req s))"
proof -
  have "page_params (Some \<lparr>pg_PageSize = psize, pg_PageToken = []\<rparr>) = Inr (psize, int 0)"
    using assms(3) by (simp add: page_params_def)
  from walk_from [OF assms(1-4) this] assms(5) show ?thesis by simp
qed

section \<open>The usage report\<close>

text \<open>The usage report of a consent within its limit: used and held together, what the limit leaves,
  and the number of settled payments of the last 30 days.\<close>

theorem usage_report:
  assumes "consent_wf s" and "script s = []" and "c \<in> set (consents s)" and "cap_ok s" and "cs_month c < 2 ^ 62"
    and "int (length (usages s)) < 2 ^ 31"
  shows "rpc_GetRollingUsage \<lparr>usr_ConsentId = uc_String (codec s) (cs_id c)\<rparr> s =
    (Inr \<lparr>uss_UsedThisMonth = \<lparr>mo_AmountPence = committed s (cs_id c), mo_Currency = cs_currency c\<rparr>,
          uss_RemainingThisMonth = \<lparr>mo_AmountPence = cs_month c - committed s (cs_id c), mo_Currency = cs_currency c\<rparr>,
          uss_TxCountThisMonth =
            int (length (filter (\<lambda>g. ug_consent g = cs_id c \<and> ug_settled g > now s - usage_window) (usages s)))\<rparr>, s)"
proof -
  let ?k = "codec s" and ?n = "length (filter (\<lambda>g. ug_consent g = cs_id c \<and> ug_settled g > now s - usage_window) (usages s))"
  let ?u = "used_of s (cs_id c)" and ?h = "held_of s (cs_id c)" and ?t = "uc_String (codec s) (cs_id c)"
  have ok: "codec_ok ?k" using assms(1) by (simp add: consent_wf_def)
  then have t: "?t \<noteq> []" "uc_pg ?k ?t = Some (cs_id c)" by (simp_all add: codec_ok_def)
  have b: "0 \<le> ?u" "0 \<le> ?h" "?u + ?h \<le> cs_month c"
    using used_nonneg held_nonneg assms(1,3,4,5) by (auto simp: cap_ok_def committed_def)
  then have i: "is_int64 ?u" "is_int64 ?h" "is_int64 (?u + ?h)" "is_int64 (cs_month c - ?u)" "is_int64 (cs_month c - ?u - ?h)"
    using assms(5) by (auto simp: is_int64_def)
  have "row_by cs_id (cs_id c) (consents s) = Some c"
    using assms(1,3) by (intro row_by_SomeI) (simp_all add: consent_wf_def)
  then have g: "repo_GetConsent ?t s = (Inr (scanConsent ?k c), s)"
    using assms(2) t by (simp add: repo_GetConsent_def select_consent_def with_uuid_def)
  have r: "repo_RollingUsagePool ?t s = (Inr (?u, ?h), s)"
    using assms(2) t i by (simp add: repo_RollingUsagePool_def wrap_usage_def select_usage_def with_uuid_def)
  have "int ?n \<le> int (length (usages s))" by (simp only: of_nat_le_iff length_filter_le)
  then have "int ?n < 2 ^ 31" using assms(6) by (rule le_less_trans)
  then have "repo_TxCountThisMonth ?t s = (Inr (int ?n), s)"
    using assms(2) t by (simp add: repo_TxCountThisMonth_def with_uuid_def Let_def)
  with g r t(1) b i show ?thesis
    by (simp add: rpc_GetRollingUsage_def svc_GetRollingUsage_def add64_id sub64_id clamp0_def committed_def)
qed

section \<open>Witnesses\<close>

definition ex_confirmed :: consent_db where
  "ex_confirmed = snd (rpc_ConfirmReservation (ex_confirm ''iii'' pay7) ex_consent2)"

lemma ex_confirmed_step: "consent_step ex_consent2 ex_confirmed"
  unfolding ex_confirmed_def by (rule consent_step.confirm [OF prod.collapse [symmetric]])

theorem reservation_lifecycle_witness:
  "hold_of (ex_consent1 60 100) 7 = Unheld \<and> hold_of ex_confirmed 7 = Settled \<and>
   length (filter (\<lambda>g. ug_payment g = 7) (usages ex_confirmed)) = 1"
proof -
  have r: "consent_step\<^sup>*\<^sup>* (ex_consent1 60 100) ex_confirmed"
    using ex_consent2_step ex_confirmed_step by (meson converse_rtranclp_into_rtranclp rtranclp.rtrancl_refl)
  have h: "hold_of (ex_consent1 60 100) 7 = Unheld" "hold_of ex_confirmed 7 = Settled" by code_simp+
  with reservation_lifecycle [OF ex_consent1_wf  r, of 7] show ?thesis by simp
qed

text \<open>A hold of 60 released, its consent revoked, then a retry for 50.\<close>

definition ex_freed :: consent_db where
  "ex_freed = snd (rpc_ReleaseReservation \<lparr>rlr_ReservationId = ''iii'', rlr_Reason = []\<rparr> ex_revoked)"

lemma ex_freed_wf: "consent_wf ex_freed"
proof -
  have "consent_wf ex_revoked" unfolding ex_revoked_def
    using consent_step_wf consent_step.revoke [OF prod.collapse [symmetric]] ex_consent2_wf by blast
  then show ?thesis unfolding ex_freed_def
    using consent_step_wf consent_step.release [OF prod.collapse [symmetric]] by blast
qed

theorem reserve_again_witness:
  "(\<exists>x. rpc_ValidateAndReserve (ex_reserve pay7 50) ex_freed = (Inr x, ex_freed\<lparr>aborted := False\<rparr>)) \<and>
   hold_of ex_freed 7 = Freed \<and> is_revoked 1 ex_freed \<and> held_of ex_freed 1 = 0"
proof -
  have f: "hold_of ex_freed 7 = Freed" "is_revoked 1 ex_freed" "held_of ex_freed 1 = 0" "used_of ex_freed 1 = 0" by code_simp+
  have "map (\<lambda>v. (rv_payment v, rv_consent v)) (reservations ex_freed) = [(7, 1)]" by code_simp
  then obtain v where v: "v \<in> set (reservations ex_freed)" "rv_payment v = 7" "rv_consent v = 1"
    by (cases "reservations ex_freed") auto
  have q: "script ex_freed = []" "uc_pg (codec ex_freed) (rrq_PaymentId (ex_reserve pay7 50)) = Some 7"
    "rrq_PaymentId (ex_reserve pay7 50) \<noteq> []" "rrq_ConsentId (ex_reserve pay7 50) \<noteq> []"
    "moneyFromProto (rrq_Amount (ex_reserve pay7 50)) = Inr (50, ''GBP'')" by code_simp+
  have "is_int64 (used_of ex_freed (rv_consent v))" "is_int64 (held_of ex_freed (rv_consent v))"
    using f v by (simp_all add: is_int64_def)
  with reserve_again [OF ex_freed_wf q(1) v(1) _ q(3,4,5)] q(2) v(2) f show ?thesis by auto
qed

definition ex_list :: ListConsentsRequest where
  "ex_list = \<lparr>lcr_ConsumerId = ''c1'', lcr_MerchantId = [], lcr_Status = Consent_ACTIVE, lcr_Page = None\<rparr>"

theorem listing_complete_witness:
  "map_option length (walk_pages 3 ex_list 1 [] ex_consent2) = Some 1"
proof -
  have "script ex_consent2 = []" "merchant_valid ex_list ex_consent2" "length (matching ex_list ex_consent2) = 1" by code_simp+
  then show ?thesis using listing_complete [of ex_consent2 ex_list 1 3] by simp
qed

theorem usage_report_witness:
  "rpc_GetRollingUsage \<lparr>usr_ConsentId = uc_String (codec ex_consent2) 1\<rparr> ex_consent2 =
    (Inr \<lparr>uss_UsedThisMonth = \<lparr>mo_AmountPence = 60, mo_Currency = ''GBP''\<rparr>,
          uss_RemainingThisMonth = \<lparr>mo_AmountPence = 40, mo_Currency = ''GBP''\<rparr>, uss_TxCountThisMonth = 0\<rparr>, ex_consent2)"
proof -
  have l: "map (\<lambda>c. (cs_id c, cs_month c, cs_currency c)) (consents ex_consent2) = [(1, 100, ''GBP'')]" by code_simp
  then obtain c where c: "consents ex_consent2 = [c]" "cs_id c = 1" "cs_month c = 100" "cs_currency c = ''GBP''"
    by (cases "consents ex_consent2") auto
  have f: "script ex_consent2 = []" "usages ex_consent2 = []" "committed ex_consent2 1 = 60" by code_simp+
  have "cap_ok ex_consent2" using c f by (simp add: cap_ok_def)
  with usage_report [OF ex_consent2_wf f(1), of c] c f show ?thesis by simp
qed

end
