(* ===== verification/Risk.thy ===== *)
theory Risk
  imports Proto
begin

text \<open>
  The risk service: \<open>services/risk-svc/internal/rules.go\<close> and \<open>handler.go\<close>.
  \<^item> \<open>risk_db\<close> is the state in Redis: the members of the blocklist sets, and the counters with the time
    their key expires, if any.
  \<^item> A rule is a function on this state; the engine runs the blocklist, the high-value and the extra
    rules, then the velocity rule, and merges the results.
  \<^item> A decision is a string as in the source. \<open>%q\<close> is written out for ASCII; a byte above is left as it is.
  The properties are in the theory \<open>Risk_Correct\<close>.
\<close>

abbreviation DecisionAllow :: string where "DecisionAllow \<equiv> ''ALLOW''"
abbreviation DecisionReview :: string where "DecisionReview \<equiv> ''REVIEW''"
abbreviation DecisionDecline :: string where "DecisionDecline \<equiv> ''DECLINE''"

definition maxScore :: int where "maxScore = 100"
definition velocityWindow :: int where "velocityWindow = 60 * 10 ^ 9"
definition velocityThreshold :: int where "velocityThreshold = 5"
definition velocityScoreDelta :: int where "velocityScoreDelta = 40"
definition highValuePence :: int where "highValuePence = 50000"
definition highValueScoreDelta :: int where "highValueScoreDelta = 30"
definition blocklistScoreDelta :: int where "blocklistScoreDelta = 100"

record risk_db = env +
  rmembers :: "(string \<times> string) set"
  rcounters :: "string \<Rightarrow> (int \<times> int option) option"

type_synonym 'a risk_op = "risk_db \<Rightarrow> 'a res \<times> risk_db"

record ScoreInput =
  si_MerchantID :: string
  si_ConsumerID :: string
  si_ConsentID :: string
  si_PaymentID :: string
  si_Amount :: "pb_Money option"
  si_IPAddress :: string
  si_UserAgent :: string

record RuleResult =
  ru_ScoreDelta :: int
  ru_Decision :: string
  ru_RuleName :: string
  ru_Reason :: string

record ScoreResult =
  sc_Score :: int
  sc_Decision :: string
  sc_Reason :: string
  sc_RulesTriggered :: "string list"

type_synonym Rule = "ScoreInput \<Rightarrow> RuleResult risk_op"

definition scoreInputFromProto :: "ScoreRequest \<Rightarrow> ScoreInput" where
  "scoreInputFromProto q =
     \<lparr>si_MerchantID = srq_MerchantId q, si_ConsumerID = srq_ConsumerId q, si_ConsentID = srq_ConsentId q,
      si_PaymentID = srq_PaymentId q, si_Amount = srq_Amount q, si_IPAddress = srq_IpAddress q,
      si_UserAgent = srq_UserAgent q\<rparr>"

section \<open>Redis\<close>

definition SIsMember :: "string \<Rightarrow> string \<Rightarrow> bool risk_op" where
  "SIsMember k v = pool_call (\<lambda>s. (Inr ((k, v) \<in> rmembers s), s))"

definition SAdd :: "string \<Rightarrow> string \<Rightarrow> unit risk_op" where
  "SAdd k v = pool_call (\<lambda>s. (Inr (), s\<lparr>rmembers := insert (k, v) (rmembers s)\<rparr>))"

definition SRem :: "string \<Rightarrow> string \<Rightarrow> unit risk_op" where
  "SRem k v = pool_call (\<lambda>s. (Inr (), s\<lparr>rmembers := rmembers s - {(k, v)}\<rparr>))"

definition live_counter :: "risk_db \<Rightarrow> string \<Rightarrow> (int \<times> int option) option" where
  "live_counter s k =
     (case rcounters s k of
        Some (n, Some e) \<Rightarrow> if now s < e then Some (n, Some e) else None
      | c \<Rightarrow> c)"

definition incr :: "string \<Rightarrow> int risk_op" where
  "incr k s =
     (case live_counter s k of
        None \<Rightarrow> (Inr 1, s\<lparr>rcounters := (rcounters s)(k \<mapsto> (1, None))\<rparr>)
      | Some (n, e) \<Rightarrow>
          if n = 2 ^ 63 - 1 then (Inl (OtherError ''ERR increment or decrement would overflow'' None), s)
          else (Inr (n + 1), s\<lparr>rcounters := (rcounters s)(k \<mapsto> (n + 1, e))\<rparr>))"

definition Incr :: "string \<Rightarrow> int risk_op" where
  "Incr k = pool_call (incr k)"

definition Expire :: "string \<Rightarrow> int \<Rightarrow> unit risk_op" where
  "Expire k d = pool_call (\<lambda>s. (Inr (),
     case live_counter s k of
       None \<Rightarrow> s
     | Some (n, _) \<Rightarrow> s\<lparr>rcounters := (rcounters s)(k \<mapsto> (n, Some (now s + d)))\<rparr>))"

section \<open>The rules\<close>

definition blocklistKey :: "string \<Rightarrow> string \<Rightarrow> string" where
  "blocklistKey typ val = ''risk:blocklist:'' @ ToLower typ @ '':'' @ val"

definition velocityKey :: "string \<Rightarrow> string" where
  "velocityKey consumerID = ''risk:velocity:'' @ consumerID"

definition passed :: RuleResult where
  "passed = \<lparr>ru_ScoreDelta = 0, ru_Decision = DecisionAllow, ru_RuleName = [], ru_Reason = []\<rparr>"

definition hex_digit :: "nat \<Rightarrow> char" where
  "hex_digit n = (if n < 10 then char_of (48 + n) else char_of (87 + n))"

definition quote_char :: "char \<Rightarrow> string" where
  "quote_char c =
     (let n = of_char c :: nat in
      if n = 34 \<or> n = 92 then [CHR 0x5C, c]
      else if n = 7 then [CHR 0x5C, CHR ''a''] else if n = 8 then [CHR 0x5C, CHR ''b'']
      else if n = 12 then [CHR 0x5C, CHR ''f''] else if n = 10 then [CHR 0x5C, CHR ''n'']
      else if n = 13 then [CHR 0x5C, CHR ''r''] else if n = 9 then [CHR 0x5C, CHR ''t'']
      else if n = 11 then [CHR 0x5C, CHR ''v'']
      else if n < 32 \<or> n = 127 then [CHR 0x5C, CHR ''x'', hex_digit (n div 16), hex_digit (n mod 16)]
      else [c])"

definition quoted :: "string \<Rightarrow> string" where
  "quoted t = [CHR 0x22] @ concat (map quote_char t) @ [CHR 0x22]"

fun blocklist_checks :: "(string \<times> string) list \<Rightarrow> RuleResult risk_op" where
  "blocklist_checks [] s = (Inr passed, s)"
| "blocklist_checks ((typ, val) # cs) s =
     (if val = [] then blocklist_checks cs s
      else case SIsMember (blocklistKey typ val) val s of
             (Inl err, s1) \<Rightarrow>
               (Inl (OtherError (''blocklist sismember '' @ blocklistKey typ val) (Some err)), s1)
           | (Inr True, s1) \<Rightarrow>
               (Inr \<lparr>ru_ScoreDelta = blocklistScoreDelta, ru_Decision = DecisionDecline, ru_RuleName = ''BLOCKLIST'',
                     ru_Reason = typ @ '' '' @ quoted val @ '' is blocklisted''\<rparr>, s1)
           | (Inr False, s1) \<Rightarrow> blocklist_checks cs s1)"

definition BlocklistRule_Evaluate :: Rule where
  "BlocklistRule_Evaluate q =
     blocklist_checks [(''consumer'', si_ConsumerID q), (''merchant'', si_MerchantID q), (''ip'', si_IPAddress q)]"

definition velocity_result :: "int \<Rightarrow> RuleResult" where
  "velocity_result n =
     (if n > velocityThreshold
      then \<lparr>ru_ScoreDelta = velocityScoreDelta, ru_Decision = DecisionReview, ru_RuleName = ''VELOCITY_EXCEEDED'',
            ru_Reason = ''consumer exceeded '' @ Itoa velocityThreshold @ '' payments in 1m0s (count='' @ Itoa n @ '')''\<rparr>
      else passed)"

definition VelocityRule_Evaluate :: Rule where
  "VelocityRule_Evaluate q s =
     (if si_ConsumerID q = [] then (Inr passed, s)
      else case Incr (velocityKey (si_ConsumerID q)) s of
             (Inl err, s1) \<Rightarrow> (Inl (OtherError ''velocity incr'' (Some err)), s1)
           | (Inr n, s1) \<Rightarrow>
               if n = 1 then
                 (case Expire (velocityKey (si_ConsumerID q)) velocityWindow s1 of
                    (Inl err, s2) \<Rightarrow> (Inl (OtherError ''velocity expire'' (Some err)), s2)
                  | (Inr _, s2) \<Rightarrow> (Inr (velocity_result n), s2))
               else (Inr (velocity_result n), s1))"

definition amount_pence :: "ScoreInput \<Rightarrow> int" where
  "amount_pence q = (case si_Amount q of None \<Rightarrow> 0 | Some x \<Rightarrow> mo_AmountPence x)"

definition HighValueRule_Evaluate :: Rule where
  "HighValueRule_Evaluate q s =
     (Inr (if amount_pence q > highValuePence
           then \<lparr>ru_ScoreDelta = highValueScoreDelta, ru_Decision = DecisionReview, ru_RuleName = ''HIGH_VALUE'',
                 ru_Reason = ''amount '' @ Itoa (amount_pence q) @ '' pence exceeds '' @ Itoa highValuePence @ '' pence''\<rparr>
           else passed), s)"

section \<open>The engine\<close>

definition severity :: "string \<Rightarrow> int" where
  "severity d = (if d = DecisionDecline then 3 else if d = DecisionReview then 2 else if d = DecisionAllow then 1 else 0)"

definition silent :: "RuleResult \<Rightarrow> bool" where
  "silent r \<longleftrightarrow> ru_Decision r = DecisionAllow \<and> ru_ScoreDelta r = 0 \<and> ru_RuleName r = []"

fun merge_loop :: "RuleResult list \<Rightarrow> int \<Rightarrow> string \<Rightarrow> string list \<Rightarrow> string list \<Rightarrow> int \<times> string \<times> string list \<times> string list" where
  "merge_loop [] score dec names reasons = (score, dec, names, reasons)"
| "merge_loop (r # rs) score dec names reasons =
     (if silent r then merge_loop rs score dec names reasons
      else merge_loop rs (add64 score (ru_ScoreDelta r))
             (if severity (ru_Decision r) > severity dec then ru_Decision r else dec)
             (if ru_RuleName r \<noteq> [] then names @ [ru_RuleName r] else names)
             (if ru_Reason r \<noteq> [] then reasons @ [ru_Reason r] else reasons))"

definition mergeResults :: "RuleResult list \<Rightarrow> ScoreResult" where
  "mergeResults rs =
     (let (score, dec, names, reasons) = merge_loop rs 0 DecisionAllow [] [];
          capped = (if score > maxScore then maxScore else score)
      in \<lparr>sc_Score = (if capped < 0 then 0 else capped), sc_Decision = dec,
          sc_Reason = (if reasons \<noteq> [] then str_Join ''; '' reasons else ''all rules passed''),
          sc_RulesTriggered = names\<rparr>)"

fun run_rules :: "Rule list \<Rightarrow> ScoreInput \<Rightarrow> (RuleResult list) risk_op" where
  "run_rules [] q s = (Inr [], s)"
| "run_rules (rule # rules) q s =
     (case rule q s of
        (Inl err, s1) \<Rightarrow> (Inl err, s1)
      | (Inr r, s1) \<Rightarrow>
          (case run_rules rules q s1 of
             (Inl err, s2) \<Rightarrow> (Inl err, s2)
           | (Inr rs, s2) \<Rightarrow> (Inr (if silent r then rs else r # rs), s2)))"

text \<open>\<open>Engine.Score\<close> with the extra rules of the engine.\<close>

definition Engine_Score :: "Rule list \<Rightarrow> ScoreInput \<Rightarrow> ScoreResult risk_op" where
  "Engine_Score extra q s =
     (case run_rules ([BlocklistRule_Evaluate, HighValueRule_Evaluate] @ extra) q s of
        (Inl err, s1) \<Rightarrow> (Inl err, s1)
      | (Inr results, s1) \<Rightarrow>
          let merged = mergeResults results in
          if sc_Decision merged \<noteq> DecisionDecline then
            (case VelocityRule_Evaluate q s1 of
               (Inl err, s2) \<Rightarrow> (Inl err, s2)
             | (Inr r, s2) \<Rightarrow> (Inr (if silent r then merged else mergeResults (results @ [r])), s2))
          else (Inr merged, s1))"

section \<open>The blocklist and the handler\<close>

definition NormalizeBlocklistType :: "string \<Rightarrow> string res" where
  "NormalizeBlocklistType typ =
     (if ToUpper (TrimSpace typ) \<in> {''CONSUMER'', ''MERCHANT'', ''IP''} then Inr (ToLower (TrimSpace typ))
      else Inl (OtherError ''type must be CONSUMER, MERCHANT, or IP'' None))"

definition AddToBlocklist :: "string \<Rightarrow> string \<Rightarrow> unit risk_op" where
  "AddToBlocklist typ val s =
     (case NormalizeBlocklistType typ of
        Inl err \<Rightarrow> (Inl err, s)
      | Inr t \<Rightarrow>
          if TrimSpace val = [] then (Inl (OtherError ''value is required'' None), s)
          else SAdd (blocklistKey t val) val s)"

definition RemoveFromBlocklist :: "string \<Rightarrow> string \<Rightarrow> unit risk_op" where
  "RemoveFromBlocklist typ val s =
     (case NormalizeBlocklistType typ of
        Inl err \<Rightarrow> (Inl err, s)
      | Inr t \<Rightarrow>
          if TrimSpace val = [] then (Inl (OtherError ''value is required'' None), s)
          else SRem (blocklistKey t val) val s)"

definition DecisionToProto :: "string \<Rightarrow> RiskDecision" where
  "DecisionToProto d = (if d = DecisionReview then Risk_REVIEW else if d = DecisionDecline then Risk_DECLINE else Risk_ALLOW)"

definition validation_status :: "string \<Rightarrow> goerror" where
  "validation_status msg = ToGRPC (derr_New CodeValidation msg)"

definition rpc_Score :: "ScoreRequest option \<Rightarrow> ScoreResponse risk_op" where
  "rpc_Score req s =
     (case req of
        None \<Rightarrow> (Inl (validation_status ''request is required''), s)
      | Some q \<Rightarrow>
          if TrimSpace (srq_ConsumerId q) = [] then (Inl (validation_status ''consumer_id is required''), s)
          else if TrimSpace (srq_MerchantId q) = [] then (Inl (validation_status ''merchant_id is required''), s)
          else case Engine_Score [] (scoreInputFromProto q) s of
                 (Inl err, s1) \<Rightarrow> (Inl (ToGRPC (derr_Wrap CodeInternal ''score failed'' err)), s1)
               | (Inr r, s1) \<Rightarrow>
                   (Inr \<lparr>srs_Score = wrap32 (sc_Score r), srs_Decision = DecisionToProto (sc_Decision r),
                         srs_Reason = sc_Reason r, srs_RulesTriggered = sc_RulesTriggered r\<rparr>, s1))"

text \<open>Both blocklist handlers: validate, change the set, answer with a new entry.\<close>

definition blocklist_rpc :: "(string \<Rightarrow> string \<Rightarrow> unit risk_op) \<Rightarrow> string \<Rightarrow> BlocklistRequest option \<Rightarrow> BlocklistEntry risk_op" where
  "blocklist_rpc op msg req s =
     (case req of
        None \<Rightarrow> (Inl (validation_status ''request is required''), s)
      | Some q \<Rightarrow>
          (case NormalizeBlocklistType (blr_Type q) of
             Inl err \<Rightarrow> (Inl (validation_status (Error_text err)), s)
           | Inr typ \<Rightarrow>
               let val = TrimSpace (blr_Value q) in
               if val = [] then (Inl (validation_status ''value is required''), s)
               else case op typ val s of
                      (Inl err, s1) \<Rightarrow> (Inl (ToGRPC (derr_Wrap CodeInternal msg err)), s1)
                    | (Inr _, s1) \<Rightarrow>
                        let (i, s2) = fresh_uuid s1 in
                        (Inr \<lparr>ble_Id = uc_String (codec s2) i, ble_Type = ToUpper typ, ble_Value = val,
                              ble_Reason = blr_Reason q, ble_CreatedAt = now s2\<rparr>, s2)))"

definition rpc_AddToBlocklist :: "BlocklistRequest option \<Rightarrow> BlocklistEntry risk_op" where
  "rpc_AddToBlocklist = blocklist_rpc AddToBlocklist ''add to blocklist''"

definition rpc_RemoveFromBlocklist :: "BlocklistRequest option \<Rightarrow> BlocklistEntry risk_op" where
  "rpc_RemoveFromBlocklist = blocklist_rpc RemoveFromBlocklist ''remove from blocklist''"

end
