(* ===== verification/Risk_Correct.thy ===== *)
theory Risk_Correct
  imports Risk
begin

text \<open>
  The properties of the risk service: it never allows what is blocklisted, whatever fails; its decision
  is that of a short specification; blocklist entries work until removed; and the velocity counter that
  loses its expiry.
\<close>

section \<open>The rules without faults\<close>

definition listed :: "risk_db \<Rightarrow> string \<times> string \<Rightarrow> bool" where
  "listed s = (\<lambda>(ty, val). val \<noteq> [] \<and> (blocklistKey ty val, val) \<in> rmembers s)"

definition checks :: "ScoreInput \<Rightarrow> (string \<times> string) list" where
  "checks q = [(''consumer'', si_ConsumerID q), (''merchant'', si_MerchantID q), (''ip'', si_IPAddress q)]"

definition blocklisted :: "risk_db \<Rightarrow> ScoreInput \<Rightarrow> bool" where
  "blocklisted s q \<longleftrightarrow> list_ex (listed s) (checks q)"

definition declined :: "RuleResult \<Rightarrow> bool" where
  "declined r \<longleftrightarrow> ru_Decision r = DecisionDecline \<and> ru_ScoreDelta r = blocklistScoreDelta \<and> ru_RuleName r = ''BLOCKLIST''"

lemma passed_simps [simp]:
  "ru_ScoreDelta passed = 0" "ru_Decision passed = DecisionAllow" "ru_RuleName passed = []" "ru_Reason passed = []" "silent passed"
  by (simp_all add: passed_def silent_def)

lemma risk_env: "env_only s s' \<Longrightarrow> rmembers s' = rmembers s \<and> rcounters s' = rcounters s \<and> now s' = now s"
  by (auto elim: env_onlyE)

text \<open>The blocklist rule reads only, and answers for the lists as they are.\<close>

lemma SIsMember_effect:
  assumes "SIsMember k v s = (r, s')"
  shows "env_only s s' \<and> (\<forall>b. r = Inr b \<longrightarrow> b = ((k, v) \<in> rmembers s))"
  using assms unfolding SIsMember_def by (cases rule: pool_call_cases) (auto dest: risk_env)

lemma blocklist_checks_effect:
  assumes "blocklist_checks cs s = (r, s')"
  shows "env_only s s' \<and> (\<forall>x. r = Inr x \<longrightarrow> (if list_ex (listed s) cs then declined x else x = passed))"
  using assms
proof (induction cs arbitrary: s)
  case Nil
  then show ?case by auto
next
  case (Cons c cs)
  obtain ty val where c: "c = (ty, val)" by fastforce
  show ?case
  proof (cases "val = []")
    case True
    with Cons.IH [of s] Cons.prems c show ?thesis by (simp add: listed_def)
  next
    case False
    obtain r1 s1 where m: "SIsMember (blocklistKey ty val) val s = (r1, s1)" by fastforce
    from SIsMember_effect [OF m] have e: "env_only s s1" "\<And>b. r1 = Inr b \<Longrightarrow> b = listed s c"
      using False by (auto simp: listed_def c)
    have l: "listed s1 = listed s" using risk_env [OF e(1)] by (simp add: fun_eq_iff listed_def)
    consider (err) err where "r1 = Inl err" | (yes) "r1 = Inr True" | (no) "r1 = Inr False" by (cases r1) auto
    then show ?thesis
    proof cases
      case err
      with Cons.prems m False c e show ?thesis by auto
    next
      case yes
      with Cons.prems m False c e(1) e(2) [OF yes] show ?thesis by (auto simp: declined_def)
    next
      case no
      with Cons.prems m False c have "blocklist_checks cs s1 = (r, s')" by simp
      from Cons.IH [OF this] e(1) e(2) [OF no] l show ?thesis by (auto intro: env_only_trans)
    qed
  qed
qed

lemma declined_loud: "declined r \<Longrightarrow> \<not> silent r"
  by (simp add: declined_def silent_def)

definition high_value :: "ScoreInput \<Rightarrow> bool" where
  "high_value q \<longleftrightarrow> amount_pence q > highValuePence"

lemma severity_simps [simp]:
  "severity DecisionDecline = 3" "severity DecisionReview = 2" "severity DecisionAllow = 1"
  by (simp_all add: severity_def)

text \<open>What the rules before the velocity rule return.\<close>

lemma pre_rules_effect:
  assumes "run_rules [BlocklistRule_Evaluate, HighValueRule_Evaluate] q s = (Inr rs, s')"
  shows "env_only s s' \<and> (\<exists>hv. HighValueRule_Evaluate q s = (Inr hv, s) \<and>
    (if blocklisted s q then \<exists>b. declined b \<and> rs = (if high_value q then [b, hv] else [b])
     else rs = (if high_value q then [hv] else [])))"
proof -
  obtain r1 s1 where b: "BlocklistRule_Evaluate q s = (r1, s1)" by fastforce
  with assms obtain x where x: "r1 = Inr x" by (cases r1) auto
  from blocklist_checks_effect [OF b [unfolded BlocklistRule_Evaluate_def, folded checks_def]] x
  have e: "env_only s s1" "if blocklisted s q then declined x else x = passed" by (auto simp: blocklisted_def)
  define hv where "hv = (if high_value q
     then \<lparr>ru_ScoreDelta = highValueScoreDelta, ru_Decision = DecisionReview, ru_RuleName = ''HIGH_VALUE'',
       ru_Reason = ''amount '' @ Itoa (amount_pence q) @ '' pence exceeds '' @ Itoa highValuePence @ '' pence''\<rparr> else passed)"
  have h: "HighValueRule_Evaluate q t = (Inr hv, t)" for t
    by (simp add: HighValueRule_Evaluate_def hv_def high_value_def)
  have "silent hv \<longleftrightarrow> \<not> high_value q" by (simp add: hv_def silent_def)
  with assms b x e h declined_loud show ?thesis by (auto split: if_splits)
qed

lemma merge_two:
  assumes "\<not> silent a"
  shows "mergeResults [a] = \<lparr>sc_Score = (let c = (if add64 0 (ru_ScoreDelta a) > maxScore then maxScore else add64 0 (ru_ScoreDelta a)) in if c < 0 then 0 else c),
     sc_Decision = (if severity (ru_Decision a) > 1 then ru_Decision a else DecisionAllow),
     sc_Reason = (if ru_Reason a \<noteq> [] then ru_Reason a else ''all rules passed''),
     sc_RulesTriggered = (if ru_RuleName a \<noteq> [] then [ru_RuleName a] else [])\<rparr>"
  using assms by (simp add: mergeResults_def Let_def)

lemma merge_Nil: "mergeResults [] = \<lparr>sc_Score = 0, sc_Decision = DecisionAllow, sc_Reason = ''all rules passed'', sc_RulesTriggered = []\<rparr>"
  by (simp add: mergeResults_def maxScore_def)

lemma merge_decision_ge:
  "severity dec \<le> severity (fst (snd (merge_loop rs score dec names reasons))) \<and>
   (\<forall>r \<in> set rs. \<not> silent r \<longrightarrow> severity (ru_Decision r) \<le> severity (fst (snd (merge_loop rs score dec names reasons))))"
proof (induction rs arbitrary: score dec names reasons)
  case (Cons r rs)
  show ?case
  proof (cases "silent r")
    case True
    with Cons show ?thesis by simp
  next
    case False
    let ?d = "if severity (ru_Decision r) > severity dec then ru_Decision r else dec"
    have "severity dec \<le> severity ?d" "severity (ru_Decision r) \<le> severity ?d" by auto
    with False Cons.IH [where dec = ?d] show ?thesis by (auto intro: order_trans)
  qed
qed simp

lemma merge_ge: "r \<in> set rs \<Longrightarrow> \<not> silent r \<Longrightarrow> severity (ru_Decision r) \<le> severity (sc_Decision (mergeResults rs))"
  using merge_decision_ge [where rs = rs and score = 0 and dec = DecisionAllow and names = "[]" and reasons = "[]"]
  by (auto simp: mergeResults_def Let_def split: prod.splits)

lemma severity_le3: "severity d \<le> 3"
  by (simp add: severity_def)

lemma severity_3: "3 \<le> severity d \<Longrightarrow> d = DecisionDecline"
  by (simp add: severity_def split: if_splits)

lemma score_safe:
  assumes "rpc_Score (Some q) s = (Inr resp, s')"
  shows "(blocklisted s (scoreInputFromProto q) \<longrightarrow> srs_Decision resp = Risk_DECLINE) \<and>
    (srs_Decision resp = Risk_ALLOW \<longrightarrow> \<not> high_value (scoreInputFromProto q))"
proof -
  let ?q = "scoreInputFromProto q"
  obtain r where r: "Engine_Score [] ?q s = (Inr r, s')" "srs_Decision resp = DecisionToProto (sc_Decision r)"
    using assms by (auto simp: rpc_Score_def split: if_splits prod.splits sum.splits)
  then obtain rs s1 where rs: "run_rules [BlocklistRule_Evaluate, HighValueRule_Evaluate] ?q s = (Inr rs, s1)"
    by (auto simp: Engine_Score_def split: prod.splits sum.splits)
  from pre_rules_effect [OF rs] obtain hv where
    hv: "HighValueRule_Evaluate ?q s = (Inr hv, s)"
    and l: "if blocklisted s ?q then \<exists>b. declined b \<and> rs = (if high_value ?q then [b, hv] else [b]) else rs = (if high_value ?q then [hv] else [])"
    by blast
  have "r = mergeResults rs \<or> (\<exists>v. r = mergeResults (rs @ [v]))"
    using r(1) rs by (auto simp: Engine_Score_def Let_def split: if_splits prod.splits sum.splits)
  then have up: "x \<in> set rs \<Longrightarrow> \<not> silent x \<Longrightarrow> severity (ru_Decision x) \<le> severity (sc_Decision r)" for x
    using merge_ge [of x rs] merge_ge [of x "rs @ [v]" for v] by auto
  have "sc_Decision r = DecisionDecline" if "blocklisted s ?q"
  proof -
    from l that obtain b where b: "declined b" "b \<in> set rs" by (auto split: if_splits)
    with up [of b] declined_loud have "3 \<le> severity (sc_Decision r)" by (simp add: declined_def)
    then show ?thesis by (rule severity_3)
  qed
  moreover have "sc_Decision r \<noteq> DecisionAllow \<and> severity (sc_Decision r) \<ge> 2" if "high_value ?q"
  proof -
    have "hv \<in> set rs" using l that by (auto split: if_splits)
    moreover have "ru_Decision hv = DecisionReview" "\<not> silent hv"
      using hv that by (auto simp: HighValueRule_Evaluate_def high_value_def silent_def)
    ultimately have "2 \<le> severity (sc_Decision r)" using up [of hv] by simp
    then show ?thesis by (auto simp: severity_def split: if_splits)
  qed
  ultimately show ?thesis using r(2) by (auto simp: DecisionToProto_def severity_def split: if_splits)
qed


section \<open>The decision\<close>

text \<open>The specification: decline what is blocklisted; otherwise count the payment and review a high
  value or more than five payments within the window.\<close>

definition next_count :: "risk_db \<Rightarrow> string \<Rightarrow> int" where
  "next_count s c = (case live_counter s (velocityKey c) of None \<Rightarrow> 1 | Some (n, _) \<Rightarrow> n + 1)"

definition spec_decision :: "risk_db \<Rightarrow> ScoreInput \<Rightarrow> RiskDecision" where
  "spec_decision s q =
     (if blocklisted s q then Risk_DECLINE
      else if high_value q \<or> next_count s (si_ConsumerID q) > 5 then Risk_REVIEW else Risk_ALLOW)"

definition spec_score :: "risk_db \<Rightarrow> ScoreInput \<Rightarrow> int" where
  "spec_score s q =
     (if blocklisted s q then 100
      else (if high_value q then 30 else 0) + (if next_count s (si_ConsumerID q) > 5 then 40 else 0))"

definition counted :: "risk_db \<Rightarrow> string \<Rightarrow> risk_db" where
  "counted s c = s\<lparr>rcounters := (rcounters s)(velocityKey c \<mapsto>
     (case live_counter s (velocityKey c) of None \<Rightarrow> (1, Some (now s + velocityWindow)) | Some (n, e) \<Rightarrow> (n + 1, e)))\<rparr>"

lemma blocklist_no_fault:
  assumes "script s = []"
  shows "\<exists>x. blocklist_checks cs s = (Inr x, s)"
proof (induction cs)
  case (Cons c cs)
  obtain ty val where "c = (ty, val)" by fastforce
  then show ?case using Cons assms by (auto simp: SIsMember_def split: bool.splits)
qed simp

lemma pre_rules_no_fault:
  assumes "script s = []"
  shows "\<exists>rs. run_rules [BlocklistRule_Evaluate, HighValueRule_Evaluate] q s = (Inr rs, s)"
  using blocklist_no_fault [OF assms, of "checks q"]
  by (auto simp: BlocklistRule_Evaluate_def checks_def HighValueRule_Evaluate_def simp del: blocklist_checks.simps)

lemma velocity_no_fault:
  assumes "script s = []" and "si_ConsumerID q \<noteq> []" and "\<And>n e. live_counter s (velocityKey (si_ConsumerID q)) = Some (n, e) \<Longrightarrow> 0 < n \<and> n < 2 ^ 63 - 1"
  shows "VelocityRule_Evaluate q s = (Inr (velocity_result (next_count s (si_ConsumerID q))), counted s (si_ConsumerID q))"
proof (cases "live_counter s (velocityKey (si_ConsumerID q))")
  case None
  then show ?thesis
    using assms(1,2) by (simp add: VelocityRule_Evaluate_def Incr_def incr_def Expire_def live_counter_def next_count_def counted_def)
next
  case (Some p)
  obtain n e where "p = (n, e)" by fastforce
  with Some assms show ?thesis
    by (simp add: VelocityRule_Evaluate_def Incr_def incr_def next_count_def counted_def)
qed

lemma merge_score_simps: "add64 0 100 = 100" "add64 100 30 = 130" "add64 0 30 = 30" "add64 0 40 = 40" "add64 30 40 = 70"
  by (simp_all add: add64_id is_int64_def)

lemma velocity_result_cases:
  "(5 < n \<and> \<not> silent (velocity_result n) \<and> ru_Decision (velocity_result n) = DecisionReview \<and> ru_ScoreDelta (velocity_result n) = 40) \<or>
   (n \<le> 5 \<and> velocity_result n = passed)"
  by (auto simp: velocity_result_def velocityThreshold_def velocityScoreDelta_def silent_def)

text \<open>C21: when Redis answers, the decision and the score are those of the specification, and a declined
  payment does not count towards the consumer's velocity.\<close>

theorem risk_decision:
  assumes "script s = []" and "TrimSpace (srq_ConsumerId q) \<noteq> []" and "TrimSpace (srq_MerchantId q) \<noteq> []"
    and "\<And>n e. live_counter s (velocityKey (srq_ConsumerId q)) = Some (n, e) \<Longrightarrow> 0 < n \<and> n < 2 ^ 63 - 1"
  shows "\<exists>resp. rpc_Score (Some q) s =
      (Inr resp, if blocklisted s (scoreInputFromProto q) then s else counted s (srq_ConsumerId q)) \<and>
    srs_Decision resp = spec_decision s (scoreInputFromProto q) \<and> srs_Score resp = spec_score s (scoreInputFromProto q)"
proof -
  let ?q = "scoreInputFromProto q"
  have c: "si_ConsumerID ?q = srq_ConsumerId q" "srq_ConsumerId q \<noteq> []" using assms(2) by (auto simp: scoreInputFromProto_def)
  obtain rs where rs: "run_rules [BlocklistRule_Evaluate, HighValueRule_Evaluate] ?q s = (Inr rs, s)"
    using pre_rules_no_fault [OF assms(1)] by blast
  from pre_rules_effect [OF rs] obtain hv where hv: "HighValueRule_Evaluate ?q s = (Inr hv, s)"
    and l: "if blocklisted s ?q then \<exists>b. declined b \<and> rs = (if high_value ?q then [b, hv] else [b]) else rs = (if high_value ?q then [hv] else [])"
    by blast
  have h: "high_value ?q \<Longrightarrow> ru_Decision hv = DecisionReview \<and> ru_ScoreDelta hv = 30 \<and> \<not> silent hv"
    using hv by (auto simp: HighValueRule_Evaluate_def high_value_def silent_def highValueScoreDelta_def)
  have vel: "VelocityRule_Evaluate ?q s = (Inr (velocity_result (next_count s (srq_ConsumerId q))), counted s (srq_ConsumerId q))"
    using velocity_no_fault [OF assms(1), of ?q] c assms(4) by simp
  have sc: "\<exists>r. Engine_Score [] ?q s = (Inr r, if blocklisted s ?q then s else counted s (srq_ConsumerId q)) \<and>
      DecisionToProto (sc_Decision r) = spec_decision s ?q \<and> sc_Score r = spec_score s ?q"
  proof (cases "blocklisted s ?q")
    case True
    then obtain b where b: "declined b" "rs = (if high_value ?q then [b, hv] else [b])" using l by auto
    have "sc_Decision (mergeResults rs) = DecisionDecline \<and> sc_Score (mergeResults rs) = 100"
      using b h declined_loud [OF b(1)]
      by (auto simp: mergeResults_def Let_def declined_def blocklistScoreDelta_def merge_score_simps maxScore_def)
    then show ?thesis using True rs
      by (simp add: Engine_Score_def spec_decision_def spec_score_def DecisionToProto_def)
  next
    case False
    then have b: "rs = (if high_value ?q then [hv] else [])" using l by simp
    have d: "sc_Decision (mergeResults rs) \<noteq> DecisionDecline"
      using b h by (auto simp: mergeResults_def Let_def)
    show ?thesis
      using velocity_result_cases [of "next_count s (srq_ConsumerId q)"] h b d False rs vel c(1)
      by (auto simp: Engine_Score_def spec_decision_def spec_score_def DecisionToProto_def mergeResults_def
          Let_def merge_score_simps maxScore_def)
  qed
  have "wrap32 (spec_score s ?q) = spec_score s ?q" by (simp add: spec_score_def wrap32_def)
  with sc assms(2,3) show ?thesis by (auto simp: rpc_Score_def)
qed

section \<open>The blocklist\<close>

lemma normalize_types:
  "t \<in> {''consumer'', ''merchant'', ''ip''} \<Longrightarrow> NormalizeBlocklistType t = Inr t \<and> ToLower t = t"
  by (elim insertE emptyE; hypsubst; code_simp)

lemma AddToBlocklist_effect:
  assumes "AddToBlocklist t v s = (Inr x, s')" and "t \<in> {''consumer'', ''merchant'', ''ip''}"
  shows "rmembers s' = insert (blocklistKey t v, v) (rmembers s)"
proof -
  from assms(1) normalize_types [OF assms(2)] have "SAdd (blocklistKey t v) v s = (Inr x, s')"
    by (simp add: AddToBlocklist_def split: if_splits)
  then show ?thesis unfolding SAdd_def by (cases rule: pool_call_cases) (auto dest: risk_env)
qed

lemma RemoveFromBlocklist_effect:
  assumes "RemoveFromBlocklist t v s = (Inr x, s')" and "t \<in> {''consumer'', ''merchant'', ''ip''}"
  shows "rmembers s' = rmembers s - {(blocklistKey t v, v)}"
proof -
  from assms(1) normalize_types [OF assms(2)] have "SRem (blocklistKey t v) v s = (Inr x, s')"
    by (simp add: RemoveFromBlocklist_def split: if_splits)
  then show ?thesis unfolding SRem_def by (cases rule: pool_call_cases) (auto dest: risk_env)
qed

lemma blocklist_rpc_effect:
  assumes "blocklist_rpc op msg (Some b) s = (Inr e, s')" and "NormalizeBlocklistType (blr_Type b) = Inr t"
  obtains x s1 where "op t (TrimSpace (blr_Value b)) s = (Inr x, s1)" "rmembers s' = rmembers s1" "TrimSpace (blr_Value b) \<noteq> []"
  using assms by (auto simp: blocklist_rpc_def Let_def fresh_uuid_def split: if_splits prod.splits sum.splits)

text \<open>A blocklist entry works until it is removed: after a successful addition every scored payment
  of the consumer, merchant or address is declined, and the removal of an entry that was not there before
  restores the lists.\<close>

theorem blocklist_roundtrip:
  assumes "rpc_AddToBlocklist (Some b) s = (Inr e, s1)" and "NormalizeBlocklistType (blr_Type b) = Inr t"
    and "t \<in> {''consumer'', ''merchant'', ''ip''}" and "(t, TrimSpace (blr_Value b)) \<in> set (checks (scoreInputFromProto q))"
    and "\<not> listed s (t, TrimSpace (blr_Value b))" and "rpc_RemoveFromBlocklist (Some b) s1 = (Inr e', s2)"
  shows "(rpc_Score (Some q) s1 = (Inr resp, s3) \<longrightarrow> srs_Decision resp = Risk_DECLINE) \<and> rmembers s2 = rmembers s"
proof -
  let ?v = "TrimSpace (blr_Value b)"
  obtain x t1 where a: "AddToBlocklist t ?v s = (Inr x, t1)" "rmembers s1 = rmembers t1" "?v \<noteq> []"
    using blocklist_rpc_effect assms(1,2) unfolding rpc_AddToBlocklist_def by metis
  then have m: "rmembers s1 = insert (blocklistKey t ?v, ?v) (rmembers s)" using AddToBlocklist_effect assms(3) by simp
  obtain y t2 where r: "RemoveFromBlocklist t ?v s1 = (Inr y, t2)" "rmembers s2 = rmembers t2"
    using blocklist_rpc_effect assms(2,6) unfolding rpc_RemoveFromBlocklist_def by metis
  have "(blocklistKey t ?v, ?v) \<notin> rmembers s" using assms(5) a(3) by (simp add: listed_def)
  then have "rmembers s2 = rmembers s" using RemoveFromBlocklist_effect [OF r(1) assms(3)] r(2) m by simp
  moreover have "blocklisted s1 (scoreInputFromProto q)"
    using assms(4) m a(3) by (auto simp: blocklisted_def list_ex_iff listed_def)
  ultimately show ?thesis using score_safe by blast
qed

section \<open>A counter that never expires\<close>

text \<open>When the counter's first increment succeeds and setting its expiry fails, the request fails but
  the counter stays without an expiry, so no later time clears it: from the sixth payment on the consumer
  is under review for ever.\<close>

theorem velocity_counter_sticks:
  assumes "script s = [None, Some e]" and "si_ConsumerID q \<noteq> []" and "rcounters s (velocityKey (si_ConsumerID q)) = None"
  shows "(\<exists>err s'. VelocityRule_Evaluate q s = (Inl err, s') \<and>
      (\<forall>t. live_counter (s'\<lparr>now := t\<rparr>) (velocityKey (si_ConsumerID q)) = Some (1, None)))"
  using assms
  by (simp add: VelocityRule_Evaluate_def Incr_def pool_call_def incr_def live_counter_def Expire_def)

section \<open>Witnesses\<close>

definition ex_risk :: risk_db where
  "ex_risk = \<lparr>now = 0, script = [], aborted = False, uuid_src = word_of_nat, n_uuid = 0, codec = unary_codec,
     rmembers = {(''risk:blocklist:consumer:bad'', ''bad'')}, rcounters = (\<lambda>_. None)\<rparr>"

definition ex_score :: "string \<Rightarrow> int \<Rightarrow> ScoreRequest" where
  "ex_score c n = \<lparr>srq_MerchantId = ''m1'', srq_ConsumerId = c, srq_ConsentId = [], srq_PaymentId = [],
     srq_Amount = Some \<lparr>mo_AmountPence = n, mo_Currency = ''GBP''\<rparr>, srq_IpAddress = [], srq_UserAgent = []\<rparr>"


theorem risk_decision_witness:
  "\<exists>resp. fst (rpc_Score (Some (ex_score ''c1'' 60000)) ex_risk) = Inr resp \<and> srs_Decision resp = Risk_REVIEW \<and> srs_Score resp = 30"
proof -
  let ?q = "ex_score ''c1'' 60000"
  have "TrimSpace (srq_ConsumerId ?q) \<noteq> []" "TrimSpace (srq_MerchantId ?q) \<noteq> []" by code_simp+
  moreover have "script ex_risk = []" "live_counter ex_risk (velocityKey (srq_ConsumerId ?q)) = None"
    by (simp_all add: ex_risk_def live_counter_def)
  moreover have "spec_decision ex_risk (scoreInputFromProto ?q) = Risk_REVIEW" "spec_score ex_risk (scoreInputFromProto ?q) = 30"
    by code_simp+
  ultimately show ?thesis using risk_decision [of ex_risk ?q] by auto
qed

definition ex_block :: BlocklistRequest where
  "ex_block = \<lparr>blr_Type = '' Consumer'', blr_Value = ''c1 '', blr_Reason = []\<rparr>"

theorem blocklist_roundtrip_witness:
  "rmembers (snd (rpc_RemoveFromBlocklist (Some ex_block) (snd (rpc_AddToBlocklist (Some ex_block) ex_risk)))) = rmembers ex_risk"
proof -
  have "case rpc_AddToBlocklist (Some ex_block) ex_risk of (Inr _, s1) \<Rightarrow>
      (case rpc_RemoveFromBlocklist (Some ex_block) s1 of (Inr _, _) \<Rightarrow> True | _ \<Rightarrow> False) | _ \<Rightarrow> False" by code_simp
  then obtain e s1 e' s2 where a: "rpc_AddToBlocklist (Some ex_block) ex_risk = (Inr e, s1)"
    and r: "rpc_RemoveFromBlocklist (Some ex_block) s1 = (Inr e', s2)" by (auto split: prod.splits sum.splits)
  have "NormalizeBlocklistType (blr_Type ex_block) = Inr ''consumer''"
    "(''consumer'', TrimSpace (blr_Value ex_block)) \<in> set (checks (scoreInputFromProto (ex_score ''c1'' 1)))"
    "\<not> listed ex_risk (''consumer'', TrimSpace (blr_Value ex_block))" by code_simp+
  with blocklist_roundtrip [OF a _ _ _ _ r] a r show ?thesis by auto
qed

theorem velocity_counter_sticks_witness:
  "\<exists>err s'. VelocityRule_Evaluate (scoreInputFromProto (ex_score ''c1'' 1)) (ex_risk\<lparr>script := [None, Some RedisNil]\<rparr>) = (Inl err, s') \<and>
     (\<forall>t. live_counter (s'\<lparr>now := t\<rparr>) (velocityKey ''c1'') = Some (1, None))"
  using velocity_counter_sticks [of "ex_risk\<lparr>script := [None, Some RedisNil]\<rparr>" RedisNil "scoreInputFromProto (ex_score ''c1'' 1)"]
  by (simp add: ex_risk_def ex_score_def scoreInputFromProto_def)

end
