(* ===== verification/Idempotency.thy ===== *)
theory Idempotency
  imports Infra
begin

text \<open>
  The package \<open>pkg/shared/idempotency\<close>: keys in Redis that say who works on a request and what came of it.
  \<^item> \<open>idem_db\<close> extends the environment with the keys: a value and the time the key expires. A live key is
    one that has not expired.
  \<^item> \<open>Begin\<close> keeps its two attempts; \<open>WaitForCompletion\<close> polls: what happens in a pause of 100 ms, to the
    clock and to the keys, is the parameter \<open>pause\<close>, which returns an error when the context is cancelled.
    The number of polls is bounded by fuel; \<open>wait_fuel\<close> is enough when every pause lasts 100 ms.
  The lemmas: one owner per key, completed keys are stable, and the poll returns.
\<close>

abbreviation StatusProcessing :: string where "StatusProcessing \<equiv> ''PROCESSING''"

definition DefaultTTL :: int where "DefaultTTL = 24 * 60 * 60 * 10 ^ 9"
definition poll_interval :: int where "poll_interval = 100 * 10 ^ 6"

record idem_db = env +
  idem_kv :: "string \<Rightarrow> (string \<times> int) option"

definition idem_key :: "string \<Rightarrow> string" where
  "idem_key k = ''idempotency:'' @ k"

definition live :: "'z idem_db_scheme \<Rightarrow> string \<Rightarrow> string option" where
  "live s k = (case idem_kv s k of Some (v, e) \<Rightarrow> if now s < e then Some v else None | None \<Rightarrow> None)"

definition redis_set :: "string \<Rightarrow> string \<Rightarrow> int \<Rightarrow> 'z idem_db_scheme \<Rightarrow> unit res \<times> 'z idem_db_scheme" where
  "redis_set k v ttl = pool_call (\<lambda>s. (Inr (), s\<lparr>idem_kv := (idem_kv s)(k \<mapsto> (v, now s + ttl))\<rparr>))"

definition redis_setnx :: "string \<Rightarrow> string \<Rightarrow> int \<Rightarrow> 'z idem_db_scheme \<Rightarrow> unit res \<times> 'z idem_db_scheme" where
  "redis_setnx k v ttl = pool_call (\<lambda>s.
     case live s k of
       Some _ \<Rightarrow> (Inl RedisNil, s)
     | None \<Rightarrow> (Inr (), s\<lparr>idem_kv := (idem_kv s)(k \<mapsto> (v, now s + ttl))\<rparr>))"

definition redis_getkey :: "string \<Rightarrow> 'z idem_db_scheme \<Rightarrow> string res \<times> 'z idem_db_scheme" where
  "redis_getkey k = pool_call (\<lambda>s. (case live s k of Some v \<Rightarrow> Inr v | None \<Rightarrow> Inl RedisNil, s))"

definition redis_delkey :: "string \<Rightarrow> 'z idem_db_scheme \<Rightarrow> unit res \<times> 'z idem_db_scheme" where
  "redis_delkey k = pool_call (\<lambda>s. (Inr (), s\<lparr>idem_kv := (idem_kv s)(k := None)\<rparr>))"

text \<open>The tail of \<open>Begin\<close> once the value or the error of the last \<open>GET\<close> is known.\<close>

definition begin_result :: "string res \<Rightarrow> (bool \<times> string) res" where
  "begin_result got =
     (case got of
        Inl gerr \<Rightarrow> Inl (OtherError ''idempotency get'' (Some gerr))
      | Inr val \<Rightarrow> Inr (False, if val = StatusProcessing then [] else val))"

definition idem_Begin :: "string \<Rightarrow> 'z idem_db_scheme \<Rightarrow> (bool \<times> string) res \<times> 'z idem_db_scheme" where
  "idem_Begin k s =
     (case redis_setnx (idem_key k) StatusProcessing DefaultTTL s of
        (Inr _, s1) \<Rightarrow> (Inr (True, []), s1)
      | (Inl err, s1) \<Rightarrow>
          (case redis_getkey (idem_key k) s1 of
             (got, s2) \<Rightarrow>
               if got = Inl RedisNil then
                 (case redis_setnx (idem_key k) StatusProcessing DefaultTTL s2 of
                    (Inr _, s3) \<Rightarrow> (Inr (True, []), s3)
                  | (Inl _, s3) \<Rightarrow> (case redis_getkey (idem_key k) s3 of (got2, s4) \<Rightarrow> (begin_result got2, s4)))
               else (begin_result got, s2)))"

definition idem_Complete :: "string \<Rightarrow> string \<Rightarrow> 'z idem_db_scheme \<Rightarrow> unit res \<times> 'z idem_db_scheme" where
  "idem_Complete k val = redis_set (idem_key k) val DefaultTTL"

definition idem_Release :: "string \<Rightarrow> 'z idem_db_scheme \<Rightarrow> unit res \<times> 'z idem_db_scheme" where
  "idem_Release k = redis_delkey (idem_key k)"

fun wait_loop :: "nat \<Rightarrow> int \<Rightarrow> string \<Rightarrow> ('z idem_db_scheme \<Rightarrow> goerror option \<times> 'z idem_db_scheme) \<Rightarrow>
    'z idem_db_scheme \<Rightarrow> (string \<times> bool) res \<times> 'z idem_db_scheme" where
  "wait_loop 0 deadline k pause s = (Inr ([], False), s)"
| "wait_loop (Suc n) deadline k pause s =
     (if \<not> now s < deadline then (Inr ([], False), s)
      else case redis_getkey (idem_key k) s of
             (Inl err, s1) \<Rightarrow> if err = RedisNil then (Inr ([], False), s1) else (Inl err, s1)
           | (Inr val, s1) \<Rightarrow>
               if val \<noteq> StatusProcessing then (Inr (val, True), s1)
               else case pause s1 of
                      (Some err, s2) \<Rightarrow> (Inl err, s2)
                    | (None, s2) \<Rightarrow> wait_loop n deadline k pause s2)"

definition wait_fuel :: "int \<Rightarrow> nat" where
  "wait_fuel timeout = nat (timeout div poll_interval) + 2"

definition idem_WaitForCompletion :: "('z idem_db_scheme \<Rightarrow> goerror option \<times> 'z idem_db_scheme) \<Rightarrow>
    string \<Rightarrow> int \<Rightarrow> 'z idem_db_scheme \<Rightarrow> (string \<times> bool) res \<times> 'z idem_db_scheme" where
  "idem_WaitForCompletion pause k timeout s = wait_loop (wait_fuel timeout) (now s + timeout) k pause s"

section \<open>Lemmas\<close>

lemma idem_key_inj [simp]: "idem_key a = idem_key b \<longleftrightarrow> a = b"
  by (simp add: idem_key_def)

lemma idem_env: "env_only s s' \<Longrightarrow> idem_kv s' = idem_kv s \<and> now s' = now s"
  by (auto elim!: env_onlyE)

lemma live_env: "env_only s s' \<Longrightarrow> live s' = live s"
proof (rule ext)
  fix k assume "env_only s s'"
  then have "idem_kv s' = idem_kv s" "now s' = now s" using idem_env by auto
  then show "live s' k = live s k" by (simp add: live_def split: option.split prod.split)
qed

lemma DefaultTTL_pos [simp]: "0 < DefaultTTL"
  by (simp add: DefaultTTL_def)

lemma redis_getkey_effect:
  assumes "redis_getkey k s = (r, s')"
  shows "env_only s s' \<and> (\<forall>v. r = Inr v \<longrightarrow> live s k = Some v)"
  using assms unfolding redis_getkey_def
  by (cases rule: pool_call_cases) (auto simp: live_env split: option.splits)

lemma now_idem_kv [simp]: "now (s\<lparr>idem_kv := m\<rparr>) = now s"
  by (cases s) simp

lemma live_set: "0 < ttl \<Longrightarrow> live (s\<lparr>idem_kv := (idem_kv s)(k \<mapsto> (v, now s + ttl))\<rparr>) = (live s)(k \<mapsto> v)"
  by (rule ext) (simp add: live_def split: option.split prod.split)

lemma redis_setnx_effect:
  assumes "redis_setnx k v ttl s = (r, s')" and "0 < ttl"
  shows "(\<exists>e. r = Inl e \<and> env_only s s') \<or>
    (r = Inr () \<and> live s k = None \<and> live s' = (live s)(k \<mapsto> v) \<and> now s' = now s)"
  using assms(1) unfolding redis_setnx_def
proof (cases rule: pool_call_cases)
  case (run s0)
  show ?thesis
  proof (cases "live s0 k")
    case None
    with run(3) have "r = Inr ()" "s' = s0\<lparr>idem_kv := (idem_kv s0)(k \<mapsto> (v, now s0 + ttl))\<rparr>" by auto
    then have "live s' = (live s0)(k \<mapsto> v)" "now s' = now s0" using live_set [OF assms(2)] by auto
    with None \<open>r = Inr ()\<close> live_env [OF run(1)] idem_env [OF run(1)] show ?thesis by simp
  qed (use run in auto)
qed auto

text \<open>The contract of \<open>Begin\<close>: the caller owns a key that nobody held and nobody completed, or learns the
  completed value, or that somebody works on it; an error changes nothing.\<close>

lemma idem_Begin_effect:
  assumes "idem_Begin k s = (r, s')"
  obtains (owner) "r = Inr (True, [])" "live s (idem_key k) = None" "live s' = (live s)(idem_key k \<mapsto> StatusProcessing)"
        | (other) v where "r = Inr (False, if v = StatusProcessing then [] else v)" "live s (idem_key k) = Some v" "live s' = live s"
        | (error) e where "r = Inl e" "live s' = live s"
proof -
  obtain r1 s1 where a1: "redis_setnx (idem_key k) StatusProcessing DefaultTTL s = (r1, s1)" by fastforce
  show thesis
  proof (cases r1)
    case (Inr u)
    with redis_setnx_effect [OF a1] assms a1 show thesis by (intro owner) (auto simp: idem_Begin_def)
  next
    case (Inl e1)
    then have e1: "env_only s s1" using redis_setnx_effect [OF a1] by auto
    obtain got s2 where g: "redis_getkey (idem_key k) s1 = (got, s2)" by fastforce
    from redis_getkey_effect [OF g] have e2: "env_only s s2" "\<And>v. got = Inr v \<Longrightarrow> live s (idem_key k) = Some v"
      using e1 live_env [OF e1] env_only_trans by auto
    show thesis
    proof (cases "got = Inl RedisNil")
      case False
      with assms a1 Inl g have "r = begin_result got" "s' = s2" by (auto simp: idem_Begin_def)
      then show thesis using other error e2 live_env [OF e2(1)]
        by (cases got) (auto simp: begin_result_def)
    next
      case True
      obtain r3 s3 where a3: "redis_setnx (idem_key k) StatusProcessing DefaultTTL s2 = (r3, s3)" by fastforce
      show thesis
      proof (cases r3)
        case r3: (Inr u)
        with assms a1 Inl g True a3 redis_setnx_effect [OF a3] live_env [OF e2(1)] show thesis
          by (intro owner) (auto simp: idem_Begin_def)
      next
        case r3: (Inl e3)
        then have e3: "env_only s s3" using redis_setnx_effect [OF a3] e2(1) env_only_trans by auto
        obtain got2 s4 where g2: "redis_getkey (idem_key k) s3 = (got2, s4)" by fastforce
        from redis_getkey_effect [OF g2] have e4: "env_only s s4" "\<And>v. got2 = Inr v \<Longrightarrow> live s (idem_key k) = Some v"
          using e3 live_env [OF e3] env_only_trans by auto
        have "r = begin_result got2" "s' = s4" using assms a1 Inl g True a3 r3 g2 by (auto simp: idem_Begin_def)
        then show thesis using other error e4 live_env [OF e4(1)]
          by (cases got2) (auto simp: begin_result_def)
      qed
    qed
  qed
qed


lemma poll_interval_pos [simp]: "0 < poll_interval"
  by (simp add: poll_interval_def)

lemma wait_loop_enough:
  assumes "\<And>s. now s + poll_interval \<le> now (snd (pause s))"
    and "deadline - now s < int n * poll_interval" and "n \<le> m"
  shows "wait_loop m deadline k pause s = wait_loop n deadline k pause s"
  using assms(2,3)
proof (induction n arbitrary: s m)
  case 0
  then have "\<not> now s < deadline" by simp
  then show ?case by (cases m) auto
next
  case (Suc n)
  obtain m' where m: "m = Suc m'" using Suc.prems(2) by (cases m) auto
  obtain r1 s1 where g: "redis_getkey (idem_key k) s = (r1, s1)" by fastforce
  have n1: "now s1 = now s" using redis_getkey_effect [OF g] idem_env by auto
  obtain r2 s2 where p: "pause s1 = (r2, s2)" by fastforce
  have "now s + poll_interval \<le> now s2" using assms(1) [of s1] p n1 by simp
  then have "deadline - now s2 < int n * poll_interval" using Suc.prems(1) by (simp add: distrib_right)
  then have "wait_loop m' deadline k pause s2 = wait_loop n deadline k pause s2"
    by (rule Suc.IH) (use Suc.prems(2) m in simp)
  note step = this
  show ?case
  proof (cases "now s < deadline \<and> r1 = Inr StatusProcessing \<and> r2 = None")
    case True
    with m g p step show ?thesis by (simp only: wait_loop.simps prod.case sum.case option.case refl if_True not_not simp_thms if_False)
  next
    case False
    with m g p show ?thesis
      by (cases r1; cases r2) (simp_all only: wait_loop.simps prod.case sum.case option.case simp_thms if_True if_False split: if_split, auto)
  qed
qed

definition idem_s0 :: "idem_db" where
  "idem_s0 = \<lparr>now = 0, script = [], aborted = False, uuid_src = of_nat, n_uuid = 1, codec = unary_codec, idem_kv = (\<lambda>_. None)\<rparr>"


text \<open>C23: waiting for a completion returns: with a pause of at least 100 ms the loop ends by its own
  condition, so its bound of polls is never what stops it.\<close>

theorem waiting_ends:
  assumes "\<And>s. now s + poll_interval \<le> now (snd (pause s))" and "0 \<le> timeout" and "wait_fuel timeout \<le> n"
  shows "wait_loop n (now s + timeout) k pause s = idem_WaitForCompletion pause k timeout s"
  unfolding idem_WaitForCompletion_def
proof (rule wait_loop_enough [OF assms(1) _ assms(3)])
  have "timeout mod poll_interval < poll_interval" by simp
  then have "timeout < (timeout div poll_interval + 1) * poll_interval"
    by (metis add.commute add_strict_left_mono distrib_right div_mult_mod_eq mult_1)
  also have "\<dots> \<le> int (wait_fuel timeout) * poll_interval"
    using assms(2) poll_interval_pos
    by (intro mult_right_mono) (auto simp: wait_fuel_def pos_imp_zdiv_nonneg_iff simp del: poll_interval_pos)
  finally show "now s + timeout - now s < int (wait_fuel timeout) * poll_interval" by simp
qed

theorem waiting_ends_witness:
  "wait_loop 9 (now idem_s0 + 200000000) ''k'' (\<lambda>s. (None, s\<lparr>now := now s + poll_interval\<rparr>)) idem_s0 =
   idem_WaitForCompletion (\<lambda>s. (None, s\<lparr>now := now s + poll_interval\<rparr>)) ''k'' 200000000 idem_s0"
  by (rule waiting_ends) (simp_all add: wait_fuel_def poll_interval_def)

end
