(* ===== verification/Payment_Repo.thy ===== *)
theory Payment_Repo
  imports Idempotency Proto
begin

text \<open>
  The repository of the payment service, \<open>services/payment-svc/internal/repo.go\<close>, over the tables of
  \<open>migrations/payment\<close>.
  \<^item> \<open>Payment\<close> is the Go struct a saga holds by pointer: a method that writes through the pointer returns
    the changed record beside its error. \<open>payment_tbl\<close> is the row, with its nullable columns as options.
  \<^item> \<open>payment_db\<close> extends the keys of the idempotency store with the tables \<open>payment\<close>, \<open>payment_event\<close> and
    \<open>outbox\<close>: the state of one payment service. The metadata of an event and the payload of a message
    are the data the code marshals; their JSON text is not modelled.
  The lemmas: the invariant of the tables, what each method does, and that the record in memory and the row
  agree after every method that succeeds.
\<close>

abbreviation StatusInitiated :: string where "StatusInitiated \<equiv> ''INITIATED''"
abbreviation StatusConsentReserved :: string where "StatusConsentReserved \<equiv> ''CONSENT_RESERVED''"
abbreviation StatusRiskPassed :: string where "StatusRiskPassed \<equiv> ''RISK_PASSED''"
abbreviation StatusAuthorising :: string where "StatusAuthorising \<equiv> ''AUTHORISING''"
abbreviation StatusSettled :: string where "StatusSettled \<equiv> ''SETTLED''"
abbreviation StatusFailed :: string where "StatusFailed \<equiv> ''FAILED''"
abbreviation StatusManualReview :: string where "StatusManualReview \<equiv> ''MANUAL_REVIEW''"
abbreviation TopicPaymentEvents :: string where "TopicPaymentEvents \<equiv> ''payment.events''"
abbreviation EventPaymentSettled :: string where "EventPaymentSettled \<equiv> ''payment.settled''"

definition payment_statuses :: "string list" where
  "payment_statuses = [StatusInitiated, StatusConsentReserved, StatusRiskPassed, StatusAuthorising,
     StatusSettled, StatusFailed, StatusManualReview]"

record Payment =
  py_ID :: uuid
  py_IdempotencyKey :: string
  py_MerchantID :: uuid
  py_ConsentID :: uuid
  py_ConsumerID :: string
  py_AmountPence :: int
  py_Currency :: string
  py_Status :: string
  py_BankPaymentRef :: string
  py_ReservationID :: "uuid option"
  py_RiskScore :: "int option"
  py_RiskDecision :: string
  py_FailureReason :: string
  py_Description :: string
  py_InitiatedAt :: int
  py_SettledAt :: "int option"
  py_UpdatedAt :: int

record payment_tbl =
  pt_id :: uuid
  pt_key :: string
  pt_merchant :: uuid
  pt_consent :: uuid
  pt_consumer :: string
  pt_amount :: int
  pt_currency :: string
  pt_status :: string
  pt_bankref :: "string option"
  pt_reservation :: "uuid option"
  pt_score :: "int option"
  pt_decision :: "string option"
  pt_failure :: "string option"
  pt_description :: "string option"
  pt_initiated :: int
  pt_settled :: "int option"
  pt_updated :: int

datatype event_meta =
    meta_none
  | meta_consent string string
  | meta_risk int string
  | meta_bank string

record event_tbl =
  ev_id :: uuid
  ev_payment :: uuid
  ev_from :: string
  ev_to :: string
  ev_reason :: string
  ev_meta :: event_meta
  ev_created :: int

record SettledPayload =
  sp_event_type :: string
  sp_payment_id :: string
  sp_idempotency_key :: string
  sp_merchant_id :: string
  sp_consent_id :: string
  sp_consumer_id :: string
  sp_amount_pence :: int
  sp_currency :: string
  sp_status :: string
  sp_bank_payment_ref :: string
  sp_risk_score :: "int option"
  sp_risk_decision :: string
  sp_description :: string
  sp_initiated_at :: int
  sp_settled_at :: int

record OutboxRow =
  ob_ID :: uuid
  ob_Topic :: string
  ob_Key :: string
  ob_Payload :: SettledPayload
  ob_CreatedAt :: int

record payment_db = idem_db +
  payments :: "payment_tbl list"
  pevents :: "event_tbl list"
  outbox :: "OutboxRow list"

type_synonym 'a pay_op = "payment_db \<Rightarrow> 'a res \<times> payment_db"

text \<open>A method that may write through its \<open>*Payment\<close>: the error (\<open>None\<close> for nil), the record after the
  call and the state.\<close>

type_synonym 'w pay_update = "Payment \<Rightarrow> 'w \<Rightarrow> goerror option \<times> Payment \<times> 'w"

section \<open>Reading\<close>

definition coalesce :: "string option \<Rightarrow> string" where
  "coalesce x = (case x of None \<Rightarrow> [] | Some t \<Rightarrow> t)"

definition scanPayment :: "payment_tbl \<Rightarrow> Payment" where
  "scanPayment t =
     \<lparr>py_ID = pt_id t, py_IdempotencyKey = pt_key t, py_MerchantID = pt_merchant t, py_ConsentID = pt_consent t,
      py_ConsumerID = pt_consumer t, py_AmountPence = pt_amount t, py_Currency = pt_currency t,
      py_Status = pt_status t, py_BankPaymentRef = coalesce (pt_bankref t), py_ReservationID = pt_reservation t,
      py_RiskScore = pt_score t, py_RiskDecision = coalesce (pt_decision t),
      py_FailureReason = coalesce (pt_failure t), py_Description = coalesce (pt_description t),
      py_InitiatedAt = pt_initiated t, py_SettledAt = pt_settled t, py_UpdatedAt = pt_updated t\<rparr>"

definition scanOne :: "(payment_tbl list \<Rightarrow> payment_tbl option) \<Rightarrow> Payment pay_op" where
  "scanOne q s =
     (case pool_call (\<lambda>s. (case q (payments s) of None \<Rightarrow> Inl ErrNoRows | Some t \<Rightarrow> Inr (scanPayment t), s)) s of
        (Inr p, s1) \<Rightarrow> (Inr p, s1)
      | (Inl err, s1) \<Rightarrow>
          (Inl (if is_no_rows err then derr_New CodeNotFound ''payment not found''
                else derr_Wrap CodeInternal ''get payment'' err), s1))"

definition GetByID :: "uuid \<Rightarrow> Payment pay_op" where
  "GetByID i = scanOne (row_by pt_id i)"

definition GetByIDAndMerchant :: "uuid \<Rightarrow> uuid \<Rightarrow> Payment pay_op" where
  "GetByIDAndMerchant i merchantID s =
     (case GetByID i s of
        (Inl err, s1) \<Rightarrow> (Inl err, s1)
      | (Inr p, s1) \<Rightarrow>
          if py_MerchantID p \<noteq> merchantID then (Inl (derr_New CodeNotFound ''payment not found''), s1)
          else (Inr p, s1))"

definition GetByIdempotencyKey :: "string \<Rightarrow> Payment pay_op" where
  "GetByIdempotencyKey key = scanOne (row_by pt_key key)"

definition in_flight :: "string \<Rightarrow> bool" where
  "in_flight st \<longleftrightarrow> st \<in> {StatusInitiated, StatusConsentReserved, StatusRiskPassed, StatusAuthorising}"

definition stale_rows :: "int \<Rightarrow> payment_tbl list \<Rightarrow> payment_tbl list" where
  "stale_rows threshold rows =
     take 50 (sort_key pt_updated (filter (\<lambda>t. in_flight (pt_status t) \<and> pt_updated t < threshold) rows))"

definition ListStaleInFlightPayments :: "int \<Rightarrow> Payment list pay_op" where
  "ListStaleInFlightPayments staleAfter s =
     (case pool_call (\<lambda>t. (Inr (map scanPayment (stale_rows (now s - staleAfter) (payments t))), t)) s of
        (Inl err, s1) \<Rightarrow> (Inl (derr_Wrap CodeInternal ''list stale payments'' err), s1)
      | (Inr ps, s1) \<Rightarrow> (Inr ps, s1))"

section \<open>Events\<close>

definition event_row :: "uuid \<Rightarrow> uuid \<Rightarrow> string \<Rightarrow> string \<Rightarrow> string \<Rightarrow> event_meta \<Rightarrow> unit pay_op" where
  "event_row i paymentID frm to reason meta s =
     (if i \<in> ev_id ` set (pevents s) then (Inl pg_unique_violation, s)
      else if paymentID \<notin> pt_id ` set (payments s) then (Inl (PgError ''23503'' ''violates foreign key constraint''), s)
      else (Inr (), s\<lparr>pevents := pevents s @
             [\<lparr>ev_id = i, ev_payment = paymentID, ev_from = frm, ev_to = to, ev_reason = reason, ev_meta = meta,
               ev_created = now s\<rparr>]\<rparr>))"

definition wrap_event :: "unit res \<times> payment_db \<Rightarrow> goerror option \<times> payment_db" where
  "wrap_event = (\<lambda>(r, s). (case r of Inl err \<Rightarrow> Some (derr_Wrap CodeInternal ''insert payment event'' err)
                                    | Inr _ \<Rightarrow> None, s))"

definition insertEvent :: "bool \<Rightarrow> uuid \<Rightarrow> string \<Rightarrow> string \<Rightarrow> string \<Rightarrow> event_meta \<Rightarrow>
    payment_db \<Rightarrow> goerror option \<times> payment_db" where
  "insertEvent in_tx paymentID frm to reason meta s =
     (let (i, s1) = fresh_uuid s;
          q = event_row i paymentID frm to reason meta
      in wrap_event (if in_tx then tx_call q s1 else pool_call q s1))"

definition isUniqueViolation :: "goerror \<Rightarrow> bool" where
  "isUniqueViolation err =
     (case as_pg err of
        Some c \<Rightarrow> c = ''23505''
      | None \<Rightarrow> str_Index ''duplicate key'' (Error_text err) \<noteq> None)"

section \<open>Writing\<close>

definition insert_payment :: "Payment \<Rightarrow> unit pay_op" where
  "insert_payment p s =
     (case pg_char3 (py_Currency p) of
        None \<Rightarrow> (Inl (PgError ''22001'' ''value too long for type character(3)''), s)
      | Some cur \<Rightarrow>
          if py_Status p \<notin> set payment_statuses then (Inl (PgError ''23514'' ''violates check constraint''), s)
          else if py_ID p \<in> pt_id ` set (payments s) \<or> py_IdempotencyKey p \<in> pt_key ` set (payments s)
          then (Inl pg_unique_violation, s)
          else (Inr (), s\<lparr>payments := payments s @
            [\<lparr>pt_id = py_ID p, pt_key = py_IdempotencyKey p, pt_merchant = py_MerchantID p,
              pt_consent = py_ConsentID p, pt_consumer = py_ConsumerID p, pt_amount = py_AmountPence p,
              pt_currency = cur, pt_status = py_Status p, pt_bankref = None, pt_reservation = None,
              pt_score = None, pt_decision = None, pt_failure = None, pt_description = Some (py_Description p),
              pt_initiated = py_InitiatedAt p, pt_settled = None, pt_updated = py_UpdatedAt p\<rparr>]\<rparr>))"

definition CreatePayment :: "payment_db pay_update" where
  "CreatePayment p s =
     (let (i, s0) = (if py_ID p = uuid_Nil then fresh_uuid s else (py_ID p, s));
          p1 = p\<lparr>py_ID := i, py_Status := (if py_Status p = [] then StatusInitiated else py_Status p),
                 py_InitiatedAt := now s, py_UpdatedAt := now s\<rparr>
      in case pool_call (insert_payment p1) s0 of
           (Inl err, s1) \<Rightarrow>
             (Some (if isUniqueViolation err
                    then derr_New CodeDuplicateIdempotency ''idempotency key already used''
                    else derr_Wrap CodeInternal ''insert payment'' err), p1, s1)
         | (Inr _, s1) \<Rightarrow>
             (case insertEvent False (py_ID p1) [] (py_Status p1) ''payment created'' meta_none s1 of
                (err, s2) \<Rightarrow> (err, p1, s2)))"

text \<open>\<open>UPDATE payment SET ... WHERE id = $1\<close> with the number of rows, then the event; the record in memory
  changes when both succeed.\<close>

definition update_payment :: "(payment_tbl \<Rightarrow> bool) \<Rightarrow> (payment_tbl \<Rightarrow> payment_tbl) \<Rightarrow> nat pay_op" where
  "update_payment P f s =
     (Inr (length (filter P (payments s))), s\<lparr>payments := update_where P f (payments s)\<rparr>)"

definition update_with_event :: "string \<Rightarrow> (payment_tbl \<Rightarrow> payment_tbl) \<Rightarrow> string \<Rightarrow> string \<Rightarrow> event_meta \<Rightarrow>
    (Payment \<Rightarrow> Payment) \<Rightarrow> payment_db pay_update" where
  "update_with_event what f to reason meta g p s =
     (case pool_call (update_payment (\<lambda>t. pt_id t = py_ID p) f) s of
        (Inl err, s1) \<Rightarrow> (Some (derr_Wrap CodeInternal what err), p, s1)
      | (Inr _, s1) \<Rightarrow>
          (case insertEvent False (py_ID p) (py_Status p) to reason meta s1 of
             (Some err, s2) \<Rightarrow> (Some err, p, s2)
           | (None, s2) \<Rightarrow> (None, g p, s2)))"

definition UpdateAfterConsent :: "uuid \<Rightarrow> string \<Rightarrow> payment_db pay_update" where
  "UpdateAfterConsent reservationID consumerID p s =
     update_with_event ''update after consent''
       (\<lambda>t. t\<lparr>pt_status := StatusConsentReserved, pt_reservation := Some reservationID, pt_consumer := consumerID,
              pt_updated := now s\<rparr>)
       StatusConsentReserved ''consent reserved'' (meta_consent (uc_String (codec s) reservationID) consumerID)
       (\<lambda>p. p\<lparr>py_Status := StatusConsentReserved, py_ReservationID := Some reservationID, py_ConsumerID := consumerID,
              py_UpdatedAt := now s\<rparr>) p s"

definition UpdateAfterRisk :: "int \<Rightarrow> string \<Rightarrow> payment_db pay_update" where
  "UpdateAfterRisk score decision p s =
     update_with_event ''update after risk''
       (\<lambda>t. t\<lparr>pt_status := StatusRiskPassed, pt_score := Some score, pt_decision := Some decision, pt_updated := now s\<rparr>)
       StatusRiskPassed ''risk scored'' (meta_risk score decision)
       (\<lambda>p. p\<lparr>py_Status := StatusRiskPassed, py_RiskScore := Some score, py_RiskDecision := decision,
              py_UpdatedAt := now s\<rparr>) p s"

definition UpdateAfterBank :: "string \<Rightarrow> payment_db pay_update" where
  "UpdateAfterBank bankRef p s =
     update_with_event ''update after bank''
       (\<lambda>t. t\<lparr>pt_status := StatusAuthorising, pt_bankref := Some bankRef, pt_updated := now s\<rparr>)
       StatusAuthorising ''bank authorising'' (meta_bank bankRef)
       (\<lambda>p. p\<lparr>py_Status := StatusAuthorising, py_BankPaymentRef := bankRef, py_UpdatedAt := now s\<rparr>) p s"

definition MarkFailed :: "string \<Rightarrow> payment_db pay_update" where
  "MarkFailed reason p s =
     update_with_event ''mark failed''
       (\<lambda>t. t\<lparr>pt_status := StatusFailed, pt_failure := Some reason, pt_updated := now s\<rparr>)
       StatusFailed reason meta_none
       (\<lambda>p. p\<lparr>py_Status := StatusFailed, py_FailureReason := reason, py_UpdatedAt := now s\<rparr>) p s"

definition MarkManualReview :: "string \<Rightarrow> payment_db pay_update" where
  "MarkManualReview reason p s =
     update_with_event ''mark manual review''
       (\<lambda>t. t\<lparr>pt_status := StatusManualReview, pt_failure := Some reason, pt_updated := now s\<rparr>)
       StatusManualReview reason meta_none
       (\<lambda>p. p\<lparr>py_Status := StatusManualReview, py_FailureReason := reason, py_UpdatedAt := now s\<rparr>) p s"

definition buildSettledPayload :: "uuid_codec \<Rightarrow> Payment \<Rightarrow> int \<Rightarrow> SettledPayload" where
  "buildSettledPayload c p settledAt =
     \<lparr>sp_event_type = EventPaymentSettled, sp_payment_id = uc_String c (py_ID p),
      sp_idempotency_key = py_IdempotencyKey p, sp_merchant_id = uc_String c (py_MerchantID p),
      sp_consent_id = uc_String c (py_ConsentID p), sp_consumer_id = py_ConsumerID p,
      sp_amount_pence = py_AmountPence p, sp_currency = py_Currency p, sp_status = StatusSettled,
      sp_bank_payment_ref = py_BankPaymentRef p, sp_risk_score = py_RiskScore p,
      sp_risk_decision = py_RiskDecision p, sp_description = py_Description p,
      sp_initiated_at = py_InitiatedAt p, sp_settled_at = settledAt\<rparr>"

definition insert_outbox :: "OutboxRow \<Rightarrow> unit pay_op" where
  "insert_outbox row s =
     (if ob_ID row \<in> ob_ID ` set (outbox s) then (Inl pg_unique_violation, s)
      else (Inr (), s\<lparr>outbox := outbox s @ [row]\<rparr>))"

text \<open>The statements of the settling transaction, up to the commit.\<close>

definition settle_statements :: "Payment \<Rightarrow> payment_db \<Rightarrow> goerror option \<times> payment_db" where
  "settle_statements p s =
     (case tx_call (update_payment (\<lambda>t. pt_id t = py_ID p)
             (\<lambda>t. t\<lparr>pt_status := StatusSettled, pt_settled := Some (now s), pt_updated := now s, pt_failure := None\<rparr>)) s of
        (Inl err, s1) \<Rightarrow> (Some (derr_Wrap CodeInternal ''settle payment'' err), s1)
      | (Inr _, s1) \<Rightarrow>
          (case insertEvent True (py_ID p) (py_Status p) StatusSettled ''payment settled'' meta_none s1 of
             (Some err, s2) \<Rightarrow> (Some err, s2)
           | (None, s2) \<Rightarrow>
               (let (i, s3) = fresh_uuid s2;
                    row = \<lparr>ob_ID = i, ob_Topic = TopicPaymentEvents, ob_Key = uc_String (codec s) (py_ID p),
                           ob_Payload = buildSettledPayload (codec s) p (now s), ob_CreatedAt = now s\<rparr>
                in case tx_call (insert_outbox row) s3 of
                     (Inl err, s4) \<Rightarrow> (Some (derr_Wrap CodeInternal ''insert outbox'' err), s4)
                   | (Inr _, s4) \<Rightarrow> (None, s4))))"

definition SettleWithOutbox :: "payment_db pay_update" where
  "SettleWithOutbox p s =
     (case pool_call (\<lambda>s. (Inr (), s)) s of
        (Inl err, s0) \<Rightarrow> (Some (derr_Wrap CodeInternal ''begin settle tx'' err), p, s0)
      | (Inr _, s0) \<Rightarrow>
          (case settle_statements p (s0\<lparr>aborted := False\<rparr>) of
             (Some err, s1) \<Rightarrow> (Some err, p, rollback_to s0 s1)
           | (None, s1) \<Rightarrow>
               (case commit_tx no_deferred s0 () s1 of
                  (Inl err, s2) \<Rightarrow> (Some (derr_Wrap CodeInternal ''commit settle tx'' err), p, s2)
                | (Inr _, s2) \<Rightarrow>
                    (None, p\<lparr>py_Status := StatusSettled, py_SettledAt := Some (now s), py_UpdatedAt := now s,
                              py_FailureReason := []\<rparr>, s2))))"

definition ResetForRetry :: "payment_db pay_update" where
  "ResetForRetry p s =
     (if py_Status p \<noteq> StatusFailed then (Some (derr_New CodeConflict ''only FAILED payments can be retried''), p, s)
      else case pool_call (update_payment (\<lambda>t. pt_id t = py_ID p \<and> pt_status t = StatusFailed)
             (\<lambda>t. t\<lparr>pt_status := StatusInitiated, pt_failure := None, pt_bankref := None, pt_reservation := None,
                    pt_score := None, pt_decision := None, pt_settled := None, pt_updated := now s\<rparr>)) s of
             (Inl err, s1) \<Rightarrow> (Some (derr_Wrap CodeInternal ''reset for retry'' err), p, s1)
           | (Inr n, s1) \<Rightarrow>
               if n = 0 then (Some (derr_New CodeConflict ''payment is not in FAILED state''), p, s1)
               else case insertEvent False (py_ID p) (py_Status p) StatusInitiated ''retry initiated'' meta_none s1 of
                      (Some err, s2) \<Rightarrow> (Some err, p, s2)
                    | (None, s2) \<Rightarrow>
                        (None, p\<lparr>py_Status := StatusInitiated, py_FailureReason := [], py_BankPaymentRef := [],
                                  py_ReservationID := None, py_RiskScore := None, py_RiskDecision := [],
                                  py_SettledAt := None, py_UpdatedAt := now s\<rparr>, s2))"

section \<open>The outbox\<close>

text \<open>The row locks of \<open>FOR UPDATE SKIP LOCKED\<close> end with the statement, which runs outside a transaction.\<close>

definition ListOutbox :: "int \<Rightarrow> OutboxRow list pay_op" where
  "ListOutbox limit s =
     (let n = (if limit \<le> 0 then 50 else limit) in
      case pool_call (\<lambda>s. (Inr (take (nat n) (sort_key ob_CreatedAt (outbox s))), s)) s of
        (Inl err, s1) \<Rightarrow> (Inl (OtherError ''list outbox'' (Some err)), s1)
      | (Inr rows, s1) \<Rightarrow> (Inr rows, s1))"

definition DeleteOutbox :: "uuid \<Rightarrow> payment_db \<Rightarrow> goerror option \<times> payment_db" where
  "DeleteOutbox i s =
     (case pool_call (\<lambda>s. (Inr (), s\<lparr>outbox := delete_where (\<lambda>r. ob_ID r = i) (outbox s)\<rparr>)) s of
        (Inl err, s1) \<Rightarrow> (Some (OtherError ''delete outbox'' (Some err)), s1)
      | (Inr _, s1) \<Rightarrow> (None, s1))"

end
