(* ===== verification/Payment_Saga.thy ===== *)
theory Payment_Saga
  imports Payment_Repo
begin

text \<open>
  The saga of a payment, \<open>services/payment-svc/internal/saga.go\<close>.
  \<^item> The orchestrator reaches everything else through interfaces: the repository, the idempotency store and
    the gRPC clients of the consent, risk, bank and ledger services. Each is a record of functions on a
    state \<open>'w\<close> of the whole world, as the Go interfaces are; theory \<open>Platform\<close> supplies the services'
    own models. \<open>o_NewUUID\<close> is \<open>uuid.New\<close>, \<open>o_codec\<close> the text form of UUIDs.
  \<^item> A method that holds a \<open>*Payment\<close> returns its error, the record and the state. \<open>runSaga\<close> is cut at the
    comments of the source into the steps \<open>saga_step1\<close> to \<open>saga_step5\<close>.
  Log lines, durations and the tracing context are not modelled.
\<close>

section \<open>The interfaces\<close>

record 'w paymentRepo =
  r_CreatePayment :: "'w pay_update"
  r_GetByID :: "uuid \<Rightarrow> 'w \<Rightarrow> Payment res \<times> 'w"
  r_GetByIdempotencyKey :: "string \<Rightarrow> 'w \<Rightarrow> Payment res \<times> 'w"
  r_UpdateAfterConsent :: "uuid \<Rightarrow> string \<Rightarrow> 'w pay_update"
  r_UpdateAfterRisk :: "int \<Rightarrow> string \<Rightarrow> 'w pay_update"
  r_UpdateAfterBank :: "string \<Rightarrow> 'w pay_update"
  r_SettleWithOutbox :: "'w pay_update"
  r_MarkFailed :: "string \<Rightarrow> 'w pay_update"
  r_MarkManualReview :: "string \<Rightarrow> 'w pay_update"
  r_ResetForRetry :: "'w pay_update"

record 'w idem_Store =
  i_Begin :: "string \<Rightarrow> 'w \<Rightarrow> (bool \<times> string) res \<times> 'w"
  i_Complete :: "string \<Rightarrow> string \<Rightarrow> 'w \<Rightarrow> unit res \<times> 'w"
  i_Release :: "string \<Rightarrow> 'w \<Rightarrow> unit res \<times> 'w"
  i_WaitForCompletion :: "string \<Rightarrow> int \<Rightarrow> 'w \<Rightarrow> (string \<times> bool) res \<times> 'w"

record 'w ConsentServiceClient =
  c_ValidateAndReserve :: "ReserveRequest \<Rightarrow> 'w \<Rightarrow> ReserveResponse res \<times> 'w"
  c_ConfirmReservation :: "ConfirmRequest \<Rightarrow> 'w \<Rightarrow> unit res \<times> 'w"
  c_ReleaseReservation :: "ReleaseRequest \<Rightarrow> 'w \<Rightarrow> unit res \<times> 'w"

record 'w RiskServiceClient =
  k_Score :: "ScoreRequest \<Rightarrow> 'w \<Rightarrow> ScoreResponse res \<times> 'w"

record 'w BankAdapterClient =
  b_InitiatePayment :: "InitiateRequest \<Rightarrow> 'w \<Rightarrow> InitiateResponse res \<times> 'w"
  b_GetPaymentStatus :: "StatusRequest \<Rightarrow> 'w \<Rightarrow> StatusResponse res \<times> 'w"
  b_ReversePayment :: "Bank_ReverseRequest \<Rightarrow> 'w \<Rightarrow> Bank_ReverseResponse res \<times> 'w"

record 'w LedgerServiceClient =
  l_PostDoubleEntry :: "PostEntryRequest \<Rightarrow> 'w \<Rightarrow> JournalEntry res \<times> 'w"
  l_ReverseEntry :: "Ledger_ReverseRequest \<Rightarrow> 'w \<Rightarrow> unit res \<times> 'w"

record 'w Orchestrator =
  o_repo :: "'w paymentRepo"
  o_idem :: "'w idem_Store"
  o_consent :: "'w ConsentServiceClient"
  o_risk :: "'w RiskServiceClient"
  o_bank :: "'w BankAdapterClient"
  o_ledger :: "'w LedgerServiceClient"
  o_codec :: uuid_codec
  o_NewUUID :: "'w \<Rightarrow> uuid \<times> 'w"

record InitiateInput =
  in_IdempotencyKey :: string
  in_MerchantID :: string
  in_ConsentID :: string
  in_AmountPence :: int
  in_Currency :: string
  in_Description :: string
  in_SkipIdempotency :: bool
  in_Existing :: "Payment option"

abbreviation platformOwnerRef :: string where "platformOwnerRef \<equiv> ''platform''"

definition idempotencyWait :: int where "idempotencyWait = 5 * 10 ^ 9"
definition minPlatformFeePence :: int where "minPlatformFeePence = 1"
definition platformFeeRateBPS :: int where "platformFeeRateBPS = 100"

section \<open>Helpers\<close>

definition platformFee :: "int \<Rightarrow> int" where
  "platformFee amountPence =
     (let fee = div64 (mul64 amountPence platformFeeRateBPS) 10000;
          fee = (if fee < minPlatformFeePence then minPlatformFeePence else fee)
      in if fee > amountPence then amountPence else fee)"

definition mapDownstreamErr :: "goerror \<Rightarrow> goerror" where
  "mapDownstreamErr err =
     (case as_domain err of
        Some (c, m, e) \<Rightarrow> DomainError c m e
      | None \<Rightarrow>
          (case FromGRPC err of
             DomainError c m _ \<Rightarrow> DomainError c m (Some err)
           | _ \<Rightarrow> derr_Wrap CodeInternal ''downstream error'' err))"

definition validateInitiate :: "InitiateInput \<Rightarrow> goerror option" where
  "validateInitiate inp =
     (if TrimSpace (in_MerchantID inp) = [] then Some (derr_New CodeValidation ''merchant_id is required'')
      else if TrimSpace (in_ConsentID inp) = [] then Some (derr_New CodeValidation ''consent_id is required'')
      else if in_AmountPence inp \<le> 0 then Some (derr_New CodeValidation ''amount must be positive'')
      else if length (ToUpper (TrimSpace (in_Currency inp))) \<noteq> 3
      then Some (derr_New CodeValidation ''currency must be 3-letter ISO code'')
      else None)"

definition payment_money :: "Payment \<Rightarrow> pb_Money" where
  "payment_money p = \<lparr>mo_AmountPence = py_AmountPence p, mo_Currency = py_Currency p\<rparr>"

definition settlement_lines :: "uuid_codec \<Rightarrow> Payment \<Rightarrow> JournalLine list" where
  "settlement_lines c p =
     (let fee = platformFee (py_AmountPence p);
          merchantAmt = sub64 (py_AmountPence p) fee
      in [\<lparr>jln_Id = [], jln_AccountType = CONSUMER_ESCROW, jln_OwnerRef = py_ConsumerID p,
           jln_Direction = Direction_DR, jln_Amount = Some (payment_money p)\<rparr>,
          \<lparr>jln_Id = [], jln_AccountType = MERCHANT_ESCROW, jln_OwnerRef = uc_String c (py_MerchantID p),
           jln_Direction = Direction_CR,
           jln_Amount = Some \<lparr>mo_AmountPence = merchantAmt, mo_Currency = py_Currency p\<rparr>\<rparr>,
          \<lparr>jln_Id = [], jln_AccountType = PLATFORM_FEE, jln_OwnerRef = platformOwnerRef,
           jln_Direction = Direction_CR,
           jln_Amount = Some \<lparr>mo_AmountPence = fee, mo_Currency = py_Currency p\<rparr>\<rparr>])"

section \<open>Compensation\<close>

definition compensate :: "'w Orchestrator \<Rightarrow> Payment \<Rightarrow> string \<Rightarrow> bool \<Rightarrow> bool \<Rightarrow> 'w \<Rightarrow> goerror option \<times> 'w" where
  "compensate orc p reason releaseConsent reverseBank w =
     (let (errs1, w1) =
            (if reverseBank \<and> py_BankPaymentRef p \<noteq> [] then
               (case b_ReversePayment (o_bank orc)
                       \<lparr>brr_BankPaymentRef = py_BankPaymentRef p, brr_Reason = reason\<rparr> w of
                  (Inl err, w1) \<Rightarrow> ([''bank: '' @ Error_text err], w1)
                | (Inr _, w1) \<Rightarrow> ([], w1))
             else ([], w));
          (errs2, w2) =
            (case py_ReservationID p of
               Some rid \<Rightarrow>
                 if releaseConsent then
                   (case c_ReleaseReservation (o_consent orc)
                           \<lparr>rlr_ReservationId = uc_String (o_codec orc) rid, rlr_Reason = reason\<rparr> w1 of
                      (Inl err, w2) \<Rightarrow> (errs1 @ [''consent: '' @ Error_text err], w2)
                    | (Inr _, w2) \<Rightarrow> (errs1, w2))
                 else (errs1, w1)
             | None \<Rightarrow> (errs1, w1))
      in (if errs2 \<noteq> [] then Some (OtherError (str_Join ''; '' errs2) None) else None, w2))"

definition compensateFull :: "'w Orchestrator \<Rightarrow> Payment \<Rightarrow> string \<Rightarrow> 'w \<Rightarrow> goerror option \<times> 'w" where
  "compensateFull orc p reason w =
     (let (errs1, w1) =
            (case l_ReverseEntry (o_ledger orc)
                    \<lparr>lrr_PaymentId = uc_String (o_codec orc) (py_ID p), lrr_Reason = reason\<rparr> w of
               (Inl err, w1) \<Rightarrow> ([''ledger: '' @ Error_text err], w1)
             | (Inr _, w1) \<Rightarrow> ([], w1));
          (cerr, w2) = compensate orc p reason True True w1;
          errs2 = (case cerr of Some err \<Rightarrow> errs1 @ [Error_text err] | None \<Rightarrow> errs1)
      in (if errs2 \<noteq> [] then Some (OtherError (str_Join ''; '' errs2) None) else None, w2))"

definition failAndCompensate :: "'w Orchestrator \<Rightarrow> string \<Rightarrow> bool \<Rightarrow> bool \<Rightarrow> goerror option \<Rightarrow> 'w pay_update" where
  "failAndCompensate orc reason releaseConsent reverseBank retErr p w =
     (case compensate orc p reason releaseConsent reverseBank w of
        (Some err, w1) \<Rightarrow>
          (case r_MarkManualReview (o_repo orc) (reason @ ''; compensate failed: '' @ Error_text err) p w1 of
             (_, p1, w2) \<Rightarrow>
               (Some (case retErr of Some e \<Rightarrow> e | None \<Rightarrow> derr_New CodeInternal ''compensation failed''), p1, w2))
      | (None, w1) \<Rightarrow>
          (case r_MarkFailed (o_repo orc) reason p w1 of
             (_, p1, w2) \<Rightarrow> (Some (case retErr of Some e \<Rightarrow> e | None \<Rightarrow> derr_New CodeInternal reason), p1, w2)))"

section \<open>The steps of the saga\<close>

text \<open>Step 6, confirm the reservation: an error is only logged.\<close>

definition confirm_step :: "'w Orchestrator \<Rightarrow> Payment \<Rightarrow> 'w \<Rightarrow> 'w" where
  "confirm_step orc p w =
     (case py_ReservationID p of
        None \<Rightarrow> w
      | Some rid \<Rightarrow>
          snd (c_ConfirmReservation (o_consent orc)
                 \<lparr>cfr_ReservationId = uc_String (o_codec orc) rid, cfr_PaymentId = uc_String (o_codec orc) (py_ID p)\<rparr> w))"

text \<open>The branch of step 5 where settling failed: funds moved and the ledger is posted.\<close>

definition settle_failed :: "'w Orchestrator \<Rightarrow> string \<Rightarrow> goerror \<Rightarrow> 'w pay_update" where
  "settle_failed orc what err p w =
     (case compensateFull orc p what w of
        (Some cerr, w1) \<Rightarrow>
          (case r_MarkManualReview (o_repo orc) (what @ ''; compensate failed: '' @ Error_text cerr) p w1 of
             (_, p1, w2) \<Rightarrow> (Some (derr_Wrap CodeInternal ''settle and compensate failed'' err), p1, w2))
      | (None, w1) \<Rightarrow>
          (case r_MarkFailed (o_repo orc) (''SETTLE_FAILED: '' @ Error_text err) p w1 of
             (_, p1, w2) \<Rightarrow> (Some err, p1, w2)))"

definition saga_step5 :: "'w Orchestrator \<Rightarrow> 'w pay_update" where
  "saga_step5 orc p w =
     (case r_SettleWithOutbox (o_repo orc) p w of
        (Some err, p1, w1) \<Rightarrow> settle_failed orc ''settle failed'' err p1 w1
      | (None, p1, w1) \<Rightarrow> (None, p1, confirm_step orc p1 w1))"

definition saga_step4 :: "'w Orchestrator \<Rightarrow> 'w pay_update" where
  "saga_step4 orc p w =
     (case l_PostDoubleEntry (o_ledger orc)
             \<lparr>per_PaymentId = uc_String (o_codec orc) (py_ID p),
              per_Description = ''VRP settlement '' @ uc_String (o_codec orc) (py_ID p),
              per_Lines = settlement_lines (o_codec orc) p\<rparr> w of
        (Inl err, w1) \<Rightarrow>
          failAndCompensate orc (''LEDGER_ERROR: '' @ Error_text err) True True (Some (mapDownstreamErr err)) p w1
      | (Inr _, w1) \<Rightarrow> saga_step5 orc p w1)"

definition saga_step3 :: "'w Orchestrator \<Rightarrow> string \<Rightarrow> 'w pay_update" where
  "saga_step3 orc bankConsentRef p w =
     (case b_InitiatePayment (o_bank orc)
             \<lparr>irq_PaymentId = uc_String (o_codec orc) (py_ID p), irq_BankConsentRef = bankConsentRef,
              irq_ConsumerId = py_ConsumerID p, irq_Amount = Some (payment_money p),
              irq_Description = py_Description p\<rparr> w of
        (Inl err, w1) \<Rightarrow>
          failAndCompensate orc (''BANK_ERROR: '' @ Error_text err) True False (Some (mapDownstreamErr err)) p w1
      | (Inr resp, w1) \<Rightarrow>
          if irs_Status resp = Bank_REJECTED then
            (let reason = (if irs_FailureReason resp = [] then ''bank rejected payment'' else irs_FailureReason resp)
             in failAndCompensate orc (''BANK_REJECTED: '' @ reason) True False
                  (Some (derr_New CodeBankRejected reason)) p w1)
          else
            (case r_UpdateAfterBank (o_repo orc) (irs_BankPaymentRef resp) p w1 of
               (Some err, p1, w2) \<Rightarrow> failAndCompensate orc ''persist bank failed'' True True (Some err) p1 w2
             | (None, p1, w2) \<Rightarrow> saga_step4 orc p1 w2))"

definition saga_step2 :: "'w Orchestrator \<Rightarrow> string \<Rightarrow> 'w pay_update" where
  "saga_step2 orc bankConsentRef p w =
     (case k_Score (o_risk orc)
             \<lparr>srq_MerchantId = uc_String (o_codec orc) (py_MerchantID p), srq_ConsumerId = py_ConsumerID p,
              srq_ConsentId = uc_String (o_codec orc) (py_ConsentID p),
              srq_PaymentId = uc_String (o_codec orc) (py_ID p), srq_Amount = Some (payment_money p),
              srq_IpAddress = [], srq_UserAgent = []\<rparr> w of
        (Inl err, w1) \<Rightarrow>
          failAndCompensate orc (''RISK_ERROR: '' @ Error_text err) True False (Some (mapDownstreamErr err)) p w1
      | (Inr resp, w1) \<Rightarrow>
          if srs_Decision resp = Risk_DECLINE then
            failAndCompensate orc (''RISK_DECLINED: '' @ srs_Reason resp) True False
              (Some (derr_New CodeRiskDeclined (srs_Reason resp)))
              (p\<lparr>py_RiskScore := Some (srs_Score resp), py_RiskDecision := RiskDecision_String (srs_Decision resp)\<rparr>) w1
          else
            (case r_UpdateAfterRisk (o_repo orc) (srs_Score resp) (RiskDecision_String (srs_Decision resp)) p w1 of
               (Some err, p1, w2) \<Rightarrow> failAndCompensate orc ''persist risk failed'' True False (Some err) p1 w2
             | (None, p1, w2) \<Rightarrow> saga_step3 orc bankConsentRef p1 w2))"

text \<open>The branch of step 1 where the consent service refused.\<close>

definition consent_refused :: "'w Orchestrator \<Rightarrow> goerror \<Rightarrow> 'w pay_update" where
  "consent_refused orc err p w =
     (case as_domain (mapDownstreamErr err) of
        Some (code, msg, _) \<Rightarrow>
          (case r_MarkFailed (o_repo orc) (code @ '': '' @ msg) p w of
             (_, p1, w1) \<Rightarrow> (Some (mapDownstreamErr err), p1, w1))
      | None \<Rightarrow>
          (case r_MarkFailed (o_repo orc) (''CONSENT_REJECTED: '' @ Error_text err) p w of
             (_, p1, w1) \<Rightarrow> (Some (mapDownstreamErr err), p1, w1)))"

definition runSaga :: "'w Orchestrator \<Rightarrow> 'w pay_update" where
  "runSaga orc p w =
     (case c_ValidateAndReserve (o_consent orc)
             \<lparr>rrq_ConsentId = uc_String (o_codec orc) (py_ConsentID p),
              rrq_PaymentId = uc_String (o_codec orc) (py_ID p), rrq_Amount = Some (payment_money p)\<rparr> w of
        (Inl err, w1) \<Rightarrow> consent_refused orc err p w1
      | (Inr reserve, w1) \<Rightarrow>
          (case uc_Parse (o_codec orc) (rrs_ReservationId reserve) of
             None \<Rightarrow>
               (case r_MarkFailed (o_repo orc) ''invalid reservation_id from consent'' p w1 of
                  (_, p1, w2) \<Rightarrow>
                    (Some (derr_Wrap CodeInternal ''parse reservation_id'' (OtherError ''invalid UUID'' None)), p1, w2))
           | Some resID \<Rightarrow>
               (case r_UpdateAfterConsent (o_repo orc) resID (rrs_ConsumerId reserve) p w1 of
                  (Some err, p1, w2) \<Rightarrow>
                    (let p2 = p1\<lparr>py_ReservationID := Some resID\<rparr> in
                     case compensate orc p2 ''persist consent failed'' True False w2 of
                       (Some cerr, w3) \<Rightarrow>
                         (case r_MarkManualReview (o_repo orc)
                                 (''persist consent failed; compensate failed: '' @ Error_text cerr) p2 w3 of
                            (_, p3, w4) \<Rightarrow> (Some err, p3, w4))
                     | (None, w3) \<Rightarrow>
                         (case r_MarkFailed (o_repo orc) ''persist consent failed'' p2 w3 of
                            (_, p3, w4) \<Rightarrow> (Some err, p3, w4)))
                | (None, p1, w2) \<Rightarrow> saga_step2 orc (rrs_BankConsentRef reserve) p1 w2)))"

section \<open>Resuming and cancelling a stale saga\<close>

definition ResumeFromLedger :: "'w Orchestrator \<Rightarrow> 'w pay_update" where
  "ResumeFromLedger orc p w =
     (case l_PostDoubleEntry (o_ledger orc)
             \<lparr>per_PaymentId = uc_String (o_codec orc) (py_ID p),
              per_Description = ''VRP settlement '' @ uc_String (o_codec orc) (py_ID p) @ '' (reconciled)'',
              per_Lines = settlement_lines (o_codec orc) p\<rparr> w of
        (Inl err, w1) \<Rightarrow>
          failAndCompensate orc (''RECONCILIATION_LEDGER_ERROR: '' @ Error_text err) True True
            (Some (mapDownstreamErr err)) p w1
      | (Inr _, w1) \<Rightarrow>
          (case r_SettleWithOutbox (o_repo orc) p w1 of
             (Some err, p1, w2) \<Rightarrow> settle_failed orc ''reconciled settle failed'' err p1 w2
           | (None, p1, w2) \<Rightarrow>
               (None, p1,
                snd (i_Complete (o_idem orc) (py_IdempotencyKey p1) (uc_String (o_codec orc) (py_ID p1))
                       (confirm_step orc p1 w2)))))"

definition CompensateStale :: "'w Orchestrator \<Rightarrow> string \<Rightarrow> 'w pay_update" where
  "CompensateStale orc reason p w =
     failAndCompensate orc reason (py_ReservationID p \<noteq> None) (py_BankPaymentRef p \<noteq> []) None p w"

section \<open>Initiate\<close>

text \<open>The Go method returns a payment and an error, either of which may be nil.\<close>

definition ret_res :: "Payment res \<times> 'w \<Rightarrow> Payment option \<times> goerror option \<times> 'w" where
  "ret_res = (\<lambda>(r, w). case r of Inl err \<Rightarrow> (None, Some err, w) | Inr p \<Rightarrow> (Some p, None, w))"

definition initiate_retry :: "'w Orchestrator \<Rightarrow> Payment option \<Rightarrow> 'w \<Rightarrow> Payment option \<times> goerror option \<times> 'w" where
  "initiate_retry orc existing w =
     (case existing of
        None \<Rightarrow> (None, Some (derr_New CodeInternal ''retry requires existing payment''), w)
      | Some p \<Rightarrow>
          (case r_ResetForRetry (o_repo orc) p w of
             (Some err, _, w1) \<Rightarrow> (None, Some err, w1)
           | (None, p1, w1) \<Rightarrow>
               (case runSaga orc p1 w1 of
                  (Some err, p2, w2) \<Rightarrow>
                    (case r_GetByID (o_repo orc) (py_ID p2) w2 of
                       (Inr fresh, w3) \<Rightarrow> (Some fresh, Some err, w3)
                     | (Inl _, w3) \<Rightarrow> (Some p2, Some err, w3))
                | (None, p2, w2) \<Rightarrow> ret_res (r_GetByID (o_repo orc) (py_ID p2) w2))))"

text \<open>The caller does not own the key: the work is completed, or another caller is at it.\<close>

definition initiate_other :: "'w Orchestrator \<Rightarrow> string \<Rightarrow> string \<Rightarrow> 'w \<Rightarrow> Payment option \<times> goerror option \<times> 'w" where
  "initiate_other orc key completed w =
     (if completed \<noteq> [] then
        (case uc_Parse (o_codec orc) completed of
           None \<Rightarrow> ret_res (r_GetByIdempotencyKey (o_repo orc) key w)
         | Some i \<Rightarrow> ret_res (r_GetByID (o_repo orc) i w))
      else
        (case i_WaitForCompletion (o_idem orc) key idempotencyWait w of
           (Inl werr, w1) \<Rightarrow> (None, Some (derr_Wrap CodeInternal ''idempotency wait'' werr), w1)
         | (Inr (val, done), w1) \<Rightarrow>
             (case (if done \<and> val \<noteq> [] then uc_Parse (o_codec orc) val else None) of
                Some i \<Rightarrow> ret_res (r_GetByID (o_repo orc) i w1)
              | None \<Rightarrow>
                  (case r_GetByIdempotencyKey (o_repo orc) key w1 of
                     (Inr p, w2) \<Rightarrow> (Some p, None, w2)
                   | (Inl _, w2) \<Rightarrow> (None, Some (derr_New CodeConflict ''payment still processing''), w2)))))"

text \<open>The caller owns the key: create the row and run the saga.\<close>

definition initiate_owner :: "'w Orchestrator \<Rightarrow> InitiateInput \<Rightarrow> 'w \<Rightarrow> Payment option \<times> goerror option \<times> 'w" where
  "initiate_owner orc inp w =
     (let key = in_IdempotencyKey inp; release = (\<lambda>w. snd (i_Release (o_idem orc) key w)) in
      case uc_Parse (o_codec orc) (in_MerchantID inp) of
        None \<Rightarrow> (None, Some (derr_New CodeValidation ''invalid merchant_id''), release w)
      | Some merchantID \<Rightarrow>
      (case uc_Parse (o_codec orc) (in_ConsentID inp) of
        None \<Rightarrow> (None, Some (derr_New CodeValidation ''invalid consent_id''), release w)
      | Some consentID \<Rightarrow>
        (let (i, w0) = o_NewUUID orc w;
             p = \<lparr>py_ID = i, py_IdempotencyKey = key, py_MerchantID = merchantID, py_ConsentID = consentID,
                  py_ConsumerID = [], py_AmountPence = in_AmountPence inp,
                  py_Currency = ToUpper (TrimSpace (in_Currency inp)), py_Status = StatusInitiated,
                  py_BankPaymentRef = [], py_ReservationID = None, py_RiskScore = None, py_RiskDecision = [],
                  py_FailureReason = [], py_Description = in_Description inp, py_InitiatedAt = zero_time,
                  py_SettledAt = None, py_UpdatedAt = zero_time\<rparr>
         in case r_CreatePayment (o_repo orc) p w0 of
              (Some err, _, w1) \<Rightarrow>
                (let w2 = release w1 in
                 if derr_Is err CodeDuplicateIdempotency then
                   (case r_GetByIdempotencyKey (o_repo orc) key w2 of
                      (Inr existing, w3) \<Rightarrow>
                        (Some existing, None,
                         snd (i_Complete (o_idem orc) key (uc_String (o_codec orc) (py_ID existing)) w3))
                    | (Inl _, w3) \<Rightarrow> (None, Some err, w3))
                 else (None, Some err, w2))
            | (None, p1, w1) \<Rightarrow>
                (case runSaga orc p1 w1 of
                   (sagaErr, p2, w2) \<Rightarrow>
                     (let w3 = snd (i_Complete (o_idem orc) key (uc_String (o_codec orc) (py_ID p2)) w2) in
                      case r_GetByID (o_repo orc) (py_ID p2) w3 of
                        (Inl gerr, w4) \<Rightarrow>
                          (Some p2, (case sagaErr of Some e \<Rightarrow> Some e | None \<Rightarrow> Some gerr), w4)
                      | (Inr fresh, w4) \<Rightarrow> (Some fresh, sagaErr, w4))))))"

definition Initiate :: "'w Orchestrator \<Rightarrow> InitiateInput \<Rightarrow> 'w \<Rightarrow> Payment option \<times> goerror option \<times> 'w" where
  "Initiate orc inp w =
     (if in_SkipIdempotency inp then initiate_retry orc (in_Existing inp) w
      else if TrimSpace (in_IdempotencyKey inp) = []
      then (None, Some (derr_New CodeValidation ''idempotency_key is required''), w)
      else case validateInitiate inp of
             Some err \<Rightarrow> (None, Some err, w)
           | None \<Rightarrow>
               (case i_Begin (o_idem orc) (in_IdempotencyKey inp) w of
                  (Inl err, w1) \<Rightarrow> (None, Some (derr_Wrap CodeInternal ''idempotency begin'' err), w1)
                | (Inr (ok, completed), w1) \<Rightarrow>
                    if \<not> ok then initiate_other orc (in_IdempotencyKey inp) completed w1
                    else initiate_owner orc inp w1))"

end
