(* ===== verification/Payment_Handler.thy ===== *)
theory Payment_Handler
  imports Payment_Saga
begin

text \<open>
  What drives the saga: the gRPC handler (\<open>handler.go\<close>), the reconciliation worker
  (\<open>reconciliation.go\<close>) and the outbox relay (\<open>outbox.go\<close>) of \<open>services/payment-svc/internal\<close>.
  \<^item> The handler and the worker use the orchestrator's world \<open>'w\<close>. One tick of the worker is
    \<open>reconcileStalePayments\<close>; the loop on its ticker is in \<open>Workers\<close>.
  \<^item> The relay uses the payment service's own state and a Kafka writer, which is not part of the
    repository: \<open>write\<close> sends one message on the broker's state \<open>'k\<close> and returns its error.
\<close>

section \<open>Messages\<close>

definition isTerminalPayment :: "Payment \<Rightarrow> bool" where
  "isTerminalPayment p \<longleftrightarrow> py_Status p \<in> {StatusFailed, StatusSettled, StatusManualReview}"

definition statusToProto :: "string \<Rightarrow> PaymentStatus" where
  "statusToProto s = (case PaymentStatus_value s of Some v \<Rightarrow> v | None \<Rightarrow> PAYMENT_STATUS_UNSPECIFIED)"

definition toProto :: "uuid_codec \<Rightarrow> Payment \<Rightarrow> pb_Payment" where
  "toProto c p =
     \<lparr>pp_Id = uc_String c (py_ID p), pp_IdempotencyKey = py_IdempotencyKey p,
      pp_MerchantId = uc_String c (py_MerchantID p), pp_ConsentId = uc_String c (py_ConsentID p),
      pp_ConsumerId = py_ConsumerID p,
      pp_Amount = \<lparr>mo_AmountPence = py_AmountPence p, mo_Currency = py_Currency p\<rparr>,
      pp_Status = statusToProto (py_Status p), pp_BankPaymentRef = py_BankPaymentRef p,
      pp_RiskScore = (case py_RiskScore p of Some n \<Rightarrow> n | None \<Rightarrow> 0), pp_RiskDecision = py_RiskDecision p,
      pp_FailureReason = py_FailureReason p, pp_Description = py_Description p,
      pp_InitiatedAt = py_InitiatedAt p, pp_SettledAt = py_SettledAt p, pp_UpdatedAt = py_UpdatedAt p\<rparr>"

section \<open>The handler\<close>

record 'w Handler =
  h_orch :: "'w Orchestrator"
  h_GetByID :: "uuid \<Rightarrow> 'w \<Rightarrow> Payment res \<times> 'w"
  h_GetByIDAndMerchant :: "uuid \<Rightarrow> uuid \<Rightarrow> 'w \<Rightarrow> Payment res \<times> 'w"

definition grpc_err :: "string \<Rightarrow> string \<Rightarrow> 'a res" where
  "grpc_err code msg = Inl (ToGRPC (derr_New code msg))"

text \<open>A payment in a terminal state is returned even when the saga failed. \<open>Initiate\<close> never returns neither
  payment nor error; the last branch stands for gRPC's refusal of a nil reply.\<close>

definition saga_reply :: "uuid_codec \<Rightarrow> Payment option \<times> goerror option \<times> 'w \<Rightarrow> pb_Payment res \<times> 'w" where
  "saga_reply c = (\<lambda>(p, err, w).
     (case p of
        Some q \<Rightarrow>
          (case err of
             Some e \<Rightarrow> if isTerminalPayment q then Inr (toProto c q) else Inl (ToGRPC e)
           | None \<Rightarrow> Inr (toProto c q))
      | None \<Rightarrow> (case err of Some e \<Rightarrow> Inl (ToGRPC e) | None \<Rightarrow> Inl (StatusError codes_Internal [] [])), w))"

definition rpc_InitiatePayment :: "'w Handler \<Rightarrow> InitiatePaymentRequest option \<Rightarrow> 'w \<Rightarrow> pb_Payment res \<times> 'w" where
  "rpc_InitiatePayment h req w =
     (case req of
        None \<Rightarrow> (grpc_err CodeValidation ''request required'', w)
      | Some r \<Rightarrow>
          (case ipr_Amount r of
             None \<Rightarrow> (grpc_err CodeValidation ''amount is required'', w)
           | Some amount \<Rightarrow>
               saga_reply (o_codec (h_orch h)) (Initiate (h_orch h)
                 \<lparr>in_IdempotencyKey = ipr_IdempotencyKey r, in_MerchantID = ipr_MerchantId r,
                  in_ConsentID = ipr_ConsentId r, in_AmountPence = mo_AmountPence amount,
                  in_Currency = mo_Currency amount, in_Description = ipr_Description r,
                  in_SkipIdempotency = False, in_Existing = None\<rparr> w)))"

text \<open>The payment a request names: by its id, and by the merchant when one is given.\<close>

definition find_payment :: "'w Handler \<Rightarrow> string \<Rightarrow> string \<Rightarrow> 'w \<Rightarrow> Payment res \<times> 'w" where
  "find_payment h paymentID merchantID w =
     (if TrimSpace paymentID = [] then (grpc_err CodeValidation ''payment_id is required'', w)
      else case uc_Parse (o_codec (h_orch h)) paymentID of
             None \<Rightarrow> (grpc_err CodeValidation ''invalid payment_id'', w)
           | Some i \<Rightarrow>
               (let mid = TrimSpace merchantID in
                if mid \<noteq> [] then
                  (case uc_Parse (o_codec (h_orch h)) mid of
                     None \<Rightarrow> (grpc_err CodeValidation ''invalid merchant_id'', w)
                   | Some m \<Rightarrow> rpc_result (h_GetByIDAndMerchant h i m w))
                else rpc_result (h_GetByID h i w)))"

definition rpc_GetPayment :: "'w Handler \<Rightarrow> GetPaymentRequest option \<Rightarrow> 'w \<Rightarrow> pb_Payment res \<times> 'w" where
  "rpc_GetPayment h req w =
     (case req of
        None \<Rightarrow> (grpc_err CodeValidation ''payment_id is required'', w)
      | Some r \<Rightarrow>
          (case find_payment h (gpr_PaymentId r) (gpr_MerchantId r) w of
             (Inl err, w1) \<Rightarrow> (Inl err, w1)
           | (Inr p, w1) \<Rightarrow> (Inr (toProto (o_codec (h_orch h)) p), w1)))"

definition rpc_RetryPayment :: "'w Handler \<Rightarrow> RetryPaymentRequest option \<Rightarrow> 'w \<Rightarrow> pb_Payment res \<times> 'w" where
  "rpc_RetryPayment h req w =
     (case req of
        None \<Rightarrow> (grpc_err CodeValidation ''payment_id is required'', w)
      | Some r \<Rightarrow>
          (case find_payment h (rpr_PaymentId r) (rpr_MerchantId r) w of
             (Inl err, w1) \<Rightarrow> (Inl err, w1)
           | (Inr p, w1) \<Rightarrow>
               if py_Status p \<noteq> StatusFailed
               then (grpc_err CodeConflict ''only FAILED payments can be retried'', w1)
               else
                 (let c = o_codec (h_orch h) in
                  saga_reply c (Initiate (h_orch h)
                    \<lparr>in_IdempotencyKey = py_IdempotencyKey p, in_MerchantID = uc_String c (py_MerchantID p),
                     in_ConsentID = uc_String c (py_ConsentID p), in_AmountPence = py_AmountPence p,
                     in_Currency = py_Currency p, in_Description = py_Description p,
                     in_SkipIdempotency = True, in_Existing = Some p\<rparr> w1))))"

section \<open>The reconciliation worker\<close>

record 'w ReconciliationWorker =
  rw_ListStale :: "int \<Rightarrow> 'w \<Rightarrow> Payment list res \<times> 'w"
  rw_orchestrator :: "'w Orchestrator"
  rw_bank :: "'w BankAdapterClient"
  rw_interval :: int
  rw_staleAfter :: int

definition NewReconciliationWorker :: "(int \<Rightarrow> 'w \<Rightarrow> Payment list res \<times> 'w) \<Rightarrow> 'w Orchestrator \<Rightarrow>
    'w BankAdapterClient \<Rightarrow> int \<Rightarrow> int \<Rightarrow> 'w ReconciliationWorker" where
  "NewReconciliationWorker listStale orch bank interval staleAfter =
     \<lparr>rw_ListStale = listStale, rw_orchestrator = orch, rw_bank = bank,
      rw_interval = (if interval \<le> 0 then 30 * 10 ^ 9 else interval),
      rw_staleAfter = (if staleAfter \<le> 0 then 60 * 10 ^ 9 else staleAfter)\<rparr>"

text \<open>One stale payment: \<open>w\<close> after the branch that the bank's answer chooses.\<close>

definition reconcile_one :: "'w ReconciliationWorker \<Rightarrow> Payment \<Rightarrow> 'w \<Rightarrow> 'w" where
  "reconcile_one rw p w =
     (let cancel = (\<lambda>w. snd (snd (CompensateStale (rw_orchestrator rw) ''RECONCILIATION_TIMEOUT'' p w))) in
      if py_BankPaymentRef p \<noteq> [] then
        (case b_GetPaymentStatus (rw_bank rw) \<lparr>stq_BankPaymentRef = py_BankPaymentRef p\<rparr> w of
           (Inl err, w1) \<Rightarrow> w1
         | (Inr resp, w1) \<Rightarrow>
             if sts_Status resp = Bank_SETTLED then snd (snd (ResumeFromLedger (rw_orchestrator rw) p w1))
             else cancel w1)
      else cancel w)"

definition reconcileStalePayments :: "'w ReconciliationWorker \<Rightarrow> 'w \<Rightarrow> 'w" where
  "reconcileStalePayments rw w =
     (case rw_ListStale rw (rw_staleAfter rw) w of
        (Inl err, w1) \<Rightarrow> w1
      | (Inr stale, w1) \<Rightarrow> fold (reconcile_one rw) stale w1)"

section \<open>The outbox relay\<close>

record kafka_Message =
  km_Topic :: string
  km_Key :: string
  km_Value :: SettledPayload
  km_Time :: int

type_synonym 'k kafka_Writer = "kafka_Message \<Rightarrow> 'k \<Rightarrow> goerror option \<times> 'k"

definition outbox_message :: "OutboxRow \<Rightarrow> kafka_Message" where
  "outbox_message row =
     \<lparr>km_Topic = ob_Topic row, km_Key = ob_Key row, km_Value = ob_Payload row, km_Time = ob_CreatedAt row\<rparr>"

fun flush_rows :: "'k kafka_Writer \<Rightarrow> OutboxRow list \<Rightarrow> payment_db \<times> 'k \<Rightarrow> payment_db \<times> 'k" where
  "flush_rows write [] (s, k) = (s, k)"
| "flush_rows write (row # rows) (s, k) =
     (case write (outbox_message row) k of
        (Some err, k1) \<Rightarrow> (s, k1)
      | (None, k1) \<Rightarrow>
          (case DeleteOutbox (ob_ID row) s of
             (Some err, s1) \<Rightarrow> (s1, k1)
           | (None, s1) \<Rightarrow> flush_rows write rows (s1, k1)))"

definition flush :: "'k kafka_Writer \<Rightarrow> payment_db \<times> 'k \<Rightarrow> payment_db \<times> 'k" where
  "flush write = (\<lambda>(s, k).
     case ListOutbox 100 s of
       (Inl err, s1) \<Rightarrow> (s1, k)
     | (Inr rows, s1) \<Rightarrow> flush_rows write rows (s1, k))"

end
