(* ===== verification/Payment_Props.thy ===== *)
theory Payment_Props
  imports Payment_Handler
begin

text \<open>
  What the methods of the payment repository do.
  \<^item> \<open>payment_wf\<close> is the invariant of the tables; every method keeps it.
  \<^item> \<open>prow\<close> is the payment a read returns. \<open>row_written\<close> is the effect of an update on it: nothing and an
    error, or the change, with an error when the event could not be written. The record in memory
    follows the row when the method succeeds.
\<close>

section \<open>The invariant\<close>

definition payment_wf :: "payment_db \<Rightarrow> bool" where
  "payment_wf s \<longleftrightarrow>
     distinct (map pt_id (payments s)) \<and> distinct (map pt_key (payments s)) \<and>
     distinct (map ev_id (pevents s)) \<and> distinct (map ob_ID (outbox s)) \<and>
     (\<forall>t \<in> set (payments s). pt_status t \<in> set payment_statuses \<and> (pt_status t = StatusSettled \<longrightarrow> pt_settled t \<noteq> None)) \<and>
     (\<forall>e \<in> set (pevents s). ev_payment e \<in> pt_id ` set (payments s))"

text \<open>What a repository method never changes: the keys of the idempotency store, the clock and the codec.\<close>

definition pay_base :: "payment_db \<Rightarrow> payment_db \<Rightarrow> bool" where
  "pay_base s s' \<longleftrightarrow> idem_kv s' = idem_kv s \<and> now s' = now s \<and> codec s' = codec s \<and> uuid_src s' = uuid_src s"

definition prow :: "payment_db \<Rightarrow> uuid \<Rightarrow> Payment option" where
  "prow s i = map_option scanPayment (row_by pt_id i (payments s))"

lemma payment_env:
  assumes "env_only s (s' :: payment_db)"
  shows "payments s' = payments s" "pevents s' = pevents s" "outbox s' = outbox s" "pay_base s s'"
  using assms by (auto elim!: env_onlyE simp: pay_base_def)

lemma pay_base_refl [simp]: "pay_base s s"
  by (simp add: pay_base_def)

lemma pay_base_trans: "pay_base s t \<Longrightarrow> pay_base t u \<Longrightarrow> pay_base s u"
  by (simp add: pay_base_def)

lemma payment_wf_env: "env_only s s' \<Longrightarrow> payment_wf s' = payment_wf s"
  by (simp add: payment_wf_def payment_env)

lemma prow_env: "env_only s s' \<Longrightarrow> prow s' = prow s"
  by (simp add: prow_def [abs_def] payment_env)

lemma fresh_env: "fresh_uuid s = (i, s1) \<Longrightarrow> env_only s s1"
  by (auto simp: fresh_uuid_def)

section \<open>Reading\<close>

lemma scanOne_effect:
  assumes "scanOne q s = (r, s')"
  shows "env_only s s' \<and> (\<forall>p. r = Inr p \<longrightarrow> map_option scanPayment (q (payments s)) = Some p)"
proof -
  obtain r1 s1 where c: "pool_call (\<lambda>s. (case q (payments s) of None \<Rightarrow> Inl ErrNoRows | Some t \<Rightarrow> Inr (scanPayment t), s)) s = (r1, s1)"
    by fastforce
  have s': "s' = s1" "\<And>p. r = Inr p \<Longrightarrow> r1 = Inr p" using assms c by (auto simp: scanOne_def split: sum.splits)
  from c show ?thesis
  proof (cases rule: pool_call_cases)
    case (run s0)
    with s' payment_env(1) [OF run(1)] show ?thesis by (auto split: option.splits)
  qed (use s' in auto)
qed

lemma GetByID_effect:
  assumes "GetByID i s = (r, s')"
  shows "env_only s s' \<and> (\<forall>p. r = Inr p \<longrightarrow> prow s i = Some p)"
  using scanOne_effect [OF assms [unfolded GetByID_def]] by (simp add: prow_def)

lemma GetByIdempotencyKey_effect:
  assumes "GetByIdempotencyKey k s = (r, s')"
  shows "env_only s s' \<and> (\<forall>p. r = Inr p \<longrightarrow> (\<exists>t \<in> set (payments s). pt_key t = k \<and> p = scanPayment t))"
  using scanOne_effect [OF assms [unfolded GetByIdempotencyKey_def]] by (fastforce dest: row_by_SomeD)

section \<open>Events\<close>

text \<open>The tables after an event was appended for a payment, or not.\<close>

definition logs :: "bool \<Rightarrow> uuid \<Rightarrow> string \<Rightarrow> payment_db \<Rightarrow> payment_db \<Rightarrow> bool" where
  "logs done i to s s' \<longleftrightarrow> payments s' = payments s \<and> outbox s' = outbox s \<and> pay_base s s' \<and>
     (if done then i \<in> pt_id ` set (payments s) \<and>
        (\<exists>e. pevents s' = pevents s @ [e] \<and> ev_id e \<notin> ev_id ` set (pevents s) \<and> ev_payment e = i \<and> ev_to e = to)
      else pevents s' = pevents s)"

lemma logs_env: "env_only s t \<Longrightarrow> env_only u v \<Longrightarrow> logs d i to t u \<Longrightarrow> logs d i to s v"
  by (auto simp: logs_def payment_env dest: payment_env(4) intro: pay_base_trans)

lemma logs_wf: "logs d i to s s' \<Longrightarrow> payment_wf s \<Longrightarrow> payment_wf s'"
  by (auto simp: logs_def payment_wf_def split: if_splits)

lemma event_row_logs:
  assumes "event_row i pid frm to reason meta s = (r, s')"
  shows "logs (\<not> isl r) pid to s s'"
  using assms by (auto simp: event_row_def logs_def pay_base_def split: if_splits)

lemma insertEvent_effect:
  assumes "insertEvent in_tx pid frm to reason meta s = (err, s')"
  shows "logs (err = None) pid to s s'"
proof -
  obtain i s1 where f: "fresh_uuid s = (i, s1)" by fastforce
  note e1 = fresh_env [OF f]
  let ?q = "event_row i pid frm to reason meta"
  obtain r s2 where c: "(if in_tx then tx_call ?q s1 else pool_call ?q s1) = (r, s2)" by fastforce
  with assms f have s': "s' = s2" "(err = None) = (\<not> isl r)"
    by (auto simp: insertEvent_def wrap_event_def split: sum.splits)
  have "logs (\<not> isl r) pid to s1 s2"
  proof (cases in_tx)
    case True
    with c have "tx_call ?q s1 = (r, s2)" by simp
    then show ?thesis
    proof (cases rule: tx_call_cases)
      case (fault e)
      then show ?thesis by (simp add: logs_def payment_env)
    next
      case (failed s0 e s3)
      have "env_only s3 s2" using failed(5) by simp
      with failed event_row_logs [OF failed(3)] show ?thesis using logs_env by fastforce
    next
      case (run s0 x)
      with event_row_logs [OF run(4)] logs_env [OF run(1) env_only_refl] show ?thesis by simp
    qed
  next
    case False
    with c have "pool_call ?q s1 = (r, s2)" by simp
    then show ?thesis
    proof (cases rule: pool_call_cases)
      case (fault e)
      then show ?thesis by (simp add: logs_def payment_env)
    next
      case (run s0)
      with event_row_logs [OF run(3)] logs_env [OF run(1) env_only_refl] show ?thesis by simp
    qed
  qed
  with s' logs_env [OF e1 env_only_refl] show ?thesis by simp
qed

section \<open>Updates\<close>

definition row_written :: "(Payment \<Rightarrow> Payment) \<Rightarrow> goerror option \<Rightarrow> Payment \<Rightarrow> Payment \<Rightarrow>
    (uuid \<Rightarrow> Payment option) \<Rightarrow> (uuid \<Rightarrow> Payment option) \<Rightarrow> bool" where
  "row_written g err p p' rows rows' \<longleftrightarrow>
     (err \<noteq> None \<and> p' = p \<and> rows' = rows) \<or>
     (p' = (if err = None then g p else p) \<and> rows' = rows(py_ID p := map_option g (rows (py_ID p))))"

text \<open>An update of one payment's row by \<open>f\<close>.\<close>

definition updates :: "(payment_tbl \<Rightarrow> payment_tbl) \<Rightarrow> uuid \<Rightarrow> payment_db \<Rightarrow> payment_db \<Rightarrow> bool" where
  "updates f i s s' \<longleftrightarrow> payments s' = update_where (\<lambda>t. pt_id t = i) f (payments s) \<and>
     outbox s' = outbox s \<and> pevents s' = pevents s \<and> pay_base s s'"

definition good_update :: "(payment_tbl \<Rightarrow> payment_tbl) \<Rightarrow> (Payment \<Rightarrow> Payment) \<Rightarrow> bool" where
  "good_update f g \<longleftrightarrow> (\<forall>t. pt_id (f t) = pt_id t \<and> pt_key (f t) = pt_key t \<and> scanPayment (f t) = g (scanPayment t) \<and>
     (pt_status (f t) = StatusSettled \<longrightarrow> pt_settled (f t) \<noteq> None) \<and> pt_status (f t) \<in> set payment_statuses)"

lemma prow_update:
  assumes "payments s' = update_where (\<lambda>t. pt_id t = i) f (payments s)" and "good_update f g"
  shows "prow s' = (prow s)(i := map_option g (prow s i))"
proof (rule ext)
  fix j
  have "row_by pt_id j (payments s') = (if j = i then map_option f (row_by pt_id j (payments s)) else row_by pt_id j (payments s))"
    using assms by (simp add: row_by_update_key good_update_def)
  moreover have "scanPayment (f t) = g (scanPayment t)" for t using assms(2) by (simp add: good_update_def)
  ultimately show "prow s' j = ((prow s)(i := map_option g (prow s i))) j"
    by (simp add: prow_def option.map_comp comp_def)
qed

lemma map_key_update: "good_update f g \<Longrightarrow> map pt_id (update_where P f ts) = map pt_id ts \<and> map pt_key (update_where P f ts) = map pt_key ts"
  by (simp add: map_update_where good_update_def)

lemma payment_wf_update:
  assumes "payment_wf s" and "good_update f g" and "payments s' = update_where P f (payments s)"
    and "outbox s' = outbox s" and "pevents s' = pevents s"
  shows "payment_wf s'"
proof -
  have "pt_id ` set (update_where P f (payments s)) = pt_id ` set (payments s)"
    using map_key_update [OF assms(2), of P "payments s"] by (metis list.set_map)
  moreover have "\<forall>t \<in> set (update_where P f (payments s)). pt_status t \<in> set payment_statuses \<and>
      (pt_status t = StatusSettled \<longrightarrow> pt_settled t \<noteq> None)"
    using assms(1,2) by (auto simp: set_update_where payment_wf_def good_update_def)
  ultimately show ?thesis
    using assms map_key_update [OF assms(2), of P "payments s"] by (simp add: payment_wf_def)
qed

lemma update_payment_pool:
  assumes "pool_call (update_payment P f) s = (r, s')"
  shows "(isl r \<and> env_only s s') \<or>
    (r = Inr (length (filter P (payments s))) \<and> payments s' = update_where P f (payments s) \<and>
     outbox s' = outbox s \<and> pevents s' = pevents s \<and> pay_base s s')"
  using assms
proof (cases rule: pool_call_cases)
  case (run s0)
  with payment_env [OF run(1)] show ?thesis by (auto simp: update_payment_def pay_base_def)
qed auto

lemma update_with_event_effect:
  assumes "update_with_event what f to reason meta g p s = (err, p', s')" and "good_update f g" and "payment_wf s"
  shows "payment_wf s' \<and> pay_base s s' \<and> outbox s' = outbox s \<and> row_written g err p p' (prow s) (prow s') \<and>
    pt_key ` set (payments s') = pt_key ` set (payments s)"
proof -
  obtain r s1 where u: "pool_call (update_payment (\<lambda>t. pt_id t = py_ID p) f) s = (r, s1)" by fastforce
  show ?thesis
  proof (cases r)
    case (Inl e)
    with update_payment_pool [OF u] have "env_only s s1" by auto
    moreover have "s' = s1" "p' = p" "err \<noteq> None" using assms(1) u Inl by (auto simp: update_with_event_def)
    ultimately show ?thesis using assms(3) payment_env payment_wf_env prow_env by (auto simp: row_written_def)
  next
    case (Inr n)
    with update_payment_pool [OF u] have s1: "payments s1 = update_where (\<lambda>t. pt_id t = py_ID p) f (payments s)"
      "outbox s1 = outbox s" "pevents s1 = pevents s" "pay_base s s1" by auto
    obtain err1 s2 where e: "insertEvent False (py_ID p) (py_Status p) to reason meta s1 = (err1, s2)" by fastforce
    note l = insertEvent_effect [OF e]
    have r: "err = err1" "s' = s2" "p' = (if err = None then g p else p)"
      using assms(1) u Inr e by (auto simp: update_with_event_def split: option.splits)
    have "payment_wf s2" using logs_wf [OF l payment_wf_update [OF assms(3,2) s1(1-3)]] .
    moreover have "prow s2 = prow s1" using l by (simp add: prow_def [abs_def] logs_def)
    moreover have "pt_key ` set (payments s1) = pt_key ` set (payments s)"
      using map_key_update [OF assms(2), of _ "payments s"] s1(1) by (metis list.set_map)
    ultimately show ?thesis using r l s1 prow_update [OF s1(1) assms(2)]
      by (auto simp: row_written_def logs_def intro: pay_base_trans)
  qed
qed

text \<open>The updates of the methods: the change of the row is the change of the record.\<close>

definition after_consent :: "uuid \<Rightarrow> string \<Rightarrow> int \<Rightarrow> Payment \<Rightarrow> Payment" where
  "after_consent rid cid t p = p\<lparr>py_Status := StatusConsentReserved, py_ReservationID := Some rid, py_ConsumerID := cid, py_UpdatedAt := t\<rparr>"

definition after_risk :: "int \<Rightarrow> string \<Rightarrow> int \<Rightarrow> Payment \<Rightarrow> Payment" where
  "after_risk score d t p = p\<lparr>py_Status := StatusRiskPassed, py_RiskScore := Some score, py_RiskDecision := d, py_UpdatedAt := t\<rparr>"

definition after_bank :: "string \<Rightarrow> int \<Rightarrow> Payment \<Rightarrow> Payment" where
  "after_bank ref t p = p\<lparr>py_Status := StatusAuthorising, py_BankPaymentRef := ref, py_UpdatedAt := t\<rparr>"

definition marked :: "string \<Rightarrow> string \<Rightarrow> int \<Rightarrow> Payment \<Rightarrow> Payment" where
  "marked st reason t p = p\<lparr>py_Status := st, py_FailureReason := reason, py_UpdatedAt := t\<rparr>"

definition after_settle :: "int \<Rightarrow> Payment \<Rightarrow> Payment" where
  "after_settle t p = p\<lparr>py_Status := StatusSettled, py_SettledAt := Some t, py_UpdatedAt := t, py_FailureReason := []\<rparr>"

definition after_reset :: "int \<Rightarrow> Payment \<Rightarrow> Payment" where
  "after_reset t p = p\<lparr>py_Status := StatusInitiated, py_FailureReason := [], py_BankPaymentRef := [], py_ReservationID := None,
     py_RiskScore := None, py_RiskDecision := [], py_SettledAt := None, py_UpdatedAt := t\<rparr>"

lemmas after_defs = after_consent_def after_risk_def after_bank_def marked_def after_settle_def after_reset_def

definition repo_update :: "(Payment \<Rightarrow> Payment) \<Rightarrow> goerror option \<Rightarrow> Payment \<Rightarrow> Payment \<Rightarrow> payment_db \<Rightarrow> payment_db \<Rightarrow> bool" where
  "repo_update g err p p' s s' \<longleftrightarrow> payment_wf s' \<and> pay_base s s' \<and> outbox s' = outbox s \<and>
     row_written g err p p' (prow s) (prow s') \<and> pt_key ` set (payments s') = pt_key ` set (payments s)"

lemma UpdateAfterConsent_effect:
  assumes "UpdateAfterConsent rid cid p s = (err, p', s')" and "payment_wf s"
  shows "repo_update (after_consent rid cid (now s)) err p p' s s'"
  unfolding repo_update_def after_consent_def [abs_def]
  by (rule update_with_event_effect [OF assms(1) [unfolded UpdateAfterConsent_def] _ assms(2)])
     (simp add: good_update_def scanPayment_def payment_statuses_def coalesce_def)

lemma UpdateAfterRisk_effect:
  assumes "UpdateAfterRisk score d p s = (err, p', s')" and "payment_wf s"
  shows "repo_update (after_risk score d (now s)) err p p' s s'"
  unfolding repo_update_def after_risk_def [abs_def]
  by (rule update_with_event_effect [OF assms(1) [unfolded UpdateAfterRisk_def] _ assms(2)])
     (simp add: good_update_def scanPayment_def payment_statuses_def coalesce_def)

lemma UpdateAfterBank_effect:
  assumes "UpdateAfterBank ref p s = (err, p', s')" and "payment_wf s"
  shows "repo_update (after_bank ref (now s)) err p p' s s'"
  unfolding repo_update_def after_bank_def [abs_def]
  by (rule update_with_event_effect [OF assms(1) [unfolded UpdateAfterBank_def] _ assms(2)])
     (simp add: good_update_def scanPayment_def payment_statuses_def coalesce_def)

lemma MarkFailed_effect:
  assumes "MarkFailed reason p s = (err, p', s')" and "payment_wf s"
  shows "repo_update (marked StatusFailed reason (now s)) err p p' s s'"
  unfolding repo_update_def marked_def [abs_def]
  by (rule update_with_event_effect [OF assms(1) [unfolded MarkFailed_def] _ assms(2)])
     (simp add: good_update_def scanPayment_def payment_statuses_def coalesce_def)

lemma MarkManualReview_effect:
  assumes "MarkManualReview reason p s = (err, p', s')" and "payment_wf s"
  shows "repo_update (marked StatusManualReview reason (now s)) err p p' s s'"
  unfolding repo_update_def marked_def [abs_def]
  by (rule update_with_event_effect [OF assms(1) [unfolded MarkManualReview_def] _ assms(2)])
     (simp add: good_update_def scanPayment_def payment_statuses_def coalesce_def)

section \<open>Settling\<close>

text \<open>A successful settlement: the row is settled and exactly one message with its data joins the outbox.\<close>

definition settles :: "Payment \<Rightarrow> payment_db \<Rightarrow> payment_db \<Rightarrow> bool" where
  "settles p s s' \<longleftrightarrow> payment_wf s' \<and> pay_base s s' \<and> py_ID p \<in> pt_id ` set (payments s) \<and>
     prow s' = (prow s)(py_ID p := map_option (after_settle (now s)) (prow s (py_ID p))) \<and>
     pt_key ` set (payments s') = pt_key ` set (payments s) \<and>
     (\<exists>row. outbox s' = outbox s @ [row] \<and> ob_Topic row = TopicPaymentEvents \<and> ob_Key row = uc_String (codec s) (py_ID p) \<and>
        ob_Payload row = buildSettledPayload (codec s) p (now s))"

lemma settles_env:
  assumes "env_only s t" and "env_only u v" and "settles p t u"
  shows "settles p s v"
  using assms(3) payment_env [OF assms(1)] payment_env [OF assms(2)] prow_env [OF assms(1)] prow_env [OF assms(2)]
    payment_wf_env [OF assms(2)]
  by (auto simp: settles_def pay_base_def)

lemma update_payment_tx:
  assumes "tx_call (update_payment P f) s = (r, s')"
  shows "(isl r \<and> env_only s s') \<or>
    (\<not> isl r \<and> payments s' = update_where P f (payments s) \<and> outbox s' = outbox s \<and> pevents s' = pevents s \<and> pay_base s s')"
  using assms
proof (cases rule: tx_call_cases)
  case (run s0 x)
  with payment_env [OF run(1)] show ?thesis by (auto simp: update_payment_def pay_base_def)
qed (auto simp: update_payment_def)

lemma insert_outbox_tx:
  assumes "tx_call (insert_outbox row) s = (r, s')"
  shows "(isl r \<and> payments s' = payments s \<and> outbox s' = outbox s \<and> pevents s' = pevents s \<and> pay_base s s') \<or>
    (\<not> isl r \<and> ob_ID row \<notin> ob_ID ` set (outbox s) \<and> outbox s' = outbox s @ [row] \<and> payments s' = payments s \<and>
     pevents s' = pevents s \<and> pay_base s s')"
  using assms
proof (cases rule: tx_call_cases)
  case (fault e)
  then show ?thesis by (simp add: payment_env)
next
  case (failed s0 e s1)
  then have "env_only s s'" by (auto simp: insert_outbox_def split: if_splits)
  then show ?thesis using failed(4) by (simp add: payment_env)
next
  case (run s0 x)
  with payment_env [OF run(1)] show ?thesis by (auto simp: insert_outbox_def pay_base_def split: if_splits)
qed

lemma settle_statements_effect:
  assumes "settle_statements p s = (None, s')" and "payment_wf s"
  shows "settles p s s'"
proof -
  define f where "f = (\<lambda>t :: payment_tbl. t\<lparr>pt_status := StatusSettled, pt_settled := Some (now s), pt_updated := now s, pt_failure := None\<rparr>)"
  have g: "good_update f (after_settle (now s))"
    by (simp add: good_update_def f_def after_settle_def scanPayment_def payment_statuses_def coalesce_def)
  obtain r1 s1 where u: "tx_call (update_payment (\<lambda>t. pt_id t = py_ID p) f) s = (r1, s1)" by fastforce
  obtain e2 s2 where ev: "insertEvent True (py_ID p) (py_Status p) StatusSettled ''payment settled'' meta_none s1 = (e2, s2)" by fastforce
  obtain i s3 where fr: "fresh_uuid s2 = (i, s3)" by fastforce
  define row where "row = \<lparr>ob_ID = i, ob_Topic = TopicPaymentEvents, ob_Key = uc_String (codec s) (py_ID p),
      ob_Payload = buildSettledPayload (codec s) p (now s), ob_CreatedAt = now s\<rparr>"
  obtain r4 s4 where o: "tx_call (insert_outbox row) s3 = (r4, s4)" by fastforce
  have ok: "\<not> isl r1" "e2 = None" "\<not> isl r4" "s' = s4"
    using assms(1) u ev fr o
    by (auto simp: settle_statements_def f_def row_def split: sum.splits option.splits)
  from update_payment_tx [OF u] ok(1) have s1: "payments s1 = update_where (\<lambda>t. pt_id t = py_ID p) f (payments s)"
    "outbox s1 = outbox s" "pevents s1 = pevents s" "pay_base s s1" by auto
  note l = insertEvent_effect [OF ev]
  note e3 = payment_env [OF fresh_env [OF fr]]
  from insert_outbox_tx [OF o] ok(3) have s4: "ob_ID row \<notin> ob_ID ` set (outbox s3)" "outbox s4 = outbox s3 @ [row]"
    "payments s4 = payments s3" "pevents s4 = pevents s3" "pay_base s3 s4" by auto
  have wf2: "payment_wf s2" using logs_wf [OF l payment_wf_update [OF assms(2) g s1(1-3)]] .
  then have "payment_wf s4" using s4 e3 by (simp add: payment_wf_def)
  moreover have "prow s4 = (prow s)(py_ID p := map_option (after_settle (now s)) (prow s (py_ID p)))"
    by (rule prow_update [OF _ g]) (use s4(3) e3(1) l s1(1) in \<open>simp add: logs_def\<close>)
  moreover have ids: "map pt_id (payments s4) = map pt_id (payments s) \<and> map pt_key (payments s4) = map pt_key (payments s)"
    using s4(3) e3(1) l s1(1) map_key_update [OF g] by (simp add: logs_def)
  then have "pt_key ` set (payments s4) = pt_key ` set (payments s)" "pt_id ` set (payments s4) = pt_id ` set (payments s)"
    by (metis list.set_map)+
  moreover have "py_ID p \<in> pt_id ` set (payments s1)" using l ok(2) by (simp add: logs_def)
  then have "py_ID p \<in> pt_id ` set (payments s)" using s1(1) map_key_update [OF g] by (metis list.set_map)
  moreover have "pay_base s s4" using s1(4) l e3(4) s4(5) by (simp add: logs_def pay_base_def)
  moreover have "outbox s4 = outbox s @ [row]" using s4(2) e3(3) l s1(2) by (simp add: logs_def)
  ultimately show ?thesis using ok(4) unfolding settles_def by (auto simp: row_def)
qed

lemma SettleWithOutbox_effect:
  assumes "SettleWithOutbox p s = (err, p', s')" and "payment_wf s"
  obtains (failed) e where "err = Some e" "p' = p" "env_only s s'"
        | (settled) "err = None" "p' = after_settle (now s) p" "settles p s s'"
proof -
  obtain r0 s0 where b: "pool_call (\<lambda>s. (Inr (), s)) s = (r0, s0)" by fastforce
  have e0: "env_only s s0" using b by (cases rule: pool_call_cases) auto
  show thesis
  proof (cases r0)
    case (Inl e)
    with assms(1) b e0 show thesis by (intro failed) (auto simp: SettleWithOutbox_def)
  next
    case (Inr u)
    obtain e1 s1 where st: "settle_statements p (s0\<lparr>aborted := False\<rparr>) = (e1, s1)" by fastforce
    show thesis
    proof (cases e1)
      case (Some e)
      with assms(1) b Inr st e0 show thesis by (intro failed [of e]) (auto simp: SettleWithOutbox_def)
    next
      case None
      obtain r2 s2 where c: "commit_tx no_deferred s0 () s1 = (r2, s2)" by fastforce
      have s0': "env_only s (s0\<lparr>aborted := False\<rparr>)" using e0 by simp
      show thesis
      proof (cases r2)
        case (Inl e)
        have "env_only s s2" using c Inl e0
          by (auto simp: commit_tx_def split: if_splits sum.splits prod.splits)
        with assms(1) b Inr st None c Inl show thesis by (intro failed) (auto simp: SettleWithOutbox_def)
      next
        case r2: (Inr v)
        have "pool_call (\<lambda>s. (Inr (), s)) s1 = (Inr (), s2)" using c r2
          by (auto simp: commit_tx_def split: if_splits sum.splits prod.splits)
        then have e2: "env_only s1 s2" by (cases rule: pool_call_cases) auto
        have "payment_wf (s0\<lparr>aborted := False\<rparr>)" using payment_wf_env [OF s0'] assms(2) by simp
        with st None have "settles p (s0\<lparr>aborted := False\<rparr>) s1" by (auto intro: settle_statements_effect)
        from settles_env [OF s0' e2 this] assms(1) b Inr st None c r2 show thesis
          by (intro settled) (auto simp: SettleWithOutbox_def after_settle_def)
      qed
    qed
  qed
qed

section \<open>Creating and resetting\<close>

definition blank :: "Payment \<Rightarrow> bool" where
  "blank p \<longleftrightarrow> py_BankPaymentRef p = [] \<and> py_ReservationID p = None \<and> py_RiskScore p = None \<and> py_RiskDecision p = [] \<and>
     py_FailureReason p = [] \<and> py_SettledAt p = None \<and> length (py_Currency p) = 3"

lemma pg_char3_three: "length t = 3 \<Longrightarrow> pg_char3 t = Some t"
  by (simp add: pg_char3_def)

lemma insert_payment_effect:
  assumes "insert_payment p s = (r, s')" and "blank p" and "payment_wf s" and "py_Status p \<noteq> StatusSettled"
  shows "(isl r \<and> s' = s) \<or>
    (\<not> isl r \<and> py_IdempotencyKey p \<notin> pt_key ` set (payments s) \<and> py_ID p \<notin> pt_id ` set (payments s) \<and> payment_wf s' \<and> pay_base s s' \<and>
     outbox s' = outbox s \<and> prow s' = (prow s)(py_ID p \<mapsto> p) \<and>
     pt_key ` set (payments s') = insert (py_IdempotencyKey p) (pt_key ` set (payments s)))"
proof (cases "isl r")
  case True
  with assms(1) show ?thesis by (auto simp: insert_payment_def split: option.splits if_splits)
next
  case False
  define t where "t = \<lparr>pt_id = py_ID p, pt_key = py_IdempotencyKey p, pt_merchant = py_MerchantID p,
              pt_consent = py_ConsentID p, pt_consumer = py_ConsumerID p, pt_amount = py_AmountPence p,
              pt_currency = py_Currency p, pt_status = py_Status p, pt_bankref = None, pt_reservation = None,
              pt_score = None, pt_decision = None, pt_failure = None, pt_description = Some (py_Description p),
              pt_initiated = py_InitiatedAt p, pt_settled = None, pt_updated = py_UpdatedAt p\<rparr>"
  have sc: "scanPayment t = p"
    using assms(2) by (cases p) (simp add: t_def scanPayment_def coalesce_def blank_def)
  from False assms(1) pg_char3_three [of "py_Currency p"] assms(2)
  have "py_Status p \<in> set payment_statuses" "py_ID p \<notin> pt_id ` set (payments s)" "py_IdempotencyKey p \<notin> pt_key ` set (payments s)"
    "s' = s\<lparr>payments := payments s @ [t]\<rparr>"
    by (auto simp: insert_payment_def blank_def t_def split: if_splits)
  note i = this
  have "prow s' = (prow s)(py_ID p \<mapsto> p)"
  proof (rule ext)
    fix j
    have "row_by pt_id (py_ID p) (payments s) = None" using i(2) by (simp add: row_by_None_iff)
    then show "prow s' j = ((prow s)(py_ID p \<mapsto> p)) j"
      using i(4) sc by (simp add: prow_def row_by_append t_def split: option.splits)
  qed
  moreover have "payment_wf s'"
    using assms(3,4) i by (auto simp: payment_wf_def t_def)
  moreover have "pay_base s s' \<and> outbox s' = outbox s" using i(4) by (simp add: pay_base_def)
  ultimately show ?thesis using False i by (simp add: t_def)
qed

text \<open>Creating a payment: no row and an error, in particular when the idempotency key is taken; or the new
  row, and then an error only when the event could not be written.\<close>

lemma CreatePayment_effect:
  assumes "CreatePayment p s = (err, p', s')" and "blank p" and "payment_wf s" and "py_Status p \<noteq> StatusSettled"
  obtains (refused) e where "err = Some e" "env_only s s'"
        | (created) "py_IdempotencyKey p \<notin> pt_key ` set (payments s)" "py_ID p' \<notin> pt_id ` set (payments s)"
            "payment_wf s'" "pay_base s s'" "outbox s' = outbox s"
            "prow s' = (prow s)(py_ID p' \<mapsto> p')"
            "p' = p\<lparr>py_ID := py_ID p', py_Status := (if py_Status p = [] then StatusInitiated else py_Status p),
                 py_InitiatedAt := now s, py_UpdatedAt := now s\<rparr>" "py_ID p \<noteq> uuid_Nil \<Longrightarrow> py_ID p' = py_ID p"
proof -
  obtain i s0 where f: "(if py_ID p = uuid_Nil then fresh_uuid s else (py_ID p, s)) = (i, s0)" by fastforce
  then have e0: "env_only s s0" by (auto simp: fresh_uuid_def split: if_splits)
  define p1 where "p1 = p\<lparr>py_ID := i, py_Status := (if py_Status p = [] then StatusInitiated else py_Status p),
                 py_InitiatedAt := now s, py_UpdatedAt := now s\<rparr>"
  obtain r1 s1 where c: "pool_call (insert_payment p1) s0 = (r1, s1)" by fastforce
  have b1: "blank p1" "py_Status p1 \<noteq> StatusSettled" using assms(2,4) by (auto simp: blank_def p1_def)
  show thesis
  proof (cases "isl r1")
    case True
    from c have "env_only s0 s1"
    proof (cases rule: pool_call_cases)
      case (run t0)
      have "payment_wf t0" using assms(3) payment_wf_env [OF env_only_trans [OF e0 run(1)]] by simp
      with insert_payment_effect [OF run(3) b1(1) _ b1(2)] True run(1) show ?thesis by auto
    qed
    moreover have "err \<noteq> None \<and> s' = s1"
      using assms(1) f c True by (cases r1) (auto simp: CreatePayment_def p1_def Let_def)
    ultimately show thesis using refused env_only_trans [OF e0] by auto
  next
    case False
    from c False obtain t0 where run: "env_only s0 t0" "insert_payment p1 t0 = (r1, s1)"
      by (cases rule: pool_call_cases) auto
    have et: "env_only s t0" using env_only_trans [OF e0 run(1)] .
    have wt: "payment_wf t0" using assms(3) payment_wf_env [OF et] by simp
    from insert_payment_effect [OF run(2) b1(1) wt b1(2)] False
    have s1: "py_IdempotencyKey p1 \<notin> pt_key ` set (payments s)" "py_ID p1 \<notin> pt_id ` set (payments s)" "payment_wf s1" "pay_base s s1"
      "outbox s1 = outbox s" "prow s1 = (prow s)(py_ID p1 \<mapsto> p1)"
      using payment_env [OF et] prow_env [OF et] by (auto simp: pay_base_def)
    obtain e2 s2 where ev: "insertEvent False (py_ID p1) [] (py_Status p1) ''payment created'' meta_none s1 = (e2, s2)" by fastforce
    note l = insertEvent_effect [OF ev]
    have r: "p' = p1" "s' = s2"
      using assms(1) f c False ev by (cases r1; auto simp: CreatePayment_def p1_def Let_def)+
    have "prow s2 = prow s1" using l by (simp add: prow_def [abs_def] logs_def)
    moreover have "py_ID p \<noteq> uuid_Nil \<Longrightarrow> i = py_ID p" using f by (auto split: if_splits)
    ultimately show thesis using r s1 l logs_wf [OF l s1(3)]
      by (intro created) (auto simp: logs_def p1_def intro: pay_base_trans)
  qed
qed

lemma update_where_cong: "(\<And>t. t \<in> set ts \<Longrightarrow> P t = Q t) \<Longrightarrow> update_where P f ts = update_where Q f ts"
  by (simp add: update_where_def)

text \<open>A retry resets the row of a payment that is FAILED in memory and in the table; nothing changes when it
  is not FAILED in either.\<close>

lemma ResetForRetry_effect:
  assumes "ResetForRetry p s = (err, p', s')" and "payment_wf s"
  shows "payment_wf s' \<and> pay_base s s' \<and> outbox s' = outbox s \<and> row_written (after_reset (now s)) err p p' (prow s) (prow s') \<and>
    pt_key ` set (payments s') = pt_key ` set (payments s) \<and>
    (py_Status p = StatusFailed \<and> (\<exists>q. prow s (py_ID p) = Some q \<and> py_Status q = StatusFailed) \<or> (err \<noteq> None \<and> prow s' = prow s))"
proof (cases "py_Status p = StatusFailed")
  case False
  with assms show ?thesis by (auto simp: ResetForRetry_def row_written_def)
next
  case True
  define f where "f = (\<lambda>t :: payment_tbl. t\<lparr>pt_status := StatusInitiated, pt_failure := None, pt_bankref := None, pt_reservation := None,
                    pt_score := None, pt_decision := None, pt_settled := None, pt_updated := now s\<rparr>)"
  have g: "good_update f (after_reset (now s))"
    by (simp add: good_update_def f_def after_reset_def scanPayment_def payment_statuses_def coalesce_def)
  let ?P = "\<lambda>t. pt_id t = py_ID p \<and> pt_status t = StatusFailed"
  obtain r s1 where u: "pool_call (update_payment ?P f) s = (r, s1)" by fastforce
  show ?thesis
  proof (cases r)
    case (Inl e)
    with update_payment_pool [OF u] have "env_only s s1" by auto
    moreover have "s' = s1" "p' = p" "err \<noteq> None" using assms(1) u Inl True by (auto simp: ResetForRetry_def f_def)
    ultimately show ?thesis using assms(2) payment_env payment_wf_env prow_env by (auto simp: row_written_def)
  next
    case (Inr n)
    with update_payment_pool [OF u] have s1: "n = length (filter ?P (payments s))" "payments s1 = update_where ?P f (payments s)"
      "outbox s1 = outbox s" "pevents s1 = pevents s" "pay_base s s1" by auto
    show ?thesis
    proof (cases "n = 0")
      case n0: True
      then have "payments s1 = payments s" using s1(1,2) by (simp add: filter_empty_conv update_where_none)
      moreover have "s' = s1" "p' = p" "err \<noteq> None" using assms(1) u Inr True n0 by (auto simp: ResetForRetry_def f_def)
      ultimately show ?thesis using s1 assms(2)
        by (simp add: row_written_def payment_wf_def prow_def [abs_def])
    next
      case n1: False
      then obtain t where t: "t \<in> set (payments s)" "pt_id t = py_ID p" "pt_status t = StatusFailed"
        using s1(1) by (auto simp: filter_empty_conv)
      have d: "distinct (map pt_id (payments s))" using assms(2) by (simp add: payment_wf_def)
      have eq: "update_where ?P f (payments s) = update_where (\<lambda>t. pt_id t = py_ID p) f (payments s)"
        by (rule update_where_cong) (use row_unique [OF d t(1)] t in metis)
      have row: "prow s (py_ID p) = Some (scanPayment t)"
        using row_by_SomeI [OF d t(1)] t(2) by (simp add: prow_def)
      obtain e2 s2 where ev: "insertEvent False (py_ID p) (py_Status p) StatusInitiated ''retry initiated'' meta_none s1 = (e2, s2)"
        by fastforce
      note l = insertEvent_effect [OF ev]
      have r: "err = e2" "s' = s2" "p' = (if err = None then after_reset (now s) p else p)"
        using assms(1) u Inr True n1 ev by (auto simp: ResetForRetry_def f_def after_reset_def split: option.splits)
      have "payment_wf s2" using logs_wf [OF l payment_wf_update [OF assms(2) g s1(2,3,4)]] .
      moreover have "prow s2 = prow s1" using l by (simp add: prow_def [abs_def] logs_def)
      moreover have "prow s1 = (prow s)(py_ID p := map_option (after_reset (now s)) (prow s (py_ID p)))"
        using prow_update [OF _ g] s1(2) eq by metis
      moreover have "pt_key ` set (payments s2) = pt_key ` set (payments s)"
        using map_key_update [OF g, of ?P "payments s"] s1(2) l by (metis (no_types, lifting) list.set_map logs_def)
      moreover have "py_Status (scanPayment t) = StatusFailed" using t(3) by (simp add: scanPayment_def)
      ultimately show ?thesis using r l s1 row True
        by (auto simp: row_written_def logs_def intro: pay_base_trans)
    qed
  qed
qed

section \<open>The outbox\<close>

lemma DeleteOutbox_effect:
  assumes "DeleteOutbox i s = (err, s')"
  shows "payments s' = payments s \<and> (if err = None then outbox s' = delete_where (\<lambda>r. ob_ID r = i) (outbox s) else outbox s' = outbox s)"
proof -
  obtain r s1 where c: "pool_call (\<lambda>s. (Inr (), s\<lparr>outbox := delete_where (\<lambda>r. ob_ID r = i) (outbox s)\<rparr>)) s = (r, s1)" by fastforce
  have r: "s' = s1" "(err = None) = (\<not> isl r)" using assms c by (auto simp: DeleteOutbox_def split: sum.splits)
  from c show ?thesis
  proof (cases rule: pool_call_cases)
    case (fault e)
    then show ?thesis using r by (auto simp: payment_env)
  next
    case (run s0)
    then show ?thesis using r payment_env [OF run(1)] by auto
  qed
qed

lemma ListOutbox_effect:
  assumes "ListOutbox n s = (r, s')"
  shows "payments s' = payments s \<and> outbox s' = outbox s \<and> (\<forall>rows. r = Inr rows \<longrightarrow> set rows \<subseteq> set (outbox s))"
proof -
  let ?q = "\<lambda>s :: payment_db. (Inr (take (nat (if n \<le> 0 then 50 else n)) (sort_key ob_CreatedAt (outbox s))) :: OutboxRow list res, s)"
  obtain r1 s1 where c: "pool_call ?q s = (r1, s1)" by fastforce
  have r: "s' = s1" "\<And>x. r = Inr x \<Longrightarrow> r1 = Inr x" using assms c by (auto simp: ListOutbox_def Let_def split: sum.splits)
  from c show ?thesis
  proof (cases rule: pool_call_cases)
    case (fault e)
    then show ?thesis using r by (auto simp: payment_env)
  next
    case (run s0)
    note e = payment_env [OF run(1)]
    have "set rows \<subseteq> set (outbox s)" if "r = Inr rows" for rows
    proof -
      have "rows = take (nat (if n \<le> 0 then 50 else n)) (sort_key ob_CreatedAt (outbox s))"
        using r(2) [OF that] run(3) e(3) by simp
      then show ?thesis using set_take_subset [of _ "sort_key ob_CreatedAt (outbox s)"] by simp
    qed
    with run(3) r(1) e show ?thesis by simp
  qed
qed

end
