(* ===== verification/Payment_Correct.thy ===== *)
theory Payment_Correct
  imports Payment_Props
begin

text \<open>
  The correctness of the payment service's own state: its tables, the outbox relay, the fee and the lines it
  posts, and what its handler shows to a merchant.
\<close>

section \<open>A concrete payment service\<close>

text \<open>One payment, created; a stale one; and an orchestrator whose other services are down.\<close>

definition pay_s0 :: payment_db where
  "pay_s0 = \<lparr>now = 0, script = [], aborted = False, uuid_src = of_nat, n_uuid = 1, codec = unary_codec, idem_kv = (\<lambda>_. None),
     payments = [], pevents = [], outbox = []\<rparr>"

definition pay_new :: Payment where
  "pay_new = \<lparr>py_ID = 5, py_IdempotencyKey = ''k'', py_MerchantID = 7, py_ConsentID = 8, py_ConsumerID = [],
     py_AmountPence = 1000, py_Currency = ''GBP'', py_Status = StatusInitiated, py_BankPaymentRef = [],
     py_ReservationID = None, py_RiskScore = None, py_RiskDecision = [], py_FailureReason = [],
     py_Description = ''d'', py_InitiatedAt = 0, py_SettledAt = None, py_UpdatedAt = 0\<rparr>"

definition pay_s1 :: payment_db where
  "pay_s1 = snd (snd (CreatePayment pay_new pay_s0))"

definition down :: "'r \<Rightarrow> 'w \<Rightarrow> 'a res \<times> 'w" where
  "down r w = (Inl (StatusError codes_Unavailable ''down'' []), w)"

definition lone_orc :: "payment_db Orchestrator" where
  "lone_orc =
     \<lparr>o_repo = \<lparr>r_CreatePayment = CreatePayment, r_GetByID = GetByID, r_GetByIdempotencyKey = GetByIdempotencyKey,
        r_UpdateAfterConsent = UpdateAfterConsent, r_UpdateAfterRisk = UpdateAfterRisk, r_UpdateAfterBank = UpdateAfterBank,
        r_SettleWithOutbox = SettleWithOutbox, r_MarkFailed = MarkFailed, r_MarkManualReview = MarkManualReview,
        r_ResetForRetry = ResetForRetry\<rparr>,
      o_idem = \<lparr>i_Begin = idem_Begin, i_Complete = idem_Complete, i_Release = idem_Release,
        i_WaitForCompletion = idem_WaitForCompletion (\<lambda>s. (None, s))\<rparr>,
      o_consent = \<lparr>c_ValidateAndReserve = down, c_ConfirmReservation = down, c_ReleaseReservation = down\<rparr>,
      o_risk = \<lparr>k_Score = down\<rparr>,
      o_bank = \<lparr>b_InitiatePayment = down, b_GetPaymentStatus = down, b_ReversePayment = down\<rparr>,
      o_ledger = \<lparr>l_PostDoubleEntry = down, l_ReverseEntry = down\<rparr>,
      o_codec = unary_codec, o_NewUUID = fresh_uuid\<rparr>"

definition lone_handler :: "payment_db Handler" where
  "lone_handler = \<lparr>h_orch = lone_orc, h_GetByID = GetByID, h_GetByIDAndMerchant = GetByIDAndMerchant\<rparr>"

lemma blank_pay_new: "blank pay_new" "py_Status pay_new \<noteq> StatusSettled"
  by (simp_all add: blank_def pay_new_def)

lemma pay_s0_wf: "payment_wf pay_s0"
  by (simp add: payment_wf_def pay_s0_def)

lemma pay_s1_created: "CreatePayment pay_new pay_s0 = (None, pay_new, pay_s1)"
proof -
  have "fst (CreatePayment pay_new pay_s0) = None \<and> fst (snd (CreatePayment pay_new pay_s0)) = pay_new" by code_simp
  then show ?thesis by (simp add: pay_s1_def prod_eq_iff)
qed

lemma pay_s1_facts: "payment_wf pay_s1" "prow pay_s1 5 = Some pay_new"
proof -
  have "payment_wf pay_s1 \<and> prow pay_s1 5 = Some pay_new"
    using pay_s1_created blank_pay_new(1) pay_s0_wf blank_pay_new(2)
    by (cases rule: CreatePayment_effect) (auto simp: pay_new_def)
  then show "payment_wf pay_s1" "prow pay_s1 5 = Some pay_new" by auto
qed

section \<open>The tables\<close>

text \<open>C8: settling is atomic: on an error no table changed; on success the row is settled, and exactly one message
  with the payment's data joined the outbox in the same transaction.\<close>

theorem settle_atomic:
  assumes "payment_wf s" and "SettleWithOutbox p s = (err, p', s')"
  shows "(err \<noteq> None \<and> p' = p \<and> payments s' = payments s \<and> pevents s' = pevents s \<and> outbox s' = outbox s) \<or>
    (err = None \<and> prow s' (py_ID p) = map_option (after_settle (now s)) (prow s (py_ID p)) \<and>
     (\<exists>row. outbox s' = outbox s @ [row] \<and> ob_Key row = uc_String (codec s) (py_ID p) \<and>
        ob_Payload row = buildSettledPayload (codec s) p (now s)))"
  using assms(2,1) by (cases rule: SettleWithOutbox_effect) (auto simp: payment_env settles_def)

theorem settle_atomic_witness:
  "case SettleWithOutbox pay_new pay_s1 of (err, p', s') \<Rightarrow>
     err = None \<and> map_option py_Status (prow s' 5) = Some StatusSettled \<and> length (outbox s') = 1"
proof -
  obtain err p' s' where a: "SettleWithOutbox pay_new pay_s1 = (err, p', s')" by (metis surj_pair)
  have "fst (SettleWithOutbox pay_new pay_s1) = None \<and> outbox pay_s1 = []" by code_simp
  with settle_atomic [OF pay_s1_facts(1) a] a pay_s1_facts(2) show ?thesis
    by (auto simp: pay_new_def after_settle_def)
qed

text \<open>The successful methods a saga calls on its payment.\<close>

inductive pay_step :: "Payment \<times> payment_db \<Rightarrow> Payment \<times> payment_db \<Rightarrow> bool" where
  consent: "UpdateAfterConsent rid cid p s = (None, p', s') \<Longrightarrow> pay_step (p, s) (p', s')"
| risk: "UpdateAfterRisk score d p s = (None, p', s') \<Longrightarrow> pay_step (p, s) (p', s')"
| bank: "UpdateAfterBank ref p s = (None, p', s') \<Longrightarrow> pay_step (p, s) (p', s')"
| settle: "SettleWithOutbox p s = (None, p', s') \<Longrightarrow> pay_step (p, s) (p', s')"
| failed: "MarkFailed reason p s = (None, p', s') \<Longrightarrow> pay_step (p, s) (p', s')"
| review: "MarkManualReview reason p s = (None, p', s') \<Longrightarrow> pay_step (p, s) (p', s')"
| reset: "ResetForRetry p s = (None, p', s') \<Longrightarrow> pay_step (p, s) (p', s')"

lemma py_ID_after [simp]:
  "py_ID (after_consent r c t p) = py_ID p" "py_ID (after_risk x d t p) = py_ID p" "py_ID (after_bank b t p) = py_ID p"
  "py_ID (marked st w t p) = py_ID p" "py_ID (after_settle t p) = py_ID p" "py_ID (after_reset t p) = py_ID p"
  by (simp_all add: after_defs)

lemma row_written_tracks:
  "row_written g None p p' rows rows' \<Longrightarrow> rows (py_ID p) = Some p \<Longrightarrow> py_ID (g p) = py_ID p \<Longrightarrow> rows' (py_ID p') = Some p'"
  by (simp add: row_written_def)

lemma pay_step_tracks:
  assumes "pay_step x y" and "payment_wf (snd x)" and "prow (snd x) (py_ID (fst x)) = Some (fst x)"
  shows "payment_wf (snd y) \<and> prow (snd y) (py_ID (fst y)) = Some (fst y)"
  using assms
proof (cases rule: pay_step.cases)
  case (consent rid cid p s p' s')
  from UpdateAfterConsent_effect [OF consent(3)] consent assms(2,3) row_written_tracks show ?thesis
    by (fastforce simp: repo_update_def)
next
  case (risk score d p s p' s')
  from UpdateAfterRisk_effect [OF risk(3)] risk assms(2,3) row_written_tracks show ?thesis
    by (fastforce simp: repo_update_def)
next
  case (bank ref p s p' s')
  from UpdateAfterBank_effect [OF bank(3)] bank assms(2,3) row_written_tracks show ?thesis
    by (fastforce simp: repo_update_def)
next
  case (failed reason p s p' s')
  from MarkFailed_effect [OF failed(3)] failed assms(2,3) row_written_tracks show ?thesis
    by (fastforce simp: repo_update_def)
next
  case (review reason p s p' s')
  from MarkManualReview_effect [OF review(3)] review assms(2,3) row_written_tracks show ?thesis
    by (fastforce simp: repo_update_def)
next
  case (reset p s p' s')
  from ResetForRetry_effect [OF reset(3)] reset assms(2,3) row_written_tracks show ?thesis by fastforce
next
  case (settle p s p' s')
  have "payment_wf s" using settle assms(2) by simp
  from settle(3) this show ?thesis
    by (cases rule: SettleWithOutbox_effect) (use settle assms(3) in \<open>auto simp: settles_def\<close>)
qed

text \<open>The record a saga holds in memory is the row of the database after any sequence of its methods that
  succeed, and the invariant of the tables holds.\<close>

theorem memory_tracks_row:
  assumes "pay_step\<^sup>*\<^sup>* (p, s) (p', s')" and "payment_wf s" and "prow s (py_ID p) = Some p"
  shows "payment_wf s' \<and> prow s' (py_ID p') = Some p'"
proof -
  have "payment_wf (snd (p', s')) \<and> prow (snd (p', s')) (py_ID (fst (p', s'))) = Some (fst (p', s'))"
    using assms(1) by (induction rule: rtranclp_induct) (use assms(2,3) pay_step_tracks in auto)
  then show ?thesis by simp
qed

definition pay_s2 :: payment_db where
  "pay_s2 = snd (snd (UpdateAfterConsent 9 ''u'' pay_new pay_s1))"

theorem memory_tracks_row_witness:
  "payment_wf pay_s2 \<and> prow pay_s2 5 = Some (after_consent 9 ''u'' 0 pay_new)"
proof -
  have "fst (UpdateAfterConsent 9 ''u'' pay_new pay_s1) = None \<and>
      fst (snd (UpdateAfterConsent 9 ''u'' pay_new pay_s1)) = after_consent 9 ''u'' 0 pay_new" by code_simp
  then have "UpdateAfterConsent 9 ''u'' pay_new pay_s1 = (None, after_consent 9 ''u'' 0 pay_new, pay_s2)"
    by (simp add: pay_s2_def prod_eq_iff)
  then have "pay_step\<^sup>*\<^sup>* (pay_new, pay_s1) (after_consent 9 ''u'' 0 pay_new, pay_s2)"
    by (auto intro: pay_step.intros)
  from memory_tracks_row [OF this pay_s1_facts(1)] pay_s1_facts(2) show ?thesis by (simp add: pay_new_def)
qed

text \<open>A payment that was created can be read back as it was created, and its idempotency key creates no second
  row: a later attempt with the same key fails and leaves every table as it was.\<close>

theorem create_roundtrip:
  assumes "payment_wf s" and "blank p" and "py_Status p \<noteq> StatusSettled" and "CreatePayment p s = (None, p', s1)"
    and "GetByID (py_ID p') s1 = (Inr q, s2)"
    and "blank p2" and "py_Status p2 \<noteq> StatusSettled" and "py_IdempotencyKey p2 = py_IdempotencyKey p"
    and "CreatePayment p2 s1 = (err, p3, s3)"
  shows "q = p' \<and> err \<noteq> None \<and> payments s3 = payments s1 \<and> pevents s3 = pevents s1 \<and> outbox s3 = outbox s1"
  using assms(4,2,1,3)
proof (cases rule: CreatePayment_effect)
  case created
  have q: "q = p'" using GetByID_effect [OF assms(5)] created(6) by auto
  have row: "prow s1 (py_ID p') = Some p'" using created(6) by simp
  have "py_IdempotencyKey p' = py_IdempotencyKey p" by (subst created(7)) simp
  moreover obtain t where "t \<in> set (payments s1)" "scanPayment t = p'"
    using row by (auto simp: prow_def dest!: row_by_SomeD)
  then have "py_IdempotencyKey p' \<in> pt_key ` set (payments s1)" by (auto simp: scanPayment_def)
  ultimately have key: "py_IdempotencyKey p2 \<in> pt_key ` set (payments s1)" using assms(8) by simp
  from assms(9,6) created(3) assms(7) show ?thesis
  proof (cases rule: CreatePayment_effect)
    case (refused e)
    then show ?thesis using q by (simp add: payment_env)
  qed (use key in simp)
qed simp

theorem create_roundtrip_witness:
  "case GetByID 5 pay_s1 of (r, s2) \<Rightarrow> r = Inr pay_new \<and>
    (case CreatePayment (pay_new\<lparr>py_ID := 6\<rparr>) pay_s1 of (err, p3, s3) \<Rightarrow> err \<noteq> None \<and> payments s3 = payments pay_s1)"
proof -
  obtain r s2 where g: "GetByID 5 pay_s1 = (r, s2)" by fastforce
  obtain err p3 s3 where c: "CreatePayment (pay_new\<lparr>py_ID := 6\<rparr>) pay_s1 = (err, p3, s3)" by (metis surj_pair)
  have "\<not> isl (fst (GetByID 5 pay_s1))" by code_simp
  with g obtain q where q: "r = Inr q" by (cases r) auto
  have "blank (pay_new\<lparr>py_ID := 6\<rparr>)" "py_Status (pay_new\<lparr>py_ID := 6\<rparr>) \<noteq> StatusSettled" "py_ID pay_new = 5"
    by (simp_all add: blank_def pay_new_def)
  with create_roundtrip [OF pay_s0_wf blank_pay_new pay_s1_created _ _ _ _ c, of q s2] g q c show ?thesis by auto
qed

text \<open>Only a payment that is FAILED, in memory and in the table, is reset for a retry; otherwise the reset fails and no
  row changes.\<close>

theorem retry_only_failed:
  assumes "payment_wf s" and "ResetForRetry p s = (err, p', s')"
  shows "(py_Status p = StatusFailed \<and> (\<exists>q. prow s (py_ID p) = Some q \<and> py_Status q = StatusFailed)) \<or>
    (err \<noteq> None \<and> prow s' = prow s)"
  using ResetForRetry_effect [OF assms(2,1)] by blast

theorem retry_only_failed_witness:
  "case ResetForRetry pay_new pay_s1 of (err, p', s') \<Rightarrow> err \<noteq> None \<and> prow s' = prow pay_s1"
proof -
  obtain err p' s' where a: "ResetForRetry pay_new pay_s1 = (err, p', s')" by (metis surj_pair)
  from retry_only_failed [OF pay_s1_facts(1) a] a show ?thesis by (simp add: pay_new_def)
qed

text \<open>The reconciler is offered in-flight payments only, none younger than the threshold, at most 50 and oldest first,
  and all of them when there are at most 50.\<close>

theorem stale_listing:
  assumes "ListStaleInFlightPayments d s = (Inr ps, s')"
  shows "length ps \<le> 50 \<and> sorted (map py_UpdatedAt ps) \<and>
    (\<forall>p. p \<in> set ps \<longrightarrow> in_flight (py_Status p) \<and> py_UpdatedAt p < now s - d) \<and>
    (length (filter (\<lambda>t. in_flight (pt_status t) \<and> pt_updated t < now s - d) (payments s)) \<le> 50 \<longrightarrow>
     set ps = scanPayment ` {t \<in> set (payments s). in_flight (pt_status t) \<and> pt_updated t < now s - d})"
proof -
  let ?q = "\<lambda>t :: payment_db. (Inr (map scanPayment (stale_rows (now s - d) (payments t))) :: Payment list res, t)"
  obtain r s1 where c: "pool_call ?q s = (r, s1)" by fastforce
  then have r: "r = Inr ps" using assms by (auto simp: ListStaleInFlightPayments_def split: sum.splits)
  from c have ps: "ps = map scanPayment (stale_rows (now s - d) (payments s))"
    by (cases rule: pool_call_cases) (use r payment_env(1) in auto)
  let ?ts = "filter (\<lambda>t. in_flight (pt_status t) \<and> pt_updated t < now s - d) (payments s)"
  have "map py_UpdatedAt ps = take 50 (map pt_updated (sort_key pt_updated ?ts))"
    using ps by (simp add: stale_rows_def scanPayment_def comp_def take_map)
  then have "sorted (map py_UpdatedAt ps)" by (simp add: sorted_wrt_take)
  moreover have "length ps \<le> 50" using ps by (simp add: stale_rows_def)
  moreover have "\<forall>p. p \<in> set ps \<longrightarrow> in_flight (py_Status p) \<and> py_UpdatedAt p < now s - d"
    using ps by (auto simp: stale_rows_def scanPayment_def dest!: in_set_takeD)
  moreover have "set ps = scanPayment ` set ?ts" if "length ?ts \<le> 50" using that ps by (simp add: stale_rows_def)
  ultimately show ?thesis by auto
qed

theorem stale_listing_witness:
  "case ListStaleInFlightPayments 10 (pay_s1\<lparr>now := 100\<rparr>) of (r, s') \<Rightarrow> (\<exists>ps. r = Inr ps \<and> set ps = {pay_new})"
proof -
  obtain r s' where a: "ListStaleInFlightPayments 10 (pay_s1\<lparr>now := 100\<rparr>) = (r, s')" by fastforce
  have "\<not> isl (fst (ListStaleInFlightPayments 10 (pay_s1\<lparr>now := 100\<rparr>)))" by code_simp
  with a obtain ps where ps: "r = Inr ps" by (cases r) auto
  define ts where "ts = filter (\<lambda>t. in_flight (pt_status t) \<and> pt_updated t < 90) (payments pay_s1)"
  have p: "length ts = 1" "map scanPayment ts = [pay_new]" unfolding ts_def by code_simp+
  note c = stale_listing [OF a [unfolded ps]]
  have "set ps = scanPayment ` {t \<in> set (payments pay_s1). in_flight (pt_status t) \<and> pt_updated t < 90}"
    using c p(1) by (simp add: ts_def)
  also have "\<dots> = set (map scanPayment ts)" by (simp only: ts_def list.set_map set_filter)
  finally have "set ps = {pay_new}" using p(2) by simp
  then show ?thesis by (simp only: a ps prod.case) blast
qed

section \<open>The outbox relay\<close>

text \<open>What the relay relies on in a Kafka writer: a message whose write returned no error is on the broker's
  log, and no write removes a message from it.\<close>

definition writer_ok :: "('k \<Rightarrow> kafka_Message set) \<Rightarrow> 'k kafka_Writer \<Rightarrow> bool" where
  "writer_ok log write \<longleftrightarrow> (\<forall>m k. log k \<subseteq> log (snd (write m k)) \<and> (fst (write m k) = None \<longrightarrow> m \<in> log (snd (write m k))))"

lemma flush_rows_log: "writer_ok log write \<Longrightarrow> flush_rows write rows (s, k) = (s', k') \<Longrightarrow> log k \<subseteq> log k'"
proof (induction rows arbitrary: s k)
  case (Cons row rows)
  obtain e k1 where w: "write (outbox_message row) k = (e, k1)" by fastforce
  then have "log k \<subseteq> log k1" using Cons.prems(1) unfolding writer_ok_def by (metis snd_conv)
  with Cons w show ?case by (fastforce split: option.splits prod.splits)
qed simp

lemma flush_rows_effect:
  assumes "writer_ok log write" and "flush_rows write rows (s, k) = (s', k')" and "distinct (map ob_ID (outbox s))"
    and "set rows \<subseteq> set (outbox s)" and "distinct (map ob_ID rows)"
  shows "payments s' = payments s \<and> (\<forall>row. row \<in> set (outbox s) \<longrightarrow> row \<in> set (outbox s') \<or> outbox_message row \<in> log k')"
  using assms(2-5)
proof (induction rows arbitrary: s k)
  case (Cons row rows)
  obtain e k1 where w: "write (outbox_message row) k = (e, k1)" by fastforce
  show ?case
  proof (cases e)
    case (Some err)
    with Cons.prems(1) w show ?thesis by auto
  next
    case None
    obtain d s1 where del: "DeleteOutbox (ob_ID row) s = (d, s1)" by fastforce
    note eff = DeleteOutbox_effect [OF del]
    show ?thesis
    proof (cases d)
      case (Some err)
      with Cons.prems(1) w None del eff show ?thesis by auto
    next
      case d: None
      have fl: "flush_rows write rows (s1, k1) = (s', k')" using Cons.prems(1) w None del d by simp
      have o: "outbox s1 = filter (\<lambda>r. ob_ID r \<noteq> ob_ID row) (outbox s)" "payments s1 = payments s"
        using eff d by (simp_all add: delete_where_def)
      have "distinct (map ob_ID (outbox s1))" using Cons.prems(2) o(1) by (simp add: distinct_map_filter)
      moreover have "set rows \<subseteq> set (outbox s1)" using Cons.prems(3,4) o(1) by (auto simp: image_iff dest: sym)
      ultimately have ih: "payments s' = payments s1"
          "\<forall>r. r \<in> set (outbox s1) \<longrightarrow> r \<in> set (outbox s') \<or> outbox_message r \<in> log k'"
        using Cons.IH [OF fl] Cons.prems(4) by auto
      have "outbox_message row \<in> log k1" using assms(1) w None unfolding writer_ok_def by (metis fst_conv snd_conv)
      then have m: "outbox_message row \<in> log k'" using flush_rows_log [OF assms(1) fl] by auto
      have "r \<in> set (outbox s') \<or> outbox_message r \<in> log k'" if "r \<in> set (outbox s)" for r
      proof (cases "ob_ID r = ob_ID row")
        case True
        then have "r = row" using row_unique [OF Cons.prems(2) that] Cons.prems(3) by auto
        with m show ?thesis by simp
      next
        case False
        with that o(1) ih(2) show ?thesis by simp
      qed
      with ih(1) o(2) show ?thesis by simp
    qed
  qed
qed auto

text \<open>C15: the relay loses no message: whatever fails in a flush, every message of the outbox is still there or was
  accepted by the broker, and no payment changed.\<close>

theorem relay_at_least_once:
  assumes "writer_ok log write" and "payment_wf s" and "flush write (s, k) = (s', k')" and "row \<in> set (outbox s)"
  shows "payments s' = payments s \<and> (row \<in> set (outbox s') \<or> outbox_message row \<in> log k')"
proof -
  let ?q = "\<lambda>s :: payment_db. (Inr (take 100 (sort_key ob_CreatedAt (outbox s))) :: OutboxRow list res, s)"
  obtain r s1 where l: "ListOutbox 100 s = (r, s1)" by fastforce
  note e = ListOutbox_effect [OF l]
  show ?thesis
  proof (cases r)
    case (Inl err)
    with assms(3,4) l e show ?thesis by (simp add: flush_def)
  next
    case (Inr rows)
    obtain r1 s2 where c: "pool_call ?q s = (r1, s2)" by fastforce
    have "r1 = Inr rows" using l Inr c by (auto simp: ListOutbox_def split: sum.splits)
    with c have rows: "rows = take 100 (sort_key ob_CreatedAt (outbox s))"
      by (cases rule: pool_call_cases) (use payment_env(3) in auto)
    have d: "distinct (map ob_ID (outbox s))" using assms(2) by (simp add: payment_wf_def)
    then have "distinct (map ob_ID (sort_key ob_CreatedAt (outbox s)))"
      by (simp add: distinct_map)
    then have "distinct (map ob_ID rows)" using rows by (simp add: take_map [symmetric])
    moreover have "flush_rows write rows (s1, k) = (s', k')" using assms(3) l Inr by (simp add: flush_def)
    ultimately show ?thesis using flush_rows_effect [OF assms(1)] e Inr d assms(4) by metis
  qed
qed

text \<open>A writer that never fails, on the list of the messages it has.\<close>

definition good_writer :: "kafka_Message list kafka_Writer" where
  "good_writer m k = (None, k @ [m])"

lemma good_writer_ok: "writer_ok set good_writer"
  by (auto simp: writer_ok_def good_writer_def)

definition pay_s3 :: payment_db where
  "pay_s3 = snd (snd (SettleWithOutbox pay_new pay_s1))"

lemma pay_s3_settled: "outbox pay_s3 \<noteq> [] \<and> payment_wf pay_s3"
proof -
  obtain err p' where st: "SettleWithOutbox pay_new pay_s1 = (err, p', pay_s3)" by (metis pay_s3_def prod.collapse)
  have e: "fst (SettleWithOutbox pay_new pay_s1) = None" "outbox pay_s3 \<noteq> []" by code_simp+
  from st pay_s1_facts(1) show ?thesis
    by (cases rule: SettleWithOutbox_effect) (use e st in \<open>auto simp: settles_def\<close>)
qed

theorem relay_at_least_once_witness:
  "case flush good_writer (pay_s3, []) of (s', k') \<Rightarrow>
     hd (outbox pay_s3) \<in> set (outbox s') \<or> outbox_message (hd (outbox pay_s3)) \<in> set k'"
proof -
  obtain s' k' where a: "flush good_writer (pay_s3, []) = (s', k')" by fastforce
  from relay_at_least_once [OF good_writer_ok conjunct2 [OF pay_s3_settled] a, of "hd (outbox pay_s3)"] pay_s3_settled a show ?thesis by simp
qed

section \<open>The fee and the lines\<close>

text \<open>C24: the fee is one per cent, at least one penny, and never more than the amount; the merchant's share and the fee
  add up to the amount, so the settlement's one debit equals its two credits, and from two pence up every
  line is positive. No step overflows below 2^63 / 100 pence.\<close>

theorem fee_splits_amount:
  assumes "0 < a" and "a * 100 < 2 ^ 63"
  shows "platformFee a = max 1 (a div 100) \<and> sub64 a (platformFee a) + platformFee a = a \<and>
    0 < platformFee a \<and> 0 \<le> sub64 a (platformFee a) \<and> (0 < sub64 a (platformFee a) \<longleftrightarrow> 2 \<le> a)"
proof -
  have "is_int64 (a * 100)" using assms by (simp add: is_int64_def)
  then have "mul64 a platformFeeRateBPS = a * 100" by (simp add: mul64_id platformFeeRateBPS_def)
  moreover have "(a * 100) sdiv 10000 = a * 100 div 10000" using assms by (intro sdiv_nonneg) auto
  moreover have "a * 100 div 10000 = a div 100" by simp
  moreover have "0 \<le> a div 100" "a div 100 \<le> a" using assms(1) by presburger+
  then have "is_int64 (a div 100)" using assms by (simp add: is_int64_def)
  moreover have le: "max 1 (a div 100) \<le> a" using assms(1) \<open>a div 100 \<le> a\<close> by simp
  ultimately have fee: "platformFee a = max 1 (a div 100)" using assms(1)
    by (simp add: platformFee_def div64_def minPlatformFeePence_def Let_def max_def)
  have "is_int64 (a - platformFee a)" using fee le assms by (simp add: is_int64_def max_def)
  then have s: "sub64 a (platformFee a) = a - platformFee a" by (simp add: sub64_id)
  have "max 1 (a div 100) < a \<longleftrightarrow> 2 \<le> a" using assms(1) by (auto simp: max_def)
  with s fee le show ?thesis by auto
qed

theorem fee_splits_amount_witness:
  "platformFee 1050 = 10 \<and> sub64 1050 (platformFee 1050) + platformFee 1050 = 1050"
  using fee_splits_amount [of 1050] by (simp add: sub64_def wrap64_def)

text \<open>A payment of one penny can never settle: the fee takes it all, and the merchant's line of zero pence is one the
  ledger refuses. And above 2^63 / 100 pence the fee computed in 64 bits is wrong.\<close>

theorem fee_corner_cases:
  "platformFee 1 = 1 \<and> sub64 1 (platformFee 1) = 0 \<and> platformFee 92233720368547759 = 1"
  by code_simp

section \<open>What a merchant sees\<close>

text \<open>A merchant that names itself reads only its own payments: a payment returned for its id has it as merchant,
  is the row of the given payment id, and a payment of another merchant is reported as not found.\<close>

theorem merchant_isolation:
  assumes "h_GetByIDAndMerchant h = GetByIDAndMerchant" and "o_codec (h_orch h) = c" and "codec_ok c"
    and "TrimSpace (uc_String c m) = uc_String c m" and "TrimSpace (uc_String c i) \<noteq> []"
    and "rpc_GetPayment h (Some \<lparr>gpr_PaymentId = uc_String c i, gpr_MerchantId = uc_String c m\<rparr>) s = (r, s')"
  shows "(\<exists>e. r = Inl e) \<or> (\<exists>p. r = Inr (toProto c p) \<and> prow s i = Some p \<and> py_MerchantID p = m)"
proof -
  have c: "uc_Parse c (uc_String c u) = Some u" "uc_String c u \<noteq> []" for u using assms(3) by (auto simp: codec_ok_def)
  obtain r1 s1 where g: "GetByID i s = (r1, s1)" by fastforce
  from GetByID_effect [OF g] assms(6) show ?thesis
    using assms(1,2,4,5) c g
    by (cases r1) (auto simp: rpc_GetPayment_def find_payment_def GetByIDAndMerchant_def rpc_result_def split: if_splits)
qed

theorem merchant_isolation_witness:
  "case rpc_GetPayment lone_handler (Some \<lparr>gpr_PaymentId = uc_String unary_codec 5, gpr_MerchantId = uc_String unary_codec 3\<rparr>) pay_s1 of
     (r, s') \<Rightarrow> isl r"
proof -
  obtain r s' where a: "rpc_GetPayment lone_handler (Some \<lparr>gpr_PaymentId = uc_String unary_codec 5, gpr_MerchantId = uc_String unary_codec 3\<rparr>) pay_s1 = (r, s')"
    by fastforce
  have t: "TrimSpace (uc_String unary_codec 3) = uc_String unary_codec 3" "TrimSpace (uc_String unary_codec 5) \<noteq> []" by code_simp+
  have h: "h_GetByIDAndMerchant lone_handler = GetByIDAndMerchant" "o_codec (h_orch lone_handler) = unary_codec"
    by (simp_all add: lone_handler_def lone_orc_def)
  from merchant_isolation [OF h codec_ok_unary t a] pay_s1_facts(2) a show ?thesis by (auto simp: pay_new_def)
qed

end
