(* ===== verification/Bank.thy ===== *)
theory Bank
  imports Proto Complex_Main
begin

text \<open>
  The bank: the gRPC adapter \<open>services/bank-adapter/internal/adapter.go\<close> and the mock Open Banking server
  \<open>services/bank-adapter/internal/mockbank/server.go\<close> it talks to over HTTP.
  \<^item> \<open>bank_db\<close> is the state of both: the server's payments, its failure rate with the source of random
    numbers it compares it to, and the network between adapter and server (\<open>net_script\<close>: an HTTP exchange
    takes one entry; \<open>lost_request\<close> fails before the server sees the request, \<open>lost_response\<close> after it has
    acted; past the end of the script nothing is lost), and the circuit breaker's own state \<open>'c\<close>.
  \<^item> The circuit breaker (\<open>sony/gobreaker\<close>) and the retry loop (\<open>avast/retry-go\<close>) are not part of the
    repository: they are the fields of \<open>bank_lib\<close>, and \<open>bank_lib_ok\<close> is their documented behaviour. \<open>std_lib\<close> is
    an instance.
  \<^item> A request and a JSON reply are records; a field missing from the reply is the zero value. Their text
    and the routing of paths are not modelled, nor are the 50 ms pauses of the server.
  The lemmas are in the theory \<open>Bank_Correct\<close>.
\<close>

section \<open>The mock bank\<close>

record paymentRecord =
  mb_PaymentID :: string
  mb_BankConsentRef :: string
  mb_ConsumerID :: string
  mb_AmountPence :: int
  mb_Currency :: string
  mb_Description :: string
  mb_BankPaymentRef :: string
  mb_Status :: string
  mb_FailureReason :: string
  mb_ReversalRef :: string
  mb_CreatedAt :: int
  mb_UpdatedAt :: int

record httpInitiateReq =
  hi_PaymentID :: string
  hi_BankConsentRef :: string
  hi_ConsumerID :: string
  hi_AmountPence :: int
  hi_Currency :: string
  hi_Description :: string

datatype http_req =
    POST_payments httpInitiateReq
  | GET_payment string
  | POST_reverse string string

text \<open>The JSON object of a reply, for \<open>httpInitiateResp\<close>, \<open>httpStatusResp\<close> and \<open>httpReverseResp\<close>.\<close>

record bank_body =
  bb_BankPaymentRef :: string
  bb_Status :: string
  bb_FailureReason :: string
  bb_ReversalRef :: string
  bb_UpdatedAt :: "int option"

datatype http_resp =
    http_Error int string
  | writeJSON int bank_body

datatype net_fault = lost_request string | lost_response string

record 'c bank_db = env +
  bk_payments :: "string \<Rightarrow> paymentRecord option"
  bk_failRate :: rat
  bk_rand :: "nat \<Rightarrow> rat"
  bk_nrand :: nat
  net_script :: "net_fault option list"
  cb_state :: 'c

definition zero_body :: bank_body where
  "zero_body = \<lparr>bb_BankPaymentRef = [], bb_Status = [], bb_FailureReason = [], bb_ReversalRef = [], bb_UpdatedAt = None\<rparr>"

definition rand_Float64 :: "'c bank_db \<Rightarrow> rat \<times> 'c bank_db" where
  "rand_Float64 s = (bk_rand s (bk_nrand s), s\<lparr>bk_nrand := Suc (bk_nrand s)\<rparr>)"

definition shouldFail :: "'c bank_db \<Rightarrow> bool \<times> 'c bank_db" where
  "shouldFail s =
     (if bk_failRate s \<le> 0 then (False, s)
      else if bk_failRate s \<ge> 1 then (True, s)
      else case rand_Float64 s of (x, s1) \<Rightarrow> (x < bk_failRate s1, s1))"

text \<open>\<open>prefix + strings.ToUpper(strings.ReplaceAll(uuid.NewString(), "-", "")[:n])\<close>.\<close>

definition new_ref :: "string \<Rightarrow> nat \<Rightarrow> 'c bank_db \<Rightarrow> string \<times> 'c bank_db" where
  "new_ref prefix n s =
     (case fresh_uuid s of
        (u, s1) \<Rightarrow> (prefix @ ToUpper (take n (filter (\<lambda>c. c \<noteq> CHR ''-'') (uc_String (codec s1) u))), s1))"

definition writeFailure :: "'c bank_db \<Rightarrow> http_resp \<times> 'c bank_db" where
  "writeFailure s =
     (case rand_Float64 s of
        (x, s1) \<Rightarrow>
          if x < 1 / 2 then
            (case new_ref ''FPS-'' 16 s1 of
               (ref, s2) \<Rightarrow>
                 (writeJSON 200 (zero_body\<lparr>bb_BankPaymentRef := ref, bb_Status := ''REJECTED'',
                                    bb_FailureReason := ''mock bank simulated rejection''\<rparr>),
                  s2\<lparr>bk_payments := (bk_payments s2)(ref \<mapsto>
                       \<lparr>mb_PaymentID = [], mb_BankConsentRef = [], mb_ConsumerID = [], mb_AmountPence = 0,
                        mb_Currency = [], mb_Description = [], mb_BankPaymentRef = ref, mb_Status = ''REJECTED'',
                        mb_FailureReason = ''mock bank simulated rejection'', mb_ReversalRef = [],
                        mb_CreatedAt = now s2, mb_UpdatedAt = now s2\<rparr>)\<rparr>))
          else (http_Error 503 ''mock bank unavailable'', s1))"

definition new_payment :: "httpInitiateReq \<Rightarrow> string \<Rightarrow> int \<Rightarrow> paymentRecord" where
  "new_payment req ref t =
     \<lparr>mb_PaymentID = hi_PaymentID req, mb_BankConsentRef = hi_BankConsentRef req,
      mb_ConsumerID = hi_ConsumerID req, mb_AmountPence = hi_AmountPence req,
      mb_Currency = (if hi_Currency req = [] then ''GBP'' else hi_Currency req),
      mb_Description = hi_Description req, mb_BankPaymentRef = ref, mb_Status = ''SETTLED'',
      mb_FailureReason = [], mb_ReversalRef = [], mb_CreatedAt = t, mb_UpdatedAt = t\<rparr>"

definition handleInitiate :: "httpInitiateReq \<Rightarrow> 'c bank_db \<Rightarrow> http_resp \<times> 'c bank_db" where
  "handleInitiate req s =
     (case shouldFail s of
        (True, s1) \<Rightarrow> writeFailure s1
      | (False, s1) \<Rightarrow>
          if hi_PaymentID req = [] \<or> hi_BankConsentRef req = [] \<or> hi_AmountPence req \<le> 0
          then (http_Error 400 ''payment_id, bank_consent_ref and positive amount_pence required'', s1)
          else
            (case new_ref ''FPS-'' 16 s1 of
               (ref, s2) \<Rightarrow>
                 (writeJSON 200 (zero_body\<lparr>bb_BankPaymentRef := ref, bb_Status := ''SETTLED''\<rparr>),
                  s2\<lparr>bk_payments := (bk_payments s2)(ref \<mapsto> new_payment req ref (now s2))\<rparr>)))"

definition handleStatus :: "string \<Rightarrow> 'c bank_db \<Rightarrow> http_resp \<times> 'c bank_db" where
  "handleStatus ref s =
     (case shouldFail s of
        (True, s1) \<Rightarrow> writeFailure s1
      | (False, s1) \<Rightarrow>
          (case bk_payments s1 ref of
             None \<Rightarrow> (http_Error 404 ''payment not found'', s1)
           | Some rec \<Rightarrow>
               (writeJSON 200 \<lparr>bb_BankPaymentRef = mb_BankPaymentRef rec, bb_Status = mb_Status rec,
                  bb_FailureReason = mb_FailureReason rec, bb_ReversalRef = mb_ReversalRef rec,
                  bb_UpdatedAt = Some (mb_UpdatedAt rec)\<rparr>, s1)))"

definition reversed_body :: "paymentRecord \<Rightarrow> bank_body" where
  "reversed_body rec = zero_body\<lparr>bb_BankPaymentRef := mb_BankPaymentRef rec, bb_ReversalRef := mb_ReversalRef rec,
                                  bb_Status := mb_Status rec\<rparr>"

definition handleReverse :: "string \<Rightarrow> string \<Rightarrow> 'c bank_db \<Rightarrow> http_resp \<times> 'c bank_db" where
  "handleReverse ref reason s =
     (case shouldFail s of
        (True, s1) \<Rightarrow> writeFailure s1
      | (False, s1) \<Rightarrow>
          (case bk_payments s1 ref of
             None \<Rightarrow> (http_Error 404 ''payment not found'', s1)
           | Some rec \<Rightarrow>
               if mb_Status rec = ''REVERSED'' then (writeJSON 200 (reversed_body rec), s1)
               else if mb_Status rec \<noteq> ''SETTLED'' \<and> mb_Status rec \<noteq> ''AUTHORISED''
               then (http_Error 409 (''payment not reversible in status '' @ mb_Status rec), s1)
               else
                 (case new_ref ''REV-'' 12 s1 of
                    (rref, s2) \<Rightarrow>
                      (let rec' = rec\<lparr>mb_Status := ''REVERSED'', mb_ReversalRef := rref, mb_UpdatedAt := now s2,
                                      mb_FailureReason := (if reason \<noteq> [] then reason else mb_FailureReason rec)\<rparr>
                       in (writeJSON 200 (reversed_body rec'),
                           s2\<lparr>bk_payments := (bk_payments s2)(ref \<mapsto> rec')\<rparr>)))))"

fun mock_Handler :: "http_req \<Rightarrow> 'c bank_db \<Rightarrow> http_resp \<times> 'c bank_db" where
  "mock_Handler (POST_payments req) s = handleInitiate req s"
| "mock_Handler (GET_payment ref) s = handleStatus ref s"
| "mock_Handler (POST_reverse ref reason) s = handleReverse ref reason s"

section \<open>The adapter\<close>

text \<open>\<open>httpClient.Do\<close>: an error of the transport, or the server's reply.\<close>

definition http_Do :: "http_req \<Rightarrow> 'c bank_db \<Rightarrow> http_resp res \<times> 'c bank_db" where
  "http_Do req s =
     (case net_script s of
        [] \<Rightarrow> (case mock_Handler req s of (resp, s1) \<Rightarrow> (Inr resp, s1))
      | None # xs \<Rightarrow> (case mock_Handler req (s\<lparr>net_script := xs\<rparr>) of (resp, s1) \<Rightarrow> (Inr resp, s1))
      | Some (lost_request t) # xs \<Rightarrow> (Inl (OtherError t None), s\<lparr>net_script := xs\<rparr>)
      | Some (lost_response t) # xs \<Rightarrow>
          (case mock_Handler req (s\<lparr>net_script := xs\<rparr>) of (_, s1) \<Rightarrow> (Inl (OtherError t None), s1)))"

definition or_else :: "string \<Rightarrow> string \<Rightarrow> string" where
  "or_else t d = (if t = [] then d else t)"

definition resp_code :: "http_resp \<Rightarrow> int" where
  "resp_code resp = (case resp of http_Error c _ \<Rightarrow> c | writeJSON c _ \<Rightarrow> c)"

text \<open>The text of an error reply (\<open>http.Error\<close> ends it with a newline, which \<open>TrimSpace\<close> removes).\<close>

definition resp_text :: "http_resp \<Rightarrow> string" where
  "resp_text resp = (case resp of http_Error _ t \<Rightarrow> TrimSpace t | writeJSON _ _ \<Rightarrow> [])"

definition doHTTP :: "http_req \<Rightarrow> 'c bank_db \<Rightarrow> bank_body res \<times> 'c bank_db" where
  "doHTTP req s =
     (case http_Do req s of
        (Inl err, s1) \<Rightarrow> (Inl (derr_Wrap CodeBankUnavailable ''bank http call failed'' err), s1)
      | (Inr resp, s1) \<Rightarrow>
          (let code = resp_code resp in
           (if code = 404 then Inl (derr_New CodeNotFound ''bank payment not found'')
            else if code = 400 then Inl (derr_New CodeValidation (or_else (resp_text resp) ''invalid bank request''))
            else if code = 409 then Inl (derr_New CodeConflict (or_else (resp_text resp) ''bank payment conflict''))
            else if code \<ge> 500
            then Inl (TransientError (''bank returned '' @ Itoa code @ '': '' @ resp_text resp))
            else if code < 200 \<or> code \<ge> 300
            then Inl (derr_New CodeBankUnavailable (''bank returned '' @ Itoa code))
            else case resp of
                   writeJSON _ b \<Rightarrow> Inr b
                 | http_Error _ t \<Rightarrow>
                     if t = [] then Inr zero_body
                     else Inl (derr_Wrap CodeInternal ''decode bank response'' (OtherError ''invalid character'' None)),
            s1)))"

definition isTransient :: "goerror \<Rightarrow> bool" where
  "isTransient err \<longleftrightarrow> as_transient err \<noteq> None \<or> derr_Is err CodeBankUnavailable"

definition normalizeErr :: "goerror \<Rightarrow> goerror" where
  "normalizeErr err =
     (case as_transient err of Some msg \<Rightarrow> derr_New CodeBankUnavailable msg | None \<Rightarrow> err)"

definition ErrOpenState :: goerror where "ErrOpenState = OtherError ''circuit breaker is open'' None"
definition ErrTooManyRequests :: goerror where "ErrTooManyRequests = OtherError ''too many requests'' None"

text \<open>\<open>retry.Do\<close> runs a function on a state that also holds the variable \<open>last\<close> of the caller (the result of
  the last attempt); \<open>cb_before\<close> and \<open>cb_after\<close> are the breaker's bookkeeping around \<open>Execute\<close>.\<close>

type_synonym 'c attempt_st = "bank_body res option \<times> 'c bank_db"

record 'c bank_lib =
  retry_Do :: "nat \<Rightarrow> (goerror \<Rightarrow> bool) \<Rightarrow> ('c attempt_st \<Rightarrow> goerror option \<times> 'c attempt_st) \<Rightarrow>
    'c attempt_st \<Rightarrow> goerror option \<times> 'c attempt_st"
  cb_before :: "'c \<Rightarrow> goerror option \<times> 'c"
  cb_after :: "bool \<Rightarrow> 'c \<Rightarrow> 'c"

definition attempt :: "http_req \<Rightarrow> 'c attempt_st \<Rightarrow> goerror option \<times> 'c attempt_st" where
  "attempt req = (\<lambda>(_, s).
     case doHTTP req s of (r, s1) \<Rightarrow> (case r of Inl err \<Rightarrow> Some err | Inr _ \<Rightarrow> None, (Some r, s1)))"

text \<open>The function given to \<open>cb.Execute\<close>.\<close>

definition resilient_call :: "'c bank_lib \<Rightarrow> http_req \<Rightarrow> 'c bank_db \<Rightarrow> bank_body res \<times> 'c bank_db" where
  "resilient_call lib req s =
     (case retry_Do lib 3 isTransient (attempt req) (None, s) of
        (None, (lst, s1)) \<Rightarrow> (case lst of Some (Inr b) \<Rightarrow> Inr b | _ \<Rightarrow> Inr zero_body, s1)
      | (Some rerr, (lst, s1)) \<Rightarrow>
          (Inl (case lst of Some (Inl err) \<Rightarrow> normalizeErr err | _ \<Rightarrow> normalizeErr rerr), s1))"

definition doWithResilience :: "'c bank_lib \<Rightarrow> http_req \<Rightarrow> 'c bank_db \<Rightarrow> bank_body res \<times> 'c bank_db" where
  "doWithResilience lib req s =
     (case cb_before lib (cb_state s) of
        (Some err, c1) \<Rightarrow>
          (Inl (if err = ErrOpenState \<or> err = ErrTooManyRequests
                then derr_New CodeBankUnavailable ''bank circuit breaker open'' else err), s\<lparr>cb_state := c1\<rparr>)
      | (None, c1) \<Rightarrow>
          (case resilient_call lib req (s\<lparr>cb_state := c1\<rparr>) of
             (Inl err, s1) \<Rightarrow>
               (Inl (if err = ErrOpenState \<or> err = ErrTooManyRequests
                     then derr_New CodeBankUnavailable ''bank circuit breaker open'' else err),
                s1\<lparr>cb_state := cb_after lib False (cb_state s1)\<rparr>)
           | (Inr b, s1) \<Rightarrow> (Inr b, s1\<lparr>cb_state := cb_after lib True (cb_state s1)\<rparr>)))"

definition bank_mapStatus :: "string \<Rightarrow> BankPaymentStatus res" where
  "bank_mapStatus t =
     (let u = ToUpper (TrimSpace t) in
      if u = ''PENDING'' then Inr Bank_PENDING
      else if u = ''AUTHORISED'' \<or> u = ''AUTHORIZED'' then Inr Bank_AUTHORISED
      else if u = ''SETTLED'' then Inr Bank_SETTLED
      else if u = ''REJECTED'' then Inr Bank_REJECTED
      else if u = ''REVERSED'' then Inr Bank_REVERSED
      else if u = [] \<or> u = ''UNSPECIFIED'' then Inr BANK_PAYMENT_STATUS_UNSPECIFIED
      else Inl (OtherError (''unmapped status '' @ t) None))"

text \<open>A call of the bank and the status of its reply; every error becomes a gRPC status.\<close>

definition bank_call :: "'c bank_lib \<Rightarrow> http_req \<Rightarrow> (bank_body \<Rightarrow> BankPaymentStatus \<Rightarrow> int \<Rightarrow> 'a) \<Rightarrow>
    'c bank_db \<Rightarrow> 'a res \<times> 'c bank_db" where
  "bank_call lib req reply s =
     (case doWithResilience lib req s of
        (Inl err, s1) \<Rightarrow> (Inl (ToGRPC err), s1)
      | (Inr out, s1) \<Rightarrow>
          (case bank_mapStatus (bb_Status out) of
             Inl err \<Rightarrow> (Inl (ToGRPC (derr_Wrap CodeInternal ''unknown bank status'' err)), s1)
           | Inr status \<Rightarrow> (Inr (reply out status (now s1)), s1)))"

definition adapter_InitiatePayment :: "'c bank_lib \<Rightarrow> InitiateRequest \<Rightarrow> 'c bank_db \<Rightarrow> InitiateResponse res \<times> 'c bank_db" where
  "adapter_InitiatePayment lib req s =
     (if irq_PaymentId req = [] then (Inl (ToGRPC (derr_New CodeValidation ''payment_id is required'')), s)
      else if irq_BankConsentRef req = [] then (Inl (ToGRPC (derr_New CodeValidation ''bank_consent_ref is required'')), s)
      else case irq_Amount req of
             None \<Rightarrow> (Inl (ToGRPC (derr_New CodeValidation ''amount must be positive'')), s)
           | Some m \<Rightarrow>
               if mo_AmountPence m \<le> 0 then (Inl (ToGRPC (derr_New CodeValidation ''amount must be positive'')), s)
               else bank_call lib (POST_payments
                      \<lparr>hi_PaymentID = irq_PaymentId req, hi_BankConsentRef = irq_BankConsentRef req,
                       hi_ConsumerID = irq_ConsumerId req, hi_AmountPence = mo_AmountPence m,
                       hi_Currency = or_else (mo_Currency m) ''GBP'', hi_Description = irq_Description req\<rparr>)
                    (\<lambda>out status t.
                       \<lparr>irs_BankPaymentRef = bb_BankPaymentRef out, irs_Status = status,
                        irs_FailureReason = (if status = Bank_REJECTED
                          then or_else (bb_FailureReason out) ''bank rejected payment'' else bb_FailureReason out),
                        irs_InitiatedAt = t\<rparr>) s)"

definition adapter_GetPaymentStatus :: "'c bank_lib \<Rightarrow> StatusRequest \<Rightarrow> 'c bank_db \<Rightarrow> StatusResponse res \<times> 'c bank_db" where
  "adapter_GetPaymentStatus lib req s =
     (if stq_BankPaymentRef req = [] then (Inl (ToGRPC (derr_New CodeValidation ''bank_payment_ref is required'')), s)
      else bank_call lib (GET_payment (stq_BankPaymentRef req))
             (\<lambda>out status t. \<lparr>sts_BankPaymentRef = bb_BankPaymentRef out, sts_Status = status,
                sts_UpdatedAt = (case bb_UpdatedAt out of Some u \<Rightarrow> u | None \<Rightarrow> t)\<rparr>) s)"

definition adapter_ReversePayment :: "'c bank_lib \<Rightarrow> Bank_ReverseRequest \<Rightarrow> 'c bank_db \<Rightarrow> Bank_ReverseResponse res \<times> 'c bank_db" where
  "adapter_ReversePayment lib req s =
     (if brr_BankPaymentRef req = [] then (Inl (ToGRPC (derr_New CodeValidation ''bank_payment_ref is required'')), s)
      else bank_call lib (POST_reverse (brr_BankPaymentRef req) (brr_Reason req))
             (\<lambda>out status t. \<lparr>brs_BankPaymentRef = bb_BankPaymentRef out, brs_ReversalRef = bb_ReversalRef out,
                brs_Status = status\<rparr>) s)"

section \<open>What the libraries promise\<close>

text \<open>\<open>retry_allowed n P f t out\<close>: \<open>out\<close> is a possible outcome of at most \<open>n\<close> attempts of \<open>f\<close> from \<open>t\<close>. The loop
  ends with the first success; after a failure it tries again only when \<open>P\<close> holds of the error and
  attempts are left, and it may stop with some error at any failure (the context may be cancelled).\<close>

fun retry_allowed :: "nat \<Rightarrow> (goerror \<Rightarrow> bool) \<Rightarrow> ('t \<Rightarrow> goerror option \<times> 't) \<Rightarrow> 't \<Rightarrow> goerror option \<times> 't \<Rightarrow> bool" where
  "retry_allowed 0 P f t out = False"
| "retry_allowed (Suc n) P f t out =
     (case f t of
        (None, t1) \<Rightarrow> out = (None, t1)
      | (Some e, t1) \<Rightarrow> (fst out \<noteq> None \<and> snd out = t1) \<or> (P e \<and> retry_allowed n P f t1 out))"

definition bank_lib_ok :: "'c bank_lib \<Rightarrow> bool" where
  "bank_lib_ok lib \<longleftrightarrow>
     (\<forall>n P f t. (fst (retry_Do lib n P f t) \<noteq> None \<and> snd (retry_Do lib n P f t) = t) \<or>
                retry_allowed n P f t (retry_Do lib n P f t)) \<and>
     (\<forall>c. fst (cb_before lib c) \<in> {None, Some ErrOpenState, Some ErrTooManyRequests})"

text \<open>An instance: a retry loop that never gives up early and a breaker that opens after ten consecutive failures.\<close>

fun retry_std :: "nat \<Rightarrow> (goerror \<Rightarrow> bool) \<Rightarrow> ('t \<Rightarrow> goerror option \<times> 't) \<Rightarrow> 't \<Rightarrow> goerror option \<times> 't" where
  "retry_std 0 P f t = (Some (OtherError ''All attempts fail'' None), t)"
| "retry_std (Suc n) P f t =
     (case f t of
        (None, t1) \<Rightarrow> (None, t1)
      | (Some e, t1) \<Rightarrow> if P e \<and> n \<noteq> 0 then retry_std n P f t1 else (Some e, t1))"

definition std_lib :: "nat bank_lib" where
  "std_lib = \<lparr>retry_Do = retry_std,
     cb_before = (\<lambda>c. (if c > 10 then Some ErrOpenState else None, c)),
     cb_after = (\<lambda>ok c. if ok then 0 else Suc c)\<rparr>"

end
