(* ===== verification/Bank_Correct.thy ===== *)
theory Bank_Correct
  imports Bank
begin

text \<open>
  The correctness of the bank adapter over the mock bank.
  \<^item> \<open>bank_quiet\<close> relates states that differ in bookkeeping only; \<open>bank_calm\<close> says that the server simulates no
    failure and that no reply is lost. In a calm state a call reaches the server at most once.
  \<^item> Without that assumption a call still touches at most three of the bank's payments, but it may take
    the money twice, and a reversal that did not happen may be reported as done.
\<close>

section \<open>The libraries\<close>

lemma retry_std_allowed: "fst (retry_std n P f t) \<noteq> None \<and> snd (retry_std n P f t) = t \<or> retry_allowed n P f t (retry_std n P f t)"
proof (induction n arbitrary: t)
  case (Suc n)
  obtain r t1 where f: "f t = (r, t1)" by fastforce
  show ?case
  proof (cases r)
    case (Some e)
    with f Suc.IH [of t1] show ?thesis by auto
  qed (use f in simp)
qed simp

lemma std_lib_ok: "bank_lib_ok std_lib"
  by (simp add: bank_lib_ok_def std_lib_def retry_std_allowed del: split_paired_All not_None_eq)

text \<open>What holds of the state and is kept by every attempt holds after the loop; what relates two
  states, is reflexive and is extended by an attempt relates the ends of the loop.\<close>

lemma retry_allowed_inv:
  assumes "retry_allowed n P f t out" and "I t" and "\<And>t. I t \<Longrightarrow> I (snd (f t))"
  shows "I (snd out)"
  using assms(1,2)
proof (induction n arbitrary: t)
  case (Suc n)
  obtain r t1 where f: "f t = (r, t1)" by fastforce
  have "I t1" using assms(3) [OF Suc.prems(2)] f by simp
  with Suc f show ?case by (cases r) auto
qed simp

section \<open>States that differ in bookkeeping\<close>

definition bank_quiet :: "'c bank_db \<Rightarrow> 'c bank_db \<Rightarrow> bool" where
  "bank_quiet s s' \<longleftrightarrow> bk_payments s' = bk_payments s \<and> bk_failRate s' = bk_failRate s \<and> now s' = now s \<and>
     codec s' = codec s \<and> uuid_src s' = uuid_src s \<and> n_uuid s' = n_uuid s \<and> set (net_script s') \<subseteq> set (net_script s)"

definition bank_calm :: "'c bank_db \<Rightarrow> bool" where
  "bank_calm s \<longleftrightarrow> bk_failRate s \<le> 0 \<and> (\<forall>t. Some (lost_response t) \<notin> set (net_script s))"

lemma bank_quiet_refl [simp]: "bank_quiet s s"
  by (simp add: bank_quiet_def)

lemma bank_quiet_trans: "bank_quiet s t \<Longrightarrow> bank_quiet t u \<Longrightarrow> bank_quiet s u"
  by (auto simp: bank_quiet_def)

lemma bank_quiet_upd [simp]: "bank_quiet s (t\<lparr>cb_state := c\<rparr>) = bank_quiet s t" "bank_quiet (t\<lparr>cb_state := c\<rparr>) s = bank_quiet t s"
  by (simp_all add: bank_quiet_def)

lemma calm_quiet: "bank_quiet s s' \<Longrightarrow> bank_calm s \<Longrightarrow> bank_calm s'"
  by (auto simp: bank_quiet_def bank_calm_def)

lemma shouldFail_calm [simp]: "bank_calm s \<Longrightarrow> shouldFail s = (False, s)"
  by (simp add: bank_calm_def shouldFail_def)

lemma http_Do_calm:
  assumes "bank_calm s" and "http_Do req s = (r, s')"
  obtains (lost) e where "r = Inl e" "bank_quiet s s'"
        | (served) t resp where "r = Inr resp" "bank_quiet s t" "mock_Handler req t = (resp, s')"
proof (cases "net_script s")
  case Nil
  with assms(2) show thesis by (intro served [of "fst (mock_Handler req s)" s]) (auto simp: http_Do_def split: prod.splits)
next
  case (Cons x xs)
  let ?t = "s\<lparr>net_script := xs\<rparr>"
  have q: "bank_quiet s ?t" using Cons by (auto simp: bank_quiet_def)
  show thesis
  proof (cases x)
    case None
    with Cons q assms(2) show thesis
      by (intro served [of "fst (mock_Handler req ?t)" ?t]) (auto simp: http_Do_def split: prod.splits)
  next
    case (Some f)
    with assms(1) Cons obtain e where "f = lost_request e" by (cases f) (auto simp: bank_calm_def)
    with Some Cons q assms(2) show thesis by (intro lost [of "OtherError e None"]) (auto simp: http_Do_def)
  qed
qed

text \<open>The codes a calm server answers with: none of them is retried.\<close>

lemma handler_calm_code: "bank_calm t \<Longrightarrow> mock_Handler req t = (resp, t') \<Longrightarrow>
    (\<exists>b. resp = writeJSON 200 b) \<or> (\<exists>c m. resp = http_Error c m \<and> c \<in> {400, 404, 409})"
  by (cases req) (auto simp: handleInitiate_def handleStatus_def handleReverse_def Let_def
      split: if_splits option.splits prod.splits)

definition reply_result :: "http_resp \<Rightarrow> bank_body res" where
  "reply_result resp =
     (case resp of
        writeJSON _ b \<Rightarrow> Inr b
      | http_Error c t \<Rightarrow>
          Inl (if c = 404 then derr_New CodeNotFound ''bank payment not found''
               else if c = 400 then derr_New CodeValidation (or_else (TrimSpace t) ''invalid bank request'')
               else derr_New CodeConflict (or_else (TrimSpace t) ''bank payment conflict'')))"

lemma doHTTP_calm:
  assumes "bank_calm s" and "doHTTP req s = (r, s')"
  obtains (lost) e where "r = Inl (derr_Wrap CodeBankUnavailable ''bank http call failed'' e)" "bank_quiet s s'"
        | (served) t resp where "r = reply_result resp" "bank_quiet s t" "mock_Handler req t = (resp, s')"
proof -
  obtain q s1 where h: "http_Do req s = (q, s1)" by fastforce
  from assms(1) h show thesis
  proof (cases rule: http_Do_calm)
    case (lost e)
    with assms(2) h that(1) show thesis by (auto simp: doHTTP_def)
  next
    case (served t resp)
    have "bank_calm t" using calm_quiet served(2) assms(1) by auto
    from handler_calm_code [OF this served(3)] have "r = reply_result resp \<and> s1 = s'"
      using assms(2) h served(1)
      by (auto simp: doHTTP_def reply_result_def resp_code_def resp_text_def Let_def)
    with served that(2) show thesis by auto
  qed
qed

lemma reply_not_transient: "reply_result resp = Inl e \<Longrightarrow> \<not> isTransient e \<and> as_transient e = None"
  by (auto simp: reply_result_def isTransient_def derr_New_def derr_Is_def split: http_resp.splits if_splits)

section \<open>A call in a calm state\<close>

text \<open>An attempt either leaves the bank alone and fails, or is the server's one and only action.\<close>

definition once :: "http_req \<Rightarrow> 'c bank_db \<Rightarrow> bank_body res \<Rightarrow> 'c bank_db \<Rightarrow> bool" where
  "once req s r s' \<longleftrightarrow> (\<exists>t resp t1. bank_quiet s t \<and> mock_Handler req t = (resp, t1) \<and> r = reply_result resp \<and> bank_quiet t1 s')"

lemma once_quiet:
  assumes "bank_quiet s t" and "once req t r u" and "bank_quiet u v"
  shows "once req s r v"
proof -
  from assms(2) obtain a resp a1 where "bank_quiet t a" "mock_Handler req a = (resp, a1)" "r = reply_result resp"
    "bank_quiet a1 u" unfolding once_def by blast
  with assms(1,3) show ?thesis unfolding once_def using bank_quiet_trans by blast
qed

lemma retry_calm:
  assumes "retry_allowed n isTransient (attempt req) (l, s) out" and "bank_calm s"
  shows "(fst out \<noteq> None \<and> (\<exists>e. fst (snd out) = Some (Inl e)) \<and> bank_quiet s (snd (snd out))) \<or>
    (\<exists>r. fst (snd out) = Some r \<and> (fst out = None \<longleftrightarrow> \<not> isl r) \<and> once req s r (snd (snd out)))"
  using assms
proof (induction n arbitrary: l s)
  case (Suc n)
  obtain r s1 where d: "doHTTP req s = (r, s1)" by fastforce
  from Suc.prems(2) d show ?case
  proof (cases rule: doHTTP_calm)
    case (lost e)
    have c1: "bank_calm s1" using calm_quiet lost(2) Suc.prems(2) by auto
    from Suc.prems(1) d lost have
      "(fst out \<noteq> None \<and> snd out = (Some r, s1)) \<or> retry_allowed n isTransient (attempt req) (Some r, s1) out"
      by (auto simp: attempt_def)
    then show ?thesis
    proof
      assume "retry_allowed n isTransient (attempt req) (Some r, s1) out"
      from Suc.IH [OF this c1] show ?thesis
      proof
        assume "fst out \<noteq> None \<and> (\<exists>e. fst (snd out) = Some (Inl e)) \<and> bank_quiet s1 (snd (snd out))"
        then show ?thesis using bank_quiet_trans [OF lost(2)] by simp
      next
        assume "\<exists>r. fst (snd out) = Some r \<and> (fst out = None \<longleftrightarrow> \<not> isl r) \<and> once req s1 r (snd (snd out))"
        then show ?thesis using once_quiet [OF lost(2) _ bank_quiet_refl] by metis
      qed
    qed (use lost in auto)
  next
    case (served t resp)
    have o: "once req s r s1" unfolding once_def using served bank_quiet_refl by blast
    show ?thesis
    proof (cases r)
      case (Inl e)
      with reply_not_transient served(1) have "\<not> isTransient e" by auto
      with Suc.prems(1) d Inl have "fst out \<noteq> None \<and> snd out = (Some r, s1)"
        by (auto simp: attempt_def)
      with o Inl show ?thesis by auto
    next
      case (Inr b)
      with Suc.prems(1) d have "out = (None, (Some r, s1))" by (auto simp: attempt_def)
      with o Inr show ?thesis by auto
    qed
  qed
qed simp

lemma resilient_calm:
  assumes "bank_lib_ok lib" and "bank_calm s" and "resilient_call lib req s = (r, s')"
  shows "(\<exists>e. r = Inl e \<and> bank_quiet s s') \<or> once req s r s'"
proof -
  obtain rerr l s1 where d: "retry_Do lib 3 isTransient (attempt req) (None, s) = (rerr, (l, s1))"
    by (metis surj_pair)
  have s1: "s' = s1" using assms(3) d by (auto simp: resilient_call_def split: option.splits)
  from assms(1) d have "(rerr \<noteq> None \<and> (l, s1) = (None, s)) \<or>
      retry_allowed 3 isTransient (attempt req) (None, s) (rerr, (l, s1))"
    unfolding bank_lib_ok_def by (metis fst_conv snd_conv)
  then show ?thesis
  proof
    assume "rerr \<noteq> None \<and> (l, s1) = (None, s)"
    with assms(3) d show ?thesis by (auto simp: resilient_call_def)
  next
    assume "retry_allowed 3 isTransient (attempt req) (None, s) (rerr, (l, s1))"
    from retry_calm [OF this assms(2)] show ?thesis
    proof
      assume "fst (rerr, (l, s1)) \<noteq> None \<and> (\<exists>e. fst (snd (rerr, (l, s1))) = Some (Inl e)) \<and> bank_quiet s (snd (snd (rerr, (l, s1))))"
      with assms(3) d s1 show ?thesis by (auto simp: resilient_call_def)
    next
      assume "\<exists>r. fst (snd (rerr, (l, s1))) = Some r \<and> (fst (rerr, (l, s1)) = None \<longleftrightarrow> \<not> isl r) \<and> once req s r (snd (snd (rerr, (l, s1))))"
      then obtain r0 where r0: "l = Some r0" "(rerr = None) = (\<not> isl r0)" "once req s r0 s1" by auto
      have "r = r0"
      proof (cases r0)
        case (Inl e)
        with r0(3) have "as_transient e = None" using reply_not_transient unfolding once_def by metis
        with assms(3) d r0 Inl show ?thesis by (auto simp: resilient_call_def normalizeErr_def)
      qed (use assms(3) d r0 in \<open>auto simp: resilient_call_def\<close>)
      with r0 s1 show ?thesis by simp
    qed
  qed
qed

lemma doWithResilience_calm:
  assumes "bank_lib_ok lib" and "bank_calm s" and "doWithResilience lib req s = (r, s')"
  obtains (none) e where "r = Inl e" "bank_quiet s s'"
        | (served) r0 where "once req s r0 s'" "\<And>b. r = Inr b \<longleftrightarrow> r0 = Inr b"
proof -
  obtain be c1 where b: "cb_before lib (cb_state s) = (be, c1)" by fastforce
  show thesis
  proof (cases be)
    case (Some err)
    with b assms(3) show thesis by (intro none) (auto simp: doWithResilience_def)
  next
    case None
    obtain q s1 where c: "resilient_call lib req (s\<lparr>cb_state := c1\<rparr>) = (q, s1)" by fastforce
    have qs: "bank_quiet s (s\<lparr>cb_state := c1\<rparr>)" by simp
    have s': "\<exists>ok. s' = s1\<lparr>cb_state := cb_after lib ok (cb_state s1)\<rparr>" "\<And>b. r = Inr b \<longleftrightarrow> q = Inr b"
      using assms(3) b None c by (auto simp: doWithResilience_def split: sum.splits)
    then have q': "bank_quiet s1 s'" by auto
    from resilient_calm [OF assms(1) calm_quiet [OF qs assms(2)] c] show thesis
    proof
      assume "\<exists>e. q = Inl e \<and> bank_quiet (s\<lparr>cb_state := c1\<rparr>) s1"
      then show thesis using none s' q' by (cases r) (auto intro: bank_quiet_trans)
    next
      assume "once req (s\<lparr>cb_state := c1\<rparr>) q s1"
      from once_quiet [OF qs this q'] show thesis using served s'(2) by blast
    qed
  qed
qed

section \<open>What the server does\<close>

lemma bank_mapStatus_known [simp]: "bank_mapStatus ''SETTLED'' = Inr Bank_SETTLED" "bank_mapStatus ''REVERSED'' = Inr Bank_REVERSED"
    "bank_mapStatus ''REJECTED'' = Inr Bank_REJECTED"
  by code_simp+

lemma reply_Inr: "reply_result resp = Inr b \<longleftrightarrow> (\<exists>c. resp = writeJSON c b)"
  by (auto simp: reply_result_def split: http_resp.splits)

lemma handleInitiate_calm:
  assumes "bank_calm t" and "handleInitiate req t = (resp, t1)"
  obtains (refused) c m where "resp = http_Error c m" "t1 = t"
        | (paid) ref where "resp = writeJSON 200 (zero_body\<lparr>bb_BankPaymentRef := ref, bb_Status := ''SETTLED''\<rparr>)"
            "bk_payments t1 = (bk_payments t)(ref \<mapsto> new_payment req ref (now t))" "n_uuid t1 = Suc (n_uuid t)"
            "ref = fst (new_ref ''FPS-'' 16 t)"
proof (cases "hi_PaymentID req = [] \<or> hi_BankConsentRef req = [] \<or> hi_AmountPence req \<le> 0")
  case True
  with assms show thesis
    by (intro refused [of 400 "''payment_id, bank_consent_ref and positive amount_pence required''"])
      (auto simp: handleInitiate_def)
next
  case False
  obtain ref s2 where n: "new_ref ''FPS-'' 16 t = (ref, s2)" by fastforce
  then have s2: "bk_payments s2 = bk_payments t" "now s2 = now t" "n_uuid s2 = Suc (n_uuid t)"
    by (auto simp: new_ref_def fresh_uuid_def)
  from assms False n have "resp = writeJSON 200 (zero_body\<lparr>bb_BankPaymentRef := ref, bb_Status := ''SETTLED''\<rparr>)"
    "t1 = s2\<lparr>bk_payments := (bk_payments s2)(ref \<mapsto> new_payment req ref (now s2))\<rparr>"
    by (simp_all add: handleInitiate_def)
  with s2 n show thesis by (intro paid [of ref]) simp_all
qed

lemma handleStatus_calm:
  assumes "bank_calm t" and "handleStatus ref t = (resp, t1)"
  shows "t1 = t \<and> (\<forall>c b. resp = writeJSON c b \<longrightarrow> (\<exists>rec. bk_payments t ref = Some rec \<and> bb_Status b = mb_Status rec))"
  using assms by (auto simp: handleStatus_def split: option.splits)

definition same_money :: "paymentRecord \<Rightarrow> paymentRecord \<Rightarrow> bool" where
  "same_money a b \<longleftrightarrow> mb_PaymentID b = mb_PaymentID a \<and> mb_AmountPence b = mb_AmountPence a \<and>
     mb_Currency b = mb_Currency a \<and> mb_BankPaymentRef b = mb_BankPaymentRef a \<and> mb_ConsumerID b = mb_ConsumerID a"

lemma handleReverse_calm:
  assumes "bank_calm t" and "handleReverse ref reason t = (resp, t1)"
  obtains (refused) c m where "resp = http_Error c m" "t1 = t"
        | (reversed) rec rec' where "bk_payments t ref = Some rec" "mb_Status rec \<in> {''SETTLED'', ''AUTHORISED'', ''REVERSED''}"
            "resp = writeJSON 200 (reversed_body rec')" "mb_Status rec' = ''REVERSED''" "same_money rec rec'"
            "mb_Status rec = ''REVERSED'' \<Longrightarrow> rec' = rec" "bk_payments t1 = (bk_payments t)(ref \<mapsto> rec')"
proof (cases "bk_payments t ref")
  case None
  with assms show thesis by (intro refused) (auto simp: handleReverse_def)
next
  case (Some rec)
  show thesis
  proof (cases "mb_Status rec \<in> {''SETTLED'', ''AUTHORISED''}")
    case False
    show thesis
    proof (cases "mb_Status rec = ''REVERSED''")
      case True
      with Some assms show thesis
        by (intro reversed [of rec rec]) (auto simp: handleReverse_def same_money_def)
    next
      case no: False
      with False Some assms show thesis by (intro refused) (auto simp: handleReverse_def)
    qed
  next
    case True
    obtain rref s2 where n: "new_ref ''REV-'' 12 t = (rref, s2)" by fastforce
    then have p: "bk_payments s2 = bk_payments t" by (auto simp: new_ref_def fresh_uuid_def)
    let ?rec' = "rec\<lparr>mb_Status := ''REVERSED'', mb_ReversalRef := rref, mb_UpdatedAt := now s2,
        mb_FailureReason := (if reason \<noteq> [] then reason else mb_FailureReason rec)\<rparr>"
    have "resp = writeJSON 200 (reversed_body ?rec') \<and> t1 = s2\<lparr>bk_payments := (bk_payments s2)(ref \<mapsto> ?rec')\<rparr>"
      using assms Some True n by (auto simp: handleReverse_def Let_def)
    with Some True p show thesis by (intro reversed [of rec ?rec']) (simp_all add: same_money_def, auto)
  qed
qed

text \<open>A call of the adapter in a calm state: refused without effect, or the server's one action.\<close>

lemma bank_call_calm:
  assumes "bank_lib_ok lib" and "bank_calm s" and "bank_call lib req reply s = (r, s')"
  obtains (none) e where "r = Inl e" "bank_quiet s s'"
        | (refused) e t c m t1 where "r = Inl e" "bank_quiet s t" "mock_Handler req t = (http_Error c m, t1)" "bank_quiet t1 s'"
        | (served) t c b t1 where "bank_quiet s t" "mock_Handler req t = (writeJSON c b, t1)" "bank_quiet t1 s'"
            "\<And>st. bank_mapStatus (bb_Status b) = Inr st \<Longrightarrow> r = Inr (reply b st (now s'))"
            "\<And>e. bank_mapStatus (bb_Status b) = Inl e \<Longrightarrow> isl r"
proof -
  obtain q s1 where d: "doWithResilience lib req s = (q, s1)" by fastforce
  have s1: "s' = s1" using assms(3) d by (auto simp: bank_call_def split: sum.splits)
  have q: "\<And>e. q = Inl e \<Longrightarrow> \<exists>e'. r = Inl e'" using assms(3) d by (auto simp: bank_call_def)
  from assms(1,2) d show thesis
  proof (cases rule: doWithResilience_calm)
    case (none e)
    with q that(1) s1 show thesis by blast
  next
    case (served r0)
    from served(1) obtain t resp t1 where o: "bank_quiet s t" "mock_Handler req t = (resp, t1)"
      "r0 = reply_result resp" "bank_quiet t1 s1" unfolding once_def by blast
    show thesis
    proof (cases resp)
      case (http_Error c m)
      with o served(2) have "\<And>b. q \<noteq> Inr b" by (auto simp: reply_result_def)
      then obtain e where "q = Inl e" by (cases q) auto
      with q that(2) o http_Error s1 show thesis by metis
    next
      case (writeJSON c b)
      with o served(2) have "q = Inr b" by (auto simp: reply_result_def)
      with o writeJSON assms(3) d s1 show thesis by (intro that(3) [of t c b t1]) (auto simp: bank_call_def)
    qed
  qed
qed

lemma bank_quiet_payments: "bank_quiet s t \<Longrightarrow> bk_payments t = bk_payments s \<and> now t = now s"
  by (simp add: bank_quiet_def)

section \<open>Exactly once in a calm state\<close>

lemma adapter_Initiate_cases:
  assumes "adapter_InitiatePayment lib req s = (r, s')"
  obtains (invalid) e where "r = Inl e" "s' = s"
        | (valid) m where "irq_Amount req = Some m" "0 < mo_AmountPence m"
            "bank_call lib (POST_payments
                      \<lparr>hi_PaymentID = irq_PaymentId req, hi_BankConsentRef = irq_BankConsentRef req,
                       hi_ConsumerID = irq_ConsumerId req, hi_AmountPence = mo_AmountPence m,
                       hi_Currency = or_else (mo_Currency m) ''GBP'', hi_Description = irq_Description req\<rparr>)
                    (\<lambda>out status t.
                       \<lparr>irs_BankPaymentRef = bb_BankPaymentRef out, irs_Status = status,
                        irs_FailureReason = (if status = Bank_REJECTED
                          then or_else (bb_FailureReason out) ''bank rejected payment'' else bb_FailureReason out),
                        irs_InitiatedAt = t\<rparr>) s = (r, s')"
  using assms by (auto simp: adapter_InitiatePayment_def split: if_splits option.splits)

lemma adapter_Initiate_calm:
  assumes "bank_lib_ok lib" and "bank_calm s" and "adapter_InitiatePayment lib req s = (r, s')"
  obtains (failed) e where "r = Inl e" "bk_payments s' = bk_payments s"
        | (paid) resp m rec t where "r = Inr resp" "irs_Status resp = Bank_SETTLED" "irq_Amount req = Some m"
            "bk_payments s' = (bk_payments s)(irs_BankPaymentRef resp \<mapsto> rec)" "mb_Status rec = ''SETTLED''"
            "mb_PaymentID rec = irq_PaymentId req" "mb_AmountPence rec = mo_AmountPence m" "0 < mo_AmountPence m"
            "bank_quiet s t" "irs_BankPaymentRef resp = fst (new_ref ''FPS-'' 16 t)"
  using assms(3)
proof (cases rule: adapter_Initiate_cases)
  case (invalid e)
  then show thesis using failed by auto
next
  case (valid m)
  from assms(1,2) valid(3) show thesis
  proof (cases rule: bank_call_calm)
    case (none e)
    then show thesis using failed bank_quiet_payments by metis
  next
    case (refused e t c msg t1)
    have ct: "bank_calm t" using calm_quiet refused(2) assms(2) by auto
    from refused(3) have "handleInitiate \<lparr>hi_PaymentID = irq_PaymentId req, hi_BankConsentRef = irq_BankConsentRef req,
                       hi_ConsumerID = irq_ConsumerId req, hi_AmountPence = mo_AmountPence m,
                       hi_Currency = or_else (mo_Currency m) ''GBP'', hi_Description = irq_Description req\<rparr> t = (http_Error c msg, t1)" by simp
    with ct have "t1 = t" by (cases rule: handleInitiate_calm) auto
    then show thesis using refused failed bank_quiet_payments by metis
  next
    case (served t c b t1)
    have ct: "bank_calm t" using calm_quiet served(1) assms(2) by auto
    from served(2) have "handleInitiate \<lparr>hi_PaymentID = irq_PaymentId req, hi_BankConsentRef = irq_BankConsentRef req,
                       hi_ConsumerID = irq_ConsumerId req, hi_AmountPence = mo_AmountPence m,
                       hi_Currency = or_else (mo_Currency m) ''GBP'', hi_Description = irq_Description req\<rparr> t = (writeJSON c b, t1)" by simp
    with ct show thesis
    proof (cases rule: handleInitiate_calm)
      case (paid ref)
      with served(4) [of Bank_SETTLED] have
        "r = Inr \<lparr>irs_BankPaymentRef = ref, irs_Status = Bank_SETTLED, irs_FailureReason = [], irs_InitiatedAt = now s'\<rparr>"
        by (simp add: zero_body_def)
      then obtain q where q: "r = Inr q" "irs_BankPaymentRef q = ref" "irs_Status q = Bank_SETTLED" by simp
      define rec where "rec = new_payment \<lparr>hi_PaymentID = irq_PaymentId req, hi_BankConsentRef = irq_BankConsentRef req,
                       hi_ConsumerID = irq_ConsumerId req, hi_AmountPence = mo_AmountPence m,
                       hi_Currency = or_else (mo_Currency m) ''GBP'', hi_Description = irq_Description req\<rparr> ref (now t)"
      have "bk_payments s' = (bk_payments s)(irs_BankPaymentRef q \<mapsto> rec)"
        using paid(2) q(2) bank_quiet_payments [OF served(1)] bank_quiet_payments [OF served(3)] by (simp add: rec_def)
      moreover have "mb_Status rec = ''SETTLED''" "mb_PaymentID rec = irq_PaymentId req" "mb_AmountPence rec = mo_AmountPence m"
        by (simp_all add: rec_def new_payment_def)
      ultimately show thesis using that(2) [of q m rec t] q valid(1,2) served(1) paid(4) by simp
    qed simp
  qed
qed

text \<open>C25: when the bank simulates no failure and no reply is lost, a call that initiates a payment takes the
  money exactly once: on success the bank has one new settled payment under the returned reference, with
  the payment id and the amount of the request, and on an error nothing changed.\<close>

theorem bank_pays_once:
  assumes "bank_lib_ok lib" and "bank_calm s" and "adapter_InitiatePayment lib req s = (r, s')"
  shows "(\<exists>e. r = Inl e \<and> bk_payments s' = bk_payments s) \<or>
    (\<exists>resp m rec. r = Inr resp \<and> irs_Status resp = Bank_SETTLED \<and> irq_Amount req = Some m \<and>
       bk_payments s' = (bk_payments s)(irs_BankPaymentRef resp \<mapsto> rec) \<and> mb_Status rec = ''SETTLED'' \<and>
       mb_PaymentID rec = irq_PaymentId req \<and> mb_AmountPence rec = mo_AmountPence m \<and> 0 < mo_AmountPence m)"
  using assms by (cases rule: adapter_Initiate_calm) auto

lemma adapter_Reverse_calm:
  assumes "bank_lib_ok lib" and "bank_calm s" and "adapter_ReversePayment lib req s = (r, s')"
  obtains (failed) e where "r = Inl e" "bk_payments s' = bk_payments s"
        | (reversed) resp rec rec' where "r = Inr resp" "brs_Status resp = Bank_REVERSED"
            "bk_payments s (brr_BankPaymentRef req) = Some rec"
            "bk_payments s' = (bk_payments s)(brr_BankPaymentRef req \<mapsto> rec')" "mb_Status rec' = ''REVERSED''"
            "same_money rec rec'" "mb_Status rec \<noteq> ''REVERSED'' \<or> rec' = rec"
proof (cases "brr_BankPaymentRef req = []")
  case True
  with assms(3) show thesis by (intro failed) (auto simp: adapter_ReversePayment_def)
next
  case False
  with assms(3) have c: "bank_call lib (POST_reverse (brr_BankPaymentRef req) (brr_Reason req))
             (\<lambda>out status t. \<lparr>brs_BankPaymentRef = bb_BankPaymentRef out, brs_ReversalRef = bb_ReversalRef out,
                brs_Status = status\<rparr>) s = (r, s')" by (simp add: adapter_ReversePayment_def)
  from assms(1,2) c show thesis
  proof (cases rule: bank_call_calm)
    case (none e)
    then show thesis using failed bank_quiet_payments by metis
  next
    case (refused e t c msg t1)
    have ct: "bank_calm t" using calm_quiet refused(2) assms(2) by auto
    from refused(3) have "handleReverse (brr_BankPaymentRef req) (brr_Reason req) t = (http_Error c msg, t1)" by simp
    with ct have "t1 = t" by (cases rule: handleReverse_calm) auto
    then show thesis using refused failed bank_quiet_payments by metis
  next
    case (served t c b t1)
    have ct: "bank_calm t" using calm_quiet served(1) assms(2) by auto
    from served(2) have "handleReverse (brr_BankPaymentRef req) (brr_Reason req) t = (writeJSON c b, t1)" by simp
    with ct show thesis
    proof (cases rule: handleReverse_calm)
      case (reversed rec rec')
      with served(4) [of Bank_REVERSED] obtain resp where "r = Inr resp" "brs_Status resp = Bank_REVERSED"
        by (simp add: reversed_body_def)
      with reversed bank_quiet_payments [OF served(1)] bank_quiet_payments [OF served(3)] that(2) show thesis by auto
    qed simp
  qed
qed

text \<open>A calm bank stays calm.\<close>

lemma handler_keeps_calm: "bank_calm t \<Longrightarrow> mock_Handler req t = (resp, t1) \<Longrightarrow> bank_calm t1"
  by (cases req) (auto simp: handleInitiate_def handleStatus_def handleReverse_def new_ref_def fresh_uuid_def bank_calm_def
      shouldFail_def Let_def split: if_splits option.splits)

lemma bank_call_keeps_calm:
  assumes "bank_lib_ok lib" and "bank_calm s" and "bank_call lib req reply s = (r, s')"
  shows "bank_calm s'"
  using assms
proof (cases rule: bank_call_calm)
  case (none e)
  with assms(2) calm_quiet show ?thesis by blast
next
  case (refused e t c m t1)
  with assms(2) calm_quiet handler_keeps_calm show ?thesis by blast
next
  case (served t c b t1)
  from served(1-3) assms(2) calm_quiet handler_keeps_calm show ?thesis by blast
qed

lemma adapter_keeps_calm:
  assumes "bank_lib_ok lib" and "bank_calm s"
  shows "adapter_InitiatePayment lib rq s = (r, s') \<Longrightarrow> bank_calm s'"
    and "adapter_ReversePayment lib rv s = (v, s') \<Longrightarrow> bank_calm s'"
    and "adapter_GetPaymentStatus lib sq s = (u, s') \<Longrightarrow> bank_calm s'"
  using assms(2) bank_call_keeps_calm [OF assms]
  by (auto simp: adapter_InitiatePayment_def adapter_ReversePayment_def adapter_GetPaymentStatus_def split: if_splits option.splits)

text \<open>In the same conditions a reversal that is reported as done is done: the payment under the reference
  existed, it is REVERSED now with its money unchanged, nothing else changed, and a second reversal
  changes nothing at all; on an error nothing changed.\<close>

theorem bank_reversal_done:
  assumes "bank_lib_ok lib" and "bank_calm s" and "adapter_ReversePayment lib req s = (r, s')"
  shows "(\<exists>e. r = Inl e \<and> bk_payments s' = bk_payments s) \<or>
    (\<exists>resp rec rec'. r = Inr resp \<and> brs_Status resp = Bank_REVERSED \<and>
       bk_payments s (brr_BankPaymentRef req) = Some rec \<and>
       bk_payments s' = (bk_payments s)(brr_BankPaymentRef req \<mapsto> rec') \<and> mb_Status rec' = ''REVERSED'' \<and>
       same_money rec rec' \<and> (mb_Status rec \<noteq> ''REVERSED'' \<or> rec' = rec))"
  using assms by (cases rule: adapter_Reverse_calm) auto

section \<open>What may go wrong\<close>

text \<open>Every attempt, whatever fails, touches at most one of the bank's payments.\<close>

definition touches :: "nat \<Rightarrow> 'c bank_db \<Rightarrow> 'c bank_db \<Rightarrow> bool" where
  "touches n s s' \<longleftrightarrow> (\<exists>refs. length refs \<le> n \<and> (\<forall>ref. ref \<in> set refs \<or> bk_payments s' ref = bk_payments s ref))"

lemma touches_0: "bk_payments s' = bk_payments s \<Longrightarrow> touches n s s'"
  unfolding touches_def by (intro exI [of _ "[]"]) simp

lemma touches_1: "bk_payments s' = (bk_payments s)(ref \<mapsto> rec) \<Longrightarrow> touches (Suc n) s s'"
  unfolding touches_def by (intro exI [of _ "[ref]"]) simp

lemma touches_add:
  assumes "touches n s t" and "touches m t u"
  shows "touches (n + m) s u"
proof -
  from assms obtain a b where "length a \<le> n" "\<forall>ref. ref \<in> set a \<or> bk_payments t ref = bk_payments s ref"
    "length b \<le> m" "\<forall>ref. ref \<in> set b \<or> bk_payments u ref = bk_payments t ref" unfolding touches_def by blast
  then show ?thesis unfolding touches_def by (intro exI [of _ "a @ b"]) (simp, metis)
qed

lemma touches_mono: "touches n s t \<Longrightarrow> n \<le> m \<Longrightarrow> touches m s t"
  unfolding touches_def using le_trans by blast

lemma shouldFail_payments: "shouldFail s = (b, s1) \<Longrightarrow> bk_payments s1 = bk_payments s"
  by (auto simp: shouldFail_def rand_Float64_def split: if_splits)

lemma writeFailure_touches: "writeFailure s = (r, s1) \<Longrightarrow> touches (Suc 0) s s1"
  by (auto simp: writeFailure_def rand_Float64_def new_ref_def fresh_uuid_def split: if_splits intro: touches_0 touches_1)

lemma mock_touches:
  assumes "mock_Handler req s = (r, s')"
  shows "touches (Suc 0) s s'"
proof -
  obtain b s1 where f: "shouldFail s = (b, s1)" by fastforce
  note p = shouldFail_payments [OF f]
  show ?thesis
  proof (cases b)
    case True
    with assms f have "writeFailure s1 = (r, s')"
      by (cases req) (auto simp: handleInitiate_def handleStatus_def handleReverse_def)
    from writeFailure_touches [OF this] p show ?thesis by (simp add: touches_def)
  next
    case False
    with assms f p show ?thesis
      by (cases req) (auto simp: handleInitiate_def handleStatus_def handleReverse_def new_ref_def fresh_uuid_def Let_def
          split: if_splits option.splits intro: touches_0 touches_1)
  qed
qed

lemma touches_net [simp]: "touches n (s\<lparr>net_script := x\<rparr>) t = touches n s t" "touches n (s\<lparr>cb_state := c\<rparr>) t = touches n s t"
    "touches n s (t\<lparr>cb_state := c\<rparr>) = touches n s t" "touches n s (t\<lparr>net_script := x\<rparr>) = touches n s t"
  by (simp_all add: touches_def)

lemma doHTTP_touches:
  assumes "doHTTP req s = (r, s')"
  shows "touches (Suc 0) s s'"
proof -
  obtain q s1 where h: "http_Do req s = (q, s1)" by fastforce
  have "touches (Suc 0) s s1"
    using h mock_touches [of req s] mock_touches [of req "s\<lparr>net_script := tl (net_script s)\<rparr>"]
    by (auto simp: http_Do_def touches_0 split: list.splits option.splits net_fault.splits prod.splits)
  moreover have "s' = s1" using assms h by (auto simp: doHTTP_def Let_def split: sum.splits)
  ultimately show ?thesis by simp
qed

lemma retry_touches: "retry_allowed n P (attempt req) (l, s) out \<Longrightarrow> touches n s (snd (snd out))"
proof (induction n arbitrary: l s)
  case (Suc n)
  obtain r s1 where d: "doHTTP req s = (r, s1)" by fastforce
  note t = doHTTP_touches [OF d]
  have a: "attempt req (l, s) = (case r of Inl err \<Rightarrow> Some err | Inr _ \<Rightarrow> None, (Some r, s1))"
    using d by (simp add: attempt_def)
  show ?case
  proof (cases "snd out = (Some r, s1)")
    case True
    with t show ?thesis by (auto intro: touches_mono)
  next
    case False
    with Suc.prems a have "retry_allowed n P (attempt req) (Some r, s1) out" by (auto split: sum.splits)
    from touches_add [OF t Suc.IH [OF this]] show ?thesis by simp
  qed
qed simp

text \<open>Whatever the bank answers and whatever the network loses, one call of the adapter makes at most
  three attempts: it touches at most three of the bank's payments.\<close>

theorem bank_attempts_bounded:
  assumes "bank_lib_ok lib" and "adapter_InitiatePayment lib req s = (r, s')"
  shows "touches 3 s s'"
  using assms(2)
proof (cases rule: adapter_Initiate_cases)
  case (valid m)
  then obtain hr reply where c: "bank_call lib (POST_payments hr) reply s = (r, s')" by blast
  obtain q s1 where d: "doWithResilience lib (POST_payments hr) s = (q, s1)" by fastforce
  have s1: "s' = s1" using c d by (auto simp: bank_call_def split: sum.splits)
  obtain be c1 where b: "cb_before lib (cb_state s) = (be, c1)" by fastforce
  show ?thesis
  proof (cases be)
    case (Some err)
    with b d s1 show ?thesis by (auto simp: doWithResilience_def touches_0)
  next
    case None
    let ?s = "s\<lparr>cb_state := c1\<rparr>"
    obtain rerr l s2 where e: "retry_Do lib 3 isTransient (attempt (POST_payments hr)) (None, ?s) = (rerr, (l, s2))"
      by (metis surj_pair)
    from assms(1) e have "s2 = ?s \<or> retry_allowed 3 isTransient (attempt (POST_payments hr)) (None, ?s) (rerr, (l, s2))"
      unfolding bank_lib_ok_def by (metis fst_conv snd_conv)
    then have "touches 3 ?s s2" using retry_touches [of 3] touches_0 by fastforce
    moreover have "\<exists>c. s1 = s2\<lparr>cb_state := c\<rparr>"
      using d b None e by (auto simp: doWithResilience_def resilient_call_def split: option.splits sum.splits)
    ultimately show ?thesis using s1 by auto
  qed
qed (simp add: touches_0)

section \<open>Concrete banks\<close>

text \<open>A bank with no payments, in which nothing fails, and one settled payment made through the adapter.\<close>

definition bank_s0 :: "nat bank_db" where
  "bank_s0 = \<lparr>now = 5, script = [], aborted = False, uuid_src = of_nat, n_uuid = 1, codec = unary_codec,
     bk_payments = (\<lambda>_. None), bk_failRate = 0, bk_rand = (\<lambda>_. 0), bk_nrand = 0, net_script = [], cb_state = 0\<rparr>"

definition bank_req0 :: InitiateRequest where
  "bank_req0 = \<lparr>irq_PaymentId = ''p1'', irq_BankConsentRef = ''c1'', irq_ConsumerId = ''u1'',
     irq_Amount = Some \<lparr>mo_AmountPence = 500, mo_Currency = ''GBP''\<rparr>, irq_Description = []\<rparr>"

definition bank_s1 :: "nat bank_db" where
  "bank_s1 = snd (adapter_InitiatePayment std_lib bank_req0 bank_s0)"

lemma calm_bank_s0: "bank_calm bank_s0"
  by (simp add: bank_calm_def bank_s0_def)

theorem bank_pays_once_witness:
  "bank_lib_ok std_lib \<and> bank_calm bank_s0 \<and>
   (case adapter_InitiatePayment std_lib bank_req0 bank_s0 of
      (r, s') \<Rightarrow> (\<exists>resp rec. r = Inr resp \<and> bk_payments s' = (bk_payments bank_s0)(irs_BankPaymentRef resp \<mapsto> rec) \<and>
                   mb_PaymentID rec = ''p1'' \<and> mb_AmountPence rec = 500))"
proof -
  obtain r s' where a: "adapter_InitiatePayment std_lib bank_req0 bank_s0 = (r, s')" by fastforce
  have "\<not> isl (fst (adapter_InitiatePayment std_lib bank_req0 bank_s0))" by code_simp
  with a have "\<not> isl r" by simp
  with bank_pays_once [OF std_lib_ok calm_bank_s0 a] show ?thesis
    using a std_lib_ok calm_bank_s0 by (auto simp: bank_req0_def)
qed

text \<open>A witness for the reversal: the payment of \<open>bank_s1\<close> is reversed.\<close>

lemma calm_bank_s1: "bank_calm bank_s1"
proof -
  have "bk_failRate bank_s1 \<le> 0 \<and> net_script bank_s1 = []" by code_simp
  then show ?thesis by (simp add: bank_calm_def)
qed

definition bank_rev0 :: Bank_ReverseRequest where
  "bank_rev0 = \<lparr>brr_BankPaymentRef = ''FPS-II'', brr_Reason = ''test''\<rparr>"

theorem bank_reversal_done_witness:
  "case adapter_ReversePayment std_lib bank_rev0 bank_s1 of
     (r, s') \<Rightarrow> (\<exists>resp rec. r = Inr resp \<and> brs_Status resp = Bank_REVERSED \<and>
        bk_payments s' ''FPS-II'' = Some rec \<and> mb_Status rec = ''REVERSED'')"
proof -
  obtain r s' where a: "adapter_ReversePayment std_lib bank_rev0 bank_s1 = (r, s')" by fastforce
  have "\<not> isl (fst (adapter_ReversePayment std_lib bank_rev0 bank_s1))" by code_simp
  with a have "\<not> isl r" by simp
  with bank_reversal_done [OF std_lib_ok calm_bank_s1 a] show ?thesis
    using a by (auto simp: bank_rev0_def)
qed

theorem bank_attempts_bounded_witness:
  "touches 3 bank_s0 (snd (adapter_InitiatePayment std_lib bank_req0 bank_s0))"
  by (rule bank_attempts_bounded [OF std_lib_ok, of bank_req0 bank_s0 "fst (adapter_InitiatePayment std_lib bank_req0 bank_s0)"]) simp


text \<open>A reversal that did not happen is reported as done. The mock bank's simulated failure answers a reversal
  with code 200 and the status REJECTED; the adapter returns it without an error, and the payment stays
  settled.\<close>

theorem false_reversal:
  "case adapter_ReversePayment std_lib bank_rev0 (bank_s1\<lparr>bk_failRate := 1\<rparr>) of
     (r, s') \<Rightarrow> map_sum (\<lambda>_. ()) brs_Status r = Inr Bank_REJECTED \<and>
       map_option mb_Status (bk_payments s' ''FPS-II'') = Some ''SETTLED''"
  by code_simp

end
