(* ===== verification/Saga_Props.thy ===== *)
theory Saga_Props
  imports Payment_Props Consent_Props
begin

text \<open>
  The saga against the contracts of what it calls.
  \<^item> Each client of the orchestrator has a contract, a locale: which part of the world its calls change
    (the rest is left alone), what a successful call does to an observation of that part, and that a
    failed call does nothing to it. The observations are the payment's row, the hold of a payment at
    the consent service, the money taken at the bank and the balances of the ledger. Every
    call keeps the world's invariant.
  \<^item> \<open>saga_world\<close> joins the contracts. Inside it the outcome of a whole saga is proved: a saga that succeeds
    has settled, taken and booked exactly once; a payment that a failed saga left FAILED holds
    nothing, owes nothing and changed no balance.
  Theory \<open>Platform\<close> interprets the contracts on the services' own models.
\<close>

section \<open>Outcomes\<close>

definition in_flight :: "Payment \<Rightarrow> bool" where
  "in_flight q \<longleftrightarrow> py_Status q \<noteq> StatusSettled \<and> py_Status q \<noteq> StatusFailed"

text \<open>What a failed saga may leave: a row that is not SETTLED, and, where it is FAILED, no hold, no change of
  a balance and no money taken. The exception is the bank payment whose reference could not be written.\<close>

definition clean_failure :: "Payment option \<Rightarrow> hold_state \<Rightarrow> bool \<Rightarrow> bool \<Rightarrow> bool" where
  "clean_failure q h money same \<longleftrightarrow> (\<exists>x. q = Some x \<and> py_Status x \<noteq> StatusSettled \<and>
     (py_Status x = StatusFailed \<longrightarrow>
        h \<notin> {Holding, Settled} \<and> same \<and> (py_FailureReason x = ''persist bank failed'' \<or> \<not> money)))"

definition money_out :: "(string \<Rightarrow> string option) \<Rightarrow> string \<Rightarrow> bool" where
  "money_out m i \<longleftrightarrow> (\<exists>ref. m ref = Some i)"

text \<open>What a successful saga leaves.\<close>

definition settled_once :: "Payment \<Rightarrow> string \<Rightarrow> hold_state \<Rightarrow> (string \<Rightarrow> string option) \<Rightarrow> (string \<Rightarrow> string option) \<Rightarrow> bool" where
  "settled_once x i h m m' \<longleftrightarrow> py_Status x = StatusSettled \<and> py_BankPaymentRef x \<noteq> [] \<and> h \<in> {Holding, Settled} \<and>
     m' = m(py_BankPaymentRef x \<mapsto> i)"

lemma settlement_lines_after [simp]:
  "settlement_lines c (after_settle t p) = settlement_lines c p"
  by (simp add: settlement_lines_def after_settle_def payment_money_def)

section \<open>The contracts\<close>

locale consent_client =
  fixes cc :: "'w ConsentServiceClient" and codec :: uuid_codec and inv :: "'w \<Rightarrow> bool"
    and con :: "'w \<Rightarrow> 'c" and rest :: "'w \<Rightarrow> 'r"
    and hold :: "'c \<Rightarrow> uuid \<Rightarrow> hold_state" and owner :: "'c \<Rightarrow> uuid \<Rightarrow> uuid option"
  assumes reserve_keeps: "inv w \<Longrightarrow> c_ValidateAndReserve cc rq w = (r, w') \<Longrightarrow> inv w' \<and> rest w' = rest w"
    and reserve_refused: "inv w \<Longrightarrow> c_ValidateAndReserve cc rq w = (Inl e, w') \<Longrightarrow> hold (con w') = hold (con w)"
    and reserve_held: "inv w \<Longrightarrow> c_ValidateAndReserve cc rq w = (Inr resp, w') \<Longrightarrow> rrq_PaymentId rq = uc_String codec pid \<Longrightarrow>
      hold (con w) pid = Unheld \<Longrightarrow>
      hold (con w') = (hold (con w))(pid := Holding) \<and>
      (\<exists>rid. uc_Parse codec (rrs_ReservationId resp) = Some rid \<and> owner (con w') rid = Some pid)"
    and release_keeps: "inv w \<Longrightarrow> c_ReleaseReservation cc rl w = (u, w') \<Longrightarrow> inv w' \<and> rest w' = rest w"
    and release_refused: "inv w \<Longrightarrow> c_ReleaseReservation cc rl w = (Inl e, w') \<Longrightarrow> hold (con w') = hold (con w)"
    and released: "inv w \<Longrightarrow> c_ReleaseReservation cc rl w = (Inr v, w') \<Longrightarrow> rlr_ReservationId rl = uc_String codec rid \<Longrightarrow>
      owner (con w) rid = Some pid \<Longrightarrow> hold (con w') = (hold (con w))(pid := Freed)"
    and confirm_keeps: "inv w \<Longrightarrow> c_ConfirmReservation cc cf w = (u, w') \<Longrightarrow> inv w' \<and> rest w' = rest w"
    and confirmed: "inv w \<Longrightarrow> c_ConfirmReservation cc cf w = (u, w') \<Longrightarrow> cfr_ReservationId cf = uc_String codec rid \<Longrightarrow>
      owner (con w) rid = Some pid \<Longrightarrow> hold (con w) pid = Holding \<Longrightarrow>
      hold (con w') pid = (if isl u then Holding else Settled)"

locale bank_client =
  fixes bc :: "'w BankAdapterClient" and inv :: "'w \<Rightarrow> bool" and bnk :: "'w \<Rightarrow> 'b" and rest :: "'w \<Rightarrow> 'r"
    and taken :: "'b \<Rightarrow> string \<Rightarrow> string option"
  assumes initiate_keeps: "inv w \<Longrightarrow> b_InitiatePayment bc rq w = (r, w') \<Longrightarrow> inv w' \<and> rest w' = rest w"
    and initiate_failed: "inv w \<Longrightarrow> b_InitiatePayment bc rq w = (Inl e, w') \<Longrightarrow> taken (bnk w') = taken (bnk w)"
    and initiate_rejected: "inv w \<Longrightarrow> b_InitiatePayment bc rq w = (Inr resp, w') \<Longrightarrow> irs_Status resp = Bank_REJECTED \<Longrightarrow>
      taken (bnk w') = taken (bnk w)"
    and initiate_paid: "inv w \<Longrightarrow> b_InitiatePayment bc rq w = (Inr resp, w') \<Longrightarrow> irs_Status resp \<noteq> Bank_REJECTED \<Longrightarrow>
      taken (bnk w') = (taken (bnk w))(irs_BankPaymentRef resp \<mapsto> irq_PaymentId rq) \<and> irs_BankPaymentRef resp \<noteq> []"
    and reverse_keeps: "inv w \<Longrightarrow> b_ReversePayment bc rv w = (v, w') \<Longrightarrow> inv w' \<and> rest w' = rest w"
    and reverse_failed: "inv w \<Longrightarrow> b_ReversePayment bc rv w = (Inl e, w') \<Longrightarrow> taken (bnk w') = taken (bnk w)"
    and reversed: "inv w \<Longrightarrow> b_ReversePayment bc rv w = (Inr x, w') \<Longrightarrow>
      taken (bnk w') = (taken (bnk w))(brr_BankPaymentRef rv := None)"

locale ledger_client =
  fixes lc :: "'w LedgerServiceClient" and inv :: "'w \<Rightarrow> bool" and led :: "'w \<Rightarrow> 'l" and rest :: "'w \<Rightarrow> 'r"
    and books :: "'l \<Rightarrow> 'k \<Rightarrow> int" and unposted :: "string \<Rightarrow> 'l \<Rightarrow> bool" and booked :: "string \<Rightarrow> 'l \<Rightarrow> 'l \<Rightarrow> bool"
    and delta :: "JournalLine list \<Rightarrow> 'k \<Rightarrow> int"
  assumes post_keeps: "inv w \<Longrightarrow> l_PostDoubleEntry lc rq w = (r, w') \<Longrightarrow> inv w' \<and> rest w' = rest w"
    and post_failed: "inv w \<Longrightarrow> l_PostDoubleEntry lc rq w = (Inl e, w') \<Longrightarrow> books (led w') = books (led w)"
    and post_new: "inv w \<Longrightarrow> l_PostDoubleEntry lc rq w = (Inr x, w') \<Longrightarrow> unposted (per_PaymentId rq) (led w) \<Longrightarrow>
      booked (per_PaymentId rq) (led w) (led w') \<and> books (led w') = (\<lambda>k. books (led w) k + delta (per_Lines rq) k)"
    and post_again: "inv w \<Longrightarrow> l_PostDoubleEntry lc rq w = (r, w') \<Longrightarrow> booked (per_PaymentId rq) l (led w) \<Longrightarrow>
      booked (per_PaymentId rq) l (led w') \<and> books (led w') = books (led w)"
    and unpost_keeps: "inv w \<Longrightarrow> l_ReverseEntry lc rv w = (v, w') \<Longrightarrow> inv w' \<and> rest w' = rest w"
    and unposted_back: "inv w \<Longrightarrow> l_ReverseEntry lc rv w = (Inr u, w') \<Longrightarrow> booked (lrr_PaymentId rv) l (led w) \<Longrightarrow>
      books (led w') = books l"

locale payment_store =
  fixes repo :: "'w paymentRepo" and inv :: "'w \<Rightarrow> bool" and pay :: "'w \<Rightarrow> 'p" and rest :: "'w \<Rightarrow> 'r"
    and row :: "'p \<Rightarrow> uuid \<Rightarrow> Payment option"
  assumes consent_row: "inv w \<Longrightarrow> r_UpdateAfterConsent repo rid cid p w = (err, p', w') \<Longrightarrow> inv w' \<and> rest w' = rest w \<and>
      (\<exists>t. row_written (after_consent rid cid t) err p p' (row (pay w)) (row (pay w')))"
    and risk_row: "inv w \<Longrightarrow> r_UpdateAfterRisk repo score d p w = (err, p', w') \<Longrightarrow> inv w' \<and> rest w' = rest w \<and>
      (\<exists>t. row_written (after_risk score d t) err p p' (row (pay w)) (row (pay w')))"
    and bank_row: "inv w \<Longrightarrow> r_UpdateAfterBank repo ref p w = (err, p', w') \<Longrightarrow> inv w' \<and> rest w' = rest w \<and>
      (\<exists>t. row_written (after_bank ref t) err p p' (row (pay w)) (row (pay w')))"
    and failed_row: "inv w \<Longrightarrow> r_MarkFailed repo reason p w = (err, p', w') \<Longrightarrow> inv w' \<and> rest w' = rest w \<and>
      (\<exists>t. row_written (marked StatusFailed reason t) err p p' (row (pay w)) (row (pay w')))"
    and review_row: "inv w \<Longrightarrow> r_MarkManualReview repo reason p w = (err, p', w') \<Longrightarrow> inv w' \<and> rest w' = rest w \<and>
      (\<exists>t. row_written (marked StatusManualReview reason t) err p p' (row (pay w)) (row (pay w')))"
    and settled_row: "inv w \<Longrightarrow> r_SettleWithOutbox repo p w = (err, p', w') \<Longrightarrow> inv w' \<and> rest w' = rest w \<and>
      (err \<noteq> None \<and> p' = p \<and> row (pay w') = row (pay w) \<or>
       err = None \<and> (\<exists>t. p' = after_settle t p \<and>
         row (pay w') = (row (pay w))(py_ID p := map_option (after_settle t) (row (pay w) (py_ID p)))))"

locale saga_world =
  payment_store "o_repo orc" inv pay "\<lambda>w. (con w, bnk w, led w)" row +
  consent_client "o_consent orc" "o_codec orc" inv con "\<lambda>w. (pay w, bnk w, led w)" hold owner +
  bank_client "o_bank orc" inv bnk "\<lambda>w. (pay w, con w, led w)" taken +
  ledger_client "o_ledger orc" inv led "\<lambda>w. (pay w, con w, bnk w)" books unposted booked delta
  for orc :: "'w Orchestrator" and inv :: "'w \<Rightarrow> bool" and pay :: "'w \<Rightarrow> 'p" and con :: "'w \<Rightarrow> 'c"
    and bnk :: "'w \<Rightarrow> 'b" and led :: "'w \<Rightarrow> 'l" and row :: "'p \<Rightarrow> uuid \<Rightarrow> Payment option"
    and hold :: "'c \<Rightarrow> uuid \<Rightarrow> hold_state" and owner :: "'c \<Rightarrow> uuid \<Rightarrow> uuid option"
    and taken :: "'b \<Rightarrow> string \<Rightarrow> string option" and books :: "'l \<Rightarrow> 'k \<Rightarrow> int"
    and unposted :: "string \<Rightarrow> 'l \<Rightarrow> bool" and booked :: "string \<Rightarrow> 'l \<Rightarrow> 'l \<Rightarrow> bool"
    and delta :: "JournalLine list \<Rightarrow> 'k \<Rightarrow> int" +
  assumes score_keeps: "inv w \<Longrightarrow> k_Score (o_risk orc) rq w = (r, w') \<Longrightarrow>
      inv w' \<and> pay w' = pay w \<and> con w' = con w \<and> bnk w' = bnk w \<and> led w' = led w"
begin

section \<open>Compensation\<close>

text \<open>The bank part, then the consent part; each failure is collected.\<close>

lemma compensate_effect:
  assumes "compensate orc p reason True rb w = (err, w')" and "inv w"
    and "py_ReservationID p = Some rid" and "owner (con w) rid = Some (py_ID p)"
  shows "inv w' \<and> pay w' = pay w \<and> led w' = led w \<and>
    (err = None \<longrightarrow> hold (con w') (py_ID p) = Freed \<and>
      taken (bnk w') = (if rb \<and> py_BankPaymentRef p \<noteq> [] then (taken (bnk w))(py_BankPaymentRef p := None) else taken (bnk w)))"
proof -
  obtain errs1 w1 where b: "(if rb \<and> py_BankPaymentRef p \<noteq> [] then
               (case b_ReversePayment (o_bank orc) \<lparr>brr_BankPaymentRef = py_BankPaymentRef p, brr_Reason = reason\<rparr> w of
                  (Inl err, w1) \<Rightarrow> ([''bank: '' @ Error_text err], w1)
                | (Inr _, w1) \<Rightarrow> ([], w1))
             else ([], w)) = (errs1, w1)" by fastforce
  have w1: "inv w1 \<and> pay w1 = pay w \<and> con w1 = con w \<and> led w1 = led w \<and>
    (errs1 = [] \<longrightarrow> taken (bnk w1) = (if rb \<and> py_BankPaymentRef p \<noteq> [] then (taken (bnk w))(py_BankPaymentRef p := None) else taken (bnk w)))"
  proof (cases "rb \<and> py_BankPaymentRef p \<noteq> []")
    case True
    obtain v w2 where rv: "b_ReversePayment (o_bank orc) \<lparr>brr_BankPaymentRef = py_BankPaymentRef p, brr_Reason = reason\<rparr> w = (v, w2)"
      by fastforce
    from reverse_keeps [OF assms(2) rv] reversed [OF assms(2)] b True rv show ?thesis by (cases v) auto
  qed (use b assms(2) in auto)
  obtain v w2 where rl: "c_ReleaseReservation (o_consent orc) \<lparr>rlr_ReservationId = uc_String (o_codec orc) rid, rlr_Reason = reason\<rparr> w1 = (v, w2)"
    by fastforce
  have "(err, w') = (case v of Inl e \<Rightarrow> (Some (OtherError (str_Join ''; '' (errs1 @ [''consent: '' @ Error_text e])) None), w2)
      | Inr u \<Rightarrow> (if errs1 \<noteq> [] then Some (OtherError (str_Join ''; '' errs1) None) else None, w2))"
    unfolding assms(1) [symmetric] compensate_def b Let_def prod.case assms(3) option.case if_True rl by (cases v) simp_all
  then have r: "w' = w2" "err = None \<longleftrightarrow> errs1 = [] \<and> \<not> isl v" by (cases v; simp)+
  have "inv w1" using w1 by simp
  from release_keeps [OF this rl] have k: "inv w2 \<and> pay w2 = pay w1 \<and> bnk w2 = bnk w1 \<and> led w2 = led w1" by simp
  have "hold (con w2) (py_ID p) = Freed" if "\<not> isl v"
  proof -
    obtain u where "v = Inr u" using \<open>\<not> isl v\<close> by (cases v) auto
    then show ?thesis using released [OF \<open>inv w1\<close>, of _ u w2 rid "py_ID p"] rl assms(4) w1 by simp
  qed
  with r k w1 show ?thesis by auto
qed

text \<open>The end of a saga for the payment \<open>i\<close> that started with balances \<open>B\<close> and bank payments \<open>m\<close>.\<close>

definition ended :: "goerror option \<Rightarrow> Payment \<Rightarrow> uuid \<Rightarrow> ('k \<Rightarrow> int) \<Rightarrow> (string \<Rightarrow> string option) \<Rightarrow> 'w \<Rightarrow> bool" where
  "ended err p' i B m w' \<longleftrightarrow> inv w' \<and>
     (if err = None then py_ID p' = i \<and> row (pay w') i = Some p' \<and>
        settled_once p' (uc_String (o_codec orc) i) (hold (con w') i) m (taken (bnk w')) \<and>
        books (led w') = (\<lambda>k. B k + delta (settlement_lines (o_codec orc) p') k)
      else clean_failure (row (pay w') i) (hold (con w') i)
        (money_out (taken (bnk w')) (uc_String (o_codec orc) i)) (books (led w') = B))"

text \<open>The last act of a failed saga marks the row.\<close>

lemma marked_failed:
  assumes "r_MarkFailed (o_repo orc) reason p w = (e, p', w')" and "inv w" and "row (pay w) (py_ID p) = Some q" and "in_flight q"
    and "hold (con w) (py_ID p) \<notin> {Holding, Settled}" and "books (led w) = B"
    and "reason = ''persist bank failed'' \<or> \<not> money_out (taken (bnk w)) (uc_String (o_codec orc) (py_ID p))"
  shows "ended (Some err) p'' (py_ID p) B m w'"
proof -
  from failed_row [OF assms(2,1)] obtain t where k: "inv w'" "con w' = con w" "bnk w' = bnk w" "led w' = led w"
    and r: "row_written (marked StatusFailed reason t) e p p' (row (pay w)) (row (pay w'))" by auto
  have "clean_failure (row (pay w') (py_ID p)) (hold (con w') (py_ID p))
        (money_out (taken (bnk w')) (uc_String (o_codec orc) (py_ID p))) (books (led w') = B)"
    using r k assms(3-7) by (auto simp: clean_failure_def row_written_def in_flight_def marked_def)
  with k show ?thesis by (simp add: ended_def)
qed

lemma marked_review:
  assumes "r_MarkManualReview (o_repo orc) reason p w = (e, p', w')" and "inv w" and "row (pay w) (py_ID p) = Some q" and "in_flight q"
  shows "ended (Some err) p'' (py_ID p) B m w'"
proof -
  from review_row [OF assms(2,1)] obtain t where k: "inv w'"
    and r: "row_written (marked StatusManualReview reason t) e p p' (row (pay w)) (row (pay w'))" by auto
  have "clean_failure (row (pay w') (py_ID p)) (hold (con w') (py_ID p))
        (money_out (taken (bnk w')) (uc_String (o_codec orc) (py_ID p))) (books (led w') = B)"
    using r assms(3-4) by (auto simp: clean_failure_def row_written_def in_flight_def marked_def)
  with k show ?thesis by (simp add: ended_def)
qed

text \<open>The state of a saga between the reservation and the end: the hold stands, and the only money
  taken for the payment is the one its record names, if any.\<close>

definition midway :: "Payment \<Rightarrow> Payment \<Rightarrow> 'w \<Rightarrow> bool" where
  "midway p q w \<longleftrightarrow> inv w \<and> row (pay w) (py_ID p) = Some q \<and> in_flight q \<and> hold (con w) (py_ID p) = Holding \<and>
     (\<exists>rid. py_ReservationID p = Some rid \<and> owner (con w) rid = Some (py_ID p))"

lemma failAndCompensate_end:
  assumes "failAndCompensate orc reason True rb ret p w = (err, p', w')" and "midway p q w" and "books (led w) = B"
    and "reason = ''persist bank failed'' \<or>
      (\<forall>ref. taken (bnk w) ref = Some (uc_String (o_codec orc) (py_ID p)) \<longrightarrow> rb \<and> ref = py_BankPaymentRef p \<and> ref \<noteq> [])"
  shows "err \<noteq> None \<and> ended err p'' (py_ID p) B m w'"
proof -
  from assms(2) obtain rid where p: "inv w" "row (pay w) (py_ID p) = Some q" "in_flight q"
    "py_ReservationID p = Some rid" "owner (con w) rid = Some (py_ID p)" by (auto simp: midway_def)
  obtain cerr w1 where c: "compensate orc p reason True rb w = (cerr, w1)" by fastforce
  note k = compensate_effect [OF c p(1,4,5)]
  then have w1: "inv w1" "row (pay w1) (py_ID p) = Some q" "books (led w1) = B" using p assms(3) by auto
  show ?thesis
  proof (cases cerr)
    case None
    obtain e p1 w2 where mf: "r_MarkFailed (o_repo orc) reason p w1 = (e, p1, w2)" by (metis prod.exhaust)
    have r: "w' = w2" "\<exists>x. err = Some x" using assms(1) by (auto simp: failAndCompensate_def c None mf)
    have "reason = ''persist bank failed'' \<or> \<not> money_out (taken (bnk w1)) (uc_String (o_codec orc) (py_ID p))"
      using assms(4) k None by (auto simp: money_out_def split: if_splits)
    moreover have "hold (con w1) (py_ID p) \<notin> {Holding, Settled}" using k None by simp
    ultimately show ?thesis using marked_failed [OF mf w1(1,2) p(3) _ w1(3)] r by auto
  next
    case (Some x)
    obtain e p1 w2 where mr: "r_MarkManualReview (o_repo orc) (reason @ ''; compensate failed: '' @ Error_text x) p w1 = (e, p1, w2)"
      by (metis prod.exhaust)
    have "w' = w2" "\<exists>x. err = Some x" using assms(1) unfolding failAndCompensate_def c Some prod.case option.case mr by auto
    with marked_review [OF mr w1(1,2) p(3)] show ?thesis by auto
  qed
qed

text \<open>After the ledger was posted, everything is undone.\<close>

lemma settle_failed_end:
  assumes "settle_failed orc what e0 p w = (err, p', w')" and "midway p q w"
    and "booked (uc_String (o_codec orc) (py_ID p)) l (led w)" and "books l = B"
    and "\<forall>ref. taken (bnk w) ref = Some (uc_String (o_codec orc) (py_ID p)) \<longrightarrow> ref = py_BankPaymentRef p \<and> ref \<noteq> []"
  shows "err \<noteq> None \<and> ended err p'' (py_ID p) B m w'"
proof -
  from assms(2) obtain rid where p: "inv w" "row (pay w) (py_ID p) = Some q" "in_flight q"
    "py_ReservationID p = Some rid" "owner (con w) rid = Some (py_ID p)" by (auto simp: midway_def)
  let ?rv = "\<lparr>lrr_PaymentId = uc_String (o_codec orc) (py_ID p), lrr_Reason = what\<rparr>"
  obtain v w1 where rv: "l_ReverseEntry (o_ledger orc) ?rv w = (v, w1)" by fastforce
  from unpost_keeps [OF p(1) rv] have w1: "inv w1" "pay w1 = pay w" "con w1 = con w" "bnk w1 = bnk w" by auto
  have b1: "books (led w1) = B" if "\<not> isl v"
    using unposted_back [OF p(1), of ?rv "projr v" w1 l] rv assms(3,4) \<open>\<not> isl v\<close> by (cases v) auto
  obtain cerr w2 where c: "compensate orc p what True True w1 = (cerr, w2)" by fastforce
  have k: "inv w2" "pay w2 = pay w1" "led w2 = led w1"
    "cerr = None \<longrightarrow> hold (con w2) (py_ID p) = Freed \<and> \<not> money_out (taken (bnk w2)) (uc_String (o_codec orc) (py_ID p))"
    using compensate_effect [OF c w1(1) p(4)] p(5) w1 assms(5) by (auto simp: money_out_def split: if_splits)
  have r2: "row (pay w2) (py_ID p) = Some q" using k(2) w1(2) p(2) by simp
  obtain ferr where f: "compensateFull orc p what w = (ferr, w2)" "ferr = None \<longleftrightarrow> \<not> isl v \<and> cerr = None"
  proof (cases v; cases cerr)
  qed (use rv c that in \<open>auto simp: compensateFull_def Let_def\<close>)
  show ?thesis
  proof (cases ferr)
    case None
    then have "hold (con w2) (py_ID p) \<notin> {Holding, Settled}" "books (led w2) = B"
      "\<not> money_out (taken (bnk w2)) (uc_String (o_codec orc) (py_ID p))" using f(2) k b1 by auto
    moreover obtain e p1 w3 where mf: "r_MarkFailed (o_repo orc) (''SETTLE_FAILED: '' @ Error_text e0) p w2 = (e, p1, w3)"
      by (metis prod.exhaust)
    moreover have "w' = w3" "\<exists>x. err = Some x"
      using assms(1) unfolding settle_failed_def f(1) None prod.case option.case mf by auto
    ultimately show ?thesis using marked_failed [OF mf k(1) r2 p(3)] by auto
  next
    case (Some x)
    obtain e p1 w3 where mr: "r_MarkManualReview (o_repo orc) (what @ ''; compensate failed: '' @ Error_text x) p w2 = (e, p1, w3)"
      by (metis prod.exhaust)
    have "w' = w3" "\<exists>x. err = Some x"
      using assms(1) unfolding settle_failed_def f(1) Some prod.case option.case mr by auto
    with marked_review [OF mr k(1) r2 p(3)] show ?thesis by auto
  qed
qed

section \<open>The steps\<close>

lemma confirm_step_effect:
  assumes "inv w" and "py_ReservationID p = Some rid" and "owner (con w) rid = Some (py_ID p)" and "hold (con w) (py_ID p) = Holding"
  shows "inv (confirm_step orc p w) \<and> pay (confirm_step orc p w) = pay w \<and> bnk (confirm_step orc p w) = bnk w \<and>
    led (confirm_step orc p w) = led w \<and> hold (con (confirm_step orc p w)) (py_ID p) \<in> {Holding, Settled}"
proof -
  let ?cf = "\<lparr>cfr_ReservationId = uc_String (o_codec orc) rid, cfr_PaymentId = uc_String (o_codec orc) (py_ID p)\<rparr>"
  obtain u w1 where c: "c_ConfirmReservation (o_consent orc) ?cf w = (u, w1)" by fastforce
  then have "confirm_step orc p w = w1" by (simp add: confirm_step_def assms(2))
  with confirm_keeps [OF assms(1) c] confirmed [OF assms(1) c, of rid "py_ID p"] assms(3,4) show ?thesis by auto
qed

lemma step5_end:
  assumes "saga_step5 orc p w = (err, p', w')" and "midway p p w"
    and "booked (uc_String (o_codec orc) (py_ID p)) l (led w)" and "books l = B"
    and "books (led w) = (\<lambda>k. B k + delta (settlement_lines (o_codec orc) p) k)"
    and "taken (bnk w) = m(py_BankPaymentRef p \<mapsto> uc_String (o_codec orc) (py_ID p))" and "py_BankPaymentRef p \<noteq> []"
    and "\<not> money_out m (uc_String (o_codec orc) (py_ID p))"
  shows "ended err p' (py_ID p) B m w'"
proof -
  from assms(2) obtain rid where p: "inv w" "row (pay w) (py_ID p) = Some p" "in_flight p" "hold (con w) (py_ID p) = Holding"
    "py_ReservationID p = Some rid" "owner (con w) rid = Some (py_ID p)" by (auto simp: midway_def)
  obtain serr p1 w1 where st: "r_SettleWithOutbox (o_repo orc) p w = (serr, p1, w1)" by (metis prod.exhaust)
  note k = settled_row [OF p(1) st]
  show ?thesis
  proof (cases serr)
    case None
    with k obtain t where p1: "p1 = after_settle t p" "row (pay w1) (py_ID p) = Some p1" and w1: "inv w1" "con w1 = con w" "bnk w1 = bnk w" "led w1 = led w"
      using p(2) by auto
    have "py_ReservationID p1 = Some rid" "py_ID p1 = py_ID p" using p1(1) p(5) by (simp_all add: after_settle_def)
    note c = confirm_step_effect [OF w1(1) this(1), unfolded w1(2) this(2), OF p(6,4)]
    have "err = None" "p' = p1" "w' = confirm_step orc p1 w1" using assms(1) by (auto simp: saga_step5_def st None)
    then show ?thesis using c p1 w1 assms(5-7) \<open>py_ID p1 = py_ID p\<close>
      by (simp add: ended_def settled_once_def) (simp add: after_settle_def)
  next
    case (Some x)
    with k have w1: "p1 = p" "inv w1" "row (pay w1) = row (pay w)" "con w1 = con w" "bnk w1 = bnk w" "led w1 = led w" by auto
    then have "midway p p w1" using p by (simp add: midway_def)
    moreover have "settle_failed orc ''settle failed'' x p w1 = (err, p', w')" using assms(1) by (simp add: saga_step5_def st Some w1(1))
    moreover have "\<forall>ref. taken (bnk w1) ref = Some (uc_String (o_codec orc) (py_ID p)) \<longrightarrow> ref = py_BankPaymentRef p \<and> ref \<noteq> []"
      using assms(6-8) w1(5) by (auto simp: money_out_def)
    ultimately show ?thesis using settle_failed_end [of "''settle failed''" x p w1 err p' w' p l B p' m] assms(3,4) w1(6) by simp
  qed
qed

lemma step4_end:
  assumes "saga_step4 orc p w = (err, p', w')" and "midway p p w"
    and "unposted (uc_String (o_codec orc) (py_ID p)) (led w)" and "books (led w) = B"
    and "taken (bnk w) = m(py_BankPaymentRef p \<mapsto> uc_String (o_codec orc) (py_ID p))" and "py_BankPaymentRef p \<noteq> []"
    and "\<not> money_out m (uc_String (o_codec orc) (py_ID p))"
  shows "ended err p' (py_ID p) B m w'"
proof -
  let ?rq = "\<lparr>per_PaymentId = uc_String (o_codec orc) (py_ID p),
    per_Description = ''VRP settlement '' @ uc_String (o_codec orc) (py_ID p), per_Lines = settlement_lines (o_codec orc) p\<rparr>"
  have "inv w" using assms(2) by (simp add: midway_def)
  obtain r w1 where post: "l_PostDoubleEntry (o_ledger orc) ?rq w = (r, w1)" by fastforce
  from post_keeps [OF \<open>inv w\<close> post] have w1: "inv w1" "pay w1 = pay w" "con w1 = con w" "bnk w1 = bnk w" by auto
  then have mid: "midway p p w1" using assms(2) by (simp add: midway_def)
  show ?thesis
  proof (cases r)
    case (Inl e)
    with post_failed [OF \<open>inv w\<close>] post assms(4) have "books (led w1) = B" by auto
    moreover have "failAndCompensate orc (''LEDGER_ERROR: '' @ Error_text e) True True (Some (mapDownstreamErr e)) p w1 = (err, p', w')"
      using assms(1) unfolding saga_step4_def post Inl by simp
    moreover have "\<forall>ref. taken (bnk w1) ref = Some (uc_String (o_codec orc) (py_ID p)) \<longrightarrow> True \<and> ref = py_BankPaymentRef p \<and> ref \<noteq> []"
      using assms(5-7) w1(4) by (auto simp: money_out_def)
    ultimately show ?thesis using failAndCompensate_end [OF _ mid] by blast
  next
    case (Inr x)
    with post_new [OF \<open>inv w\<close>, of ?rq x w1] post assms(3,4)
    have "booked (uc_String (o_codec orc) (py_ID p)) (led w) (led w1)"
      "books (led w1) = (\<lambda>k. B k + delta (settlement_lines (o_codec orc) p) k)" by auto
    moreover have "saga_step5 orc p w1 = (err, p', w')" using assms(1) unfolding saga_step4_def post Inr by simp
    ultimately show ?thesis using step5_end [OF _ mid, of err p' w' "led w" B m] assms(4-7) w1(4) by simp
  qed
qed

text \<open>The branch of step 3 where the bank took the money: the reference is written, then the ledger is posted.\<close>

definition bank_paid :: "string \<Rightarrow> 'w pay_update" where
  "bank_paid ref p w =
     (case r_UpdateAfterBank (o_repo orc) ref p w of
        (Some err, p1, w2) \<Rightarrow> failAndCompensate orc ''persist bank failed'' True True (Some err) p1 w2
      | (None, p1, w2) \<Rightarrow> saga_step4 orc p1 w2)"

lemma bank_paid_end:
  assumes "bank_paid ref p w = (err, p', w')" and "midway p p w"
    and "unposted (uc_String (o_codec orc) (py_ID p)) (led w)" and "books (led w) = B"
    and "taken (bnk w) = m(ref \<mapsto> uc_String (o_codec orc) (py_ID p))" and "ref \<noteq> []"
    and "\<not> money_out m (uc_String (o_codec orc) (py_ID p))"
  shows "ended err p' (py_ID p) B m w'"
proof -
  have "inv w" using assms(2) by (simp add: midway_def)
  obtain berr p1 w2 where ub: "r_UpdateAfterBank (o_repo orc) ref p w = (berr, p1, w2)" by (metis prod.exhaust)
  from bank_row [OF \<open>inv w\<close> ub] obtain t where k: "inv w2" "con w2 = con w" "bnk w2 = bnk w" "led w2 = led w"
    and rw: "row_written (after_bank ref t) berr p p1 (row (pay w)) (row (pay w2))" by auto
  show ?thesis
  proof (cases berr)
    case None
    have p1: "p1 = after_bank ref t p" using rw None by (simp add: row_written_def)
    have "midway p1 p1 w2" using assms(2) rw None k
      by (auto simp: midway_def row_written_def after_bank_def in_flight_def)
    moreover have "saga_step4 orc p1 w2 = (err, p', w')" using assms(1) by (simp add: bank_paid_def ub None)
    ultimately show ?thesis using step4_end [of p1 w2 err p' w' B m] assms(3-7) k
      unfolding p1 by (simp add: after_bank_def)
  next
    case (Some e)
    then have "p1 = p" using rw by (auto simp: row_written_def)
    have "\<exists>q. midway p q w2" using assms(2) rw Some k
      by (auto simp: midway_def row_written_def after_bank_def in_flight_def)
    then obtain q where "midway p q w2" ..
    moreover have "failAndCompensate orc ''persist bank failed'' True True (Some e) p w2 = (err, p', w')"
      using assms(1) by (simp add: bank_paid_def ub Some \<open>p1 = p\<close>)
    ultimately show ?thesis using failAndCompensate_end [of "''persist bank failed''"] assms(4) k(4) by simp
  qed
qed

lemma step3_end:
  assumes "saga_step3 orc cref p w = (err, p', w')" and "midway p p w"
    and "unposted (uc_String (o_codec orc) (py_ID p)) (led w)" and "books (led w) = B" and "taken (bnk w) = m"
    and "\<not> money_out m (uc_String (o_codec orc) (py_ID p))"
  shows "ended err p' (py_ID p) B m w'"
proof -
  let ?rq = "\<lparr>irq_PaymentId = uc_String (o_codec orc) (py_ID p), irq_BankConsentRef = cref,
    irq_ConsumerId = py_ConsumerID p, irq_Amount = Some (payment_money p), irq_Description = py_Description p\<rparr>"
  have "inv w" using assms(2) by (simp add: midway_def)
  obtain r w1 where ini: "b_InitiatePayment (o_bank orc) ?rq w = (r, w1)" by fastforce
  from initiate_keeps [OF \<open>inv w\<close> ini] have w1: "inv w1" "pay w1 = pay w" "con w1 = con w" "led w1 = led w" by auto
  then have mid: "midway p p w1" using assms(2) by (simp add: midway_def)
  have b1: "books (led w1) = B" using w1(4) assms(4) by simp
  have refused: ?thesis if "failAndCompensate orc reason True False ret p w1 = (err, p', w')" "taken (bnk w1) = m" for reason ret
    using failAndCompensate_end [OF that(1) mid b1] assms(6) that(2) by (auto simp: money_out_def)
  show ?thesis
  proof (cases r)
    case (Inl e)
    with initiate_failed [OF \<open>inv w\<close>] ini assms(5) have "taken (bnk w1) = m" by auto
    then show ?thesis using refused assms(1) unfolding saga_step3_def ini Inl by simp
  next
    case (Inr resp)
    show ?thesis
    proof (cases "irs_Status resp = Bank_REJECTED")
      case True
      with initiate_rejected [OF \<open>inv w\<close>] ini Inr assms(5) have "taken (bnk w1) = m" by auto
      then show ?thesis using refused assms(1) True unfolding saga_step3_def ini Inr by (simp add: Let_def)
    next
      case False
      with initiate_paid [OF \<open>inv w\<close>, of ?rq resp w1] ini Inr assms(5)
      have paid: "taken (bnk w1) = m(irs_BankPaymentRef resp \<mapsto> uc_String (o_codec orc) (py_ID p))" "irs_BankPaymentRef resp \<noteq> []" by auto
      moreover have "bank_paid (irs_BankPaymentRef resp) p w1 = (err, p', w')"
        using assms(1) False unfolding saga_step3_def ini Inr by (simp add: bank_paid_def)
      ultimately show ?thesis using bank_paid_end [OF _ mid _ b1] assms(3,6) w1(4) by simp
    qed
  qed
qed

lemma step2_end:
  assumes "saga_step2 orc cref p w = (err, p', w')" and "midway p p w"
    and "unposted (uc_String (o_codec orc) (py_ID p)) (led w)" and "books (led w) = B" and "taken (bnk w) = m"
    and "\<not> money_out m (uc_String (o_codec orc) (py_ID p))"
  shows "ended err p' (py_ID p) B m w'"
proof -
  let ?rq = "\<lparr>srq_MerchantId = uc_String (o_codec orc) (py_MerchantID p), srq_ConsumerId = py_ConsumerID p,
              srq_ConsentId = uc_String (o_codec orc) (py_ConsentID p),
              srq_PaymentId = uc_String (o_codec orc) (py_ID p), srq_Amount = Some (payment_money p),
              srq_IpAddress = [], srq_UserAgent = []\<rparr>"
  have "inv w" using assms(2) by (simp add: midway_def)
  obtain r w1 where sc: "k_Score (o_risk orc) ?rq w = (r, w1)" by fastforce
  from score_keeps [OF \<open>inv w\<close> sc] have w1: "inv w1" "pay w1 = pay w" "con w1 = con w" "bnk w1 = bnk w" "led w1 = led w" by auto
  have refused: ?thesis if "failAndCompensate orc reason True False ret x u = (err, p', w')" "midway x q u" "py_ID x = py_ID p"
    "bnk u = bnk w" "led u = led w" for reason ret x u q
    using failAndCompensate_end [OF that(1,2), of B] assms(4-6) that(3-5) by (auto simp: money_out_def)
  show ?thesis
  proof (cases r)
    case (Inl e)
    then show ?thesis using refused [of _ _ p w1 p] assms(1,2) w1 unfolding saga_step2_def sc Inl by (simp add: midway_def)
  next
    case (Inr resp)
    let ?d = "RiskDecision_String (srs_Decision resp)"
    show ?thesis
    proof (cases "srs_Decision resp = Risk_DECLINE")
      case True
      let ?p = "p\<lparr>py_RiskScore := Some (srs_Score resp), py_RiskDecision := ?d\<rparr>"
      have "midway ?p p w1" using assms(2) w1 by (simp add: midway_def)
      then show ?thesis using refused [of _ _ ?p w1 p] assms(1) w1 True unfolding saga_step2_def sc Inr by simp
    next
      case False
      obtain uerr p1 w2 where ur: "r_UpdateAfterRisk (o_repo orc) (srs_Score resp) ?d p w1 = (uerr, p1, w2)" by (metis prod.exhaust)
      from risk_row [OF w1(1) ur] obtain t where k: "inv w2" "con w2 = con w" "bnk w2 = bnk w" "led w2 = led w"
        and rw: "row_written (after_risk (srs_Score resp) ?d t) uerr p p1 (row (pay w)) (row (pay w2))" using w1 by auto
      have mid: "\<exists>q. midway p1 q w2 \<and> (uerr = None \<longrightarrow> q = p1)" and i: "py_ID p1 = py_ID p"
        using assms(2) rw k by (auto simp: midway_def row_written_def after_risk_def in_flight_def)
      show ?thesis
      proof (cases uerr)
        case None
        then have "saga_step3 orc cref p1 w2 = (err, p', w')" using assms(1) False unfolding saga_step2_def sc Inr by (simp add: ur)
        then show ?thesis using step3_end [of cref p1 w2 err p' w' B m] mid None i k assms(3-6) by simp
      next
        case (Some e)
        then show ?thesis using refused [of _ _ p1 w2] mid i k assms(1) False unfolding saga_step2_def sc Inr by (auto simp: ur)
      qed
    qed
  qed
qed

lemma consent_refused_end:
  assumes "consent_refused orc e p w = (err, p', w')" and "inv w" and "row (pay w) (py_ID p) = Some q" and "in_flight q"
    and "hold (con w) (py_ID p) \<notin> {Holding, Settled}" and "books (led w) = B"
    and "\<not> money_out (taken (bnk w)) (uc_String (o_codec orc) (py_ID p))"
  shows "ended err p' (py_ID p) B m w'"
proof -
  from assms(1) obtain reason e1 where "r_MarkFailed (o_repo orc) reason p w = (e1, p', w')" "\<exists>x. err = Some x"
    unfolding consent_refused_def by (auto split: option.splits prod.splits)
  with marked_failed [OF _ assms(2-6)] assms(7) show ?thesis by blast
qed

text \<open>A saga always ends, and in one of the two ways.\<close>

theorem runSaga_ended:
  assumes "runSaga orc p w = (err, p', w')" and "inv w" and "row (pay w) (py_ID p) = Some p" and "in_flight p"
    and "hold (con w) (py_ID p) = Unheld" and "unposted (uc_String (o_codec orc) (py_ID p)) (led w)"
    and "\<not> money_out (taken (bnk w)) (uc_String (o_codec orc) (py_ID p))"
  shows "ended err p' (py_ID p) (books (led w)) (taken (bnk w)) w'"
proof -
  let ?rq = "\<lparr>rrq_ConsentId = uc_String (o_codec orc) (py_ConsentID p),
              rrq_PaymentId = uc_String (o_codec orc) (py_ID p), rrq_Amount = Some (payment_money p)\<rparr>"
  obtain r w1 where res: "c_ValidateAndReserve (o_consent orc) ?rq w = (r, w1)" by fastforce
  from reserve_keeps [OF assms(2) res] have w1: "inv w1" "pay w1 = pay w" "bnk w1 = bnk w" "led w1 = led w" by auto
  show ?thesis
  proof (cases r)
    case (Inl e)
    then have "consent_refused orc e p w1 = (err, p', w')" using assms(1) unfolding runSaga_def res by simp
    moreover have "hold (con w1) (py_ID p) = Unheld" using reserve_refused [OF assms(2)] res Inl assms(5) by auto
    ultimately show ?thesis using consent_refused_end w1 assms(3,4,7) by simp
  next
    case (Inr resp)
    with reserve_held [OF assms(2), of ?rq resp w1 "py_ID p"] res assms(5) obtain rid where
      h: "hold (con w1) (py_ID p) = Holding" and rid: "uc_Parse (o_codec orc) (rrs_ReservationId resp) = Some rid"
      "owner (con w1) rid = Some (py_ID p)" by auto
    obtain uerr p1 w2 where uc: "r_UpdateAfterConsent (o_repo orc) rid (rrs_ConsumerId resp) p w1 = (uerr, p1, w2)" by (metis prod.exhaust)
    from consent_row [OF w1(1) uc] obtain t where k: "inv w2" "con w2 = con w1" "bnk w2 = bnk w" "led w2 = led w"
      and rw: "row_written (after_consent rid (rrs_ConsumerId resp) t) uerr p p1 (row (pay w)) (row (pay w2))" using w1 by auto
    show ?thesis
    proof (cases uerr)
      case None
      then have "midway p1 p1 w2" "py_ID p1 = py_ID p" using rw k h rid(2) assms(3,4)
        by (auto simp: midway_def row_written_def after_consent_def in_flight_def)
      moreover have "saga_step2 orc (rrs_BankConsentRef resp) p1 w2 = (err, p', w')"
        using assms(1) None unfolding runSaga_def res Inr by (simp add: uc rid(1))
      ultimately show ?thesis using step2_end [of "rrs_BankConsentRef resp" p1 w2 err p' w'] k assms(6,7) by simp
    next
      case (Some e)
      let ?p = "p\<lparr>py_ReservationID := Some rid\<rparr>"
      have "p1 = p" using rw Some by (auto simp: row_written_def)
      obtain q where mid: "midway ?p q w2" using rw k h rid(2) assms(3,4) Some
        by (auto simp: midway_def row_written_def after_consent_def in_flight_def)
      have "failAndCompensate orc ''persist consent failed'' True False (Some e) ?p w2 = (err, p', w')"
        using assms(1) Some unfolding runSaga_def res Inr failAndCompensate_def
        by (auto simp: uc rid(1) \<open>p1 = p\<close> Let_def split: prod.splits option.splits)
      then show ?thesis using failAndCompensate_end [OF _ mid, of "''persist consent failed''" False "Some e" err p' w' "books (led w)"]
          k assms(7) by (auto simp: money_out_def)
    qed
  qed
qed

end

end
