(* ===== verification/Platform.thy ===== *)
theory Platform
  imports Saga_Props Ledger_Correct Bank_Correct Risk
begin

text \<open>
  The platform: the payment service with its orchestrator wired to the models of the consent, risk, bank and
  ledger services (\<open>services/payment-svc/cmd/main.go\<close> dials them over gRPC).
  \<^item> \<open>platform\<close> is the state of all five. A gRPC call takes one entry of \<open>pl_rpc\<close>: it passes, the request is lost
    (an error, the service never saw it), or the response is lost (an error after the service has acted).
  \<^item> \<open>platform_inv\<close> is what the outcome theorems assume: the invariants of the services, one UUID text form,
    the documented behaviour of the adapter's libraries, and that no response is lost on the way back and the
    mock bank simulates no failure. Everything else may fail at any call.
  \<^item> The interpretation \<open>vrp\<close> discharges the contracts of \<open>Saga_Props\<close> on the services' definitions.
\<close>

section \<open>The wiring\<close>

datatype rpc_fault = request_lost goerror | response_lost goerror

record 'c platform =
  pl_pay :: payment_db
  pl_con :: consent_db
  pl_risk :: risk_db
  pl_bank :: "'c bank_db"
  pl_led :: ledger_db
  pl_rpc :: "rpc_fault option list"

definition rpc_call :: "('c platform \<Rightarrow> 'a res \<times> 'c platform) \<Rightarrow> 'c platform \<Rightarrow> 'a res \<times> 'c platform" where
  "rpc_call f w =
     (case pl_rpc w of
        [] \<Rightarrow> f w
      | None # xs \<Rightarrow> f (w\<lparr>pl_rpc := xs\<rparr>)
      | Some (request_lost e) # xs \<Rightarrow> (Inl e, w\<lparr>pl_rpc := xs\<rparr>)
      | Some (response_lost e) # xs \<Rightarrow> (Inl e, snd (f (w\<lparr>pl_rpc := xs\<rparr>))))"

definition on_con :: "(consent_db \<Rightarrow> 'a \<times> consent_db) \<Rightarrow> 'c platform \<Rightarrow> 'a \<times> 'c platform" where
  "on_con f w = (case f (pl_con w) of (r, s) \<Rightarrow> (r, w\<lparr>pl_con := s\<rparr>))"

definition on_risk :: "(risk_db \<Rightarrow> 'a \<times> risk_db) \<Rightarrow> 'c platform \<Rightarrow> 'a \<times> 'c platform" where
  "on_risk f w = (case f (pl_risk w) of (r, s) \<Rightarrow> (r, w\<lparr>pl_risk := s\<rparr>))"

definition on_bank :: "('c bank_db \<Rightarrow> 'a \<times> 'c bank_db) \<Rightarrow> 'c platform \<Rightarrow> 'a \<times> 'c platform" where
  "on_bank f w = (case f (pl_bank w) of (r, s) \<Rightarrow> (r, w\<lparr>pl_bank := s\<rparr>))"

definition on_led :: "(ledger_db \<Rightarrow> 'a \<times> ledger_db) \<Rightarrow> 'c platform \<Rightarrow> 'a \<times> 'c platform" where
  "on_led f w = (case f (pl_led w) of (r, s) \<Rightarrow> (r, w\<lparr>pl_led := s\<rparr>))"

definition on_pay :: "(payment_db \<Rightarrow> 'a \<times> payment_db) \<Rightarrow> 'c platform \<Rightarrow> 'a \<times> 'c platform" where
  "on_pay f w = (case f (pl_pay w) of (r, s) \<Rightarrow> (r, w\<lparr>pl_pay := s\<rparr>))"

definition upd_pay :: "payment_db pay_update \<Rightarrow> 'c platform pay_update" where
  "upd_pay f p w = (case f p (pl_pay w) of (err, p1, s) \<Rightarrow> (err, p1, w\<lparr>pl_pay := s\<rparr>))"

definition platform_orc :: "'c bank_lib \<Rightarrow> uuid_codec \<Rightarrow> 'c platform Orchestrator" where
  "platform_orc lib cdc =
     \<lparr>o_repo = \<lparr>r_CreatePayment = upd_pay CreatePayment, r_GetByID = (\<lambda>i. on_pay (GetByID i)),
        r_GetByIdempotencyKey = (\<lambda>k. on_pay (GetByIdempotencyKey k)),
        r_UpdateAfterConsent = (\<lambda>rid cid. upd_pay (UpdateAfterConsent rid cid)),
        r_UpdateAfterRisk = (\<lambda>score d. upd_pay (UpdateAfterRisk score d)), r_UpdateAfterBank = (\<lambda>ref. upd_pay (UpdateAfterBank ref)),
        r_SettleWithOutbox = upd_pay SettleWithOutbox, r_MarkFailed = (\<lambda>t. upd_pay (MarkFailed t)),
        r_MarkManualReview = (\<lambda>t. upd_pay (MarkManualReview t)), r_ResetForRetry = upd_pay ResetForRetry\<rparr>,
      o_idem = \<lparr>i_Begin = (\<lambda>k. on_pay (idem_Begin k)), i_Complete = (\<lambda>k v. on_pay (idem_Complete k v)),
        i_Release = (\<lambda>k. on_pay (idem_Release k)),
        i_WaitForCompletion = (\<lambda>k t. on_pay (idem_WaitForCompletion (\<lambda>s. (None, s)) k t))\<rparr>,
      o_consent = \<lparr>c_ValidateAndReserve = (\<lambda>rq. rpc_call (on_con (rpc_ValidateAndReserve rq))),
        c_ConfirmReservation = (\<lambda>rq. rpc_call (on_con (rpc_ConfirmReservation rq))),
        c_ReleaseReservation = (\<lambda>rq. rpc_call (on_con (rpc_ReleaseReservation rq)))\<rparr>,
      o_risk = \<lparr>k_Score = (\<lambda>rq. rpc_call (on_risk (rpc_Score (Some rq))))\<rparr>,
      o_bank = \<lparr>b_InitiatePayment = (\<lambda>rq. rpc_call (on_bank (adapter_InitiatePayment lib rq))),
        b_GetPaymentStatus = (\<lambda>rq. rpc_call (on_bank (adapter_GetPaymentStatus lib rq))),
        b_ReversePayment = (\<lambda>rq. rpc_call (on_bank (adapter_ReversePayment lib rq)))\<rparr>,
      o_ledger = \<lparr>l_PostDoubleEntry = (\<lambda>rq. rpc_call (on_led (rpc_PostDoubleEntry (Some rq)))),
        l_ReverseEntry = (\<lambda>rq. rpc_call (on_led (rpc_ReverseEntry (Some rq))))\<rparr>,
      o_codec = cdc, o_NewUUID = (\<lambda>w. case fresh_uuid (pl_pay w) of (i, s) \<Rightarrow> (i, w\<lparr>pl_pay := s\<rparr>))\<rparr>"

section \<open>Observations and the invariant\<close>

definition bank_taken :: "'c bank_db \<Rightarrow> string \<Rightarrow> string option" where
  "bank_taken s ref =
     (case bk_payments s ref of
        None \<Rightarrow> None
      | Some rec \<Rightarrow> if mb_Status rec = ''SETTLED'' \<or> mb_Status rec = ''AUTHORISED'' then Some (mb_PaymentID rec) else None)"

definition hold_owner :: "consent_db \<Rightarrow> uuid \<Rightarrow> uuid option" where
  "hold_owner s rid = map_option rv_payment (row_by rv_id rid (reservations s))"

definition posting_delta :: "JournalLine list \<Rightarrow> string \<times> string \<times> string \<Rightarrow> int" where
  "posting_delta ls k = (case lines_from_proto ls of Inl _ \<Rightarrow> 0 | Inr xs \<Rightarrow> delta_of xs k)"

definition unbooked :: "string \<Rightarrow> ledger_db \<Rightarrow> bool" where
  "unbooked pid s \<longleftrightarrow> \<not> has_entry s pid \<and> \<not> has_entry s (pid @ ''-rev'')"

definition booked_from :: "string \<Rightarrow> ledger_db \<Rightarrow> ledger_db \<Rightarrow> bool" where
  "booked_from pid s s' \<longleftrightarrow> ledger_ok s \<and> unbooked pid s \<and>
     (\<exists>d ls x t. PostDoubleEntry pid d ls s = (Inr x, t) \<and> env_only t s')"

definition platform_inv :: "'c bank_lib \<Rightarrow> uuid_codec \<Rightarrow> 'c platform \<Rightarrow> bool" where
  "platform_inv lib cdc w \<longleftrightarrow> bank_lib_ok lib \<and> codec_ok cdc \<and> payment_wf (pl_pay w) \<and> consent_wf (pl_con w) \<and>
     codec (pl_con w) = cdc \<and> ledger_ok (pl_led w) \<and> bank_calm (pl_bank w) \<and>
     (\<forall>e. Some (response_lost e) \<notin> set (pl_rpc w))"

lemma rpc_call_cases:
  assumes "rpc_call f w = (r, w')" and "platform_inv lib cdc w"
  obtains (lost) e xs where "r = Inl e" "w' = w\<lparr>pl_rpc := xs\<rparr>" "set xs \<subseteq> set (pl_rpc w)"
        | (served) xs where "f (w\<lparr>pl_rpc := xs\<rparr>) = (r, w')" "set xs \<subseteq> set (pl_rpc w)"
proof (cases "pl_rpc w")
  case Nil
  have same: "w\<lparr>pl_rpc := []\<rparr> = w" using Nil by (cases w) simp
  have "f (w\<lparr>pl_rpc := []\<rparr>) = (r, w')" unfolding same using assms(1) Nil by (simp add: rpc_call_def)
  then show thesis by (intro served [of "[]"]) simp_all
next
  case (Cons x xs)
  show thesis
  proof (cases x)
    case None
    with Cons assms(1) show thesis by (intro served [of xs]) (auto simp: rpc_call_def)
  next
    case (Some y)
    with Cons assms(2) obtain e where "y = request_lost e" by (cases y) (auto simp: platform_inv_def)
    with Cons Some assms(1) show thesis by (intro lost [of e xs]) (auto simp: rpc_call_def)
  qed
qed

lemma platform_inv_rpc: "platform_inv lib cdc w \<Longrightarrow> set xs \<subseteq> set (pl_rpc w) \<Longrightarrow> platform_inv lib cdc (w\<lparr>pl_rpc := xs\<rparr>)"
  by (auto simp: platform_inv_def)

section \<open>The consent service's contract\<close>

lemma on_con_cases:
  assumes "rpc_call (on_con f) w = (r, w')" and "platform_inv lib cdc w"
    and "\<And>s1 r1. f (pl_con w) = (r1, s1) \<Longrightarrow> consent_wf s1 \<and> codec s1 = cdc"
  obtains (lost) e where "r = Inl e" "pl_con w' = pl_con w" "platform_inv lib cdc w'"
      "(pl_pay w', pl_bank w', pl_led w') = (pl_pay w, pl_bank w, pl_led w)"
    | (served) "f (pl_con w) = (r, pl_con w')" "platform_inv lib cdc w'"
      "(pl_pay w', pl_bank w', pl_led w') = (pl_pay w, pl_bank w, pl_led w)"
  using assms(1,2)
proof (cases rule: rpc_call_cases)
  case (lost e xs)
  with that(1) platform_inv_rpc assms(2) show thesis by auto
next
  case (served xs)
  then obtain s1 where s: "f (pl_con w) = (r, s1)" "w' = w\<lparr>pl_rpc := xs, pl_con := s1\<rparr>"
    by (auto simp: on_con_def split: prod.splits)
  moreover have "platform_inv lib cdc w'"
    using assms(2) assms(3) [OF s(1)] s(2) served(2) by (auto simp: platform_inv_def)
  ultimately show thesis using that(2) by simp
qed

lemma hold_of_env: "env_only s s' \<Longrightarrow> hold_of s' = hold_of s"
  by (simp add: fun_eq_iff hold_of_def consent_env)

lemma hold_owner_env: "env_only s s' \<Longrightarrow> hold_owner s' = hold_owner s"
  by (simp add: fun_eq_iff hold_owner_def consent_env)

lemma hold_of_set:
  assumes "sets_status st v s s'" and "consent_wf s"
  shows "hold_of s' = (hold_of s)(rv_payment v := (if st = ResConfirmed then Settled else if st = ResReleased then Freed else Holding))"
proof
  fix p
  have r: "row_by rv_payment p (reservations s') =
      map_option (\<lambda>r. if rv_id r = rv_id v then r\<lparr>rv_status := st\<rparr> else r) (row_by rv_payment p (reservations s))"
    using assms(1) row_by_update_where [of "\<lambda>r. rv_id r = rv_id v" rv_payment "\<lambda>r. r\<lparr>rv_status := st\<rparr>" p "reservations s"]
    by (simp add: sets_status_def with_status_def)
  have v: "v \<in> set (reservations s)" and d: "distinct (map rv_id (reservations s))" "distinct (map rv_payment (reservations s))"
    using assms by (auto simp: sets_status_def consent_wf_def)
  show "hold_of s' p = ((hold_of s)(rv_payment v := (if st = ResConfirmed then Settled else if st = ResReleased then Freed else Holding))) p"
  proof (cases "p = rv_payment v")
    case True
    have "row_by rv_payment p (reservations s) = Some v" using row_by_SomeI [OF d(2) v] True by simp
    with r True show ?thesis by (simp add: hold_of_def)
  next
    case False
    have "rv_id x \<noteq> rv_id v" if "row_by rv_payment p (reservations s) = Some x" for x
      using row_by_SomeD [OF that] row_unique [OF d(1), of x v] v False by auto
    then have "row_by rv_payment p (reservations s') = row_by rv_payment p (reservations s)"
      using r by (cases "row_by rv_payment p (reservations s)") auto
    with False show ?thesis by (simp add: hold_of_def)
  qed
qed

lemma rpc_result_cases:
  assumes "rpc_result x = (r, s')"
  obtains e where "r = Inl (ToGRPC e)" "x = (Inl e, s')" | y where "r = Inr y" "x = (Inr y, s')"
  using assms by (cases x; cases "fst x") (auto simp: rpc_result_def)

lemma reserve_cases:
  assumes "rpc_ValidateAndReserve rq s = (r, s')" and "codec_ok (codec s)"
  obtains (refused) e where "r = Inl e" "env_only s s'"
        | (found) resp v where "r = Inr resp" "env_only s s'" "v \<in> set (reservations s)"
            "uc_pg (codec s) (rrq_PaymentId rq) = Some (rv_payment v)"
        | (held) resp inp c p i where "r = Inr resp" "holds inp c p i s s'" "uc_pg (codec s) (rrq_PaymentId rq) = Some p"
            "rrs_ReservationId resp = uc_String (codec s) i"
proof (cases "moneyFromProto (rrq_Amount rq)")
  case (Inl e)
  with assms(1) show thesis by (intro refused) (auto simp: rpc_ValidateAndReserve_def)
next
  case (Inr m)
  let ?inp = "\<lparr>ri_ConsentID = rrq_ConsentId rq, ri_PaymentID = rrq_PaymentId rq, ri_AmountPence = fst m, ri_Currency = snd m\<rparr>"
  obtain q t where q: "svc_ValidateAndReserve ?inp s = (q, t)" by fastforce
  have r: "s' = t" "isl q \<Longrightarrow> isl r" "\<And>x. q = Inr x \<Longrightarrow> \<exists>resp. r = Inr resp \<and> rrs_ReservationId resp = rs_ReservationID x"
    using assms(1) Inr q by (cases q; auto simp: rpc_ValidateAndReserve_def split: prod.splits)+
  from q assms(2) show thesis
  proof (cases rule: svc_ValidateAndReserve_effect)
    case (refused e)
    with r that(1) show thesis by (cases r) auto
  next
    case (found x v)
    with r that(2) show thesis by fastforce
  next
    case (held c p i)
    from r(3) [OF held(1)] obtain resp where "r = Inr resp" "rrs_ReservationId resp = uc_String (codec s) i"
      by (auto simp: reserved_result_def reserve_result_def)
    moreover have "uc_pg (codec s) (rrq_PaymentId rq) = Some p" using held(2) by (simp add: holds_def)
    ultimately show thesis using held(2) r(1) that(3) by blast
  qed
qed

lemma reserve_wf:
  assumes "rpc_ValidateAndReserve rq s = (r, s')" and "consent_wf s"
  shows "consent_wf s' \<and> codec s' = codec s"
proof -
  have "codec_ok (codec s)" using assms(2) by (simp add: consent_wf_def)
  with assms(1) show ?thesis
  proof (cases rule: reserve_cases)
    case (held resp inp c p i)
    with holds_wf assms(2) show ?thesis by (auto simp: holds_def)
  qed (use assms(2) consent_wf_env env_only_now in blast)+
qed

lemma confirm_wf:
  assumes "rpc_ConfirmReservation rq s = (r, s')" and "consent_wf s"
  shows "consent_wf s' \<and> codec s' = codec s"
proof -
  obtain q where "svc_ConfirmReservation (cfr_ReservationId rq) (cfr_PaymentId rq) s = (q, s')"
    using assms(1) unfolding rpc_ConfirmReservation_def by (cases rule: rpc_result_cases) auto
  from this assms(2) show ?thesis
  proof (cases rule: svc_ConfirmReservation_effect)
    case (confirmed v i)
    with confirms_wf assms(2) show ?thesis by (auto simp: confirms_def sets_status_def)
  qed (use assms(2) consent_wf_env env_only_now in blast)+
qed

lemma release_wf:
  assumes "rpc_ReleaseReservation rq s = (r, s')" and "consent_wf s"
  shows "consent_wf s' \<and> codec s' = codec s"
proof -
  obtain q where "svc_ReleaseReservation (rlr_ReservationId rq) (rlr_Reason rq) s = (q, s')"
    using assms(1) unfolding rpc_ReleaseReservation_def by (cases rule: rpc_result_cases) auto
  from this assms(2) show ?thesis
  proof (cases rule: svc_ReleaseReservation_effect)
    case (released v)
    with releases_wf assms(2) show ?thesis by (auto simp: releases_def sets_status_def)
  qed (use assms(2) consent_wf_env env_only_now in blast)+
qed

text \<open>The hold of a payment after each call.\<close>

lemma reserve_refused_hold: "rpc_ValidateAndReserve rq s = (Inl e, s') \<Longrightarrow> consent_wf s \<Longrightarrow> hold_of s' = hold_of s"
  by (erule reserve_cases) (auto simp: hold_of_env consent_wf_def)

lemma reserve_hold:
  assumes "rpc_ValidateAndReserve rq s = (Inr resp, s')" and "consent_wf s" and "rrq_PaymentId rq = uc_String (codec s) pid"
    and "hold_of s pid = Unheld"
  shows "hold_of s' = (hold_of s)(pid := Holding) \<and>
    (\<exists>rid. uc_Parse (codec s) (rrs_ReservationId resp) = Some rid \<and> hold_owner s' rid = Some pid)"
proof -
  have ok: "codec_ok (codec s)" using assms(2) by (simp add: consent_wf_def)
  have pid: "uc_pg (codec s) (rrq_PaymentId rq) = Some pid" using ok assms(3) by (simp add: codec_ok_def)
  have none: "row_by rv_payment pid (reservations s) = None"
    using assms(4) by (auto simp: hold_of_def split: option.splits if_splits)
  from assms(1) ok show ?thesis
  proof (cases rule: reserve_cases)
    case (found resp v)
    with none pid show ?thesis by (auto simp: row_by_None_iff)
  next
    case (held resp' inp c p i)
    have rs: "reservations s' = reservations s @ [new_hold s i (cs_id c) pid (ri_AmountPence inp)]" and i: "i \<notin> rv_id ` set (reservations s)"
      using held(2,3) pid by (auto simp: holds_def)
    have "hold_of s' = (hold_of s)(pid := Holding)"
      using none by (auto simp: fun_eq_iff hold_of_def rs row_by_append new_hold_def split: option.splits)
    moreover have "hold_owner s' i = Some pid"
      using i by (simp add: hold_owner_def rs row_by_append row_by_None_iff [THEN iffD2] new_hold_def)
    moreover have "uc_Parse (codec s) (rrs_ReservationId resp) = Some i" using held(1,4) ok by (auto simp: codec_ok_def)
    ultimately show ?thesis by blast
  qed simp
qed

lemma release_refused_hold:
  assumes "rpc_ReleaseReservation rq s = (Inl e, s')" and "consent_wf s"
  shows "hold_of s' = hold_of s"
proof -
  obtain q where "svc_ReleaseReservation (rlr_ReservationId rq) (rlr_Reason rq) s = (Inl q, s')"
    using assms(1) unfolding rpc_ReleaseReservation_def by (cases rule: rpc_result_cases) auto
  from this assms(2) show ?thesis by (cases rule: svc_ReleaseReservation_effect) (auto simp: hold_of_env)
qed

lemma owner_row:
  assumes "hold_owner s rid = Some pid" and "v \<in> set (reservations s)" and "rv_id v = rid" and "consent_wf s"
  shows "rv_payment v = pid \<and> row_by rv_payment pid (reservations s) = Some v"
proof -
  have d: "distinct (map rv_id (reservations s))" "distinct (map rv_payment (reservations s))"
    using assms(4) by (simp_all add: consent_wf_def)
  have "rv_payment v = pid" using row_by_SomeI [OF d(1) assms(2)] assms(1,3) by (simp add: hold_owner_def)
  with row_by_SomeI [OF d(2) assms(2)] show ?thesis by simp
qed

lemma release_hold:
  assumes "rpc_ReleaseReservation rq s = (Inr u, s')" and "consent_wf s" and "rlr_ReservationId rq = uc_String (codec s) rid"
    and "hold_owner s rid = Some pid"
  shows "hold_of s' = (hold_of s)(pid := Freed)"
proof -
  have rid: "uc_pg (codec s) (rlr_ReservationId rq) = Some rid" using assms(2,3) by (simp add: consent_wf_def codec_ok_def)
  obtain q where "svc_ReleaseReservation (rlr_ReservationId rq) (rlr_Reason rq) s = (Inr q, s')"
    using assms(1) unfolding rpc_ReleaseReservation_def by (cases rule: rpc_result_cases) auto
  from this assms(2) show ?thesis
  proof (cases rule: svc_ReleaseReservation_effect)
    case (again v)
    from owner_row [OF assms(4) again(3) _ assms(2)] rid again(5)
    have "row_by rv_payment pid (reservations s) = Some v" by simp
    then have "hold_of s pid = Freed" using again(4) by (simp add: hold_of_def)
    then show ?thesis using hold_of_env [OF again(2)] by auto
  next
    case (released v)
    then have st: "sets_status ResReleased v s s'" "v \<in> set (reservations s)" by (auto simp: releases_def sets_status_def)
    from owner_row [OF assms(4) st(2) _ assms(2)] rid released(3) have "rv_payment v = pid" by simp
    with hold_of_set [OF st(1) assms(2)] show ?thesis by simp
  qed simp
qed

lemma confirm_hold:
  assumes "rpc_ConfirmReservation rq s = (u, s')" and "consent_wf s" and "cfr_ReservationId rq = uc_String (codec s) rid"
    and "hold_owner s rid = Some pid" and "hold_of s pid = Holding"
  shows "hold_of s' pid = (if isl u then Holding else Settled)"
proof -
  have rid: "uc_pg (codec s) (cfr_ReservationId rq) = Some rid" using assms(2,3) by (simp add: consent_wf_def codec_ok_def)
  obtain q where q: "svc_ConfirmReservation (cfr_ReservationId rq) (cfr_PaymentId rq) s = (q, s')" "isl q = isl u"
    using assms(1) unfolding rpc_ConfirmReservation_def by (cases rule: rpc_result_cases) auto
  from q(1) assms(2) show ?thesis
  proof (cases rule: svc_ConfirmReservation_effect)
    case (refused e)
    then show ?thesis using hold_of_env [OF refused(2)] q(2) assms(5) by simp
  next
    case (again v)
    from owner_row [OF assms(4) again(3) _ assms(2)] rid again(5)
    have "row_by rv_payment pid (reservations s) = Some v" by simp
    then show ?thesis using again(4) assms(5) by (simp add: hold_of_def)
  next
    case (confirmed v i)
    then have st: "sets_status ResConfirmed v s s'" "v \<in> set (reservations s)" by (auto simp: confirms_def sets_status_def)
    from owner_row [OF assms(4) st(2) _ assms(2)] rid confirmed(3) have "rv_payment v = pid" by simp
    with hold_of_set [OF st(1) assms(2)] confirmed(1) q(2) show ?thesis by simp
  qed
qed

lemma platform_con: "platform_inv lib cdc w \<Longrightarrow> consent_wf (pl_con w) \<and> codec (pl_con w) = cdc"
  by (simp add: platform_inv_def)

lemma platform_consent:
  "consent_client (o_consent (platform_orc lib cdc)) cdc (platform_inv lib cdc) pl_con
     (\<lambda>w. (pl_pay w, pl_bank w, pl_led w)) hold_of hold_owner"
proof (unfold_locales, goal_cases)
  case (1 w rq r w')
  note c = platform_con [OF 1(1)]
  from 1(2) have "rpc_call (on_con (rpc_ValidateAndReserve rq)) w = (r, w')" by (simp add: platform_orc_def)
  then show ?case using 1(1) by (rule on_con_cases) (use c reserve_wf in auto)
next
  case (2 w rq e w')
  note c = platform_con [OF 2(1)]
  from 2(2) have "rpc_call (on_con (rpc_ValidateAndReserve rq)) w = (Inl e, w')" by (simp add: platform_orc_def)
  then show ?case using 2(1) by (rule on_con_cases) (use c reserve_wf reserve_refused_hold in auto)
next
  case (3 w rq resp w' pid)
  note c = platform_con [OF 3(1)]
  from 3(2) have "rpc_call (on_con (rpc_ValidateAndReserve rq)) w = (Inr resp, w')" by (simp add: platform_orc_def)
  then show ?case using 3(1) by (rule on_con_cases) (use c reserve_wf reserve_hold 3(3,4) in auto)
next
  case (4 w rq r w')
  note c = platform_con [OF 4(1)]
  from 4(2) have "rpc_call (on_con (rpc_ReleaseReservation rq)) w = (r, w')" by (simp add: platform_orc_def)
  then show ?case using 4(1) by (rule on_con_cases) (use c release_wf in auto)
next
  case (5 w rq e w')
  note c = platform_con [OF 5(1)]
  from 5(2) have "rpc_call (on_con (rpc_ReleaseReservation rq)) w = (Inl e, w')" by (simp add: platform_orc_def)
  then show ?case using 5(1) by (rule on_con_cases) (use c release_wf release_refused_hold in auto)
next
  case (6 w rq v w' rid pid)
  note c = platform_con [OF 6(1)]
  from 6(2) have "rpc_call (on_con (rpc_ReleaseReservation rq)) w = (Inr v, w')" by (simp add: platform_orc_def)
  then show ?case using 6(1) by (rule on_con_cases) (use c release_wf release_hold 6(3,4) in auto)
next
  case (7 w rq r w')
  note c = platform_con [OF 7(1)]
  from 7(2) have "rpc_call (on_con (rpc_ConfirmReservation rq)) w = (r, w')" by (simp add: platform_orc_def)
  then show ?case using 7(1) by (rule on_con_cases) (use c confirm_wf in auto)
next
  case (8 w rq u w' rid pid)
  note c = platform_con [OF 8(1)]
  from 8(2) have "rpc_call (on_con (rpc_ConfirmReservation rq)) w = (u, w')" by (simp add: platform_orc_def)
  then show ?case using 8(1) by (rule on_con_cases) (use c confirm_wf confirm_hold 8(3-5) in auto)
qed

section \<open>The bank's contract\<close>

lemma on_bank_cases:
  assumes "rpc_call (on_bank f) w = (r, w')" and "platform_inv lib cdc w"
    and "\<And>s1 r1. f (pl_bank w) = (r1, s1) \<Longrightarrow> bank_calm s1"
  obtains (lost) e where "r = Inl e" "pl_bank w' = pl_bank w" "platform_inv lib cdc w'"
      "(pl_pay w', pl_con w', pl_led w') = (pl_pay w, pl_con w, pl_led w)"
    | (served) "f (pl_bank w) = (r, pl_bank w')" "platform_inv lib cdc w'"
      "(pl_pay w', pl_con w', pl_led w') = (pl_pay w, pl_con w, pl_led w)"
  using assms(1,2)
proof (cases rule: rpc_call_cases)
  case (lost e xs)
  with that(1) platform_inv_rpc assms(2) show thesis by auto
next
  case (served xs)
  then obtain s1 where s: "f (pl_bank w) = (r, s1)" "w' = w\<lparr>pl_rpc := xs, pl_bank := s1\<rparr>"
    by (auto simp: on_bank_def split: prod.splits)
  moreover have "platform_inv lib cdc w'"
    using assms(2) assms(3) [OF s(1)] s(2) served(2) by (auto simp: platform_inv_def)
  ultimately show thesis using that(2) by simp
qed

lemma bank_taken_same: "bk_payments s' = bk_payments s \<Longrightarrow> bank_taken s' = bank_taken s"
  by (simp add: fun_eq_iff bank_taken_def)

lemma taken_initiate:
  assumes "bank_lib_ok lib" and "bank_calm s" and "adapter_InitiatePayment lib rq s = (r, s')"
  shows "(isl r \<and> bank_taken s' = bank_taken s) \<or>
    (\<exists>resp. r = Inr resp \<and> irs_Status resp = Bank_SETTLED \<and> irs_BankPaymentRef resp \<noteq> [] \<and>
       bank_taken s' = (bank_taken s)(irs_BankPaymentRef resp \<mapsto> irq_PaymentId rq))"
  using assms
proof (cases rule: adapter_Initiate_calm)
  case (failed e)
  then show ?thesis using bank_taken_same [OF failed(2)] by simp
next
  case (paid resp m rec t)
  moreover have "irs_BankPaymentRef resp \<noteq> []" using paid(10) by (simp add: new_ref_def split: prod.splits)
  moreover have "bank_taken s' = (bank_taken s)(irs_BankPaymentRef resp \<mapsto> irq_PaymentId rq)"
    using paid(4-6) by (simp add: fun_eq_iff bank_taken_def)
  ultimately show ?thesis by simp
qed

lemma taken_reverse:
  assumes "bank_lib_ok lib" and "bank_calm s" and "adapter_ReversePayment lib rv s = (r, s')"
  shows "bank_taken s' = (if isl r then bank_taken s else (bank_taken s)(brr_BankPaymentRef rv := None))"
  using assms
proof (cases rule: adapter_Reverse_calm)
  case (failed e)
  then show ?thesis using bank_taken_same [OF failed(2)] by simp
next
  case (reversed resp rec rec')
  then show ?thesis by (simp add: fun_eq_iff bank_taken_def)
qed

lemma platform_bank: "platform_inv lib cdc w \<Longrightarrow> bank_lib_ok lib" "platform_inv lib cdc w \<Longrightarrow> bank_calm (pl_bank w)"
  by (simp_all add: platform_inv_def)

lemma platform_bank_client:
  "bank_client (o_bank (platform_orc lib cdc)) (platform_inv lib cdc) pl_bank
     (\<lambda>w. (pl_pay w, pl_con w, pl_led w)) bank_taken"
proof (unfold_locales, goal_cases)
  case (1 w rq r w')
  note b = platform_bank [OF 1(1)]
  note k = adapter_keeps_calm [OF b] and t = taken_initiate [OF b] and v = taken_reverse [OF b]
  from 1(2) have "rpc_call (on_bank (adapter_InitiatePayment lib rq)) w = (r, w')" by (simp add: platform_orc_def)
  then show ?case using 1(1) by (rule on_bank_cases) (use k in auto)
next
  case (2 w rq e w')
  note b = platform_bank [OF 2(1)]
  note k = adapter_keeps_calm [OF b] and t = taken_initiate [OF b] and v = taken_reverse [OF b]
  from 2(2) have "rpc_call (on_bank (adapter_InitiatePayment lib rq)) w = (Inl e, w')" by (simp add: platform_orc_def)
  then show ?case using 2(1) by (rule on_bank_cases) (auto dest: k(1) t)
next
  case (3 w rq resp w')
  note b = platform_bank [OF 3(1)]
  note k = adapter_keeps_calm [OF b] and t = taken_initiate [OF b] and v = taken_reverse [OF b]
  from 3(2) have "rpc_call (on_bank (adapter_InitiatePayment lib rq)) w = (Inr resp, w')" by (simp add: platform_orc_def)
  then show ?case using 3(1) by (rule on_bank_cases) (use 3(3) in \<open>auto dest: k(1) t\<close>)
next
  case (4 w rq resp w')
  note b = platform_bank [OF 4(1)]
  note k = adapter_keeps_calm [OF b] and t = taken_initiate [OF b] and v = taken_reverse [OF b]
  from 4(2) have "rpc_call (on_bank (adapter_InitiatePayment lib rq)) w = (Inr resp, w')" by (simp add: platform_orc_def)
  then show ?case using 4(1) by (rule on_bank_cases) (auto dest: k(1) t)
next
  case (5 w rv r w')
  note b = platform_bank [OF 5(1)]
  note k = adapter_keeps_calm [OF b] and t = taken_initiate [OF b] and v = taken_reverse [OF b]
  from 5(2) have "rpc_call (on_bank (adapter_ReversePayment lib rv)) w = (r, w')" by (simp add: platform_orc_def)
  then show ?case using 5(1) by (rule on_bank_cases) (use k in auto)
next
  case (6 w rv e w')
  note b = platform_bank [OF 6(1)]
  note k = adapter_keeps_calm [OF b] and t = taken_initiate [OF b] and v = taken_reverse [OF b]
  from 6(2) have "rpc_call (on_bank (adapter_ReversePayment lib rv)) w = (Inl e, w')" by (simp add: platform_orc_def)
  then show ?case using 6(1) by (rule on_bank_cases) (use k v in auto)
next
  case (7 w rv x w')
  note b = platform_bank [OF 7(1)]
  note k = adapter_keeps_calm [OF b] and t = taken_initiate [OF b] and v = taken_reverse [OF b]
  from 7(2) have "rpc_call (on_bank (adapter_ReversePayment lib rv)) w = (Inr x, w')" by (simp add: platform_orc_def)
  then show ?case using 7(1) by (rule on_bank_cases) (use k v in auto)
qed

section \<open>The ledger's contract\<close>

lemma on_led_cases:
  assumes "rpc_call (on_led f) w = (r, w')" and "platform_inv lib cdc w"
    and "\<And>s1 r1. f (pl_led w) = (r1, s1) \<Longrightarrow> ledger_ok s1"
  obtains (lost) e where "r = Inl e" "pl_led w' = pl_led w" "platform_inv lib cdc w'"
      "(pl_pay w', pl_con w', pl_bank w') = (pl_pay w, pl_con w, pl_bank w)"
    | (served) "f (pl_led w) = (r, pl_led w')" "platform_inv lib cdc w'"
      "(pl_pay w', pl_con w', pl_bank w') = (pl_pay w, pl_con w, pl_bank w)"
  using assms(1,2)
proof (cases rule: rpc_call_cases)
  case (lost e xs)
  with that(1) platform_inv_rpc assms(2) show thesis by auto
next
  case (served xs)
  then obtain s1 where s: "f (pl_led w) = (r, s1)" "w' = w\<lparr>pl_rpc := xs, pl_led := s1\<rparr>"
    by (auto simp: on_led_def split: prod.splits)
  moreover have "platform_inv lib cdc w'"
    using assms(2) assms(3) [OF s(1)] s(2) served(2) by (auto simp: platform_inv_def)
  ultimately show thesis using that(2) by simp
qed

lemma post_cases:
  assumes "rpc_PostDoubleEntry (Some rq) s = (r, s')"
  obtains (invalid) e where "r = Inl e" "s' = s"
        | (run) ls q where "lines_from_proto (per_Lines rq) = Inr ls" "isl q = isl r"
            "PostDoubleEntry (per_PaymentId rq) (per_Description rq) ls s = (q, s')"
proof (cases "lines_from_proto (per_Lines rq)")
  case (Inl e)
  with assms show thesis by (intro invalid) (auto simp: rpc_PostDoubleEntry_def)
next
  case (Inr ls)
  with assms have "rpc_result (PostDoubleEntry (per_PaymentId rq) (per_Description rq) ls s) = (r, s')"
    by (simp add: rpc_PostDoubleEntry_def)
  then show thesis by (rule rpc_result_cases) (rule run [OF Inr, rotated], assumption, simp)+
qed

lemma post_keeps_ok: "rpc_PostDoubleEntry (Some rq) s = (r, s') \<Longrightarrow> ledger_ok s \<Longrightarrow> ledger_ok s'"
  by (erule post_cases) (auto dest: PostDoubleEntry_ok)

lemma post_failed_books:
  assumes "rpc_PostDoubleEntry (Some rq) s = (Inl e, s')" and "ledger_ok s"
  shows "sum_balance s' = sum_balance s"
  using assms(1)
proof (cases rule: post_cases)
  case (run ls q)
  then obtain e1 where "q = Inl e1" by (cases q) auto
  with run(3) store_journal.post_failed [OF assms(2)] show ?thesis by blast
qed simp

lemma post_new_books:
  assumes "rpc_PostDoubleEntry (Some rq) s = (Inr x, s')" and "ledger_ok s" and "unbooked (per_PaymentId rq) s"
  shows "booked_from (per_PaymentId rq) s s' \<and> sum_balance s' = (\<lambda>k. sum_balance s k + posting_delta (per_Lines rq) k)"
  using assms(1)
proof (cases rule: post_cases)
  case (run ls q)
  then obtain y where q: "PostDoubleEntry (per_PaymentId rq) (per_Description rq) ls s = (Inr y, s')" by (cases q) auto
  have "sum_balance s' = (\<lambda>k. sum_balance s k + posting_delta (per_Lines rq) k)"
    using store_journal.post_new [OF assms(2) _ q] assms(3) run(1) by (simp add: unbooked_def posting_delta_def fun_eq_iff)
  with q assms(2,3) show ?thesis unfolding booked_from_def using env_only_refl by blast
qed simp

text \<open>A posting that stands is not touched by another one for the same payment, whatever it returns.\<close>

lemma booked_posted: "booked_from pid l s \<Longrightarrow> ledger_ok s \<Longrightarrow> has_entry s pid"
  by (auto simp: booked_from_def unbooked_def ledger_ok_def elim!: PostDoubleEntry_new)

lemma booked_env: "booked_from pid l s \<Longrightarrow> env_only s s' \<Longrightarrow> booked_from pid l s'"
  unfolding booked_from_def using env_only_trans by blast

lemma post_again_books:
  assumes "rpc_PostDoubleEntry (Some rq) s = (r, s')" and "ledger_ok s" and "booked_from (per_PaymentId rq) l s"
  shows "booked_from (per_PaymentId rq) l s' \<and> sum_balance s' = sum_balance s"
  using assms(1)
proof (cases rule: post_cases)
  case (run ls q)
  have "env_only s s'" using PostDoubleEntry_again [OF _ booked_posted [OF assms(3,2)] run(3)] assms(2) by (simp add: ledger_ok_def)
  then show ?thesis using booked_env [OF assms(3)] sum_balance_env by (auto simp: fun_eq_iff)
qed (use assms(3) in simp)

lemma reverse_rpc:
  assumes "rpc_ReverseEntry (Some rv) s = (r, s')"
  obtains q where "ReverseEntry (lrr_PaymentId rv) (lrr_Reason rv) s = (q, s')" "isl q = isl r"
  using assms unfolding rpc_ReverseEntry_def option.case by (cases rule: rpc_result_cases) auto

lemma reverse_books:
  assumes "rpc_ReverseEntry (Some rv) s = (Inr u, s')" and "booked_from (lrr_PaymentId rv) l s"
  shows "sum_balance s' = sum_balance l"
proof -
  obtain q where "ReverseEntry (lrr_PaymentId rv) (lrr_Reason rv) s = (q, s')" "isl q = isl (Inr u :: unit res)"
    using assms(1) by (rule reverse_rpc)
  then have q: "ReverseEntry (lrr_PaymentId rv) (lrr_Reason rv) s = (Inr (), s')" by (cases q) auto
  from assms(2) obtain d ls x t where "ledger_ok l" "\<not> has_entry l (lrr_PaymentId rv)" "\<not> has_entry l (lrr_PaymentId rv @ ''-rev'')"
    "PostDoubleEntry (lrr_PaymentId rv) d ls l = (Inr x, t)" "env_only t s" by (auto simp: booked_from_def unbooked_def)
  from reversal_undoes [OF this q] show ?thesis by auto
qed

lemma platform_led: "platform_inv lib cdc w \<Longrightarrow> ledger_ok (pl_led w)"
  by (simp add: platform_inv_def)

lemma platform_ledger:
  "ledger_client (o_ledger (platform_orc lib cdc)) (platform_inv lib cdc) pl_led
     (\<lambda>w. (pl_pay w, pl_con w, pl_bank w)) sum_balance unbooked booked_from posting_delta"
proof (unfold_locales, goal_cases)
  case (1 w rq r w')
  note c = platform_led [OF 1(1)]
  from 1(2) have "rpc_call (on_led (rpc_PostDoubleEntry (Some rq))) w = (r, w')" by (simp add: platform_orc_def)
  then show ?case using 1(1) by (rule on_led_cases) (use c post_keeps_ok in auto)
next
  case (2 w rq e w')
  note c = platform_led [OF 2(1)]
  from 2(2) have "rpc_call (on_led (rpc_PostDoubleEntry (Some rq))) w = (Inl e, w')" by (simp add: platform_orc_def)
  then show ?case using 2(1) by (rule on_led_cases) (use c post_keeps_ok post_failed_books in auto)
next
  case (3 w rq x w')
  note c = platform_led [OF 3(1)]
  from 3(2) have "rpc_call (on_led (rpc_PostDoubleEntry (Some rq))) w = (Inr x, w')" by (simp add: platform_orc_def)
  then show ?case using 3(1) by (rule on_led_cases) (use c post_keeps_ok post_new_books 3(3) in auto)
next
  case (4 w rq r w' l)
  note c = platform_led [OF 4(1)]
  from 4(2) have "rpc_call (on_led (rpc_PostDoubleEntry (Some rq))) w = (r, w')" by (simp add: platform_orc_def)
  then show ?case using 4(1) by (rule on_led_cases) (use c post_keeps_ok post_again_books 4(3) in auto)
next
  case (5 w rv r w')
  note c = platform_led [OF 5(1)]
  from 5(2) have "rpc_call (on_led (rpc_ReverseEntry (Some rv))) w = (r, w')" by (simp add: platform_orc_def)
  then show ?case using 5(1) by (rule on_led_cases) (use c ReverseEntry_ok in \<open>auto elim!: reverse_rpc\<close>)
next
  case (6 w rv u w' l)
  note c = platform_led [OF 6(1)]
  from 6(2) have "rpc_call (on_led (rpc_ReverseEntry (Some rv))) w = (Inr u, w')" by (simp add: platform_orc_def)
  then show ?case using 6(1)
    by (rule on_led_cases) (use c ReverseEntry_ok reverse_books 6(3) in \<open>auto elim!: reverse_rpc\<close>)
qed

section \<open>The repository's contract\<close>

lemma upd_pay_cases:
  assumes "upd_pay f p w = (err, p', w')"
  obtains s where "f p (pl_pay w) = (err, p', s)" "w' = w\<lparr>pl_pay := s\<rparr>"
  using assms by (auto simp: upd_pay_def split: prod.splits)

lemma upd_pay_row:
  assumes "upd_pay f p w = (err, p', w')" and "platform_inv lib cdc w"
    and "\<And>s'. f p (pl_pay w) = (err, p', s') \<Longrightarrow> repo_update g err p p' (pl_pay w) s'"
  shows "platform_inv lib cdc w' \<and> (pl_con w', pl_bank w', pl_led w') = (pl_con w, pl_bank w, pl_led w) \<and>
    row_written g err p p' (prow (pl_pay w)) (prow (pl_pay w'))"
  using assms(1) by (rule upd_pay_cases) (use assms(2,3) in \<open>auto simp: repo_update_def platform_inv_def\<close>)

lemma platform_pay: "platform_inv lib cdc w \<Longrightarrow> payment_wf (pl_pay w)"
  by (simp add: platform_inv_def)

lemma platform_store:
  "payment_store (o_repo (platform_orc lib cdc)) (platform_inv lib cdc) pl_pay
     (\<lambda>w. (pl_con w, pl_bank w, pl_led w)) prow"
proof (unfold_locales, goal_cases)
  case (1 w rid cid p err p' w')
  then show ?case using upd_pay_row [OF _ 1(1) UpdateAfterConsent_effect [OF _ platform_pay [OF 1(1)]]]
    by (fastforce simp: platform_orc_def)
next
  case (2 w score d p err p' w')
  then show ?case using upd_pay_row [OF _ 2(1) UpdateAfterRisk_effect [OF _ platform_pay [OF 2(1)]]]
    by (fastforce simp: platform_orc_def)
next
  case (3 w ref p err p' w')
  then show ?case using upd_pay_row [OF _ 3(1) UpdateAfterBank_effect [OF _ platform_pay [OF 3(1)]]]
    by (fastforce simp: platform_orc_def)
next
  case (4 w reason p err p' w')
  then show ?case using upd_pay_row [OF _ 4(1) MarkFailed_effect [OF _ platform_pay [OF 4(1)]]]
    by (fastforce simp: platform_orc_def)
next
  case (5 w reason p err p' w')
  then show ?case using upd_pay_row [OF _ 5(1) MarkManualReview_effect [OF _ platform_pay [OF 5(1)]]]
    by (fastforce simp: platform_orc_def)
next
  case (6 w p err p' w')
  then have "upd_pay SettleWithOutbox p w = (err, p', w')" by (simp add: platform_orc_def)
  then obtain s where s: "SettleWithOutbox p (pl_pay w) = (err, p', s)" "w' = w\<lparr>pl_pay := s\<rparr>" by (rule upd_pay_cases)
  from s(1) platform_pay [OF 6(1)] show ?case
    by (cases rule: SettleWithOutbox_effect)
      (use s(2) 6(1) in \<open>auto simp: platform_inv_def settles_def payment_wf_env prow_env\<close>)
qed

lemma platform_score:
  assumes "platform_inv lib cdc w" and "k_Score (o_risk (platform_orc lib cdc)) rq w = (r, w')"
  shows "platform_inv lib cdc w' \<and> pl_pay w' = pl_pay w \<and> pl_con w' = pl_con w \<and> pl_bank w' = pl_bank w \<and> pl_led w' = pl_led w"
proof -
  from assms(2) have "rpc_call (on_risk (rpc_Score (Some rq))) w = (r, w')" by (simp add: platform_orc_def)
  then show ?thesis using assms(1)
  proof (cases rule: rpc_call_cases)
    case (served xs)
    then show ?thesis using assms(1) by (auto simp: on_risk_def platform_inv_def split: prod.splits)
  qed (use assms(1) platform_inv_rpc in auto)
qed

interpretation vrp: saga_world "platform_orc lib cdc" "platform_inv lib cdc" pl_pay pl_con pl_bank pl_led prow
    hold_of hold_owner bank_taken sum_balance unbooked booked_from posting_delta
  for lib :: "'c bank_lib" and cdc :: uuid_codec
proof -
  have c: "o_codec (platform_orc lib cdc) = cdc" by (simp add: platform_orc_def)
  show "saga_world (platform_orc lib cdc) (platform_inv lib cdc) pl_pay pl_con pl_bank pl_led prow
    hold_of hold_owner bank_taken sum_balance unbooked booked_from posting_delta"
    using platform_store [of lib cdc] platform_consent [of lib cdc] platform_bank_client [of lib cdc] platform_ledger [of lib cdc] platform_score [of lib cdc]
    by (simp add: saga_world_def saga_world_axioms_def c)
qed

end
