(* ===== verification/Platform_Correct.thy ===== *)
theory Platform_Correct
  imports Platform Consent_Correct Risk_Correct Payment_Correct
begin

text \<open>
  What the platform as a whole promises for a payment, from the contracts of \<open>Saga_Props\<close> and their interpretation
  in \<open>Platform\<close>: the two outcomes of a saga, what remains of them when a response is lost or the bank's reference
  is not persisted, and that a request with a known idempotency key starts nothing.
\<close>

section \<open>A saga's outcome\<close>

text \<open>A payment whose saga has not begun.\<close>

definition unstarted :: "uuid_codec \<Rightarrow> Payment \<Rightarrow> 'c platform \<Rightarrow> bool" where
  "unstarted cdc p w \<longleftrightarrow> prow (pl_pay w) (py_ID p) = Some p \<and> in_flight p \<and> hold_of (pl_con w) (py_ID p) = Unheld \<and>
     unbooked (uc_String cdc (py_ID p)) (pl_led w) \<and> \<not> money_out (bank_taken (pl_bank w)) (uc_String cdc (py_ID p))"

lemma platform_saga:
  assumes "platform_inv lib cdc w" and "unstarted cdc p w" and "runSaga (platform_orc lib cdc) p w = (err, p', w')"
  shows "vrp.ended lib cdc err p' (py_ID p) (sum_balance (pl_led w)) (bank_taken (pl_bank w)) w'"
proof -
  have "o_codec (platform_orc lib cdc) = cdc" by (simp add: platform_orc_def)
  with vrp.runSaga_ended [OF assms(3,1)] assms(2) show ?thesis by (simp add: unstarted_def)
qed



section \<open>A known idempotency key\<close>

definition same_rows :: "payment_db \<Rightarrow> payment_db \<Rightarrow> bool" where
  "same_rows s s' \<longleftrightarrow> payments s' = payments s \<and> pevents s' = pevents s \<and> outbox s' = outbox s"

lemma same_rows_trans: "same_rows s t \<Longrightarrow> same_rows t u \<Longrightarrow> same_rows s u"
  by (simp add: same_rows_def)

lemma same_rows_env: "env_only s s' \<Longrightarrow> same_rows s s'"
  by (simp add: same_rows_def payment_env)

lemma same_rows_pool:
  assumes "\<And>t. same_rows t (snd (f t))"
  shows "same_rows u (snd (pool_call f s)) \<longleftrightarrow> same_rows u s"
proof -
  obtain r s' where c: "pool_call f s = (r, s')" by fastforce
  then have "same_rows s s'"
  proof (cases rule: pool_call_cases)
    case (run s0)
    with assms [of s0] same_rows_env [OF run(1)] show ?thesis by (auto intro: same_rows_trans)
  qed (simp add: same_rows_env)
  with c show ?thesis by (simp add: same_rows_def)
qed

lemma same_rows_redis:
  "same_rows u (snd (redis_setnx k v ttl s)) = same_rows u s" "same_rows u (snd (redis_getkey k s)) = same_rows u s"
  "same_rows u (snd (redis_set k v ttl s)) = same_rows u s" "same_rows u (snd (redis_delkey k s)) = same_rows u s"
  unfolding redis_setnx_def redis_getkey_def redis_set_def redis_delkey_def
  by (rule same_rows_pool; simp add: same_rows_def split: option.split)+

lemma same_rows_wait: "same_rows u (snd (wait_loop n d k (\<lambda>s. (None, s)) s)) = same_rows u s"
  by (induction n arbitrary: s) (simp_all add: case_prod_beta same_rows_redis split: sum.split)

lemma same_rows_idem:
  "same_rows u (snd (idem_Begin k s)) = same_rows u s" "same_rows u (snd (idem_Complete k v s)) = same_rows u s"
  "same_rows u (snd (idem_Release k s)) = same_rows u s"
  "same_rows u (snd (idem_WaitForCompletion (\<lambda>s. (None, s)) k t s)) = same_rows u s"
  by (simp_all add: idem_Begin_def idem_Complete_def idem_Release_def idem_WaitForCompletion_def same_rows_wait
      case_prod_beta same_rows_redis split: sum.split)

lemma same_rows_read:
  "same_rows u (snd (GetByID i s)) = same_rows u s" "same_rows u (snd (GetByIdempotencyKey k s)) = same_rows u s"
  "same_rows u (snd (fresh_uuid s)) = same_rows u s"
proof -
  have "env_only s (snd (GetByID i s))" using GetByID_effect [of i s] by (metis prod.collapse)
  moreover have "env_only s (snd (GetByIdempotencyKey k s))" using GetByIdempotencyKey_effect [of k s] by (metis prod.collapse)
  moreover have "env_only s (snd (fresh_uuid s))" by (simp add: fresh_uuid_def)
  ultimately show "same_rows u (snd (GetByID i s)) = same_rows u s" "same_rows u (snd (GetByIdempotencyKey k s)) = same_rows u s"
    "same_rows u (snd (fresh_uuid s)) = same_rows u s"
    using same_rows_env by (auto simp: same_rows_def)
qed

text \<open>Nothing but the idempotency store and the payment service's bookkeeping changed.\<close>

definition inert :: "'c platform \<Rightarrow> 'c platform \<Rightarrow> bool" where
  "inert w w' \<longleftrightarrow> pl_con w' = pl_con w \<and> pl_risk w' = pl_risk w \<and> pl_bank w' = pl_bank w \<and> pl_led w' = pl_led w \<and>
     same_rows (pl_pay w) (pl_pay w')"

lemma inert_refl [simp]: "inert w w"
  by (simp add: inert_def same_rows_def)

lemma inert_trans: "inert u v \<Longrightarrow> inert v w \<Longrightarrow> inert u w"
  by (auto simp: inert_def intro: same_rows_trans)

lemma inert_on_pay: "inert u (snd (on_pay f w)) \<longleftrightarrow> inert u w" if "\<And>v s. same_rows v (snd (f s)) = same_rows v s"
  using that by (simp add: inert_def on_pay_def case_prod_beta)

lemma inert_ret: "inert u (snd (snd (ret_res x))) \<longleftrightarrow> inert u (snd x)"
  by (simp add: ret_res_def case_prod_beta split: sum.split)

lemmas inert_calls = inert_ret inert_on_pay same_rows_idem same_rows_read

lemma initiate_other_inert: "inert w (snd (snd (initiate_other (platform_orc lib cdc) key completed w)))"
  by (simp add: initiate_other_def platform_orc_def inert_calls case_prod_beta split: sum.split option.split)

lemma CreatePayment_known:
  assumes "payment_wf s" and "py_IdempotencyKey p \<in> pt_key ` set (payments s)" and "blank p" and "py_Status p \<noteq> StatusSettled"
  shows "\<exists>e p' s'. CreatePayment p s = (Some e, p', s') \<and> env_only s s'"
proof -
  obtain err p' s' where c: "CreatePayment p s = (err, p', s')" by (metis prod.exhaust)
  from this assms(3,1,4) show ?thesis by (cases rule: CreatePayment_effect) (use c assms(2) in auto)
qed

lemma initiate_owner_known:
  assumes "payment_wf (pl_pay w)" and "in_IdempotencyKey inp \<in> pt_key ` set (payments (pl_pay w))" and "validateInitiate inp = None"
  shows "inert w (snd (snd (initiate_owner (platform_orc lib cdc) inp w)))"
proof (cases "uc_Parse cdc (in_MerchantID inp) = None \<or> uc_Parse cdc (in_ConsentID inp) = None")
  case True
  then show ?thesis
    by (cases "uc_Parse cdc (in_MerchantID inp)") (auto simp: initiate_owner_def platform_orc_def inert_calls)
next
  case False
  then obtain m c where mc: "uc_Parse cdc (in_MerchantID inp) = Some m" "uc_Parse cdc (in_ConsentID inp) = Some c" by auto
  let ?i = "fst (fresh_uuid (pl_pay w))" and ?s = "snd (fresh_uuid (pl_pay w))"
  define p where "p = \<lparr>py_ID = ?i, py_IdempotencyKey = in_IdempotencyKey inp, py_MerchantID = m, py_ConsentID = c,
                  py_ConsumerID = [], py_AmountPence = in_AmountPence inp,
                  py_Currency = ToUpper (TrimSpace (in_Currency inp)), py_Status = StatusInitiated,
                  py_BankPaymentRef = [], py_ReservationID = None, py_RiskScore = None, py_RiskDecision = [],
                  py_FailureReason = [], py_Description = in_Description inp, py_InitiatedAt = zero_time,
                  py_SettledAt = None, py_UpdatedAt = zero_time\<rparr>"
  have e: "env_only (pl_pay w) ?s" by (simp add: fresh_uuid_def)
  have "blank p" using assms(3) by (auto simp: blank_def p_def validateInitiate_def split: if_splits)
  moreover have "payment_wf ?s" using payment_wf_env [OF e] assms(1) by simp
  moreover have "py_IdempotencyKey p \<in> pt_key ` set (payments ?s)" using assms(2) payment_env(1) [OF e] by (simp add: p_def)
  moreover have "py_Status p \<noteq> StatusSettled" by (simp add: p_def)
  ultimately obtain err p' s' where cr: "CreatePayment p ?s = (Some err, p', s')" "env_only ?s s'"
    using CreatePayment_known by blast
  have i: "inert w (w\<lparr>pl_pay := s'\<rparr>)"
    using same_rows_env [OF env_only_trans [OF e cr(2)]] by (simp add: inert_def)
  have "inert w (snd (snd (initiate_owner (platform_orc lib cdc) inp w))) \<longleftrightarrow> inert w (w\<lparr>pl_pay := s'\<rparr>)"
    using mc cr(1) unfolding p_def
    by (simp add: initiate_owner_def platform_orc_def inert_calls upd_pay_def Let_def case_prod_beta split: sum.split)
  with i show ?thesis by simp
qed

text \<open>C3: a request whose idempotency key belongs to a payment starts nothing, whatever the idempotency store
  says and whichever of its calls fail: no reservation, no score, no bank payment, no posting and no new or changed
  row. The unique index on the key is the last line of defence when the store has lost or never had the key.\<close>

theorem known_key_starts_nothing:
  assumes "payment_wf (pl_pay w)" and "in_IdempotencyKey inp \<in> pt_key ` set (payments (pl_pay w))" and "\<not> in_SkipIdempotency inp"
    and "Initiate (platform_orc lib cdc) inp w = (r, err, w')"
  shows "pl_con w' = pl_con w \<and> pl_risk w' = pl_risk w \<and> pl_bank w' = pl_bank w \<and> pl_led w' = pl_led w \<and>
    payments (pl_pay w') = payments (pl_pay w) \<and> outbox (pl_pay w') = outbox (pl_pay w)"
proof -
  let ?w = "snd (on_pay (idem_Begin (in_IdempotencyKey inp)) w)"
  have i: "inert w ?w" by (simp add: inert_calls)
  then have k: "payment_wf (pl_pay ?w)" "in_IdempotencyKey inp \<in> pt_key ` set (payments (pl_pay ?w))"
    using assms(1,2) by (auto simp: inert_def same_rows_def payment_wf_def)
  have "inert ?w (snd (snd (initiate_other (platform_orc lib cdc) key completed ?w)))" for key completed
    by (rule initiate_other_inert)
  moreover have "validateInitiate inp = None \<Longrightarrow> inert ?w (snd (snd (initiate_owner (platform_orc lib cdc) inp ?w)))"
    using initiate_owner_known [OF k] .
  ultimately have "inert w (snd (snd (Initiate (platform_orc lib cdc) inp w)))"
    using assms(3) i unfolding Initiate_def
    by (simp add: platform_orc_def [of lib cdc] case_prod_beta split: option.split sum.split)
       (auto simp: platform_orc_def [symmetric] intro: inert_trans)
  with assms(4) show ?thesis by (simp add: inert_def same_rows_def)
qed

section \<open>A concrete platform\<close>

text \<open>A payment of ten pounds against a consent for ten pounds a payment and fifty a month; \<open>fs\<close> are the faults of
  the gRPC calls, \<open>ds\<close> those of the payment service's database.\<close>

definition vrp_p :: Payment where
  "vrp_p = pay_new\<lparr>py_ConsentID := 1\<rparr>"

definition vrp_w :: "rpc_fault option list \<Rightarrow> goerror option list \<Rightarrow> nat platform" where
  "vrp_w fs ds = \<lparr>pl_pay = (snd (snd (CreatePayment vrp_p pay_s0)))\<lparr>script := ds\<rparr>, pl_con = ex_consent1 1000 5000,
     pl_risk = ex_risk, pl_bank = bank_s0, pl_led = ex_ledger, pl_rpc = fs\<rparr>"

abbreviation vrp_run :: "rpc_fault option list \<Rightarrow> goerror option list \<Rightarrow> goerror option \<times> Payment \<times> nat platform" where
  "vrp_run fs ds \<equiv> runSaga (platform_orc std_lib unary_codec) vrp_p (vrp_w fs ds)"

definition net_down :: goerror where
  "net_down = StatusError codes_Unavailable ''connection refused'' []"

lemma vrp_created: "payment_wf (pl_pay (vrp_w fs ds))" "prow (pl_pay (vrp_w fs ds)) 5 = Some vrp_p"
proof -
  have "fst (CreatePayment vrp_p pay_s0) = None \<and> fst (snd (CreatePayment vrp_p pay_s0)) = vrp_p" by code_simp
  then have c: "CreatePayment vrp_p pay_s0 = (None, vrp_p, snd (snd (CreatePayment vrp_p pay_s0)))" by (simp add: prod_eq_iff)
  have b: "blank vrp_p" "py_Status vrp_p \<noteq> StatusSettled" by (simp_all add: vrp_p_def pay_new_def blank_def)
  from c b(1) pay_s0_wf b(2) have "payment_wf (snd (snd (CreatePayment vrp_p pay_s0))) \<and> prow (snd (snd (CreatePayment vrp_p pay_s0))) 5 = Some vrp_p"
    by (cases rule: CreatePayment_effect) (auto simp: vrp_p_def pay_new_def)
  then show "payment_wf (pl_pay (vrp_w fs ds))" "prow (pl_pay (vrp_w fs ds)) 5 = Some vrp_p"
    by (simp_all add: vrp_w_def payment_wf_def prow_def)
qed

lemma vrp_inv:
  assumes "\<forall>e. Some (response_lost e) \<notin> set fs"
  shows "platform_inv std_lib unary_codec (vrp_w fs ds)"
proof -
  have "consent_wf (ex_consent1 1000 5000)" using consent_step_wf ex_consent1_step ex_consent0_wf by blast
  moreover have "codec (ex_consent1 1000 5000) = codec ex_consent0"
    using ex_consent1_step ex_consent0_wf by (cases rule: consent_step_cases)
      (auto simp: quiet_def creates_def revokes_def holds_def confirms_def releases_def sets_status_def)
  moreover have "codec ex_consent0 = unary_codec" by (simp add: ex_consent0_def)
  ultimately show ?thesis using assms vrp_created(1) std_lib_ok codec_ok_unary calm_bank_s0 ex_ledger_ok
    by (simp add: platform_inv_def vrp_w_def)
qed

lemma vrp_unstarted: "unstarted unary_codec vrp_p (vrp_w fs ds)"
proof -
  have "py_ID vrp_p = 5" "in_flight vrp_p" by (simp_all add: vrp_p_def pay_new_def in_flight_def)
  moreover have "hold_of (ex_consent1 1000 5000) 5 = Unheld" by code_simp
  moreover have "unbooked pid ex_ledger" for pid by (simp add: unbooked_def has_entry_def ex_ledger_def)
  moreover have "\<not> money_out (bank_taken bank_s0) i" for i by (simp add: money_out_def bank_taken_def bank_s0_def)
  ultimately show ?thesis using vrp_created(2) by (simp add: unstarted_def vrp_w_def)
qed



text \<open>The exception is real: when the database fails as the bank's reference is written, the payment ends FAILED,
  its hold is released and it may be retried, while the bank keeps the money: the compensation reads the reference from the
  record that was never updated, and so reverses nothing.\<close>

theorem persist_bank_gap:
  "case vrp_run [] [None, None, None, None, Some net_down] of
     (err, _, w') \<Rightarrow> err \<noteq> None \<and> bank_taken (pl_bank w') ''FPS-II'' = Some ''iiiiii'' \<and> hold_of (pl_con w') 5 = Freed \<and>
       (case prow (pl_pay w') 5 of Some x \<Rightarrow> py_Status x = StatusFailed \<and> py_BankPaymentRef x = [] | None \<Rightarrow> False)"
  by code_simp

text \<open>The compensation of a failed posting does not touch the ledger: when the ledger posted but its response is
  lost, the payment ends FAILED and its money is returned, while the posting stays in the books.\<close>

theorem lost_posting_stays:
  "case vrp_run [None, None, None, Some (response_lost net_down)] [] of
     (err, _, w') \<Rightarrow> err \<noteq> None \<and> bank_taken (pl_bank w') ''FPS-II'' = None \<and> hold_of (pl_con w') 5 = Freed \<and>
       sum_balance (pl_led w') (''PLATFORM_FEE'', ''platform'', ''GBP'') = 10 \<and>
       (case prow (pl_pay w') 5 of Some x \<Rightarrow> py_Status x = StatusFailed | None \<Rightarrow> False)"
  by code_simp

definition vrp_in :: InitiateInput where
  "vrp_in = \<lparr>in_IdempotencyKey = ''k'', in_MerchantID = ''iiiiiiii'', in_ConsentID = ''ii'', in_AmountPence = 1000, in_Currency = ''gbp'',
     in_Description = ''d'', in_SkipIdempotency = False, in_Existing = None\<rparr>"

theorem known_key_starts_nothing_witness:
  "\<exists>r err w'. Initiate (platform_orc std_lib unary_codec) vrp_in (vrp_w [] []) = (r, err, w') \<and>
     map_option py_ID r = Some 5 \<and> err = None \<and> reservations (pl_con w') = [] \<and> pl_bank w' = bank_s0"
proof -
  have c: "case Initiate (platform_orc std_lib unary_codec) vrp_in (vrp_w [] []) of
      (r, err, w') \<Rightarrow> map_option py_ID r = Some 5 \<and> err = None" by code_simp
  have k: "in_IdempotencyKey vrp_in \<in> pt_key ` set (payments (pl_pay (vrp_w [] [])))" "\<not> in_SkipIdempotency vrp_in"
    "reservations (pl_con (vrp_w [] [])) = []" by code_simp+
  obtain r err w' where r: "Initiate (platform_orc std_lib unary_codec) vrp_in (vrp_w [] []) = (r, err, w')" by (metis prod.exhaust)
  have "pl_bank (vrp_w [] []) = bank_s0" by (simp add: vrp_w_def)
  with known_key_starts_nothing [OF vrp_created(1) k(1,2) r] c r k(3) show ?thesis by simp
qed

end
