(* ===== verification/Merchant_Service.thy ===== *)
theory Merchant_Service
  imports Infra
begin

text \<open>
  The merchant service: \<open>services/merchant-svc/internal/domain.go\<close>, \<open>repo.go\<close>, \<open>service.go\<close> and \<open>handler.go\<close>
  over the tables of \<open>migrations/merchant\<close>.
  \<^item> \<open>merchant_db\<close> is the state: the tables \<open>merchant\<close> and \<open>api_key\<close>, and the operating system's source of random bytes
    (\<open>crypto/rand\<close>; a read may fail).
  \<^item> The password hash (\<open>golang.org/x/crypto/bcrypt\<close>) is not part of the repository: \<open>bcrypt_lib\<close> is a parameter,
    \<open>bcrypt_ok\<close> what its documentation promises, \<open>plain_bcrypt\<close> an instance. The hash is salted: \<open>bc_Generate\<close>
    takes the number of the random draw.
  \<^item> \<open>repo_...\<close>, \<open>merchant_...\<close> and \<open>rpc_...\<close> are the methods of \<open>Repo\<close>, \<open>Service\<close> and \<open>Handler\<close>. The join of candidates
    by prefix, which has no \<open>ORDER BY\<close>, is in the order of insertion.
  The lemmas are in the theory \<open>Merchant_Correct\<close>.
\<close>

section \<open>Data\<close>

abbreviation MerchantActive :: string where "MerchantActive \<equiv> ''ACTIVE''"
abbreviation MerchantSuspended :: string where "MerchantSuspended \<equiv> ''SUSPENDED''"
abbreviation KYBActive :: string where "KYBActive \<equiv> ''ACTIVE''"
abbreviation APIKeyStatusActive :: string where "APIKeyStatusActive \<equiv> ''ACTIVE''"

record Merchant =
  me_ID :: string
  me_Name :: string
  me_WebhookURL :: string
  me_ContactEmail :: string
  me_KYBStatus :: string
  me_Status :: string
  me_HMACSecret :: string
  me_CreatedAt :: int
  me_UpdatedAt :: int

record WebhookConfig =
  wc_MerchantID :: string
  wc_WebhookURL :: string
  wc_HMACSecret :: string

record RegisterInput =
  rg_Name :: string
  rg_WebhookURL :: string
  rg_ContactEmail :: string

record merchant_tbl =
  mt_id :: uuid
  mt_name :: string
  mt_webhook :: string
  mt_email :: "string option"
  mt_kyb :: string
  mt_status :: string
  mt_secret :: string
  mt_created :: int
  mt_updated :: int

record api_key_tbl =
  ak_id :: uuid
  ak_merchant :: uuid
  ak_hash :: string
  ak_prefix :: string
  ak_status :: string
  ak_created :: int
  ak_expires :: "int option"

record merchant_db = env +
  merchants :: "merchant_tbl list"
  api_keys :: "api_key_tbl list"
  rnd_src :: "nat \<Rightarrow> goerror + (nat \<Rightarrow> 8 word)"
  n_rnd :: nat

type_synonym 'a merchant_op = "merchant_db \<Rightarrow> 'a res \<times> merchant_db"

text \<open>The gRPC messages.\<close>

record pb_Merchant =
  pm_Id :: string
  pm_Name :: string
  pm_KybStatus :: string
  pm_Status :: string
  pm_WebhookUrl :: string
  pm_CreatedAt :: int
  pm_UpdatedAt :: int

record RegisterMerchantRequest =
  rmr_Name :: string
  rmr_WebhookUrl :: string
  rmr_ContactEmail :: string

record RegisterMerchantResponse =
  rms_Merchant :: pb_Merchant
  rms_ApiKey :: string

record pb_WebhookConfig =
  pw_MerchantId :: string
  pw_WebhookUrl :: string
  pw_HmacSecret :: string

section \<open>The password hash\<close>

record bcrypt_lib =
  bc_Generate :: "nat \<Rightarrow> string \<Rightarrow> nat \<Rightarrow> string res"
  bc_Compare :: "string \<Rightarrow> string \<Rightarrow> goerror option"

definition bcrypt_ok :: "bcrypt_lib \<Rightarrow> bool" where
  "bcrypt_ok lib \<longleftrightarrow> (\<forall>i p c h. bc_Generate lib i p c = Inr h \<longrightarrow> bc_Compare lib h p = None)"

definition plain_bcrypt :: bcrypt_lib where
  "plain_bcrypt =
     \<lparr>bc_Generate = (\<lambda>i p c. if length p > 72 then Inl (OtherError ''bcrypt: password length exceeds 72 bytes'' None) else Inr (CHR ''$'' # p)),
      bc_Compare = (\<lambda>h p. if h = CHR ''$'' # p then None
         else Some (OtherError ''crypto/bcrypt: hashedPassword is not the hash of the given password'' None))\<rparr>"

section \<open>Repository\<close>

definition scanMerchant :: "uuid_codec \<Rightarrow> merchant_tbl \<Rightarrow> Merchant" where
  "scanMerchant c t =
     \<lparr>me_ID = uc_String c (mt_id t), me_Name = mt_name t, me_WebhookURL = mt_webhook t,
      me_ContactEmail = (case mt_email t of None \<Rightarrow> [] | Some e \<Rightarrow> e), me_KYBStatus = mt_kyb t, me_Status = mt_status t,
      me_HMACSecret = mt_secret t, me_CreatedAt = mt_created t, me_UpdatedAt = mt_updated t\<rparr>"

definition insert_merchant :: "Merchant \<Rightarrow> Merchant merchant_op" where
  "insert_merchant m s =
     (case fresh_uuid s of
        (i, s1) \<Rightarrow>
          if i \<in> mt_id ` set (merchants s1) then (Inl pg_unique_violation, s1)
          else (Inr (m\<lparr>me_ID := uc_String (codec s1) i, me_CreatedAt := now s1, me_UpdatedAt := now s1\<rparr>),
                s1\<lparr>merchants := merchants s1 @
                  [\<lparr>mt_id = i, mt_name = me_Name m, mt_webhook = me_WebhookURL m, mt_email = Some (me_ContactEmail m),
                    mt_kyb = me_KYBStatus m, mt_status = me_Status m, mt_secret = me_HMACSecret m,
                    mt_created = now s1, mt_updated = now s1\<rparr>]\<rparr>))"

definition insert_api_key :: "string \<Rightarrow> string \<Rightarrow> string \<Rightarrow> unit merchant_op" where
  "insert_api_key mid keyHash keyPrefix = with_uuid mid (\<lambda>u s.
     case fresh_uuid s of
       (i, s1) \<Rightarrow>
         if u \<notin> mt_id ` set (merchants s1) then (Inl (PgError ''23503'' ''violates foreign key constraint''), s1)
         else if i \<in> ak_id ` set (api_keys s1) \<or> keyHash \<in> ak_hash ` set (api_keys s1) then (Inl pg_unique_violation, s1)
         else (Inr (), s1\<lparr>api_keys := api_keys s1 @
                [\<lparr>ak_id = i, ak_merchant = u, ak_hash = keyHash, ak_prefix = keyPrefix, ak_status = APIKeyStatusActive,
                  ak_created = now s1, ak_expires = None\<rparr>]\<rparr>))"

text \<open>The statements between \<open>Begin\<close> and \<open>Commit\<close>, then the transaction; the first statement writes through \<open>m\<close>.\<close>

definition create_statements :: "Merchant \<Rightarrow> string \<Rightarrow> string \<Rightarrow> Merchant merchant_op" where
  "create_statements m keyHash keyPrefix s =
     (case tx_call (insert_merchant m) s of
        (Inl err, s1) \<Rightarrow> (Inl (derr_Wrap CodeInternal ''insert merchant'' err), s1)
      | (Inr m1, s1) \<Rightarrow>
          (case tx_call (insert_api_key (me_ID m1) keyHash keyPrefix) s1 of
             (Inl err, s2) \<Rightarrow> (Inl (derr_Wrap CodeInternal ''insert api_key'' err), s2)
           | (Inr _, s2) \<Rightarrow> (Inr m1, s2)))"

definition repo_CreateMerchantAndAPIKey :: "Merchant \<Rightarrow> string \<Rightarrow> string \<Rightarrow> Merchant merchant_op" where
  "repo_CreateMerchantAndAPIKey m keyHash keyPrefix s =
     (case pool_call (\<lambda>s. (Inr (), s)) s of
        (Inl err, s0) \<Rightarrow> (Inl (derr_Wrap CodeInternal ''begin tx'' err), s0)
      | (Inr _, s0) \<Rightarrow>
          (case create_statements m keyHash keyPrefix (s0\<lparr>aborted := False\<rparr>) of
             (Inl err, s1) \<Rightarrow> (Inl err, rollback_to s0 s1)
           | (Inr m1, s1) \<Rightarrow>
               (case commit_tx no_deferred s0 m1 s1 of
                  (Inl err, s2) \<Rightarrow> (Inl (derr_Wrap CodeInternal ''commit tx'' err), s2)
                | (Inr m2, s2) \<Rightarrow> (Inr m2, s2))))"

text \<open>One row of \<open>merchant\<close> by its id, with the error of a missing row.\<close>

definition merchant_row :: "string \<Rightarrow> (uuid_codec \<Rightarrow> merchant_tbl \<Rightarrow> 'a) \<Rightarrow> string \<Rightarrow> 'a merchant_op" where
  "merchant_row what scan mid s =
     (case pool_call (with_uuid mid (\<lambda>u s. (case row_by mt_id u (merchants s) of
              None \<Rightarrow> Inl ErrNoRows | Some t \<Rightarrow> Inr (scan (codec s) t), s))) s of
        (Inl err, s1) \<Rightarrow>
          (Inl (if is_no_rows err then derr_New CodeNotFound ''merchant not found'' else derr_Wrap CodeInternal what err), s1)
      | (Inr m, s1) \<Rightarrow> (Inr m, s1))"

definition repo_GetMerchantByID :: "string \<Rightarrow> Merchant merchant_op" where
  "repo_GetMerchantByID = merchant_row ''get merchant'' scanMerchant"

definition repo_GetWebhookConfig :: "string \<Rightarrow> WebhookConfig merchant_op" where
  "repo_GetWebhookConfig = merchant_row ''get webhook config''
     (\<lambda>c t. \<lparr>wc_MerchantID = uc_String c (mt_id t), wc_WebhookURL = mt_webhook t, wc_HMACSecret = mt_secret t\<rparr>)"

definition candidates :: "string \<Rightarrow> merchant_db \<Rightarrow> (Merchant \<times> string) list" where
  "candidates prefix s =
     concat (map (\<lambda>k. case row_by mt_id (ak_merchant k) (merchants s) of
                        None \<Rightarrow> [] | Some t \<Rightarrow> [(scanMerchant (codec s) t, ak_hash k)])
       (filter (\<lambda>k. ak_prefix k = prefix \<and> ak_status k = APIKeyStatusActive) (api_keys s)))"

definition repo_GetCandidatesByPrefix :: "string \<Rightarrow> (Merchant \<times> string) list merchant_op" where
  "repo_GetCandidatesByPrefix prefix s =
     (case pool_call (\<lambda>s. (Inr (candidates prefix s), s)) s of
        (Inl err, s1) \<Rightarrow> (Inl (derr_Wrap CodeInternal ''query api_key by prefix'' err), s1)
      | (Inr cs, s1) \<Rightarrow> (Inr cs, s1))"

definition repo_Suspend :: "string \<Rightarrow> Merchant merchant_op" where
  "repo_Suspend mid s =
     (case pool_call (with_uuid mid (\<lambda>u s.
             let f = (\<lambda>t. t\<lparr>mt_status := MerchantSuspended, mt_updated := now s\<rparr>) in
             case row_by mt_id u (merchants s) of
               None \<Rightarrow> (Inl ErrNoRows, s)
             | Some t \<Rightarrow> (Inr (scanMerchant (codec s) (f t)),
                          s\<lparr>merchants := update_where (\<lambda>t. mt_id t = u) f (merchants s)\<rparr>))) s of
        (Inl err, s1) \<Rightarrow>
          (Inl (if is_no_rows err then derr_New CodeNotFound ''merchant not found'' else derr_Wrap CodeInternal ''suspend merchant'' err), s1)
      | (Inr m, s1) \<Rightarrow> (Inr m, s1))"

section \<open>Service\<close>

abbreviation apiKeyPrefix :: string where "apiKeyPrefix \<equiv> ''vrp_''"

definition hex_digit :: "nat \<Rightarrow> char" where
  "hex_digit n = (if n < 10 then char_of (48 + n) else char_of (87 + n))"

definition hex_EncodeToString :: "8 word list \<Rightarrow> string" where
  "hex_EncodeToString bs = concat (map (\<lambda>b. [hex_digit (unat b div 16), hex_digit (unat b mod 16)]) bs)"

definition rand_Read :: "nat \<Rightarrow> 8 word list merchant_op" where
  "rand_Read n s =
     (case rnd_src s (n_rnd s) of Inl err \<Rightarrow> Inl err | Inr f \<Rightarrow> Inr (map f [0..<n]), s\<lparr>n_rnd := Suc (n_rnd s)\<rparr>)"

definition randomHex :: "nat \<Rightarrow> string merchant_op" where
  "randomHex nBytes s =
     (case rand_Read nBytes s of (Inl err, s1) \<Rightarrow> (Inl err, s1) | (Inr b, s1) \<Rightarrow> (Inr (hex_EncodeToString b), s1))"

definition generateAPIKey :: "string merchant_op" where
  "generateAPIKey s =
     (case randomHex 32 s of (Inl err, s1) \<Rightarrow> (Inl err, s1) | (Inr h, s1) \<Rightarrow> (Inr (apiKeyPrefix @ h), s1))"

definition GenerateFromPassword :: "bcrypt_lib \<Rightarrow> string \<Rightarrow> nat \<Rightarrow> string merchant_op" where
  "GenerateFromPassword lib p cost s = (bc_Generate lib (n_rnd s) p cost, s\<lparr>n_rnd := Suc (n_rnd s)\<rparr>)"

definition merchant_Register :: "bcrypt_lib \<Rightarrow> RegisterInput \<Rightarrow> (Merchant \<times> string) merchant_op" where
  "merchant_Register lib inp s =
     (let name = TrimSpace (rg_Name inp);
          webhookURL = TrimSpace (rg_WebhookURL inp);
          contactEmail = TrimSpace (rg_ContactEmail inp)
      in if name = [] then (Inl (derr_New CodeValidation ''name is required''), s)
         else if webhookURL = [] then (Inl (derr_New CodeValidation ''webhook_url is required''), s)
         else case generateAPIKey s of
           (Inl err, s1) \<Rightarrow> (Inl (derr_Wrap CodeInternal ''generate api key'' err), s1)
         | (Inr plaintextKey, s1) \<Rightarrow>
         (case GenerateFromPassword lib plaintextKey 10 s1 of
           (Inl err, s2) \<Rightarrow> (Inl (derr_Wrap CodeInternal ''hash api key'' err), s2)
         | (Inr keyHash, s2) \<Rightarrow>
         (case randomHex 32 s2 of
           (Inl err, s3) \<Rightarrow> (Inl (derr_Wrap CodeInternal ''generate hmac secret'' err), s3)
         | (Inr hmacSecret, s3) \<Rightarrow>
             (let m = \<lparr>me_ID = [], me_Name = name, me_WebhookURL = webhookURL, me_ContactEmail = contactEmail,
                       me_KYBStatus = KYBActive, me_Status = MerchantActive, me_HMACSecret = hmacSecret,
                       me_CreatedAt = zero_time, me_UpdatedAt = zero_time\<rparr>
              in case repo_CreateMerchantAndAPIKey m keyHash (take 8 plaintextKey) s3 of
                   (Inl err, s4) \<Rightarrow> (Inl err, s4)
                 | (Inr m1, s4) \<Rightarrow> (Inr (m1, plaintextKey), s4)))))"

definition merchant_Get :: "string \<Rightarrow> Merchant merchant_op" where
  "merchant_Get i s =
     (if TrimSpace i = [] then (Inl (derr_New CodeValidation ''merchant_id is required''), s)
      else repo_GetMerchantByID (TrimSpace i) s)"

definition merchant_Suspend :: "string \<Rightarrow> Merchant merchant_op" where
  "merchant_Suspend i s =
     (if TrimSpace i = [] then (Inl (derr_New CodeValidation ''merchant_id is required''), s)
      else repo_Suspend (TrimSpace i) s)"

fun first_match :: "bcrypt_lib \<Rightarrow> string \<Rightarrow> (Merchant \<times> string) list \<Rightarrow> Merchant res" where
  "first_match lib key [] = Inl (derr_New CodeNotFound ''merchant not found'')"
| "first_match lib key ((m, h) # cs) = (if bc_Compare lib h key = None then Inr m else first_match lib key cs)"

definition merchant_GetByAPIKey :: "bcrypt_lib \<Rightarrow> string \<Rightarrow> Merchant merchant_op" where
  "merchant_GetByAPIKey lib apiKey s =
     (let key = TrimSpace apiKey in
      if key = [] then (Inl (derr_New CodeValidation ''api_key is required''), s)
      else if length key < 8 then (Inl (derr_New CodeNotFound ''merchant not found''), s)
      else case repo_GetCandidatesByPrefix (take 8 key) s of
             (Inl err, s1) \<Rightarrow> (Inl err, s1)
           | (Inr cs, s1) \<Rightarrow> (first_match lib key cs, s1))"

definition merchant_WebhookConfig :: "string \<Rightarrow> WebhookConfig merchant_op" where
  "merchant_WebhookConfig i s =
     (if TrimSpace i = [] then (Inl (derr_New CodeValidation ''merchant_id is required''), s)
      else repo_GetWebhookConfig (TrimSpace i) s)"

section \<open>Handler\<close>

definition toProtoMerchant :: "Merchant \<Rightarrow> pb_Merchant" where
  "toProtoMerchant m =
     \<lparr>pm_Id = me_ID m, pm_Name = me_Name m, pm_KybStatus = me_KYBStatus m, pm_Status = me_Status m,
      pm_WebhookUrl = me_WebhookURL m, pm_CreatedAt = me_CreatedAt m, pm_UpdatedAt = me_UpdatedAt m\<rparr>"

definition map_res :: "('a \<Rightarrow> 'b) \<Rightarrow> 'a res \<times> 's \<Rightarrow> 'b res \<times> 's" where
  "map_res f = (\<lambda>(r, s). (case r of Inl err \<Rightarrow> Inl err | Inr x \<Rightarrow> Inr (f x), s))"

definition rpc_RegisterMerchant :: "bcrypt_lib \<Rightarrow> RegisterMerchantRequest \<Rightarrow> RegisterMerchantResponse merchant_op" where
  "rpc_RegisterMerchant lib req s =
     rpc_result (map_res (\<lambda>(m, key). \<lparr>rms_Merchant = toProtoMerchant m, rms_ApiKey = key\<rparr>)
       (merchant_Register lib \<lparr>rg_Name = rmr_Name req, rg_WebhookURL = rmr_WebhookUrl req, rg_ContactEmail = rmr_ContactEmail req\<rparr> s))"

definition rpc_GetMerchant :: "string \<Rightarrow> pb_Merchant merchant_op" where
  "rpc_GetMerchant mid s = rpc_result (map_res toProtoMerchant (merchant_Get mid s))"

definition rpc_SuspendMerchant :: "string \<Rightarrow> string \<Rightarrow> pb_Merchant merchant_op" where
  "rpc_SuspendMerchant mid reason s = rpc_result (map_res toProtoMerchant (merchant_Suspend mid s))"

definition rpc_GetMerchantByApiKey :: "bcrypt_lib \<Rightarrow> string \<Rightarrow> pb_Merchant merchant_op" where
  "rpc_GetMerchantByApiKey lib key s = rpc_result (map_res toProtoMerchant (merchant_GetByAPIKey lib key s))"

definition rpc_GetWebhookConfig :: "string \<Rightarrow> pb_WebhookConfig merchant_op" where
  "rpc_GetWebhookConfig mid s =
     rpc_result (map_res (\<lambda>c. \<lparr>pw_MerchantId = wc_MerchantID c, pw_WebhookUrl = wc_WebhookURL c, pw_HmacSecret = wc_HMACSecret c\<rparr>)
       (merchant_WebhookConfig mid s))"

end
