(* ===== verification/Merchant_Correct.thy ===== *)
theory Merchant_Correct
  imports Merchant_Service
begin

text \<open>
  The correctness of the merchant service: registration is all or nothing, an API key finds the merchant it was
  issued to, and a suspension is visible to every later lookup.
\<close>

section \<open>The invariant\<close>

definition merchant_wf :: "merchant_db \<Rightarrow> bool" where
  "merchant_wf s \<longleftrightarrow> codec_ok (codec s) \<and> distinct (map mt_id (merchants s)) \<and> distinct (map ak_id (api_keys s)) \<and>
     distinct (map ak_hash (api_keys s)) \<and> (\<forall>k \<in> set (api_keys s). ak_merchant k \<in> mt_id ` set (merchants s)) \<and>
     (\<forall>t \<in> set (merchants s). mt_status t \<in> {MerchantActive, MerchantSuspended})"

lemma merchant_env:
  assumes "env_only s (s' :: merchant_db)"
  shows "merchants s' = merchants s" "api_keys s' = api_keys s" "codec s' = codec s" "now s' = now s" "n_rnd s' = n_rnd s" "rnd_src s' = rnd_src s"
  using assms by (auto elim!: env_onlyE)

text \<open>The tables, the clock and the codec stay.\<close>

definition same_tables :: "merchant_db \<Rightarrow> merchant_db \<Rightarrow> bool" where
  "same_tables s s' \<longleftrightarrow> merchants s' = merchants s \<and> api_keys s' = api_keys s \<and> codec s' = codec s \<and> now s' = now s"

lemma same_tables_refl [simp]: "same_tables s s"
  by (simp add: same_tables_def)

lemma same_tables_trans: "same_tables s t \<Longrightarrow> same_tables t u \<Longrightarrow> same_tables s u"
  by (simp add: same_tables_def)

lemma same_tables_env: "env_only s s' \<Longrightarrow> same_tables s s'"
  by (simp add: same_tables_def merchant_env)

text \<open>What a registration adds: one merchant and one key of it.\<close>

definition registers :: "Merchant \<Rightarrow> string \<Rightarrow> string \<Rightarrow> uuid \<Rightarrow> uuid \<Rightarrow> merchant_db \<Rightarrow> merchant_db \<Rightarrow> bool" where
  "registers m h pre i k s s' \<longleftrightarrow> i \<notin> mt_id ` set (merchants s) \<and> k \<notin> ak_id ` set (api_keys s) \<and> h \<notin> ak_hash ` set (api_keys s) \<and>
     merchants s' = merchants s @ [\<lparr>mt_id = i, mt_name = me_Name m, mt_webhook = me_WebhookURL m, mt_email = Some (me_ContactEmail m),
                    mt_kyb = me_KYBStatus m, mt_status = me_Status m, mt_secret = me_HMACSecret m,
                    mt_created = now s, mt_updated = now s\<rparr>] \<and>
     api_keys s' = api_keys s @ [\<lparr>ak_id = k, ak_merchant = i, ak_hash = h, ak_prefix = pre, ak_status = APIKeyStatusActive,
                  ak_created = now s, ak_expires = None\<rparr>] \<and> codec s' = codec s \<and> now s' = now s"

lemma tx_insert_merchant:
  assumes "tx_call (insert_merchant m) s = (Inr m1, s1)"
  obtains i where "i \<notin> mt_id ` set (merchants s)" "m1 = m\<lparr>me_ID := uc_String (codec s) i, me_CreatedAt := now s, me_UpdatedAt := now s\<rparr>"
    "merchants s1 = merchants s @ [\<lparr>mt_id = i, mt_name = me_Name m, mt_webhook = me_WebhookURL m, mt_email = Some (me_ContactEmail m),
                    mt_kyb = me_KYBStatus m, mt_status = me_Status m, mt_secret = me_HMACSecret m,
                    mt_created = now s, mt_updated = now s\<rparr>]"
    "api_keys s1 = api_keys s" "codec s1 = codec s" "now s1 = now s"
  using assms
proof (cases rule: tx_call_cases)
  case (run s0 x)
  note e = merchant_env [OF run(1)]
  have "insert_merchant m s0 = (Inr m1, s1)" using run(3,4) by simp
  then show thesis using that e by (auto simp: insert_merchant_def fresh_uuid_def split: if_splits)
qed auto

lemma tx_insert_api_key:
  assumes "tx_call (insert_api_key (uc_String (codec s) i) h pre) s = (Inr x, s1)" and "codec_ok (codec s)"
  obtains k where "k \<notin> ak_id ` set (api_keys s)" "h \<notin> ak_hash ` set (api_keys s)" "merchants s1 = merchants s"
    "api_keys s1 = api_keys s @ [\<lparr>ak_id = k, ak_merchant = i, ak_hash = h, ak_prefix = pre, ak_status = APIKeyStatusActive,
                  ak_created = now s, ak_expires = None\<rparr>]" "codec s1 = codec s" "now s1 = now s"
  using assms(1)
proof (cases rule: tx_call_cases)
  case (run s0 y)
  note e = merchant_env [OF run(1)]
  have "uc_pg (codec s0) (uc_String (codec s) i) = Some i" using assms(2) e(3) by (simp add: codec_ok_def)
  then show thesis using that e run(3,4) by (auto simp: insert_api_key_def with_uuid_def fresh_uuid_def split: if_splits)
qed auto

lemma create_effect:
  assumes "repo_CreateMerchantAndAPIKey m h pre s = (r, s')" and "codec_ok (codec s)"
  obtains (failed) e where "r = Inl e" "same_tables s s'"
        | (created) i k where "r = Inr (m\<lparr>me_ID := uc_String (codec s) i, me_CreatedAt := now s, me_UpdatedAt := now s\<rparr>)"
            "registers m h pre i k s s'"
proof -
  obtain r0 s0 where b: "pool_call (\<lambda>s. (Inr (), s)) s = (r0, s0)" by fastforce
  have e0: "env_only s s0" using b by (cases rule: pool_call_cases) auto
  note t0 = merchant_env [OF e0]
  obtain r1 s1 where c: "create_statements m h pre (s0\<lparr>aborted := False\<rparr>) = (r1, s1)" by fastforce
  show thesis
  proof (cases "\<exists>x. r0 = Inr x \<and> (\<exists>y. r1 = Inr y)")
    case False
    then have "(\<exists>e. r = Inl e) \<and> env_only s s'"
      using assms(1) b c e0 by (cases r0; cases r1) (auto simp: repo_CreateMerchantAndAPIKey_def)
    then show thesis using failed same_tables_env by blast
  next
    case True
    then obtain m1 where m1: "r1 = Inr m1" by auto
    obtain r2 s2 where cm: "commit_tx no_deferred s0 m1 s1 = (r2, s2)" by fastforce
    show thesis
    proof (cases r2)
      case (Inl e)
      then have "env_only s0 s2" using cm by (auto simp: commit_tx_def split: if_splits prod.splits sum.splits)
      moreover have "(\<exists>e. r = Inl e) \<and> s' = s2" using assms(1) b c True m1 cm Inl by (auto simp: repo_CreateMerchantAndAPIKey_def)
      ultimately show thesis using failed same_tables_env env_only_trans [OF e0] by blast
    next
      case (Inr m2)
      have m2: "m2 = m1 \<and> env_only s1 s2"
        using cm Inr by (auto simp: commit_tx_def pool_call_def split: if_splits prod.splits sum.splits list.splits option.splits)
      have r: "r = Inr m1" "s' = s2" using assms(1) b c True m1 cm Inr m2 by (auto simp: repo_CreateMerchantAndAPIKey_def)
      obtain ta where im: "tx_call (insert_merchant m) (s0\<lparr>aborted := False\<rparr>) = (Inr m1, ta)"
        and ik: "tx_call (insert_api_key (me_ID m1) h pre) ta = (Inr (), s1)"
        using c m1 by (auto simp: create_statements_def split: prod.splits sum.splits)
      from im obtain i where i: "i \<notin> mt_id ` set (merchants s)"
        "m1 = m\<lparr>me_ID := uc_String (codec s) i, me_CreatedAt := now s, me_UpdatedAt := now s\<rparr>"
        "merchants ta = merchants s @ [\<lparr>mt_id = i, mt_name = me_Name m, mt_webhook = me_WebhookURL m, mt_email = Some (me_ContactEmail m),
                    mt_kyb = me_KYBStatus m, mt_status = me_Status m, mt_secret = me_HMACSecret m,
                    mt_created = now s, mt_updated = now s\<rparr>]"
        "api_keys ta = api_keys s" "codec ta = codec s" "now ta = now s"
        by (rule tx_insert_merchant) (simp add: t0)
      have "tx_call (insert_api_key (uc_String (codec ta) i) h pre) ta = (Inr (), s1)" "codec_ok (codec ta)"
        using ik i(2,5) assms(2) by simp_all
      then obtain k where "registers m h pre i k s s1"
        by (rule tx_insert_api_key) (use i in \<open>simp add: registers_def\<close>)
      then have "registers m h pre i k s s'" using r(2) m2 merchant_env [of s1 s2] by (simp add: registers_def)
      then show thesis using created i(2) r(1) by blast
    qed
  qed
qed

section \<open>Registering\<close>

lemma hex_digit_no_space: "n < 16 \<Longrightarrow> \<not> is_space (hex_digit n)"
proof
  assume "n < 16" "is_space (hex_digit n)"
  then have "(of_char (hex_digit n) :: nat) \<le> 32" by (auto simp: is_space_def)
  moreover have "48 \<le> (of_char (hex_digit n) :: nat)" using \<open>n < 16\<close> by (simp add: hex_digit_def)
  ultimately show False by simp
qed

lemma hex_no_space: "c \<in> set (hex_EncodeToString bs) \<Longrightarrow> \<not> is_space c"
proof -
  have "unat (b :: 8 word) div 16 < 16" for b using unsigned_less [of b, where ?'a = nat] by (simp add: less_mult_imp_div_less)
  then show "c \<in> set (hex_EncodeToString bs) \<Longrightarrow> \<not> is_space c"
    by (auto simp: hex_EncodeToString_def hex_digit_no_space)
qed

lemma length_hex: "length (hex_EncodeToString bs) = 2 * length bs"
  by (induction bs) (simp_all add: hex_EncodeToString_def)

lemma randomHex_effect:
  assumes "randomHex n s = (r, s')"
  shows "same_tables s s' \<and> (\<forall>h. r = Inr h \<longrightarrow> length h = 2 * n \<and> (\<forall>c \<in> set h. \<not> is_space c))"
  using assms by (auto simp: randomHex_def rand_Read_def same_tables_def length_hex hex_no_space split: sum.splits)

lemma generateAPIKey_effect:
  assumes "generateAPIKey s = (r, s')"
  shows "same_tables s s' \<and> (\<forall>k. r = Inr k \<longrightarrow> length k = 68 \<and> TrimSpace k = k)"
proof -
  obtain q t where h: "randomHex 32 s = (q, t)" by fastforce
  have trim: "TrimSpace (apiKeyPrefix @ x) = apiKeyPrefix @ x" if "\<forall>c \<in> set x. \<not> is_space c" for x
    by (rule TrimSpace_id) (use that in \<open>auto simp: is_space_def\<close>)
  show ?thesis
  proof (cases q)
    case (Inl e)
    then show ?thesis using assms h randomHex_effect [OF h] by (auto simp: generateAPIKey_def)
  next
    case (Inr x)
    then have "r = Inr (apiKeyPrefix @ x)" "s' = t" using assms h unfolding generateAPIKey_def by auto
    then show ?thesis using randomHex_effect [OF h] Inr trim [of x] by simp
  qed
qed

lemma register_effect:
  assumes "merchant_Register lib inp s = (r, s')" and "codec_ok (codec s)"
  obtains (failed) e where "r = Inl e" "same_tables s s'"
        | (registered) m m1 key h n i k t where "r = Inr (m1, key)" "same_tables s t" "registers m h (take 8 key) i k t s'"
            "m1 = m\<lparr>me_ID := uc_String (codec s) i, me_CreatedAt := now s, me_UpdatedAt := now s\<rparr>"
            "me_Status m = MerchantActive" "me_Name m = TrimSpace (rg_Name inp)" "me_WebhookURL m = TrimSpace (rg_WebhookURL inp)"
            "bc_Generate lib n key 10 = Inr h" "length key = 68" "TrimSpace key = key"
proof (cases "TrimSpace (rg_Name inp) = [] \<or> TrimSpace (rg_WebhookURL inp) = []")
  case True
  then have "isl r \<and> s' = s" using assms(1) by (auto simp: merchant_Register_def Let_def split: if_splits)
  then show thesis using failed by (cases r) auto
next
  case False
  obtain q1 s1 where g: "generateAPIKey s = (q1, s1)" by fastforce
  obtain key where key: "q1 = Inr key \<or> isl q1" by (cases q1) auto
  obtain q2 s2 where b: "GenerateFromPassword lib key 10 s1 = (q2, s2)" by fastforce
  obtain q3 s3 where h: "randomHex 32 s2 = (q3, s3)" by fastforce
  have t1: "same_tables s s1" and t3: "same_tables s s3" and t2: "same_tables s s2"
    using generateAPIKey_effect [OF g] randomHex_effect [OF h] b
    by (auto simp: GenerateFromPassword_def same_tables_def)
  show thesis
  proof (cases "isl q1 \<or> isl q2 \<or> isl q3")
    case True
    then have "isl r \<and> (s' = s1 \<or> s' = s2 \<or> s' = s3)"
      using assms(1) False g b h key by (cases q1; cases q2; cases q3) (auto simp: merchant_Register_def Let_def)
    then show thesis using failed t1 t2 t3 by (cases r) auto
  next
    case no: False
    then obtain hash secret where q: "q1 = Inr key" "q2 = Inr hash" "q3 = Inr secret" using key by (cases q2; cases q3) auto
    define m where "m = \<lparr>me_ID = [], me_Name = TrimSpace (rg_Name inp), me_WebhookURL = TrimSpace (rg_WebhookURL inp),
                       me_ContactEmail = TrimSpace (rg_ContactEmail inp),
                       me_KYBStatus = KYBActive, me_Status = MerchantActive, me_HMACSecret = secret,
                       me_CreatedAt = zero_time, me_UpdatedAt = zero_time\<rparr>"
    obtain q4 s4 where c: "repo_CreateMerchantAndAPIKey m hash (take 8 key) s3 = (q4, s4)" by fastforce
    have r: "s' = s4" "r = (case q4 of Inl e \<Rightarrow> Inl e | Inr m1 \<Rightarrow> Inr (m1, key))"
      using assms(1) False g b h q c by (cases q4; auto simp: merchant_Register_def Let_def m_def)+
    have k: "length key = 68" "TrimSpace key = key" "bc_Generate lib (n_rnd s1) key 10 = Inr hash"
      using generateAPIKey_effect [OF g] q b by (auto simp: GenerateFromPassword_def)
    have "codec_ok (codec s3)" using assms(2) t3 by (simp add: same_tables_def)
    with c show thesis
    proof (cases rule: create_effect)
      case (failed e)
      then show thesis using that(1) r t3 same_tables_trans by auto
    next
      case (created i kk)
      then show thesis using that(2) [OF _ t3 created(2) [folded r(1)]] r k t3 by (auto simp: m_def same_tables_def)
    qed
  qed
qed

lemma registers_wf:
  assumes "registers m h pre i k s s'" and "merchant_wf s" and "me_Status m = MerchantActive"
  shows "merchant_wf s'"
  using assms by (auto simp: registers_def merchant_wf_def)

text \<open>A registration is all or nothing. On any error both tables are as they were; on success exactly one ACTIVE
  merchant with the trimmed data was added together with exactly one key row that belongs to it, which holds a hash of the
  key and not the key, and the invariant of the tables is kept.\<close>

theorem register_atomic:
  assumes "merchant_wf s" and "merchant_Register lib inp s = (r, s')"
  shows "(\<exists>e. r = Inl e \<and> merchants s' = merchants s \<and> api_keys s' = api_keys s) \<or>
    (\<exists>m key row k n. r = Inr (m, key) \<and> merchants s' = merchants s @ [row] \<and> api_keys s' = api_keys s @ [k] \<and>
       ak_merchant k = mt_id row \<and> mt_status row = MerchantActive \<and> mt_name row = TrimSpace (rg_Name inp) \<and> mt_name row \<noteq> [] \<and>
       m = scanMerchant (codec s) row \<and> bc_Generate lib n key 10 = Inr (ak_hash k) \<and> merchant_wf s')"
proof -
  have "codec_ok (codec s)" using assms(1) by (simp add: merchant_wf_def)
  with assms(2) show ?thesis
  proof (cases rule: register_effect)
    case (failed e)
    then show ?thesis by (simp add: same_tables_def)
  next
    case (registered m m1 key h n i k t)
    have t: "merchant_wf t" using assms(1) registered(2) by (simp add: merchant_wf_def same_tables_def)
    have "TrimSpace (rg_Name inp) \<noteq> []"
      using assms(2) registered(1) by (auto simp: merchant_Register_def Let_def split: if_splits)
    with registered registers_wf [OF registered(3) t registered(5)] show ?thesis
      by (auto simp: registers_def same_tables_def scanMerchant_def)
  qed
qed

section \<open>Looking up by key\<close>

lemma first_match_found: "first_match lib key cs = Inr m \<Longrightarrow> \<exists>h. (m, h) \<in> set cs \<and> bc_Compare lib h key = None"
  by (induction cs) (auto split: if_splits)

lemma first_match_last:
  "(\<forall>c \<in> set cs. bc_Compare lib (snd c) key \<noteq> None) \<Longrightarrow> bc_Compare lib h key = None \<Longrightarrow> first_match lib key (cs @ [(m, h)]) = Inr m"
  by (induction cs) auto

lemma lookup_effect:
  assumes "merchant_GetByAPIKey lib key s = (r, s')"
  shows "env_only s s' \<and> (\<forall>m. r = Inr m \<longrightarrow> first_match lib (TrimSpace key) (candidates (take 8 (TrimSpace key)) s) = Inr m)"
proof -
  obtain q t where c: "pool_call (\<lambda>s. (Inr (candidates (take 8 (TrimSpace key)) s), s)) s = (q, t)" by fastforce
  have ce: "candidates pre u = candidates pre s" if "env_only s u" for pre u
    using merchant_env [OF that] by (simp add: candidates_def cong: option.case_cong)
  from c have "env_only s t \<and> (\<forall>cs. q = Inr cs \<longrightarrow> cs = candidates (take 8 (TrimSpace key)) s)"
  proof (cases rule: pool_call_cases)
    case (run s0)
    with ce [OF run(1)] show ?thesis by auto
  qed auto
  then show ?thesis using assms c
    by (cases q) (auto simp: merchant_GetByAPIKey_def repo_GetCandidatesByPrefix_def Let_def split: if_splits)
qed

lemma candidate_row:
  assumes "(m, h) \<in> set (candidates pre s)"
  obtains k t where "k \<in> set (api_keys s)" "ak_prefix k = pre" "ak_status k = APIKeyStatusActive" "ak_hash k = h"
    "row_by mt_id (ak_merchant k) (merchants s) = Some t" "m = scanMerchant (codec s) t"
  using assms by (auto simp: candidates_def split: option.splits dest: sym)

text \<open>C27: the key a registration returns finds its merchant: the lookup by that key, with no fault of the database,
  returns exactly the merchant that was registered, whatever other merchants share the eight characters of the prefix,
  as long as the key matches none of their hashes.\<close>

theorem api_key_roundtrip:
  assumes "merchant_wf s" and "bcrypt_ok lib" and "merchant_Register lib inp s = (Inr (m, key), s1)"
    and "\<forall>k \<in> set (api_keys s). bc_Compare lib (ak_hash k) key \<noteq> None" and "script s1 = []"
  shows "merchant_GetByAPIKey lib key s1 = (Inr m, s1)"
proof -
  have "codec_ok (codec s)" using assms(1) by (simp add: merchant_wf_def)
  with assms(3) show ?thesis
  proof (cases rule: register_effect)
    case (registered m0 m1 key1 h n i k t)
    have eq: "m1 = m" "key1 = key" using registered(1) by auto
    have cmp: "bc_Compare lib h key = None" using registered(8) assms(2) eq by (auto simp: bcrypt_ok_def)
    let ?row = "\<lparr>mt_id = i, mt_name = me_Name m0, mt_webhook = me_WebhookURL m0, mt_email = Some (me_ContactEmail m0),
                    mt_kyb = me_KYBStatus m0, mt_status = me_Status m0, mt_secret = me_HMACSecret m0,
                    mt_created = now s, mt_updated = now s\<rparr>"
    have tabs: "merchants s1 = merchants s @ [?row]" "i \<notin> mt_id ` set (merchants s)" "codec s1 = codec s"
      "api_keys s1 = api_keys s @ [\<lparr>ak_id = k, ak_merchant = i, ak_hash = h, ak_prefix = take 8 key, ak_status = APIKeyStatusActive,
                  ak_created = now s, ak_expires = None\<rparr>]"
      using registered(2,3) eq by (auto simp: registers_def same_tables_def)
    have m: "scanMerchant (codec s) ?row = m" using registered(4) eq by (simp add: scanMerchant_def)
    define old where "old = concat (map (\<lambda>k. case row_by mt_id (ak_merchant k) (merchants s1) of
                        None \<Rightarrow> [] | Some t \<Rightarrow> [(scanMerchant (codec s1) t, ak_hash k)])
       (filter (\<lambda>k. ak_prefix k = take 8 key \<and> ak_status k = APIKeyStatusActive) (api_keys s)))"
    have "candidates (take 8 key) s1 = old @ [(m, h)]"
      using tabs m by (simp add: candidates_def old_def row_by_append row_by_None_iff [THEN iffD2])
    moreover have "\<forall>c \<in> set old. bc_Compare lib (snd c) key \<noteq> None"
      using assms(4) by (auto simp: old_def split: option.splits)
    ultimately have "first_match lib key (candidates (take 8 key) s1) = Inr m" using first_match_last cmp by metis
    moreover have "key \<noteq> []" using registered(9) eq by auto
    ultimately show ?thesis using assms(5) registered(9,10) eq
      by (simp add: merchant_GetByAPIKey_def repo_GetCandidatesByPrefix_def)
  qed simp
qed

section \<open>Suspending\<close>

lemma suspend_effect:
  assumes "merchant_Suspend i s = (Inr m, s')"
  obtains u t where "uc_pg (codec s) (TrimSpace i) = Some u" "row_by mt_id u (merchants s) = Some t"
    "m = scanMerchant (codec s) (t\<lparr>mt_status := MerchantSuspended, mt_updated := now s\<rparr>)"
    "merchants s' = update_where (\<lambda>t. mt_id t = u) (\<lambda>t. t\<lparr>mt_status := MerchantSuspended, mt_updated := now s\<rparr>) (merchants s)"
    "api_keys s' = api_keys s" "codec s' = codec s"
proof -
  let ?f = "\<lambda>s. \<lambda>t. t\<lparr>mt_status := MerchantSuspended, mt_updated := now s\<rparr>"
  let ?q = "with_uuid (TrimSpace i) (\<lambda>u s. let f = ?f s in case row_by mt_id u (merchants s) of None \<Rightarrow> (Inl ErrNoRows, s)
      | Some t \<Rightarrow> (Inr (scanMerchant (codec s) (f t)), s\<lparr>merchants := update_where (\<lambda>t. mt_id t = u) f (merchants s)\<rparr>))"
  have "pool_call ?q s = (Inr m, s')"
    using assms by (auto simp: merchant_Suspend_def repo_Suspend_def split: if_splits prod.splits sum.splits)
  then show thesis
  proof (cases rule: pool_call_cases)
    case (run s0)
    note e = merchant_env [OF run(1)]
    from run(3) show thesis
      by (rule with_uuid_cases) (use that e in \<open>auto simp: Let_def split: option.splits\<close>)
  qed simp
qed

text \<open>A suspension is visible at once to every lookup by a key: whatever key is presented afterwards, a lookup that
  finds the suspended merchant reports it as SUSPENDED, and the suspension itself changed no other merchant and no key.\<close>

theorem suspension_visible:
  assumes "merchant_wf s" and "merchant_Suspend i s = (Inr m, s1)" and "merchant_GetByAPIKey lib key s1 = (Inr m', s2)"
  shows "(me_ID m' = me_ID m \<longrightarrow> me_Status m' = MerchantSuspended) \<and> api_keys s1 = api_keys s \<and>
    (\<forall>t \<in> set (merchants s). uc_String (codec s) (mt_id t) \<noteq> me_ID m \<longrightarrow> t \<in> set (merchants s1))"
  using assms(2)
proof (cases rule: suspend_effect)
  case (1 u t)
  have ok: "codec_ok (codec s)" using assms(1) by (simp add: merchant_wf_def)
  have tu: "mt_id t = u" using row_by_SomeD [OF 1(2)] by simp
  then have mid: "me_ID m = uc_String (codec s) u" using 1(3) by (simp add: scanMerchant_def)
  have inj: "uc_String (codec s) a = uc_String (codec s) b \<Longrightarrow> a = b" for a b
    using ok by (metis codec_ok_def option.inject)
  from lookup_effect [OF assms(3)] first_match_found obtain h where
    "(m', h) \<in> set (candidates (take 8 (TrimSpace key)) s1)" by blast
  then obtain x where x: "x \<in> set (merchants s1)" "m' = scanMerchant (codec s) x"
    by (rule candidate_row) (use 1(6) in \<open>auto dest: row_by_SomeD\<close>)
  have "me_Status m' = MerchantSuspended" if "me_ID m' = me_ID m"
  proof -
    have "mt_id x = u" using that x(2) mid inj by (simp add: scanMerchant_def)
    moreover from x(1) 1(4) have "x \<in> (\<lambda>y. if mt_id y = u then y\<lparr>mt_status := MerchantSuspended, mt_updated := now s\<rparr> else y) ` set (merchants s)"
      by (simp add: update_where_def)
    then obtain y where "x = (if mt_id y = u then y\<lparr>mt_status := MerchantSuspended, mt_updated := now s\<rparr> else y)" by (rule imageE)
    ultimately have "mt_status x = MerchantSuspended" by (cases "mt_id y = u") simp_all
    then show ?thesis using x(2) by (simp add: scanMerchant_def)
  qed
  moreover have "y \<in> set (merchants s1)" if "y \<in> set (merchants s)" "uc_String (codec s) (mt_id y) \<noteq> me_ID m" for y
    using that 1(4) mid by (force simp: update_where_def)
  ultimately show ?thesis using 1(5) by blast
qed

section \<open>A concrete merchant\<close>

definition ex_merchants :: merchant_db where
  "ex_merchants = \<lparr>now = 0, script = [], aborted = False, uuid_src = word_of_nat, n_uuid = 1, codec = unary_codec,
     merchants = [], api_keys = [], rnd_src = (\<lambda>n. Inr (\<lambda>i. word_of_nat (n + i))), n_rnd = 0\<rparr>"

definition ex_shop :: RegisterInput where
  "ex_shop = \<lparr>rg_Name = '' Shop '', rg_WebhookURL = ''https://shop'', rg_ContactEmail = []\<rparr>"

definition ex_registered :: merchant_db where
  "ex_registered = snd (merchant_Register plain_bcrypt ex_shop ex_merchants)"

definition ex_key :: string where
  "ex_key = (case fst (merchant_Register plain_bcrypt ex_shop ex_merchants) of Inr (m, key) \<Rightarrow> key | Inl _ \<Rightarrow> [])"

definition ex_merchant :: Merchant where
  "ex_merchant = (case fst (merchant_Register plain_bcrypt ex_shop ex_merchants) of Inr (m, key) \<Rightarrow> m | Inl _ \<Rightarrow> undefined)"

lemma ex_merchants_wf: "merchant_wf ex_merchants"
  by (simp add: merchant_wf_def ex_merchants_def codec_ok_unary)

lemma ex_register: "merchant_Register plain_bcrypt ex_shop ex_merchants = (Inr (ex_merchant, ex_key), ex_registered)"
proof -
  have "\<not> isl (fst (merchant_Register plain_bcrypt ex_shop ex_merchants))" by code_simp
  then show ?thesis unfolding ex_merchant_def ex_key_def ex_registered_def
    by (cases "merchant_Register plain_bcrypt ex_shop ex_merchants"; cases "fst (merchant_Register plain_bcrypt ex_shop ex_merchants)") auto
qed

theorem register_atomic_witness: "\<exists>row. merchants ex_registered = [row] \<and> mt_name row = ''Shop'' \<and> mt_status row = MerchantActive"
proof -
  have t: "TrimSpace (rg_Name ex_shop) = ''Shop''" "merchants ex_merchants = []" by code_simp+
  from register_atomic [OF ex_merchants_wf ex_register] t show ?thesis by auto
qed

theorem api_key_roundtrip_witness:
  "merchant_GetByAPIKey plain_bcrypt ex_key ex_registered = (Inr ex_merchant, ex_registered)"
proof (rule api_key_roundtrip [OF ex_merchants_wf _ ex_register])
  show "bcrypt_ok plain_bcrypt" by (simp add: bcrypt_ok_def plain_bcrypt_def)
  show "\<forall>k \<in> set (api_keys ex_merchants). bc_Compare plain_bcrypt (ak_hash k) ex_key \<noteq> None" by (simp add: ex_merchants_def)
  show "script ex_registered = []" by code_simp
qed

theorem suspension_visible_witness:
  "\<exists>m s1 m' s2. merchant_Suspend ''ii'' ex_registered = (Inr m, s1) \<and> merchant_GetByAPIKey plain_bcrypt ex_key s1 = (Inr m', s2) \<and>
     me_Status m' = MerchantSuspended"
proof -
  have c: "case merchant_Suspend ''ii'' ex_registered of (Inr m, s1) \<Rightarrow>
      (case merchant_GetByAPIKey plain_bcrypt ex_key s1 of (Inr m', s2) \<Rightarrow> me_ID m' = me_ID m | _ \<Rightarrow> False) | _ \<Rightarrow> False" by code_simp
  have "codec_ok (codec ex_merchants)" using ex_merchants_wf by (simp add: merchant_wf_def)
  with ex_register have wf: "merchant_wf ex_registered"
  proof (cases rule: register_effect)
    case (registered m m1 key h n i k t)
    have "merchant_wf t" using ex_merchants_wf registered(2) by (simp add: merchant_wf_def same_tables_def)
    with registers_wf registered(3,5) show ?thesis by blast
  qed simp
  obtain q1 s1 where q1: "merchant_Suspend ''ii'' ex_registered = (q1, s1)" by fastforce
  obtain q2 s2 where q2: "merchant_GetByAPIKey plain_bcrypt ex_key s1 = (q2, s2)" by fastforce
  from c q1 q2 obtain m m' where r: "merchant_Suspend ''ii'' ex_registered = (Inr m, s1)"
    "merchant_GetByAPIKey plain_bcrypt ex_key s1 = (Inr m', s2)" "me_ID m' = me_ID m" by (cases q1; cases q2) auto
  from suspension_visible [OF wf r(1,2)] r show ?thesis by blast
qed

end
