(* ===== verification/Webhook.thy ===== *)
theory Webhook
  imports Merchant_Service
begin

unbundle bit_operations_syntax

text \<open>
  The signature of webhooks, \<open>pkg/shared/webhook/hmac.go\<close>, with the HMAC-SHA256 of Go's standard library it is made of
  (FIPS 180-4 and RFC 2104), on bytes.
  \<^item> A time is an \<open>int\<close> of nanoseconds, \<open>t.Unix()\<close> its seconds rounded down; \<open>time.Since\<close> saturates at the bounds of a 64-bit
    duration, and the negation of a duration wraps.
  \<^item> The lemmas: a signature verifies while it is fresh; nothing but the signature itself verifies; the signed text
    determines the timestamp and the body; and a timestamp three centuries ahead is never stale.
\<close>

section \<open>SHA-256\<close>

text \<open>The constants of the standard: the first 32 bits of the fractional parts of the cube roots of the first 64 primes,
  and for the initial state of the square roots of the first eight. \<open>int_root b k n r\<close> is the integer \<open>k\<close>-th root of \<open>n\<close>,
  found bit by bit from \<open>r\<close> upwards.\<close>

primrec int_root :: "nat \<Rightarrow> nat \<Rightarrow> int \<Rightarrow> int \<Rightarrow> int" where
  "int_root 0 k n r = r"
| "int_root (Suc b) k n r = int_root b k n (if (r + 2 ^ b) ^ k \<le> n then r + 2 ^ b else r)"

definition root_fraction :: "nat \<Rightarrow> int \<Rightarrow> 32 word" where
  "root_fraction k p = word_of_int (int_root 37 k (p * 2 ^ (32 * k)) 0)"

definition sha_primes :: "int list" where
  "sha_primes = filter (\<lambda>p. list_all (\<lambda>d. p < d * d \<or> p mod d \<noteq> 0) [2..17]) [2..311]"

definition sha_K :: "32 word list" where
  "sha_K = map (root_fraction 3) sha_primes"

type_synonym sha_state = "32 word \<times> 32 word \<times> 32 word \<times> 32 word \<times> 32 word \<times> 32 word \<times> 32 word \<times> 32 word"

definition sha_H0 :: sha_state where
  "sha_H0 = (root_fraction 2 2, root_fraction 2 3, root_fraction 2 5, root_fraction 2 7,
             root_fraction 2 11, root_fraction 2 13, root_fraction 2 17, root_fraction 2 19)"

definition be_word :: "8 word list \<Rightarrow> 32 word" where
  "be_word bs = foldl (\<lambda>w b. push_bit 8 w OR ucast b) 0 bs"

definition be_bytes :: "nat \<Rightarrow> 'a::len word \<Rightarrow> 8 word list" where
  "be_bytes n w = map (\<lambda>i. ucast (drop_bit (8 * i) w)) (rev [0..<n])"

fun chunks :: "nat \<Rightarrow> 'a list \<Rightarrow> 'a list list" where
  "chunks n xs = (if xs = [] \<or> n = 0 then [] else take n xs # chunks n (drop n xs))"

declare chunks.simps [simp del]

definition sha_pad :: "8 word list \<Rightarrow> 8 word list" where
  "sha_pad bs = bs @ [0x80] @ replicate ((119 - length bs mod 64) mod 64) 0 @ be_bytes 8 (word_of_nat (8 * length bs) :: 64 word)"

text \<open>The message schedule, newest word first.\<close>

primrec sha_extend :: "nat \<Rightarrow> 32 word list \<Rightarrow> 32 word list" where
  "sha_extend 0 ws = ws"
| "sha_extend (Suc n) ws =
     (let w15 = ws ! 14; w2 = ws ! 1;
          s0 = word_rotr 7 w15 XOR word_rotr 18 w15 XOR drop_bit 3 w15;
          s1 = word_rotr 17 w2 XOR word_rotr 19 w2 XOR drop_bit 10 w2
      in sha_extend n ((ws ! 15 + s0 + ws ! 6 + s1) # ws))"

fun sha_round :: "sha_state \<Rightarrow> 32 word \<times> 32 word \<Rightarrow> sha_state" where
  "sha_round (a, b, c, d, e, f, g, h) (k, w) =
     (let s1 = word_rotr 6 e XOR word_rotr 11 e XOR word_rotr 25 e;
          ch = (e AND f) XOR (NOT e AND g);
          t1 = h + s1 + ch + k + w;
          s0 = word_rotr 2 a XOR word_rotr 13 a XOR word_rotr 22 a;
          maj = (a AND b) XOR (a AND c) XOR (b AND c);
          t2 = s0 + maj
      in (t1 + t2, a, b, c, d + t1, e, f, g))"

fun sha_add :: "sha_state \<Rightarrow> sha_state \<Rightarrow> sha_state" where
  "sha_add (a, b, c, d, e, f, g, h) (a', b', c', d', e', f', g', h') =
     (a + a', b + b', c + c', d + d', e + e', f + f', g + g', h + h')"

definition sha_block :: "sha_state \<Rightarrow> 8 word list \<Rightarrow> sha_state" where
  "sha_block st blk =
     (let ws = rev (sha_extend 48 (rev (map be_word (chunks 4 blk))))
      in sha_add st (foldl sha_round st (zip sha_K ws)))"

fun sha_bytes :: "sha_state \<Rightarrow> 8 word list" where
  "sha_bytes (a, b, c, d, e, f, g, h) = concat (map (be_bytes 4) [a, b, c, d, e, f, g, h])"

definition sha256 :: "8 word list \<Rightarrow> 8 word list" where
  "sha256 bs = sha_bytes (foldl sha_block sha_H0 (chunks 64 (sha_pad bs)))"

section \<open>HMAC\<close>

definition hmac_key :: "8 word list \<Rightarrow> 8 word list" where
  "hmac_key key = (let k = (if length key > 64 then sha256 key else key) in k @ replicate (64 - length k) 0)"

definition hmac_sha256 :: "8 word list \<Rightarrow> 8 word list \<Rightarrow> 8 word list" where
  "hmac_sha256 key msg =
     sha256 (map (\<lambda>b. b XOR 0x5c) (hmac_key key) @ sha256 (map (\<lambda>b. b XOR 0x36) (hmac_key key) @ msg))"

definition bytes_of :: "string \<Rightarrow> 8 word list" where
  "bytes_of t = map (\<lambda>c. word_of_nat (of_char c)) t"

section \<open>Signing and verifying\<close>

definition DefaultMaxAge :: int where "DefaultMaxAge = 5 * 60 * 10 ^ 9"

definition time_Unix :: "int \<Rightarrow> int" where
  "time_Unix t = t div 10 ^ 9"

definition signed_text :: "int \<Rightarrow> string \<Rightarrow> string" where
  "signed_text ts body = Itoa (time_Unix ts) @ CHR ''.'' # body"

definition Sign :: "string \<Rightarrow> int \<Rightarrow> string \<Rightarrow> string" where
  "Sign secret ts body = ''sha256='' @ hex_EncodeToString (hmac_sha256 (bytes_of secret) (bytes_of (signed_text ts body)))"

text \<open>\<open>time.Since\<close>: the difference as a duration, saturated.\<close>

definition time_Since :: "int \<Rightarrow> int \<Rightarrow> int" where
  "time_Since t0 ts = max (- (2 ^ 63)) (min (2 ^ 63 - 1) (t0 - ts))"

definition VerifyWithTolerance :: "int \<Rightarrow> string \<Rightarrow> string \<Rightarrow> int \<Rightarrow> string \<Rightarrow> int \<Rightarrow> bool" where
  "VerifyWithTolerance t0 secret signature ts body maxAge =
     (let age = time_Since t0 ts; age = (if age < 0 then sub64 0 age else age)
      in if maxAge > 0 \<and> age > maxAge then False
         else Sign secret ts body = signature)"

definition Verify :: "int \<Rightarrow> string \<Rightarrow> string \<Rightarrow> int \<Rightarrow> string \<Rightarrow> bool" where
  "Verify t0 secret signature ts body = VerifyWithTolerance t0 secret signature ts body DefaultMaxAge"

definition TimestampHeader :: "int \<Rightarrow> string" where
  "TimestampHeader t = Itoa (time_Unix t)"

section \<open>Correctness\<close>

text \<open>A test vector of FIPS 180-4.\<close>

lemma int_root_bounds:
  assumes "0 \<le> r" and "r ^ k \<le> n" and "n < (r + 2 ^ b) ^ k"
  shows "int_root b k n r ^ k \<le> n \<and> n < (int_root b k n r + 1) ^ k"
  using assms
proof (induction b arbitrary: r)
  case (Suc b)
  have "r + 2 ^ b + 2 ^ b = r + 2 ^ Suc b" by simp
  with Suc.prems Suc.IH [of r] Suc.IH [of "r + 2 ^ b"] show ?case by (simp add: not_le add.assoc)
qed simp

lemma sha_primes_length: "length sha_primes = 64"
  by code_simp

lemma sha256_abc:
  "hex_EncodeToString (sha256 (bytes_of ''abc'')) = ''ba7816bf8f01cfea414140de5dae2223b00361a396177a9cb410ff61f20015ad''"
  by code_simp

text \<open>The text that is signed determines what is signed.\<close>

lemma signed_text_eq_iff: "signed_text ts b = signed_text ts' b' \<longleftrightarrow> time_Unix ts = time_Unix ts' \<and> b = b'"
  by (simp add: signed_text_def split_at_first Itoa_no_char is_digit_def Itoa_eq_iff)

text \<open>C28: a webhook signature verifies exactly when it is the signature of that timestamp and that body under that
  secret and the timestamp lies within five minutes of the verifier's clock, in the past or in the future; or when the timestamp
  is so far ahead (292 years) that the age saturates: its negation wraps to a negative number, which is never stale. The
  text under the signature is different for different seconds or bodies.\<close>

theorem verify_exact:
  "(Verify t0 secret sig ts body \<longleftrightarrow>
      sig = Sign secret ts body \<and> (\<bar>t0 - ts\<bar> \<le> DefaultMaxAge \<or> t0 - ts \<le> - (2 ^ 63))) \<and>
   (signed_text ts body = signed_text ts' body' \<longleftrightarrow> time_Unix ts = time_Unix ts' \<and> body = body')"
proof -
  let ?age = "if time_Since t0 ts < 0 then sub64 0 (time_Since t0 ts) else time_Since t0 ts"
  have "?age > DefaultMaxAge \<longleftrightarrow> \<not> (\<bar>t0 - ts\<bar> \<le> DefaultMaxAge \<or> t0 - ts \<le> - (2 ^ 63))"
  proof (cases "t0 - ts \<le> - (2 ^ 63)")
    case True
    then have "time_Since t0 ts = - (2 ^ 63)" by (simp add: time_Since_def)
    moreover have "sub64 0 (- (2 ^ 63)) = - (2 ^ 63)" by (simp add: sub64_def wrap64_def)
    ultimately show ?thesis using True by (simp add: DefaultMaxAge_def)
  next
    case False
    then have s: "time_Since t0 ts = min (2 ^ 63 - 1) (t0 - ts)" by (simp add: time_Since_def)
    show ?thesis
    proof (cases "t0 - ts < 0")
      case True
      then have "sub64 0 (t0 - ts) = ts - t0" using False by (intro sub64_id [THEN trans]) (simp_all add: is_int64_def)
      then show ?thesis using s True False by (simp add: not_le)
    next
      case no: False
      then have "\<not> time_Since t0 ts < 0" using s by simp
      then show ?thesis using s no by (auto simp: DefaultMaxAge_def)
    qed
  qed
  moreover have "0 < DefaultMaxAge" by (simp add: DefaultMaxAge_def)
  ultimately have "Verify t0 secret sig ts body \<longleftrightarrow>
      sig = Sign secret ts body \<and> (\<bar>t0 - ts\<bar> \<le> DefaultMaxAge \<or> t0 - ts \<le> - (2 ^ 63))"
    unfolding Verify_def VerifyWithTolerance_def Let_def by auto
  then show ?thesis using signed_text_eq_iff by simp
qed

end
