(* ===== verification/Notification.thy ===== *)
theory Notification
  imports Webhook Payment_Handler
begin

text \<open>
  The notification service: \<open>services/notification-svc/internal/consumer.go\<close> and \<open>deliver.go\<close>. It reads the payment events that
  the outbox relay publishes and posts a signed webhook to the merchant.
  \<^item> \<open>notif_db\<close> is the state: the keys of Redis with their expiry, the answers of the merchant service, the replies the
    merchant's endpoint will give (\<open>nd_http\<close>, one entry per POST, past its end 200), the log of POSTs with their outcome,
    and the messages of the dead-letter topic. A call of Redis, of the merchant service, of the broker and a
    check of the context may fail by the fault script of \<open>env\<close>.
  \<^item> A Kafka message carries its event, \<open>None\<close> for a value that is not the JSON of one; \<open>event_of_payload\<close> is the event that
    the relay's payload decodes to, as \<open>Json_Text\<close> shows. The body of the POST is JSON text (\<open>encoding/json\<close> on ASCII strings).
  \<^item> The layout RFC 3339 of times is the parameter \<open>rfc\<close>. Log lines and the pauses between attempts are not
    modelled, a cancelled pause is.
  \<^item> \<open>Run\<close> is the loop over the messages of one partition: the reader's position and the committed offset of the consumer group
    (\<open>segmentio/kafka-go\<close>: a commit moves the group's offset past the message).
  The lemmas are in the theory \<open>Notification_Correct\<close>.
\<close>

section \<open>Data\<close>

definition deliveredKeyTTL :: int where "deliveredKeyTTL = 24 * 60 * 60 * 10 ^ 9"
abbreviation deliveredKeyPrefix :: string where "deliveredKeyPrefix \<equiv> ''webhook:delivered:''"
definition notify_maxAttempts :: nat where "notify_maxAttempts = 3"

record PaymentEvent =
  pe_EventType :: string
  pe_ID :: string
  pe_PaymentID :: string
  pe_MerchantID :: string
  pe_ConsentID :: string
  pe_ConsumerID :: string
  pe_AmountPence :: int
  pe_Currency :: string
  pe_Status :: string
  pe_BankPaymentRef :: string
  pe_Description :: string
  pe_RiskScore :: int
  pe_RiskDecision :: string
  pe_InitiatedAt :: string
  pe_SettledAt :: string

record WebhookPaymentData =
  wd_ID :: string
  wd_MerchantID :: string
  wd_ConsentID :: string
  wd_ConsumerID :: string
  wd_AmountPence :: int
  wd_Currency :: string
  wd_Status :: string
  wd_BankPaymentRef :: string
  wd_RiskScore :: int
  wd_RiskDecision :: string
  wd_SettledAt :: string
  wd_Description :: string

record WebhookBody =
  wb_EventType :: string
  wb_Payment :: WebhookPaymentData
  wb_DeliveredAt :: string

record DLQPayload =
  dl_MerchantID :: string
  dl_PaymentID :: string
  dl_WebhookURL :: string
  dl_Attempts :: nat
  dl_LastError :: string
  dl_Payload :: string
  dl_FailedAt :: string

record webhook_post =
  wp_url :: string
  wp_signature :: string
  wp_timestamp :: string
  wp_body :: string

record notif_db = env +
  nd_keys :: "string \<Rightarrow> int option"
  nd_merchants :: "string \<Rightarrow> pb_WebhookConfig res"
  nd_http :: "int res list"
  nd_posts :: "(webhook_post \<times> int res) list"
  nd_has_dlq :: bool
  nd_dlq :: "(string \<times> DLQPayload) list"

definition PaymentKey :: "PaymentEvent \<Rightarrow> string" where
  "PaymentKey e = (if pe_ID e \<noteq> [] then pe_ID e else pe_PaymentID e)"

text \<open>\<open>json.Unmarshal\<close> of the relay's payload: it has no field \<open>id\<close>, and a null score is left zero.\<close>

definition event_of_payload :: "(int \<Rightarrow> string) \<Rightarrow> SettledPayload \<Rightarrow> PaymentEvent" where
  "event_of_payload rfc p =
     \<lparr>pe_EventType = sp_event_type p, pe_ID = [], pe_PaymentID = sp_payment_id p, pe_MerchantID = sp_merchant_id p,
      pe_ConsentID = sp_consent_id p, pe_ConsumerID = sp_consumer_id p, pe_AmountPence = sp_amount_pence p,
      pe_Currency = sp_currency p, pe_Status = sp_status p, pe_BankPaymentRef = sp_bank_payment_ref p,
      pe_Description = sp_description p, pe_RiskScore = (case sp_risk_score p of None \<Rightarrow> 0 | Some n \<Rightarrow> n),
      pe_RiskDecision = sp_risk_decision p, pe_InitiatedAt = rfc (sp_initiated_at p), pe_SettledAt = rfc (sp_settled_at p)\<rparr>"

section \<open>JSON text\<close>

text \<open>\<open>json.Marshal\<close> of a string, with HTML escaping, of a number, and of a struct whose empty fields may be omitted.\<close>

definition json_char :: "char \<Rightarrow> string" where
  "json_char c =
     (let n = of_char c :: nat in
      if c = CHR 0x22 \<or> c = CHR 0x5C then [CHR 0x5C, c]
      else if n = 8 then [CHR 0x5C, CHR ''b''] else if n = 12 then [CHR 0x5C, CHR ''f'']
      else if n = 10 then [CHR 0x5C, CHR ''n''] else if n = 13 then [CHR 0x5C, CHR ''r'']
      else if n = 9 then [CHR 0x5C, CHR ''t'']
      else if n < 32 \<or> c \<in> {CHR ''<'', CHR ''>'', CHR ''&''}
      then [CHR 0x5C, CHR ''u'', CHR ''0'', CHR ''0'', hex_digit (n div 16), hex_digit (n mod 16)]
      else [c])"

definition json_str :: "string \<Rightarrow> string" where
  "json_str t = [CHR 0x22] @ concat (map json_char t) @ [CHR 0x22]"

definition json_obj :: "(string \<times> string) list \<Rightarrow> string" where
  "json_obj fs = ''{'' @ str_Join '','' (map (\<lambda>(k, v). json_str k @ '':'' @ v) fs) @ ''}''"

definition omitempty :: "string \<Rightarrow> string \<Rightarrow> (string \<times> string) list" where
  "omitempty k v = (if v = [] then [] else [(k, json_str v)])"

definition json_payment :: "WebhookPaymentData \<Rightarrow> string" where
  "json_payment d = json_obj
     ([(''id'', json_str (wd_ID d)), (''merchant_id'', json_str (wd_MerchantID d)), (''consent_id'', json_str (wd_ConsentID d)),
       (''consumer_id'', json_str (wd_ConsumerID d)), (''amount_pence'', Itoa (wd_AmountPence d)),
       (''currency'', json_str (wd_Currency d)), (''status'', json_str (wd_Status d))] @
      omitempty ''bank_payment_ref'' (wd_BankPaymentRef d) @
      (if wd_RiskScore d = 0 then [] else [(''risk_score'', Itoa (wd_RiskScore d))]) @
      omitempty ''risk_decision'' (wd_RiskDecision d) @ omitempty ''settled_at'' (wd_SettledAt d) @
      omitempty ''description'' (wd_Description d))"

definition json_webhook :: "WebhookBody \<Rightarrow> string" where
  "json_webhook b = json_obj
     [(''event_type'', json_str (wb_EventType b)), (''payment'', json_payment (wb_Payment b)),
      (''delivered_at'', json_str (wb_DeliveredAt b))]"

section \<open>Delivering\<close>

definition webhook_data :: "PaymentEvent \<Rightarrow> WebhookPaymentData" where
  "webhook_data e =
     \<lparr>wd_ID = PaymentKey e, wd_MerchantID = pe_MerchantID e, wd_ConsentID = pe_ConsentID e, wd_ConsumerID = pe_ConsumerID e,
      wd_AmountPence = pe_AmountPence e, wd_Currency = (if pe_Currency e = [] then ''GBP'' else pe_Currency e),
      wd_Status = (if pe_Status e = [] then ''SETTLED'' else pe_Status e), wd_BankPaymentRef = pe_BankPaymentRef e,
      wd_RiskScore = pe_RiskScore e, wd_RiskDecision = pe_RiskDecision e, wd_SettledAt = pe_SettledAt e,
      wd_Description = pe_Description e\<rparr>"

definition buildWebhookBody :: "(int \<Rightarrow> string) \<Rightarrow> int \<Rightarrow> PaymentEvent \<Rightarrow> string" where
  "buildWebhookBody rfc t e =
     json_webhook \<lparr>wb_EventType = ''payment.settled'', wb_Payment = webhook_data e, wb_DeliveredAt = rfc t\<rparr>"

text \<open>\<open>d.HTTP.Do\<close>: the next reply of the endpoint, logged with the request.\<close>

definition http_post :: "webhook_post \<Rightarrow> notif_db \<Rightarrow> int res \<times> notif_db" where
  "http_post p s =
     (case nd_http s of
        [] \<Rightarrow> (Inr 200, s\<lparr>nd_posts := nd_posts s @ [(p, Inr 200)]\<rparr>)
      | r # rs \<Rightarrow> (r, s\<lparr>nd_http := rs, nd_posts := nd_posts s @ [(p, r)]\<rparr>))"

definition postWebhook :: "string \<Rightarrow> string \<Rightarrow> string \<Rightarrow> notif_db \<Rightarrow> goerror option \<times> notif_db" where
  "postWebhook url secret body s =
     (let ts = now s in
      case http_post \<lparr>wp_url = url, wp_signature = Sign secret ts body, wp_timestamp = TimestampHeader ts, wp_body = body\<rparr> s of
        (Inl err, s1) \<Rightarrow> (Some (OtherError ''http post'' (Some err)), s1)
      | (Inr code, s1) \<Rightarrow>
          (if code < 200 \<or> code \<ge> 300 then Some (OtherError (''webhook status '' @ Itoa code) None) else None, s1))"

definition publishDLQ :: "(int \<Rightarrow> string) \<Rightarrow> PaymentEvent \<Rightarrow> string \<Rightarrow> string \<Rightarrow> nat \<Rightarrow> goerror option \<Rightarrow>
    notif_db \<Rightarrow> goerror option \<times> notif_db" where
  "publishDLQ rfc e url body attempts lastErr s =
     (if \<not> nd_has_dlq s then (Some (OtherError ''dlq writer not configured'' None), s)
      else case pool_call (\<lambda>s. (Inr (), s\<lparr>nd_dlq := nd_dlq s @
             [(pe_MerchantID e,
               \<lparr>dl_MerchantID = pe_MerchantID e, dl_PaymentID = PaymentKey e, dl_WebhookURL = url, dl_Attempts = attempts,
                dl_LastError = (case lastErr of None \<Rightarrow> [] | Some err \<Rightarrow> Error_text err),
                dl_Payload = body, dl_FailedAt = rfc (now s)\<rparr>)]\<rparr>)) s of
             (Inl err, s1) \<Rightarrow> (Some (OtherError ''write dlq'' (Some err)), s1)
           | (Inr _, s1) \<Rightarrow> (None, s1))"

text \<open>The attempts \<open>n\<close> of the loop that are left: \<open>Inl\<close> the error to return at once, \<open>Inr\<close> the last error, if any.\<close>

primrec delivery_loop :: "nat \<Rightarrow> string \<Rightarrow> string \<Rightarrow> string \<Rightarrow> goerror option \<Rightarrow> notif_db \<Rightarrow> goerror option res \<times> notif_db" where
  "delivery_loop 0 url secret body lastErr s = (Inr lastErr, s)"
| "delivery_loop (Suc n) url secret body lastErr s =
     (case pool_call (\<lambda>s. (Inr (), s)) s of
        (Inl cancelled, s1) \<Rightarrow> (Inl cancelled, s1)
      | (Inr _, s1) \<Rightarrow>
          (case postWebhook url secret body s1 of
             (None, s2) \<Rightarrow> (Inr None, s2)
           | (Some err, s2) \<Rightarrow>
               if n = 0 then (Inr (Some err), s2)
               else (case pool_call (\<lambda>s. (Inr (), s)) s2 of
                       (Inl cancelled, s3) \<Rightarrow> (Inl cancelled, s3)
                     | (Inr _, s3) \<Rightarrow> delivery_loop n url secret body (Some err) s3)))"

definition Deliver :: "(int \<Rightarrow> string) \<Rightarrow> PaymentEvent \<Rightarrow> notif_db \<Rightarrow> goerror option \<times> notif_db" where
  "Deliver rfc e s =
     (if PaymentKey e = [] then (Some (OtherError ''payment event missing id'' None), s)
      else if pe_MerchantID e = [] then (Some (OtherError ''payment event missing merchant_id'' None), s)
      else case pool_call (\<lambda>s. (nd_merchants s (pe_MerchantID e), s)) s of
             (Inl err, s1) \<Rightarrow> (Some (OtherError ''get webhook config'' (Some err)), s1)
           | (Inr cfg, s1) \<Rightarrow>
               if pw_WebhookUrl cfg = [] then (None, s1)
               else let body = buildWebhookBody rfc (now s1) e in
                 (case delivery_loop notify_maxAttempts (pw_WebhookUrl cfg) (pw_HmacSecret cfg) body None s1 of
                    (Inl cancelled, s2) \<Rightarrow> (Some cancelled, s2)
                  | (Inr None, s2) \<Rightarrow> (None, s2)
                  | (Inr (Some lastErr), s2) \<Rightarrow>
                      (case publishDLQ rfc e (pw_WebhookUrl cfg) body notify_maxAttempts (Some lastErr) s2 of
                         (Some err, s3) \<Rightarrow> (Some (OtherError ''deliver failed and dlq publish failed'' (Some err)), s3)
                       | (None, s3) \<Rightarrow> (None, s3))))"

section \<open>Consuming\<close>

definition deliveredKey :: "string \<Rightarrow> string" where
  "deliveredKey paymentID = deliveredKeyPrefix @ paymentID"

definition alreadyDelivered :: "string \<Rightarrow> notif_db \<Rightarrow> bool res \<times> notif_db" where
  "alreadyDelivered paymentID = pool_call (\<lambda>s.
     (Inr (case nd_keys s (deliveredKey paymentID) of None \<Rightarrow> False | Some t \<Rightarrow> now s < t), s))"

definition markDelivered :: "string \<Rightarrow> notif_db \<Rightarrow> unit res \<times> notif_db" where
  "markDelivered paymentID = pool_call (\<lambda>s.
     (Inr (), s\<lparr>nd_keys := (nd_keys s)(deliveredKey paymentID \<mapsto> now s + deliveredKeyTTL)\<rparr>))"

definition consumer_handle :: "(int \<Rightarrow> string) \<Rightarrow> PaymentEvent option \<Rightarrow> notif_db \<Rightarrow> goerror option \<times> notif_db" where
  "consumer_handle rfc msg s =
     (case msg of
        None \<Rightarrow> (None, s)
      | Some e \<Rightarrow>
          if PaymentKey e = [] then (None, s)
          else if pe_EventType e \<noteq> [] \<and> pe_EventType e \<noteq> ''payment.settled'' then (None, s)
          else case alreadyDelivered (PaymentKey e) s of
                 (Inl err, s1) \<Rightarrow> (Some (OtherError ''check delivered'' (Some err)), s1)
               | (Inr True, s1) \<Rightarrow> (None, s1)
               | (Inr False, s1) \<Rightarrow>
                   (case Deliver rfc e s1 of
                      (Some err, s2) \<Rightarrow> (Some err, s2)
                    | (None, s2) \<Rightarrow>
                        (case markDelivered (PaymentKey e) s2 of
                           (Inl err, s3) \<Rightarrow> (Some (OtherError ''mark delivered'' (Some err)), s3)
                         | (Inr _, s3) \<Rightarrow> (None, s3))))"

text \<open>The loop over the messages from offset \<open>off\<close> on; \<open>commit\<close> is the group's committed offset, the next to read after a restart.
  The loop ends with the messages, or with the error of a failed commit.\<close>

fun consumer_Run :: "(int \<Rightarrow> string) \<Rightarrow> nat \<Rightarrow> PaymentEvent option list \<Rightarrow> nat \<times> notif_db \<Rightarrow> goerror option \<times> nat \<times> notif_db" where
  "consumer_Run rfc off [] (commit, s) = (None, commit, s)"
| "consumer_Run rfc off (msg # msgs) (commit, s) =
     (case consumer_handle rfc msg s of
        (Some err, s1) \<Rightarrow> consumer_Run rfc (Suc off) msgs (commit, s1)
      | (None, s1) \<Rightarrow>
          (case pool_call (\<lambda>s. (Inr (), s)) s1 of
             (Inl err, s2) \<Rightarrow> (Some (OtherError ''commit'' (Some err)), commit, s2)
           | (Inr _, s2) \<Rightarrow> consumer_Run rfc (Suc off) msgs (Suc off, s2)))"

end
