(* ===== verification/Notification_Correct.thy ===== *)
theory Notification_Correct
  imports Notification
begin

text \<open>
  The correctness of the notification service: what a handled event means for the merchant, how often its endpoint is called and
  with what, and what the consumer's commits lose.
\<close>

section \<open>Frames\<close>

lemma notif_env:
  assumes "env_only s (s' :: notif_db)"
  shows "nd_keys s' = nd_keys s" "nd_merchants s' = nd_merchants s" "nd_posts s' = nd_posts s" "nd_dlq s' = nd_dlq s"
    "nd_has_dlq s' = nd_has_dlq s" "now s' = now s" "nd_http s' = nd_http s"
  using assms by (auto elim!: env_onlyE)

definition signed_post :: "string \<Rightarrow> string \<Rightarrow> int \<Rightarrow> string \<Rightarrow> webhook_post" where
  "signed_post url secret t body =
     \<lparr>wp_url = url, wp_signature = Sign secret t body, wp_timestamp = TimestampHeader t, wp_body = body\<rparr>"

definition accepted :: "int res \<Rightarrow> bool" where
  "accepted r = (case r of Inl _ \<Rightarrow> False | Inr code \<Rightarrow> 200 \<le> code \<and> code < 300)"

text \<open>Only POSTs happened, at most \<open>n\<close>, all of them the post \<open>p\<close>.\<close>

definition posted_only :: "nat \<Rightarrow> webhook_post \<Rightarrow> int res list \<Rightarrow> notif_db \<Rightarrow> notif_db \<Rightarrow> bool" where
  "posted_only n p rs s s' \<longleftrightarrow> nd_posts s' = nd_posts s @ map (Pair p) rs \<and> length rs \<le> n \<and>
     nd_keys s' = nd_keys s \<and> nd_merchants s' = nd_merchants s \<and> nd_dlq s' = nd_dlq s \<and> nd_has_dlq s' = nd_has_dlq s \<and> now s' = now s"

lemma posted_only_env: "env_only s s' \<Longrightarrow> posted_only n p [] s s'"
  by (simp add: posted_only_def notif_env)

lemma posted_only_trans: "posted_only n p rs s t \<Longrightarrow> posted_only m p rs' t u \<Longrightarrow> posted_only (n + m) p (rs @ rs') s u"
  by (auto simp: posted_only_def)

lemma ctx_ok: "pool_call (\<lambda>s. (Inr (), s)) s = (r, s') \<Longrightarrow> env_only s s'"
  by (erule pool_call_cases) auto

lemma postWebhook_effect:
  assumes "postWebhook url secret body s = (err, s')"
  shows "\<exists>r. posted_only 1 (signed_post url secret (now s) body) [r] s s' \<and> (err = None \<longleftrightarrow> accepted r)"
proof -
  obtain r t where h: "http_post (signed_post url secret (now s) body) s = (r, t)" by fastforce
  then have "posted_only 1 (signed_post url secret (now s) body) [r] s t"
    by (auto simp: http_post_def posted_only_def split: list.splits)
  moreover have "s' = t" "err = None \<longleftrightarrow> accepted r"
    using assms h by (cases r; auto simp: postWebhook_def Let_def signed_post_def accepted_def split: if_splits)+
  ultimately show ?thesis by blast
qed

lemma delivery_loop_effect:
  assumes "delivery_loop n url secret body lst s = (r, s')"
  shows "\<exists>rs. posted_only n (signed_post url secret (now s) body) rs s s' \<and>
    (r = Inr None \<longrightarrow> n = 0 \<or> (\<exists>x \<in> set rs. accepted x))"
  using assms
proof (induction n arbitrary: lst s)
  case 0
  then show ?case by (auto simp: posted_only_def)
next
  case (Suc n)
  let ?p = "signed_post url secret (now s) body"
  obtain r1 s1 where c1: "pool_call (\<lambda>s. (Inr (), s)) s = (r1, s1)" by fastforce
  have e1: "env_only s s1" using ctx_ok [OF c1] .
  note n1 = notif_env [OF e1]
  obtain err s2 where p: "postWebhook url secret body s1 = (err, s2)" by fastforce
  from postWebhook_effect [OF p] obtain x where x: "posted_only 1 ?p [x] s1 s2" "err = None \<longleftrightarrow> accepted x" using n1 by auto
  have x2: "posted_only 1 ?p [x] s s2" using posted_only_trans [OF posted_only_env [OF e1, of 0 ?p] x(1)] by simp
  obtain r3 s3 where c3: "pool_call (\<lambda>s. (Inr (), s)) s2 = (r3, s3)" by fastforce
  have x3: "posted_only 1 ?p [x] s s3" using posted_only_trans [OF x2 posted_only_env [OF ctx_ok [OF c3], of 0 ?p]] by simp
  consider "isl r1" | "\<not> isl r1" "err = None" | "\<not> isl r1" "err \<noteq> None" "n = 0 \<or> isl r3" | "\<not> isl r1" "err \<noteq> None" "n \<noteq> 0" "\<not> isl r3"
    by blast
  then show ?case
  proof cases
    case 1
    then have "s' = s1" "r \<noteq> Inr None" using Suc.prems c1 by (cases r1; auto)+
    then show ?thesis using posted_only_env [OF e1, of "Suc n" ?p] by blast
  next
    case 2
    then have "s' = s2" using Suc.prems c1 p by (cases r1) auto
    moreover have "posted_only (Suc n) ?p [x] s s2" using x2 by (simp add: posted_only_def)
    ultimately show ?thesis using 2 x(2) by (intro exI [of _ "[x]"]) simp
  next
    case 3
    then have "(s' = s2 \<or> s' = s3) \<and> r \<noteq> Inr None" using Suc.prems c1 p c3 by (cases r1; cases r3; cases err) (auto split: if_splits)
    then show ?thesis using x2 x3 by (intro exI [of _ "[x]"]) (auto simp: posted_only_def)
  next
    case 4
    then have "delivery_loop n url secret body err s3 = (r, s')" using Suc.prems c1 p c3 by (cases r1; cases r3; cases err) auto
    from Suc.IH [OF this] obtain rs where rs: "posted_only n ?p rs s3 s'" "r = Inr None \<longrightarrow> (\<exists>x \<in> set rs. accepted x)"
      using x3 4(3) by (auto simp: posted_only_def)
    from posted_only_trans [OF x3 rs(1)] rs(2) show ?thesis by (intro exI [of _ "x # rs"]) auto
  qed
qed

section \<open>Delivering\<close>

lemma publishDLQ_effect:
  assumes "publishDLQ rfc e url body n lst s = (err, s')"
  shows "nd_posts s' = nd_posts s \<and> nd_keys s' = nd_keys s \<and> nd_merchants s' = nd_merchants s \<and> now s' = now s \<and>
    (if err = None then \<exists>d. nd_dlq s' = nd_dlq s @ [(pe_MerchantID e, d)] \<and> dl_PaymentID d = PaymentKey e \<and> dl_Payload d = body \<and> dl_WebhookURL d = url
     else nd_dlq s' = nd_dlq s)"
proof (cases "nd_has_dlq s")
  case False
  with assms show ?thesis by (auto simp: publishDLQ_def)
next
  case True
  let ?f = "\<lambda>s. (Inr () :: unit res, s\<lparr>nd_dlq := nd_dlq s @
             [(pe_MerchantID e,
               \<lparr>dl_MerchantID = pe_MerchantID e, dl_PaymentID = PaymentKey e, dl_WebhookURL = url, dl_Attempts = n,
                dl_LastError = (case lst of None \<Rightarrow> [] | Some err \<Rightarrow> Error_text err),
                dl_Payload = body, dl_FailedAt = rfc (now s)\<rparr>)]\<rparr>)"
  obtain r t where c: "pool_call ?f s = (r, t)" by fastforce
  then have "s' = t" "err = None \<longleftrightarrow> \<not> isl r" using assms True by (cases r; auto simp: publishDLQ_def)+
  with c show ?thesis by (elim pool_call_cases) (auto simp: notif_env)
qed

text \<open>What a delivery does: nothing, or at most three equal POSTs to the merchant's URL, signed with its secret, and a
  dead letter when none of them was accepted.\<close>

lemma Deliver_effect:
  assumes "Deliver rfc e s = (err, s')"
  obtains (idle) "nd_posts s' = nd_posts s" "nd_dlq s' = nd_dlq s" "nd_keys s' = nd_keys s" "now s' = now s"
            "err = None \<Longrightarrow> \<exists>cfg. nd_merchants s (pe_MerchantID e) = Inr cfg \<and> pw_WebhookUrl cfg = []"
        | (tried) cfg rs where "nd_merchants s (pe_MerchantID e) = Inr cfg"
            "nd_posts s' = nd_posts s @ map (Pair (signed_post (pw_WebhookUrl cfg) (pw_HmacSecret cfg) (now s) (buildWebhookBody rfc (now s) e))) rs"
            "length rs \<le> 3" "nd_keys s' = nd_keys s" "now s' = now s"
            "err = None \<Longrightarrow> (\<exists>x \<in> set rs. accepted x) \<and> nd_dlq s' = nd_dlq s \<or>
               (\<exists>d. nd_dlq s' = nd_dlq s @ [(pe_MerchantID e, d)] \<and> dl_PaymentID d = PaymentKey e \<and> dl_Payload d = buildWebhookBody rfc (now s) e)"
proof -
  obtain q s1 where g: "pool_call (\<lambda>s. (nd_merchants s (pe_MerchantID e), s)) s = (q, s1)" by fastforce
  then have e1: "env_only s s1" and q: "\<And>cfg. q = Inr cfg \<Longrightarrow> nd_merchants s (pe_MerchantID e) = Inr cfg"
    by (cases rule: pool_call_cases; auto simp: notif_env)+
  note n1 = notif_env [OF e1]
  show thesis
  proof (cases "PaymentKey e = [] \<or> pe_MerchantID e = [] \<or> isl q \<or> (\<exists>cfg. q = Inr cfg \<and> pw_WebhookUrl cfg = [])")
    case True
    then have "(s' = s \<or> s' = s1) \<and> (err = None \<longrightarrow> (\<exists>cfg. q = Inr cfg \<and> pw_WebhookUrl cfg = []))"
      using assms g by (cases q) (auto simp: Deliver_def split: if_splits)
    then show thesis using idle n1 q by auto
  next
    case False
    then obtain cfg where cfg: "q = Inr cfg" "pw_WebhookUrl cfg \<noteq> []" by (cases q) auto
    let ?b = "buildWebhookBody rfc (now s) e" and ?u = "pw_WebhookUrl cfg" and ?k = "pw_HmacSecret cfg"
    obtain r s2 where l: "delivery_loop notify_maxAttempts ?u ?k ?b None s1 = (r, s2)" by fastforce
    from delivery_loop_effect [OF l] obtain rs where rs: "posted_only 3 (signed_post ?u ?k (now s) ?b) rs s s2"
      "r = Inr None \<longrightarrow> (\<exists>x \<in> set rs. accepted x)"
      using n1 by (auto simp: posted_only_def notify_maxAttempts_def)
    have d: "Deliver rfc e s = (case r of Inl c \<Rightarrow> (Some c, s2) | Inr None \<Rightarrow> (None, s2)
        | Inr (Some lastErr) \<Rightarrow> (case publishDLQ rfc e ?u ?b notify_maxAttempts (Some lastErr) s2 of
            (Some err, s3) \<Rightarrow> (Some (OtherError ''deliver failed and dlq publish failed'' (Some err)), s3) | (None, s3) \<Rightarrow> (None, s3)))"
      using False g cfg l n1 unfolding Deliver_def by (simp add: Let_def split: sum.split option.split)
    show thesis
    proof (cases "\<exists>x. r = Inr (Some x)")
      case False
      then have "s' = s2 \<and> (err = None \<longrightarrow> r = Inr None)" using d assms by (auto split: sum.splits option.splits)
      then show thesis using tried [OF q [OF cfg(1)], of rs] rs by (auto simp: posted_only_def)
    next
      case True
      then obtain x where x: "r = Inr (Some x)" ..
      obtain perr s3 where pd: "publishDLQ rfc e ?u ?b notify_maxAttempts (Some x) s2 = (perr, s3)" by fastforce
      have "s' = s3" "err = None \<longleftrightarrow> perr = None" using d assms x pd by (cases perr; auto)+
      then show thesis using tried [OF q [OF cfg(1)], of rs] rs(1) publishDLQ_effect [OF pd] by (auto simp: posted_only_def)
    qed
  qed
qed

section \<open>Handling an event\<close>

lemma alreadyDelivered_effect:
  assumes "alreadyDelivered i s = (r, s')"
  shows "env_only s s' \<and> (\<forall>b. r = Inr b \<longrightarrow> b = (case nd_keys s (deliveredKey i) of None \<Rightarrow> False | Some t \<Rightarrow> now s < t))"
  using assms unfolding alreadyDelivered_def
proof (cases rule: pool_call_cases)
  case (run s0)
  with notif_env [OF run(1)] show ?thesis by (auto split: option.splits)
qed auto

lemma markDelivered_effect:
  assumes "markDelivered i s = (r, s')"
  shows "nd_posts s' = nd_posts s \<and> nd_dlq s' = nd_dlq s \<and> now s' = now s \<and>
    nd_keys s' = (if isl r then nd_keys s else (nd_keys s)(deliveredKey i \<mapsto> now s + deliveredKeyTTL))"
  using assms unfolding markDelivered_def
proof (cases rule: pool_call_cases)
  case (run s0)
  with notif_env [OF run(1)] show ?thesis by auto
qed (auto simp: notif_env)

abbreviation settled_event :: "PaymentEvent \<Rightarrow> bool" where
  "settled_event e \<equiv> PaymentKey e \<noteq> [] \<and> (pe_EventType e = [] \<or> pe_EventType e = ''payment.settled'')"

text \<open>Either nothing was posted and the error, the event or the key says why, or it was delivered.\<close>

lemma handle_effect:
  assumes "consumer_handle rfc (Some e) s = (err, s')"
  obtains (skipped) "nd_posts s' = nd_posts s" "nd_dlq s' = nd_dlq s" "nd_keys s' = nd_keys s"
            "err = None \<Longrightarrow> settled_event e \<Longrightarrow> \<exists>t. nd_keys s (deliveredKey (PaymentKey e)) = Some t \<and> now s < t"
        | (delivered) s1 derr s2 where "env_only s s1" "Deliver rfc e s1 = (derr, s2)" "err = None \<Longrightarrow> derr = None"
            "nd_posts s' = nd_posts s2" "nd_dlq s' = nd_dlq s2"
            "\<not> (\<exists>t. nd_keys s (deliveredKey (PaymentKey e)) = Some t \<and> now s < t)"
            "err = None \<Longrightarrow> nd_keys s' (deliveredKey (PaymentKey e)) = Some (now s + deliveredKeyTTL)"
proof (cases "settled_event e")
  case False
  then have "err = None \<and> s' = s" using assms by (auto simp: consumer_handle_def split: if_splits)
  with False skipped show thesis by auto
next
  case True
  obtain q s1 where a: "alreadyDelivered (PaymentKey e) s = (q, s1)" by fastforce
  note ad = alreadyDelivered_effect [OF a]
  have n1: "nd_posts s1 = nd_posts s" "nd_dlq s1 = nd_dlq s" "nd_keys s1 = nd_keys s" "now s1 = now s" using ad notif_env by auto
  show thesis
  proof (cases "q = Inr False")
    case False
    then have "s' = s1 \<and> (err = None \<longrightarrow> q = Inr True)" using assms True a
      by (cases q) (auto simp: consumer_handle_def split: bool.splits)
    then show thesis using skipped n1 ad by (auto split: option.splits)
  next
    case q: True
    obtain derr s2 where d: "Deliver rfc e s1 = (derr, s2)" by fastforce
    obtain mr s3 where mk: "markDelivered (PaymentKey e) s2 = (mr, s3)" by fastforce
    have k: "now s2 = now s" using d by (cases rule: Deliver_effect) (use n1 in auto)
    note me = markDelivered_effect [OF mk]
    have no: "\<not> (\<exists>t. nd_keys s (deliveredKey (PaymentKey e)) = Some t \<and> now s < t)" using ad q by (auto split: option.splits)
    have r: "(derr \<noteq> None \<and> s' = s2 \<and> err \<noteq> None) \<or> (derr = None \<and> s' = s3 \<and> (err = None \<longleftrightarrow> \<not> isl mr))"
      using assms True a q d mk by (cases derr; cases mr) (auto simp: consumer_handle_def)
    show thesis
      by (rule delivered [OF _ d]) (use ad no r me k in auto)
  qed
qed

text \<open>What a handled event means for the merchant.\<close>

definition notified :: "pb_WebhookConfig \<Rightarrow> int \<Rightarrow> string \<Rightarrow> PaymentEvent \<Rightarrow> (webhook_post \<times> int res) list \<Rightarrow> (string \<times> DLQPayload) list \<Rightarrow> bool" where
  "notified cfg t body e posts dlq \<longleftrightarrow> pw_WebhookUrl cfg = [] \<or>
     (\<exists>post code. (post, Inr code) \<in> set posts \<and> 200 \<le> code \<and> code < 300 \<and> wp_url post = pw_WebhookUrl cfg \<and> wp_body post = body \<and>
        Verify t (pw_HmacSecret cfg) (wp_signature post) t (wp_body post)) \<or>
     (\<exists>d. (pe_MerchantID e, d) \<in> set dlq \<and> dl_PaymentID d = PaymentKey e \<and> dl_Payload d = body)"

lemma Verify_signed: "Verify t k (Sign k t b) t b"
  by (simp add: Verify_def VerifyWithTolerance_def time_Since_def Let_def DefaultMaxAge_def)

lemma handle_notifies:
  assumes "consumer_handle rfc (Some e) s = (None, s')" and "settled_event e" and "nd_keys s (deliveredKey (PaymentKey e)) = None"
  shows "\<exists>cfg. nd_merchants s (pe_MerchantID e) = Inr cfg \<and> nd_keys s' (deliveredKey (PaymentKey e)) = Some (now s + deliveredKeyTTL) \<and>
    notified cfg (now s) (buildWebhookBody rfc (now s) e) e (drop (length (nd_posts s)) (nd_posts s')) (drop (length (nd_dlq s)) (nd_dlq s'))"
  using assms(1)
proof (cases rule: handle_effect)
  case skipped
  then show ?thesis using assms(2,3) by auto
next
  case (delivered s1 derr s2)
  note n1 = notif_env [OF delivered(1)]
  from delivered(2) show ?thesis
  proof (cases rule: Deliver_effect)
    case idle
    then show ?thesis using delivered n1 by (auto simp: notified_def)
  next
    case (tried cfg rs)
    let ?b = "buildWebhookBody rfc (now s) e"
    let ?p = "signed_post (pw_WebhookUrl cfg) (pw_HmacSecret cfg) (now s) ?b"
    have posts: "nd_posts s' = nd_posts s @ map (Pair ?p) rs" using tried(2) delivered(4) n1 by simp
    have "(\<exists>x \<in> set rs. accepted x) \<or> (\<exists>d. (pe_MerchantID e, d) \<in> set (drop (length (nd_dlq s)) (nd_dlq s')) \<and> dl_PaymentID d = PaymentKey e \<and> dl_Payload d = ?b)"
      using tried(6) delivered(3,5) n1 by auto
    moreover have "notified cfg (now s) ?b e (drop (length (nd_posts s)) (nd_posts s')) ds" if "x \<in> set rs" "accepted x" for x ds
    proof -
      from \<open>accepted x\<close> obtain code where "x = Inr code" "200 \<le> code" "code < 300" by (auto simp: accepted_def split: sum.splits)
      moreover have "(?p, x) \<in> set (drop (length (nd_posts s)) (nd_posts s'))" using posts \<open>x \<in> set rs\<close> by auto
      ultimately have "(?p, Inr code) \<in> set (drop (length (nd_posts s)) (nd_posts s')) \<and> 200 \<le> code \<and> code < 300 \<and> wp_url ?p = pw_WebhookUrl cfg \<and>
          wp_body ?p = ?b \<and> Verify (now s) (pw_HmacSecret cfg) (wp_signature ?p) (now s) (wp_body ?p)"
        by (simp add: signed_post_def Verify_signed)
      then show ?thesis unfolding notified_def by blast
    qed
    ultimately have "notified cfg (now s) ?b e (drop (length (nd_posts s)) (nd_posts s')) (drop (length (nd_dlq s)) (nd_dlq s'))"
      by (auto simp: notified_def)
    then show ?thesis using tried(1) n1 delivered(7) by auto
  qed
qed

text \<open>When the consumer has handled the event of a settled payment without an error, and its key did not say that the webhook was
  delivered before, the merchant service knew the merchant and one of three things happened: the merchant has no webhook
  URL, or its endpoint accepted (2xx) a POST whose body is the payment's data and whose signature verifies under the
  merchant's secret, or the body is in the dead-letter topic under the merchant's key. And the key now says delivered.\<close>

theorem settled_payment_notified:
  assumes "codec_ok c" and "consumer_handle rfc (Some (event_of_payload rfc (buildSettledPayload c p t))) s = (None, s')"
    and "nd_keys s (deliveredKey (uc_String c (py_ID p))) = None"
  shows "\<exists>cfg. nd_merchants s (uc_String c (py_MerchantID p)) = Inr cfg \<and>
    nd_keys s' (deliveredKey (uc_String c (py_ID p))) = Some (now s + deliveredKeyTTL) \<and>
    (pw_WebhookUrl cfg = [] \<or>
     (\<exists>post code. (post, Inr code) \<in> set (drop (length (nd_posts s)) (nd_posts s')) \<and> 200 \<le> code \<and> code < 300 \<and> wp_url post = pw_WebhookUrl cfg \<and>
        wp_body post = buildWebhookBody rfc (now s) (event_of_payload rfc (buildSettledPayload c p t)) \<and>
        Verify (now s) (pw_HmacSecret cfg) (wp_signature post) (now s) (wp_body post)) \<or>
     (\<exists>d. (uc_String c (py_MerchantID p), d) \<in> set (drop (length (nd_dlq s)) (nd_dlq s')) \<and> dl_PaymentID d = uc_String c (py_ID p) \<and>
        dl_Payload d = buildWebhookBody rfc (now s) (event_of_payload rfc (buildSettledPayload c p t))))"
proof -
  let ?e = "event_of_payload rfc (buildSettledPayload c p t)"
  have e: "PaymentKey ?e = uc_String c (py_ID p)" "pe_MerchantID ?e = uc_String c (py_MerchantID p)" "settled_event ?e"
    using assms(1) by (simp_all add: PaymentKey_def event_of_payload_def buildSettledPayload_def codec_ok_def)
  with handle_notifies [OF assms(2) e(3)] assms(3) show ?thesis by (simp add: notified_def)
qed

text \<open>One event costs the merchant's endpoint at most three requests, all of them the same body to the merchant's
  own URL, and none at all while the key of the payment says that it was delivered.\<close>

theorem webhook_attempts_bounded:
  assumes "consumer_handle rfc (Some e) s = (err, s')"
  shows "\<exists>new. nd_posts s' = nd_posts s @ new \<and> length new \<le> 3 \<and>
    (new = [] \<or> (\<exists>cfg. nd_merchants s (pe_MerchantID e) = Inr cfg \<and>
       fst ` set new = {signed_post (pw_WebhookUrl cfg) (pw_HmacSecret cfg) (now s) (buildWebhookBody rfc (now s) e)} \<and>
       \<not> (\<exists>t. nd_keys s (deliveredKey (PaymentKey e)) = Some t \<and> now s < t)))"
  using assms
proof (cases rule: handle_effect)
  case skipped
  then show ?thesis by simp
next
  case (delivered s1 derr s2)
  note n1 = notif_env [OF delivered(1)]
  from delivered(2) show ?thesis
  proof (cases rule: Deliver_effect)
    case idle
    then show ?thesis using delivered n1 by simp
  next
    case (tried cfg rs)
    let ?p = "signed_post (pw_WebhookUrl cfg) (pw_HmacSecret cfg) (now s) (buildWebhookBody rfc (now s) e)"
    have "nd_posts s' = nd_posts s @ map (Pair ?p) rs" using tried(2) delivered(4) n1 by simp
    moreover have "rs \<noteq> [] \<Longrightarrow> fst ` set (map (Pair ?p) rs) = {?p}" by (cases rs) force+
    ultimately show ?thesis using tried(1,3) delivered(6) n1 by (intro exI [of _ "map (Pair ?p) rs"]) auto
  qed
qed

section \<open>A concrete consumer\<close>

text \<open>A merchant with an endpoint that answers 200, and one the merchant service does not know.\<close>

definition ex_cfg :: pb_WebhookConfig where
  "ex_cfg = \<lparr>pw_MerchantId = ''iiiiiiii'', pw_WebhookUrl = ''https://shop'', pw_HmacSecret = ''s3cret''\<rparr>"

definition ex_notif :: notif_db where
  "ex_notif = \<lparr>now = 0, script = [], aborted = False, uuid_src = word_of_nat, n_uuid = 0, codec = unary_codec,
     nd_keys = (\<lambda>_. None),
     nd_merchants = (\<lambda>m. if m = ''iiiiiiii'' then Inr ex_cfg else Inl (StatusError codes_Unavailable ''down'' [])),
     nd_http = [], nd_posts = [], nd_has_dlq = True, nd_dlq = []\<rparr>"

definition ex_paid :: Payment where
  "ex_paid = \<lparr>py_ID = 5, py_IdempotencyKey = ''k'', py_MerchantID = 7, py_ConsentID = 8, py_ConsumerID = ''u1'',
     py_AmountPence = 1000, py_Currency = ''GBP'', py_Status = StatusSettled, py_BankPaymentRef = ''FPS-1'',
     py_ReservationID = None, py_RiskScore = None, py_RiskDecision = ''ALLOW'', py_FailureReason = [],
     py_Description = ''d'', py_InitiatedAt = 0, py_SettledAt = Some 1, py_UpdatedAt = 1\<rparr>"

definition ex_event :: PaymentEvent where
  "ex_event = event_of_payload (\<lambda>_. ''2025-01-01T00:00:00Z'') (buildSettledPayload unary_codec ex_paid 1)"

lemma ex_event_sel:
  "PaymentKey ex_event = ''iiiiii''" "pe_EventType ex_event = ''payment.settled''" "pe_MerchantID ex_event = ''iiiiiiii''"
  by code_simp+

lemmas notif_run = consumer_handle_def alreadyDelivered_def Deliver_def postWebhook_def http_post_def markDelivered_def
  notify_maxAttempts_def numeral_3_eq_3 Let_def

lemma ex_handled: "\<exists>s'. consumer_handle rfc (Some ex_event) ex_notif = (None, s') \<and> length (nd_posts s') = 1"
  by (simp add: notif_run ex_event_sel ex_notif_def ex_cfg_def)

theorem settled_payment_notified_witness:
  "\<exists>s' post code. consumer_handle (\<lambda>_. ''2025-01-01T00:00:00Z'') (Some ex_event) ex_notif = (None, s') \<and> (post, Inr code) \<in> set (nd_posts s') \<and>
     code < 300 \<and> wp_url post = ''https://shop'' \<and> Verify 0 ''s3cret'' (wp_signature post) 0 (wp_body post)"
proof -
  let ?rfc = "\<lambda>_ :: int. ''2025-01-01T00:00:00Z''"
  have h: "consumer_handle ?rfc (Some ex_event) ex_notif = (None, snd (consumer_handle ?rfc (Some ex_event) ex_notif))"
    "nd_dlq (snd (consumer_handle ?rfc (Some ex_event) ex_notif)) = []"
    by (simp_all add: notif_run ex_event_sel ex_notif_def ex_cfg_def)
  have n: "nd_keys ex_notif k = None" "now ex_notif = 0" "nd_posts ex_notif = []" "nd_dlq ex_notif = []"
    "nd_merchants ex_notif (uc_String unary_codec (py_MerchantID ex_paid)) = Inr ex_cfg" "pw_WebhookUrl ex_cfg = ''https://shop''"
    "pw_HmacSecret ex_cfg = ''s3cret''" for k
    using ex_event_sel(3) by (simp_all add: ex_notif_def ex_cfg_def ex_event_def event_of_payload_def buildSettledPayload_def)
  from settled_payment_notified [OF codec_ok_unary h(1) [unfolded ex_event_def], folded ex_event_def] h n show ?thesis by auto
qed

theorem webhook_attempts_bounded_witness:
  "\<exists>s'. consumer_handle (\<lambda>_. []) (Some ex_event) ex_notif = (None, s') \<and> nd_posts s' \<noteq> [] \<and> length (nd_posts s') \<le> 3"
proof -
  obtain s' where h: "consumer_handle (\<lambda>_. []) (Some ex_event) ex_notif = (None, s')" "length (nd_posts s') = 1"
    using ex_handled by blast
  have "nd_posts ex_notif = []" by (simp add: ex_notif_def)
  with webhook_attempts_bounded [OF h(1)] h show ?thesis by auto
qed


end
