(* ===== verification/Gateway_Http.thy ===== *)
theory Gateway_Http
  imports Merchant_Service Proto
begin

text \<open>
  The HTTP side of the gateway (\<open>types.go\<close>, \<open>respond.go\<close>, \<open>convert.go\<close> of \<open>services/gateway/internal/httpapi\<close>)
  and the tokens of \<open>pkg/shared/auth/jwt.go\<close>.
  \<^item> A request carries the first JSON value of its body (\<open>None\<close>: no value, or not JSON); the fields of a
    struct are filled from it the way \<open>encoding/json\<close> does with unknown fields disallowed: an exact field name or one
    that differs in case only, \<open>null\<close> leaves a field alone, a wrong type or an unknown name is an error
    that does not stop the other fields. A response has its status, its headers and the value that is
    encoded as JSON.
  \<^item> \<open>time_lib\<close> is \<open>Format\<close> and \<open>Parse\<close> of \<open>time.RFC3339\<close>; \<open>jwt_lib\<close> is \<open>golang-jwt\<close>, which is not part of the
    repository: \<open>jwt_ok\<close> is what it documents of a token signed with HS256.
  \<open>plain_jwt\<close> is an instance for concrete inputs, shown to satisfy \<open>jwt_ok\<close>.
\<close>

section \<open>JSON bodies\<close>

datatype json = JNull | JBool bool | JInt int | JFloat string | JString string | JArray "json list"
  | JObject "(string \<times> json) list"

type_synonym 'r json_dec = "json \<Rightarrow> 'r \<Rightarrow> 'r \<times> bool"

definition dec_string :: "(string \<Rightarrow> 'r \<Rightarrow> 'r) \<Rightarrow> 'r json_dec" where
  "dec_string put j r = (case j of JString t \<Rightarrow> (put t r, True) | JNull \<Rightarrow> (r, True) | _ \<Rightarrow> (r, False))"

definition dec_int64 :: "(int \<Rightarrow> 'r \<Rightarrow> 'r) \<Rightarrow> 'r json_dec" where
  "dec_int64 put j r =
     (case j of JInt i \<Rightarrow> if is_int64 i then (put i r, True) else (r, False) | JNull \<Rightarrow> (r, True) | _ \<Rightarrow> (r, False))"

definition json_field :: "(string \<times> 'r json_dec) list \<Rightarrow> string \<Rightarrow> 'r json_dec option" where
  "json_field fs k =
     (case map_of fs k of
        Some d \<Rightarrow> Some d
      | None \<Rightarrow> map_option snd (find (\<lambda>f. ToLower (fst f) = ToLower k) fs))"

fun dec_fields :: "(string \<times> 'r json_dec) list \<Rightarrow> (string \<times> json) list \<Rightarrow> 'r \<Rightarrow> 'r \<times> bool" where
  "dec_fields fs [] r = (r, True)"
| "dec_fields fs ((k, v) # kvs) r =
     (case json_field fs k of
        None \<Rightarrow> (fst (dec_fields fs kvs r), False)
      | Some d \<Rightarrow>
          (case d v r of
             (r1, ok) \<Rightarrow> (case dec_fields fs kvs r1 of (r2, ok') \<Rightarrow> (r2, ok \<and> ok'))))"

definition dec_struct :: "(string \<times> 'r json_dec) list \<Rightarrow> 'r json_dec" where
  "dec_struct fs j r = (case j of JObject kvs \<Rightarrow> dec_fields fs kvs r | JNull \<Rightarrow> (r, True) | _ \<Rightarrow> (r, False))"

text \<open>\<open>decodeJSON\<close>: the value after the call and whether it returned nil.\<close>

definition decodeJSON :: "(string \<times> 'r json_dec) list \<Rightarrow> json option \<Rightarrow> 'r \<Rightarrow> 'r \<times> bool" where
  "decodeJSON fs body r = (case body of None \<Rightarrow> (r, False) | Some j \<Rightarrow> dec_struct fs j r)"

section \<open>Types\<close>

record http_Money =
  hm_AmountPence :: int
  hm_Currency :: string

definition no_money :: http_Money where
  "no_money = \<lparr>hm_AmountPence = 0, hm_Currency = []\<rparr>"

record ErrorBody =
  eb_Code :: string
  eb_Message :: string
  eb_RequestID :: string

record TokenRequest =
  tq_APIKey :: string

record TokenResponse =
  tr_Token :: string
  tr_ExpiresAt :: string

record http_RegisterRequest =
  hg_Name :: string
  hg_WebhookURL :: string
  hg_ContactEmail :: string

record MerchantResponse =
  mr_ID :: string
  mr_Name :: string
  mr_KYBStatus :: string
  mr_Status :: string
  mr_WebhookURL :: string
  mr_CreatedAt :: string
  mr_UpdatedAt :: string

record http_RegisterResponse =
  hgr_Merchant :: MerchantResponse
  hgr_APIKey :: string

record http_ConsentRequest =
  hc_ConsumerID :: string
  hc_BankConsentRef :: string
  hc_MaxPerTransaction :: http_Money
  hc_MaxPerMonth :: http_Money
  hc_ValidUntil :: string

record ConsentResponse =
  cp_ID :: string
  cp_MerchantID :: string
  cp_ConsumerID :: string
  cp_BankConsentRef :: string
  cp_Status :: string
  cp_MaxPerTransaction :: http_Money
  cp_MaxPerMonth :: http_Money
  cp_ValidFrom :: string
  cp_ValidUntil :: string
  cp_CreatedAt :: string
  cp_UpdatedAt :: string

record http_ListResponse =
  hl_Consents :: "ConsentResponse list"
  hl_NextPageToken :: string
  hl_TotalCount :: int

record http_RevokeRequest =
  hv_Reason :: string

record http_PaymentRequest =
  hp_ConsentID :: string
  hp_Amount :: http_Money
  hp_Description :: string

record PaymentResponse =
  pq_ID :: string
  pq_IdempotencyKey :: string
  pq_MerchantID :: string
  pq_ConsentID :: string
  pq_ConsumerID :: string
  pq_Amount :: http_Money
  pq_Status :: string
  pq_BankPaymentRef :: string
  pq_RiskScore :: int
  pq_RiskDecision :: string
  pq_FailureReason :: string
  pq_Description :: string
  pq_InitiatedAt :: string
  pq_SettledAt :: string
  pq_UpdatedAt :: string

text \<open>The JSON names of the requests' fields.\<close>

definition money_fields :: "(string \<times> http_Money json_dec) list" where
  "money_fields = [(''amount_pence'', dec_int64 (\<lambda>i. hm_AmountPence_update (\<lambda>_. i))),
                   (''currency'', dec_string (\<lambda>t. hm_Currency_update (\<lambda>_. t)))]"

definition dec_money :: "('r \<Rightarrow> http_Money) \<Rightarrow> (http_Money \<Rightarrow> 'r \<Rightarrow> 'r) \<Rightarrow> 'r json_dec" where
  "dec_money get put j r = (case dec_struct money_fields j (get r) of (m, ok) \<Rightarrow> (put m r, ok))"

definition token_fields :: "(string \<times> TokenRequest json_dec) list" where
  "token_fields = [(''api_key'', dec_string (\<lambda>t. tq_APIKey_update (\<lambda>_. t)))]"

definition register_fields :: "(string \<times> http_RegisterRequest json_dec) list" where
  "register_fields = [(''name'', dec_string (\<lambda>t. hg_Name_update (\<lambda>_. t))),
                      (''webhook_url'', dec_string (\<lambda>t. hg_WebhookURL_update (\<lambda>_. t))),
                      (''contact_email'', dec_string (\<lambda>t. hg_ContactEmail_update (\<lambda>_. t)))]"

definition consent_fields :: "(string \<times> http_ConsentRequest json_dec) list" where
  "consent_fields = [(''consumer_id'', dec_string (\<lambda>t. hc_ConsumerID_update (\<lambda>_. t))),
                     (''bank_consent_ref'', dec_string (\<lambda>t. hc_BankConsentRef_update (\<lambda>_. t))),
                     (''max_per_transaction'', dec_money hc_MaxPerTransaction (\<lambda>m. hc_MaxPerTransaction_update (\<lambda>_. m))),
                     (''max_per_month'', dec_money hc_MaxPerMonth (\<lambda>m. hc_MaxPerMonth_update (\<lambda>_. m))),
                     (''valid_until'', dec_string (\<lambda>t. hc_ValidUntil_update (\<lambda>_. t)))]"

definition revoke_fields :: "(string \<times> http_RevokeRequest json_dec) list" where
  "revoke_fields = [(''reason'', dec_string (\<lambda>t. hv_Reason_update (\<lambda>_. t)))]"

definition payment_fields :: "(string \<times> http_PaymentRequest json_dec) list" where
  "payment_fields = [(''consent_id'', dec_string (\<lambda>t. hp_ConsentID_update (\<lambda>_. t))),
                     (''amount'', dec_money hp_Amount (\<lambda>m. hp_Amount_update (\<lambda>_. m))),
                     (''description'', dec_string (\<lambda>t. hp_Description_update (\<lambda>_. t)))]"

section \<open>Requests and responses\<close>

record http_ctx =
  cx_RequestID :: "string option"
  cx_MerchantID :: "string option"
  cx_URLParam :: "string \<Rightarrow> string"

record http_request =
  rq_Method :: string
  rq_Path :: string
  rq_Header :: "string \<Rightarrow> string"
  rq_Query :: "string \<Rightarrow> string"
  rq_Body :: "json option"
  rq_Context :: http_ctx

datatype http_body =
    B_Error ErrorBody
  | B_Token TokenResponse
  | B_Registered http_RegisterResponse
  | B_Merchant MerchantResponse
  | B_Consent ConsentResponse
  | B_Consents http_ListResponse
  | B_Payment PaymentResponse
  | B_Health string
  | B_Other string

record http_response =
  hr_Status :: int
  hr_Header :: "(string \<times> string) list"
  hr_Body :: http_body

definition header_Set :: "string \<Rightarrow> string \<Rightarrow> (string \<times> string) list \<Rightarrow> (string \<times> string) list" where
  "header_Set k v hdr = (k, v) # filter (\<lambda>h. fst h \<noteq> k) hdr"

definition RequestIDFrom :: "http_ctx \<Rightarrow> string" where
  "RequestIDFrom ctx = (case cx_RequestID ctx of Some v \<Rightarrow> v | None \<Rightarrow> [])"

definition MerchantIDFrom :: "http_ctx \<Rightarrow> string" where
  "MerchantIDFrom ctx = (case cx_MerchantID ctx of Some v \<Rightarrow> v | None \<Rightarrow> [])"

definition gw_writeJSON :: "(string \<times> string) list \<Rightarrow> int \<Rightarrow> http_body \<Rightarrow> http_response" where
  "gw_writeJSON hdr code v =
     \<lparr>hr_Status = code, hr_Header = header_Set ''Content-Type'' ''application/json'' hdr, hr_Body = v\<rparr>"

definition writeError :: "(string \<times> string) list \<Rightarrow> http_request \<Rightarrow> int \<Rightarrow> string \<Rightarrow> string \<Rightarrow> http_response" where
  "writeError hdr r status code msg =
     gw_writeJSON hdr status (B_Error \<lparr>eb_Code = code, eb_Message = msg, eb_RequestID = RequestIDFrom (rq_Context r)\<rparr>)"

section \<open>Errors of the services\<close>

definition isBusinessCode :: "string \<Rightarrow> bool" where
  "isBusinessCode t \<longleftrightarrow> t \<in> {''VALIDATION_ERROR'', ''NOT_FOUND'', ''ALREADY_EXISTS'', ''CONSENT_LIMIT_EXCEEDED'',
     ''CONSENT_EXPIRED'', ''CONSENT_REVOKED'', ''CONSENT_INACTIVE'', ''RISK_DECLINED'',
     ''BANK_REJECTED'', ''BANK_UNAVAILABLE'', ''MERCHANT_SUSPENDED'',
     ''DUPLICATE_IDEMPOTENCY_KEY'', ''CONFLICT'', ''INTERNAL_ERROR''}"

definition business_prefix :: "string \<Rightarrow> nat option" where
  "business_prefix msg =
     (case str_Index '': '' msg of
        Some i \<Rightarrow> if i > 0 \<and> isBusinessCode (take i msg) then Some i else None
      | None \<Rightarrow> None)"

definition grpcBusinessCode :: "grpc_code \<Rightarrow> string \<Rightarrow> string" where
  "grpcBusinessCode c msg =
     (case (if c = codes_FailedPrecondition then business_prefix msg else None) of
        Some i \<Rightarrow> take i msg
      | None \<Rightarrow>
          (case c of
             codes_InvalidArgument \<Rightarrow> ''VALIDATION_ERROR''
           | codes_NotFound \<Rightarrow> ''NOT_FOUND''
           | codes_AlreadyExists \<Rightarrow> ''ALREADY_EXISTS''
           | codes_Aborted \<Rightarrow> ''CONFLICT''
           | _ \<Rightarrow> ''INTERNAL_ERROR''))"

definition stripCodePrefix :: "string \<Rightarrow> string" where
  "stripCodePrefix msg = (case business_prefix msg of Some i \<Rightarrow> TrimSpace (drop (i + 2) msg) | None \<Rightarrow> msg)"

text \<open>The first switch of \<open>mapGRPCError\<close>: the HTTP status of a domain code other than INTERNAL\_ERROR.\<close>

definition domain_status :: "string \<Rightarrow> int" where
  "domain_status code =
     (if code = CodeValidation then 400
      else if code = CodeNotFound then 404
      else if code = CodeAlreadyExists \<or> code = CodeDuplicateIdempotency then 409
      else if code \<in> {CodeConsentLimitExceeded, CodeConsentExpired, CodeConsentRevoked, CodeConsentInactive,
          CodeRiskDeclined, CodeBankRejected, CodeMerchantSuspended, CodeConflict} then 422
      else if code = CodeBankUnavailable then 503
      else 500)"

definition status_response :: "(string \<times> string) list \<Rightarrow> http_request \<Rightarrow> grpc_code \<Rightarrow> string \<Rightarrow> http_response" where
  "status_response hdr r c msg =
     (let code = grpcBusinessCode c msg in
      case c of
        codes_InvalidArgument \<Rightarrow> writeError hdr r 400 code msg
      | codes_NotFound \<Rightarrow> writeError hdr r 404 code msg
      | codes_AlreadyExists \<Rightarrow> writeError hdr r 409 code msg
      | codes_FailedPrecondition \<Rightarrow> writeError hdr r 422 code (stripCodePrefix msg)
      | codes_Unauthenticated \<Rightarrow> writeError hdr r 401 ''UNAUTHORIZED'' msg
      | codes_PermissionDenied \<Rightarrow> writeError hdr r 403 ''FORBIDDEN'' msg
      | codes_ResourceExhausted \<Rightarrow> writeError hdr r 429 ''RATE_LIMITED'' msg
      | codes_Unavailable \<Rightarrow> writeError hdr r 503 ''SERVICE_UNAVAILABLE'' msg
      | codes_Aborted \<Rightarrow> writeError hdr r 409 code msg
      | _ \<Rightarrow> writeError hdr r 500 ''INTERNAL_ERROR'' msg)"

definition mapGRPCError :: "(string \<times> string) list \<Rightarrow> http_request \<Rightarrow> goerror \<Rightarrow> http_response" where
  "mapGRPCError hdr r err =
     (case as_domain (FromGRPC err) of
        Some (code, msg, _) \<Rightarrow>
          if code \<noteq> CodeInternal then writeError hdr r (domain_status code) code msg
          else (case status_FromError err of
                  None \<Rightarrow> writeError hdr r 500 ''INTERNAL_ERROR'' ''unexpected error''
                | Some (c, m, _) \<Rightarrow> status_response hdr r c m)
      | None \<Rightarrow> writeError hdr r 500 ''INTERNAL_ERROR'' ''unexpected error'')"

section \<open>Conversions\<close>

record time_lib =
  tl_Format :: "int \<Rightarrow> string"
  tl_Parse :: "string \<Rightarrow> int option"
  tl_ParseNano :: "string \<Rightarrow> int option"

definition moneyToProto :: "http_Money \<Rightarrow> pb_Money" where
  "moneyToProto m = \<lparr>mo_AmountPence = hm_AmountPence m, mo_Currency = hm_Currency m\<rparr>"

definition gw_moneyFromProto :: "pb_Money option \<Rightarrow> http_Money" where
  "gw_moneyFromProto m =
     (case m of
        None \<Rightarrow> no_money
      | Some x \<Rightarrow> \<lparr>hm_AmountPence = mo_AmountPence x, hm_Currency = mo_Currency x\<rparr>)"

definition tsString :: "time_lib \<Rightarrow> int option \<Rightarrow> string" where
  "tsString tm ts = (case ts of None \<Rightarrow> [] | Some t \<Rightarrow> if t = zero_time then [] else tl_Format tm t)"

text \<open>\<open>Inr None\<close> is the nil timestamp of an empty text.\<close>

definition parseTime :: "time_lib \<Rightarrow> string \<Rightarrow> int option res" where
  "parseTime tm t =
     (if t = [] then Inr None
      else case tl_Parse tm t of
             Some x \<Rightarrow> Inr (Some x)
           | None \<Rightarrow>
               (case tl_ParseNano tm t of
                  Some x \<Rightarrow> Inr (Some x)
                | None \<Rightarrow> Inl (OtherError ''parsing time'' None)))"

definition merchantFromProto :: "time_lib \<Rightarrow> pb_Merchant \<Rightarrow> MerchantResponse" where
  "merchantFromProto tm m =
     \<lparr>mr_ID = pm_Id m, mr_Name = pm_Name m, mr_KYBStatus = pm_KybStatus m, mr_Status = pm_Status m,
      mr_WebhookURL = pm_WebhookUrl m, mr_CreatedAt = tsString tm (Some (pm_CreatedAt m)),
      mr_UpdatedAt = tsString tm (Some (pm_UpdatedAt m))\<rparr>"

text \<open>The text of a value outside the enumeration is its number.\<close>

fun consentStatusString :: "ConsentStatus \<Rightarrow> string" where
  "consentStatusString Consent_PENDING = ''PENDING''"
| "consentStatusString Consent_ACTIVE = ''ACTIVE''"
| "consentStatusString Consent_REVOKED = ''REVOKED''"
| "consentStatusString Consent_EXPIRED = ''EXPIRED''"
| "consentStatusString CONSENT_STATUS_UNSPECIFIED = ''CONSENT_STATUS_UNSPECIFIED''"
| "consentStatusString (ConsentStatus_other n) = Itoa n"

definition parseConsentStatus :: "string \<Rightarrow> ConsentStatus" where
  "parseConsentStatus t =
     (let u = ToUpper (TrimSpace t) in
      if u = ''PENDING'' then Consent_PENDING
      else if u = ''ACTIVE'' then Consent_ACTIVE
      else if u = ''REVOKED'' then Consent_REVOKED
      else if u = ''EXPIRED'' then Consent_EXPIRED
      else CONSENT_STATUS_UNSPECIFIED)"

definition consentFromProto :: "time_lib \<Rightarrow> Consent \<Rightarrow> ConsentResponse" where
  "consentFromProto tm c =
     \<lparr>cp_ID = cn_Id c, cp_MerchantID = cn_MerchantId c, cp_ConsumerID = cn_ConsumerId c,
      cp_BankConsentRef = cn_BankConsentRef c, cp_Status = consentStatusString (cn_Status c),
      cp_MaxPerTransaction = gw_moneyFromProto (Some (cn_MaxPerTransaction c)),
      cp_MaxPerMonth = gw_moneyFromProto (Some (cn_MaxPerMonth c)),
      cp_ValidFrom = tsString tm (Some (cn_ValidFrom c)), cp_ValidUntil = tsString tm (Some (cn_ValidUntil c)),
      cp_CreatedAt = tsString tm (Some (cn_CreatedAt c)), cp_UpdatedAt = tsString tm (Some (cn_UpdatedAt c))\<rparr>"

fun paymentStatusString :: "PaymentStatus \<Rightarrow> string" where
  "paymentStatusString Pay_INITIATED = ''INITIATED''"
| "paymentStatusString Pay_CONSENT_RESERVED = ''CONSENT_RESERVED''"
| "paymentStatusString Pay_RISK_PASSED = ''RISK_PASSED''"
| "paymentStatusString Pay_AUTHORISING = ''AUTHORISING''"
| "paymentStatusString Pay_SETTLED = ''SETTLED''"
| "paymentStatusString Pay_FAILED = ''FAILED''"
| "paymentStatusString Pay_MANUAL_REVIEW = ''MANUAL_REVIEW''"
| "paymentStatusString PAYMENT_STATUS_UNSPECIFIED = ''PAYMENT_STATUS_UNSPECIFIED''"

definition paymentFromProto :: "time_lib \<Rightarrow> pb_Payment \<Rightarrow> PaymentResponse" where
  "paymentFromProto tm p =
     \<lparr>pq_ID = pp_Id p, pq_IdempotencyKey = pp_IdempotencyKey p, pq_MerchantID = pp_MerchantId p,
      pq_ConsentID = pp_ConsentId p, pq_ConsumerID = pp_ConsumerId p,
      pq_Amount = gw_moneyFromProto (Some (pp_Amount p)), pq_Status = paymentStatusString (pp_Status p),
      pq_BankPaymentRef = pp_BankPaymentRef p, pq_RiskScore = pp_RiskScore p, pq_RiskDecision = pp_RiskDecision p,
      pq_FailureReason = pp_FailureReason p, pq_Description = pp_Description p,
      pq_InitiatedAt = tsString tm (Some (pp_InitiatedAt p)), pq_SettledAt = tsString tm (pp_SettledAt p),
      pq_UpdatedAt = tsString tm (Some (pp_UpdatedAt p))\<rparr>"

section \<open>Tokens\<close>

record Claims =
  cl_MerchantID :: string
  cl_ID :: string
  cl_Subject :: string
  cl_ExpiresAt :: int
  cl_IssuedAt :: int

text \<open>\<open>jw_Sign method secret claims\<close> is \<open>SignedString\<close>; \<open>jw_Parse t keyfunc token\<close> is \<open>ParseWithClaims\<close> at time \<open>t\<close>, with the
  claims and the flag \<open>Valid\<close>. A date of a token has whole seconds.\<close>

record jwt_lib =
  jw_Sign :: "string \<Rightarrow> string \<Rightarrow> Claims \<Rightarrow> string res"
  jw_Parse :: "int \<Rightarrow> (string \<Rightarrow> string res) \<Rightarrow> string \<Rightarrow> (Claims \<times> bool) res"

definition jwt_ok :: "jwt_lib \<Rightarrow> bool" where
  "jwt_ok jl \<longleftrightarrow>
     (\<forall>method secret c tok t kf. jw_Sign jl method secret c = Inr tok \<longrightarrow> kf method = Inr secret \<longrightarrow>
        (if t < cl_ExpiresAt c then jw_Parse jl t kf tok = Inr (c, True) else isl (jw_Parse jl t kf tok)) \<and>
        TrimSpace tok = tok \<and> tok \<noteq> [])"

text \<open>An instance of the library for concrete inputs: the token lists the method, the secret and the claims in clear.\<close>

definition pack :: "string \<Rightarrow> string" where
  "pack t = concat (map (\<lambda>c. [CHR ''1'', c]) t) @ ''0''"

fun unpack :: "string \<Rightarrow> (string \<times> string) option" where
  "unpack [] = None"
| "unpack [c] = (if c = CHR ''0'' then Some ([], []) else None)"
| "unpack (c # d # r) = (if c = CHR ''0'' then Some ([], d # r) else map_option (\<lambda>(t, r'). (d # t, r')) (unpack r))"

fun unpack_all :: "nat \<Rightarrow> string \<Rightarrow> string list option" where
  "unpack_all 0 t = (if t = [] then Some [] else None)"
| "unpack_all (Suc n) t = (case unpack t of None \<Rightarrow> None | Some (x, r) \<Rightarrow> map_option ((#) x) (unpack_all n r))"

function write_int :: "int \<Rightarrow> string" where
  "write_int i = (if i = 0 then ''0'' else if i = -1 then ''-''
                  else (if even i then CHR ''e'' else CHR ''o'') # write_int (i div 2))"
  by auto

termination by (relation "measure (\<lambda>i. nat \<bar>i\<bar>)") auto

declare write_int.simps [simp del]

fun read_int :: "string \<Rightarrow> int" where
  "read_int [] = 0"
| "read_int (c # t) =
     (if c = CHR ''0'' then 0 else if c = CHR ''-'' then -1
      else if c = CHR ''e'' then 2 * read_int t else 2 * read_int t + 1)"

definition plain_jwt :: jwt_lib where
  "plain_jwt =
     \<lparr>jw_Sign = (\<lambda>method secret c. Inr (concat (map pack
        [method, secret, cl_MerchantID c, cl_ID c, cl_Subject c, write_int (cl_ExpiresAt c), write_int (cl_IssuedAt c)]))),
      jw_Parse = (\<lambda>t kf tok.
        case unpack_all 7 tok of
          Some [method, secret, m, i, sub, e, ia] \<Rightarrow>
            (case kf method of
               Inl err \<Rightarrow> Inl err
             | Inr k \<Rightarrow>
                 if k \<noteq> secret then Inl (OtherError ''token signature is invalid'' None)
                 else if t < read_int e
                   then Inr (\<lparr>cl_MerchantID = m, cl_ID = i, cl_Subject = sub, cl_ExpiresAt = read_int e, cl_IssuedAt = read_int ia\<rparr>, True)
                 else Inl (OtherError ''token is expired'' None))
        | _ \<Rightarrow> Inl (OtherError ''token is malformed'' None))\<rparr>"

definition NumericDate :: "int \<Rightarrow> int" where
  "NumericDate t = (t div 10 ^ 9) * 10 ^ 9"

record TokenService =
  tk_secret :: string
  tk_ttl :: int

definition NewTokenService :: "string \<Rightarrow> int \<Rightarrow> TokenService" where
  "NewTokenService secret ttl = \<lparr>tk_secret = secret, tk_ttl = (if ttl = 0 then 3600 * 10 ^ 9 else ttl)\<rparr>"

definition token_Issue :: "jwt_lib \<Rightarrow> TokenService \<Rightarrow> string \<Rightarrow> 'z env_scheme \<Rightarrow> (string \<times> int) res \<times> 'z env_scheme" where
  "token_Issue jl ts merchantID s =
     (let expiresAt = now s + tk_ttl ts; (i, s1) = fresh_uuid s;
          claims = \<lparr>cl_MerchantID = merchantID, cl_ID = uc_String (codec s) i, cl_Subject = merchantID,
                    cl_ExpiresAt = NumericDate expiresAt, cl_IssuedAt = NumericDate (now s)\<rparr>
      in (case jw_Sign jl ''HS256'' (tk_secret ts) claims of Inl err \<Rightarrow> Inl err | Inr tok \<Rightarrow> Inr (tok, expiresAt), s1))"

definition token_Parse :: "jwt_lib \<Rightarrow> TokenService \<Rightarrow> int \<Rightarrow> string \<Rightarrow> Claims res" where
  "token_Parse jl ts t tok =
     (case jw_Parse jl t (\<lambda>method. if method \<noteq> ''HS256'' then Inl (OtherError ''unexpected signing method'' None)
                                   else Inr (tk_secret ts)) tok of
        Inl err \<Rightarrow> Inl err
      | Inr (claims, valid) \<Rightarrow> if \<not> valid then Inl (OtherError ''invalid token'' None) else Inr claims)"

section \<open>Lemmas\<close>

lemma unpack_pack: "unpack (pack t @ r) = Some (t, r)"
proof (induction t)
  case Nil
  show ?case by (cases r) (simp_all add: pack_def)
next
  case (Cons c t)
  then show ?case by (simp add: pack_def)
qed

lemma unpack_all_pack: "unpack_all (length ts) (concat (map pack ts)) = Some ts"
  by (induction ts) (simp_all add: unpack_pack)

lemma read_write_int: "read_int (write_int i) = i"
proof (induction i rule: write_int.induct)
  case (1 i)
  then show ?case by (subst write_int.simps) auto
qed

lemma TrimSpace_ends: "t \<noteq> [] \<Longrightarrow> \<not> is_space (hd t) \<Longrightarrow> \<not> is_space (last t) \<Longrightarrow> TrimSpace t = t"
proof -
  assume t: "t \<noteq> []" "\<not> is_space (hd t)" "\<not> is_space (last t)"
  then have "dropWhile is_space t = t" "dropWhile is_space (rev t) = rev t"
    by (simp_all add: dropWhile_eq_self_iff hd_rev)
  then show ?thesis by (simp add: TrimSpace_def)
qed

lemma pack_ends: "pack t \<noteq> []" "\<not> is_space (hd (pack t))" "\<not> is_space (last (pack t))"
  by (cases t; simp add: pack_def is_space_def)+

lemma jwt_ok_plain: "jwt_ok plain_jwt"
proof -
  have trim: "TrimSpace (pack a @ z @ pack b) = pack a @ z @ pack b" for a z b
    by (rule TrimSpace_ends) (simp_all add: pack_ends)
  have parse: "unpack_all 7 (concat (map pack [a, b, c, d, e, f, g])) = Some [a, b, c, d, e, f, g]" for a b c d e f g
    using unpack_all_pack [of "[a, b, c, d, e, f, g]"] by (simp add: numeral_eq_Suc)
  have "TrimSpace (concat (map pack [a, b, c, d, e, f, g])) = concat (map pack [a, b, c, d, e, f, g])" for a b c d e f g
    using trim [of a "concat (map pack [b, c, d, e, f])" g] by simp
  with parse show ?thesis
    unfolding jwt_ok_def plain_jwt_def by (simp add: read_write_int pack_ends)
qed

end
