(* ===== verification/Gateway.thy ===== *)
theory Gateway
  imports Gateway_Http Swagger Payment_Handler Consent
begin

text \<open>
  The gateway (\<open>middleware.go\<close>, \<open>handlers.go\<close>, \<open>router.go\<close> of \<open>services/gateway/internal/httpapi\<close>): an HTTP facade
  of the merchant, consent and payment services.
  \<^item> \<open>gateway\<close> is its state: the environment, the rate-limit counters in Redis with their expiry (\<open>gw_rdb\<close>: a
    client is configured) and the state \<open>'w\<close> of the services behind the gRPC clients \<open>gw_clients\<close>.
  \<^item> A handler takes the headers set so far, the request and the state. A middleware takes the next handler.
  \<^item> The router \<open>chi\<close> is not part of the repository: \<open>ch_Match\<close> gives the URL parameters when a path has a
    pattern, \<open>ch_NoRoute\<close> its reply to an unknown route. \<open>LoggerMiddleware\<close> only logs (\<open>Process\<close>); \<open>Recoverer\<close> has no panic to
    catch here; \<open>RealIP\<close> sets a field nothing reads; the deadline of \<open>Timeout\<close> shows as an error of a client.
    A path that has several patterns goes to the first of them, as \<open>chi\<close> prefers \<open>/docs/openapi.yaml\<close> to \<open>/docs/*\<close>.
\<close>

section \<open>State and clients\<close>

record 'w gateway = env +
  gw_rdb :: bool
  gw_counters :: "string \<Rightarrow> (int \<times> int option) option"
  gw_services :: 'w

type_synonym 'w http_handler =
  "(string \<times> string) list \<Rightarrow> http_request \<Rightarrow> 'w gateway \<Rightarrow> http_response \<times> 'w gateway"

record 'w gw_clients =
  gc_RegisterMerchant :: "RegisterMerchantRequest \<Rightarrow> 'w \<Rightarrow> RegisterMerchantResponse res \<times> 'w"
  gc_GetMerchant :: "string \<Rightarrow> 'w \<Rightarrow> pb_Merchant res \<times> 'w"
  gc_GetMerchantByApiKey :: "string \<Rightarrow> 'w \<Rightarrow> pb_Merchant res \<times> 'w"
  gc_CreateConsent :: "CreateConsentRequest \<Rightarrow> 'w \<Rightarrow> Consent res \<times> 'w"
  gc_GetConsent :: "GetConsentRequest \<Rightarrow> 'w \<Rightarrow> Consent res \<times> 'w"
  gc_RevokeConsent :: "RevokeConsentRequest \<Rightarrow> 'w \<Rightarrow> Consent res \<times> 'w"
  gc_ListConsents :: "ListConsentsRequest \<Rightarrow> 'w \<Rightarrow> ListConsentsResponse res \<times> 'w"
  gc_InitiatePayment :: "InitiatePaymentRequest \<Rightarrow> 'w \<Rightarrow> pb_Payment res \<times> 'w"
  gc_GetPayment :: "GetPaymentRequest \<Rightarrow> 'w \<Rightarrow> pb_Payment res \<times> 'w"
  gc_RetryPayment :: "RetryPaymentRequest \<Rightarrow> 'w \<Rightarrow> pb_Payment res \<times> 'w"

record 'w Handlers =
  hs_Tokens :: TokenService
  hs_clients :: "'w gw_clients"
  hs_jwt :: jwt_lib
  hs_time :: time_lib

text \<open>A client call: its reply is turned into a response, its error by \<open>mapGRPCError\<close>.\<close>

definition client_call :: "('w \<Rightarrow> 'a res \<times> 'w) \<Rightarrow> ('a \<Rightarrow> 'w gateway \<Rightarrow> http_response \<times> 'w gateway) \<Rightarrow> 'w http_handler" where
  "client_call f reply hdr r g =
     (case f (gw_services g) of
        (Inl err, w) \<Rightarrow> (mapGRPCError hdr r err, g\<lparr>gw_services := w\<rparr>)
      | (Inr x, w) \<Rightarrow> reply x (g\<lparr>gw_services := w\<rparr>))"

definition bad_request :: "string \<Rightarrow> 'w http_handler" where
  "bad_request msg hdr r g = (writeError hdr r 400 ''VALIDATION_ERROR'' msg, g)"

section \<open>Middleware\<close>

definition RequestIDMiddleware :: "'w http_handler \<Rightarrow> 'w http_handler" where
  "RequestIDMiddleware next hdr r g =
     (let h = rq_Header r ''X-Request-Id'';
          (i, g1) = (if h = [] then (case fresh_uuid g of (u, g') \<Rightarrow> (uc_String (codec g) u, g')) else (h, g))
      in next (header_Set ''X-Request-Id'' i hdr) (r\<lparr>rq_Context := (rq_Context r)\<lparr>cx_RequestID := Some i\<rparr>\<rparr>) g1)"

definition unauthorized :: "string \<Rightarrow> 'w http_handler" where
  "unauthorized msg hdr r g = (writeError hdr r 401 ''UNAUTHORIZED'' msg, g)"

definition AuthMiddleware :: "jwt_lib \<Rightarrow> TokenService \<Rightarrow> 'w http_handler \<Rightarrow> 'w http_handler" where
  "AuthMiddleware jl tokens next hdr r g =
     (let h = rq_Header r ''Authorization'' in
      if h = [] \<or> take 7 (ToLower h) \<noteq> ''bearer '' then unauthorized ''missing or invalid Authorization header'' hdr r g
      else
        (let raw = TrimSpace (drop 7 h) in
         if raw = [] then unauthorized ''missing bearer token'' hdr r g
         else case token_Parse jl tokens (now g) raw of
                Inl err \<Rightarrow> unauthorized ''invalid token'' hdr r g
              | Inr claims \<Rightarrow>
                  if cl_MerchantID claims = [] then unauthorized ''token missing merchant_id'' hdr r g
                  else next hdr (r\<lparr>rq_Context := (rq_Context r)\<lparr>cx_MerchantID := Some (cl_MerchantID claims)\<rparr>\<rparr>) g))"

definition rate_key :: "string \<Rightarrow> int \<Rightarrow> string" where
  "rate_key merchantID window = ''ratelimit:'' @ merchantID @ '':'' @ Itoa window"

definition live_count :: "string \<Rightarrow> 'w gateway \<Rightarrow> (int \<times> int option) option" where
  "live_count key g =
     (case gw_counters g key of
        Some (n, Some e) \<Rightarrow> if now g < e then Some (n, Some e) else None
      | x \<Rightarrow> x)"

definition rateLimitLua :: "string \<Rightarrow> 'w gateway \<Rightarrow> int res \<times> 'w gateway" where
  "rateLimitLua key g =
     (case live_count key g of
        None \<Rightarrow> (Inr 1, g\<lparr>gw_counters := (gw_counters g)(key \<mapsto> (1, Some (now g + 2 * 10 ^ 9)))\<rparr>)
      | Some (n, e) \<Rightarrow>
          if n = 2 ^ 63 - 1 then (Inl (OtherError ''ERR increment or decrement would overflow'' None), g)
          else (Inr (n + 1), g\<lparr>gw_counters := (gw_counters g)(key \<mapsto> (n + 1, if n + 1 = 1 then Some (now g + 2 * 10 ^ 9) else e))\<rparr>))"

definition rate_limit :: "int \<Rightarrow> int" where
  "rate_limit limitPerSec = (if limitPerSec \<le> 0 then 100 else limitPerSec)"

definition RateLimitMiddleware :: "int \<Rightarrow> 'w http_handler \<Rightarrow> 'w http_handler" where
  "RateLimitMiddleware limitPerSec next hdr r g =
     (if \<not> gw_rdb g then next hdr r g
      else
        (let merchantID = MerchantIDFrom (rq_Context r) in
         if merchantID = [] then next hdr r g
         else
           (case pool_call (rateLimitLua (rate_key merchantID (now g div 10 ^ 9))) g of
              (Inl err, g1) \<Rightarrow> next hdr r g1
            | (Inr n, g1) \<Rightarrow>
                if n > rate_limit limitPerSec
                then (writeError (header_Set ''Retry-After'' ''1'' hdr) r 429 ''RATE_LIMITED'' ''rate limit exceeded'', g1)
                else next hdr r g1)))"

section \<open>Handlers\<close>

definition hd_IssueToken :: "'w Handlers \<Rightarrow> 'w http_handler" where
  "hd_IssueToken h hdr r g =
     (case decodeJSON token_fields (rq_Body r) \<lparr>tq_APIKey = []\<rparr> of
        (req, ok) \<Rightarrow>
          if \<not> ok then bad_request ''invalid JSON body'' hdr r g
          else if TrimSpace (tq_APIKey req) = [] then bad_request ''api_key is required'' hdr r g
          else client_call (gc_GetMerchantByApiKey (hs_clients h) (tq_APIKey req)) (\<lambda>m g1.
            if pm_Status m = ''SUSPENDED'' then (writeError hdr r 403 ''MERCHANT_SUSPENDED'' ''merchant is suspended'', g1)
            else case token_Issue (hs_jwt h) (hs_Tokens h) (pm_Id m) g1 of
                   (Inl err, g2) \<Rightarrow> (writeError hdr r 500 ''INTERNAL_ERROR'' ''failed to issue token'', g2)
                 | (Inr (tok, e), g2) \<Rightarrow>
                     (gw_writeJSON hdr 200 (B_Token \<lparr>tr_Token = tok, tr_ExpiresAt = tl_Format (hs_time h) e\<rparr>), g2))
            hdr r g)"

definition hd_RegisterMerchant :: "'w Handlers \<Rightarrow> 'w http_handler" where
  "hd_RegisterMerchant h hdr r g =
     (case decodeJSON register_fields (rq_Body r) \<lparr>hg_Name = [], hg_WebhookURL = [], hg_ContactEmail = []\<rparr> of
        (req, ok) \<Rightarrow>
          if \<not> ok then bad_request ''invalid JSON body'' hdr r g
          else if TrimSpace (hg_Name req) = [] \<or> TrimSpace (hg_WebhookURL req) = [] \<or> TrimSpace (hg_ContactEmail req) = []
            then bad_request ''name, webhook_url, and contact_email are required'' hdr r g
          else client_call (gc_RegisterMerchant (hs_clients h)
              \<lparr>rmr_Name = hg_Name req, rmr_WebhookUrl = hg_WebhookURL req, rmr_ContactEmail = hg_ContactEmail req\<rparr>)
            (\<lambda>resp g1. (gw_writeJSON hdr 201 (B_Registered \<lparr>hgr_Merchant = merchantFromProto (hs_time h) (rms_Merchant resp),
                           hgr_APIKey = rms_ApiKey resp\<rparr>), g1)) hdr r g)"

definition hd_GetMerchant :: "'w Handlers \<Rightarrow> 'w http_handler" where
  "hd_GetMerchant h hdr r g =
     (let i = cx_URLParam (rq_Context r) ''id'' in
      if i \<noteq> MerchantIDFrom (rq_Context r) then (writeError hdr r 403 ''FORBIDDEN'' ''cannot access another merchant'', g)
      else client_call (gc_GetMerchant (hs_clients h) i)
             (\<lambda>m g1. (gw_writeJSON hdr 200 (B_Merchant (merchantFromProto (hs_time h) m)), g1)) hdr r g)"

definition hd_CreateConsent :: "'w Handlers \<Rightarrow> 'w http_handler" where
  "hd_CreateConsent h hdr r g =
     (case decodeJSON consent_fields (rq_Body r) \<lparr>hc_ConsumerID = [], hc_BankConsentRef = [], hc_MaxPerTransaction = no_money,
             hc_MaxPerMonth = no_money, hc_ValidUntil = []\<rparr> of
        (req, ok) \<Rightarrow>
          if \<not> ok then bad_request ''invalid JSON body'' hdr r g
          else if hc_ConsumerID req = [] \<or> hc_BankConsentRef req = []
            then bad_request ''consumer_id and bank_consent_ref are required'' hdr r g
          else if hm_AmountPence (hc_MaxPerTransaction req) \<le> 0 \<or> hm_AmountPence (hc_MaxPerMonth req) \<le> 0
            then bad_request ''max_per_transaction and max_per_month must be positive'' hdr r g
          else case parseTime (hs_time h) (hc_ValidUntil req) of
                 Inr (Some validUntil) \<Rightarrow>
                   client_call (gc_CreateConsent (hs_clients h)
                       \<lparr>ccr_MerchantId = MerchantIDFrom (rq_Context r), ccr_ConsumerId = hc_ConsumerID req,
                        ccr_BankConsentRef = hc_BankConsentRef req,
                        ccr_MaxPerTransaction = Some (moneyToProto (hc_MaxPerTransaction req)),
                        ccr_MaxPerMonth = Some (moneyToProto (hc_MaxPerMonth req)), ccr_ValidUntil = Some validUntil\<rparr>)
                     (\<lambda>c g1. (gw_writeJSON hdr 201 (B_Consent (consentFromProto (hs_time h) c)), g1)) hdr r g
               | _ \<Rightarrow> bad_request ''valid_until must be RFC3339 timestamp'' hdr r g)"

definition hd_GetConsent :: "'w Handlers \<Rightarrow> 'w http_handler" where
  "hd_GetConsent h hdr r g =
     client_call (gc_GetConsent (hs_clients h)
         \<lparr>gcr_ConsentId = cx_URLParam (rq_Context r) ''id'', gcr_MerchantId = MerchantIDFrom (rq_Context r)\<rparr>)
       (\<lambda>c g1. (gw_writeJSON hdr 200 (B_Consent (consentFromProto (hs_time h) c)), g1)) hdr r g"

definition hd_RevokeConsent :: "'w Handlers \<Rightarrow> 'w http_handler" where
  "hd_RevokeConsent h hdr r g =
     (let req = fst (decodeJSON revoke_fields (rq_Body r) \<lparr>hv_Reason = []\<rparr>);
          reason = (if hv_Reason req = [] then ''MERCHANT_REQUEST'' else hv_Reason req)
      in client_call (gc_RevokeConsent (hs_clients h)
             \<lparr>rcr_ConsentId = cx_URLParam (rq_Context r) ''id'', rcr_MerchantId = MerchantIDFrom (rq_Context r), rcr_Reason = reason\<rparr>)
           (\<lambda>c g1. (gw_writeJSON hdr 200 (B_Consent (consentFromProto (hs_time h) c)), g1)) hdr r g)"

text \<open>The page size of a listing, \<open>None\<close> when it is refused.\<close>

definition page_size_param :: "string \<Rightarrow> int option" where
  "page_size_param v =
     (if v = [] then Some 20
      else case Atoi v of
             None \<Rightarrow> None
           | Some n \<Rightarrow> if n \<le> 0 \<or> n > 100 then None else Some (wrap32 n))"

definition hd_ListConsents :: "'w Handlers \<Rightarrow> 'w http_handler" where
  "hd_ListConsents h hdr r g =
     (let q = rq_Query r in
      if q ''consumer_id'' = [] then bad_request ''consumer_id query param is required'' hdr r g
      else case page_size_param (q ''page_size'') of
             None \<Rightarrow> bad_request ''page_size must be 1-100'' hdr r g
           | Some pageSize \<Rightarrow>
               client_call (gc_ListConsents (hs_clients h)
                   \<lparr>lcr_ConsumerId = q ''consumer_id'', lcr_MerchantId = MerchantIDFrom (rq_Context r),
                    lcr_Status = parseConsentStatus (q ''status''),
                    lcr_Page = Some \<lparr>pg_PageSize = pageSize, pg_PageToken = q ''page_token''\<rparr>\<rparr>)
                 (\<lambda>resp g1. (gw_writeJSON hdr 200 (B_Consents
                     \<lparr>hl_Consents = map (consentFromProto (hs_time h)) (lcs_Consents resp),
                      hl_NextPageToken = pr_NextPageToken (lcs_Page resp), hl_TotalCount = pr_TotalCount (lcs_Page resp)\<rparr>), g1))
                 hdr r g)"

definition hd_InitiatePayment :: "'w Handlers \<Rightarrow> 'w http_handler" where
  "hd_InitiatePayment h hdr r g =
     (let idemKey = TrimSpace (rq_Header r ''Idempotency-Key'') in
      if idemKey = [] then bad_request ''Idempotency-Key header is required'' hdr r g
      else if length idemKey > 128 then bad_request ''Idempotency-Key max length is 128'' hdr r g
      else case decodeJSON payment_fields (rq_Body r) \<lparr>hp_ConsentID = [], hp_Amount = no_money, hp_Description = []\<rparr> of
        (req, ok) \<Rightarrow>
          if \<not> ok then bad_request ''invalid JSON body'' hdr r g
          else if hp_ConsentID req = [] then bad_request ''consent_id is required'' hdr r g
          else if hm_AmountPence (hp_Amount req) \<le> 0 \<or> hm_Currency (hp_Amount req) = []
            then bad_request ''amount.amount_pence and amount.currency are required'' hdr r g
          else client_call (gc_InitiatePayment (hs_clients h)
              \<lparr>ipr_IdempotencyKey = idemKey, ipr_MerchantId = MerchantIDFrom (rq_Context r),
               ipr_ConsentId = hp_ConsentID req, ipr_Amount = Some (moneyToProto (hp_Amount req)),
               ipr_Description = hp_Description req\<rparr>)
            (\<lambda>p g1.
               let body = B_Payment (paymentFromProto (hs_time h) p) in
               case pp_Status p of
                 Pay_SETTLED \<Rightarrow> (gw_writeJSON hdr 201 body, g1)
               | Pay_FAILED \<Rightarrow> (gw_writeJSON hdr 422 body, g1)
               | _ \<Rightarrow> (gw_writeJSON (header_Set ''Retry-After'' ''2'' (header_Set ''Location'' (''/v1/payments/'' @ pp_Id p) hdr)) 202 body, g1))
            hdr r g)"

definition hd_GetPayment :: "'w Handlers \<Rightarrow> 'w http_handler" where
  "hd_GetPayment h hdr r g =
     client_call (gc_GetPayment (hs_clients h)
         \<lparr>gpr_PaymentId = cx_URLParam (rq_Context r) ''id'', gpr_MerchantId = MerchantIDFrom (rq_Context r)\<rparr>)
       (\<lambda>p g1. (gw_writeJSON hdr 200 (B_Payment (paymentFromProto (hs_time h) p)), g1)) hdr r g"

definition hd_RetryPayment :: "'w Handlers \<Rightarrow> 'w http_handler" where
  "hd_RetryPayment h hdr r g =
     client_call (gc_RetryPayment (hs_clients h)
         \<lparr>rpr_PaymentId = cx_URLParam (rq_Context r) ''id'', rpr_MerchantId = MerchantIDFrom (rq_Context r)\<rparr>)
       (\<lambda>p g1.
          let body = B_Payment (paymentFromProto (hs_time h) p) in
          case pp_Status p of
            Pay_SETTLED \<Rightarrow> (gw_writeJSON hdr 200 body, g1)
          | Pay_FAILED \<Rightarrow> (gw_writeJSON hdr 422 body, g1)
          | _ \<Rightarrow> (gw_writeJSON hdr 202 body, g1)) hdr r g"

definition hd_Live :: "'w http_handler" where
  "hd_Live hdr r g = (gw_writeJSON hdr 200 (B_Health ''ok''), g)"

definition hd_Ready :: "'w http_handler" where
  "hd_Ready hdr r g = (gw_writeJSON hdr 200 (B_Health ''ready''), g)"

section \<open>The router\<close>

record chi_lib =
  ch_Match :: "string \<Rightarrow> string \<Rightarrow> (string \<Rightarrow> string) option"
  ch_NoRoute :: "http_request \<Rightarrow> http_response"

record 'w RouterDeps =
  rd_Handlers :: "'w Handlers"
  rd_Tokens :: TokenService
  rd_RateLimitRPS :: int

type_synonym 'w route = "string \<times> string \<times> 'w http_handler"

definition public_routes :: "'w Handlers \<Rightarrow> 'w route list" where
  "public_routes h =
     [(''GET'', ''/healthz/live'', hd_Live), (''GET'', ''/healthz/ready'', hd_Ready),
      (''POST'', ''/v1/auth/token'', hd_IssueToken h), (''POST'', ''/v1/merchants'', hd_RegisterMerchant h)]"

definition private_routes :: "'w Handlers \<Rightarrow> 'w route list" where
  "private_routes h =
     [(''GET'', ''/v1/merchants/{id}'', hd_GetMerchant h),
      (''POST'', ''/v1/consents'', hd_CreateConsent h), (''GET'', ''/v1/consents'', hd_ListConsents h),
      (''GET'', ''/v1/consents/{id}'', hd_GetConsent h), (''DELETE'', ''/v1/consents/{id}'', hd_RevokeConsent h),
      (''POST'', ''/v1/payments'', hd_InitiatePayment h), (''GET'', ''/v1/payments/{id}'', hd_GetPayment h),
      (''POST'', ''/v1/payments/{id}/retry'', hd_RetryPayment h)]"

fun find_route :: "chi_lib \<Rightarrow> http_request \<Rightarrow> 'w route list \<Rightarrow> ((string \<Rightarrow> string) \<times> 'w http_handler) option" where
  "find_route chi r [] = None"
| "find_route chi r ((m, pat, hf) # rs) =
     (case (if rq_Method r = m then ch_Match chi pat (rq_Path r) else None) of
        Some ps \<Rightarrow> Some (ps, hf)
      | None \<Rightarrow> find_route chi r rs)"

definition with_auth :: "'w RouterDeps \<Rightarrow> 'w route \<Rightarrow> 'w route" where
  "with_auth d = (\<lambda>(m, pat, hf). (m, pat, AuthMiddleware (hs_jwt (rd_Handlers d)) (rd_Tokens d)
                                             (RateLimitMiddleware (rd_RateLimitRPS d) hf)))"

definition dispatch :: "chi_lib \<Rightarrow> 'w route list \<Rightarrow> 'w http_handler" where
  "dispatch chi rs hdr r g =
     (case find_route chi r rs of
        None \<Rightarrow> (ch_NoRoute chi r, g)
      | Some (ps, hf) \<Rightarrow> hf hdr (r\<lparr>rq_Context := (rq_Context r)\<lparr>cx_URLParam := ps\<rparr>\<rparr>) g)"

definition NewRouter :: "chi_lib \<Rightarrow> 'w RouterDeps \<Rightarrow> 'w http_handler" where
  "NewRouter chi d =
     RequestIDMiddleware (dispatch chi (RegisterSwaggerRoutes @ public_routes (rd_Handlers d) @ map (with_auth d) (private_routes (rd_Handlers d))))"

end
