(* ===== verification/Gateway_Platform.thy ===== *)
theory Gateway_Platform
  imports Gateway Platform Merchant_Correct
begin

text \<open>
  The gateway in front of the platform (\<open>services/gateway/cmd/main.go\<close> dials the merchant, consent and payment services).
  \<^item> \<open>gw_world\<close> is the state behind the gateway; a call of the gateway takes one entry of \<open>gv_rpc\<close>, as the calls between
    the services do.
  \<^item> The locale \<open>tenant_services\<close> is what the gateway relies on to keep merchants apart: a service that is given the
    id of a merchant answers with that merchant's data only. Its lemmas carry this through the handlers, the
    middleware and the router; the interpretation \<open>gv\<close> discharges it on the definitions of the services.
\<close>

section \<open>The wiring\<close>

record 'c gw_world =
  gv_platform :: "'c platform"
  gv_merchants :: merchant_db
  gv_rpc :: "rpc_fault option list"

definition gv_call :: "('c gw_world \<Rightarrow> 'a res \<times> 'c gw_world) \<Rightarrow> 'c gw_world \<Rightarrow> 'a res \<times> 'c gw_world" where
  "gv_call f v =
     (case gv_rpc v of
        [] \<Rightarrow> f v
      | None # xs \<Rightarrow> f (v\<lparr>gv_rpc := xs\<rparr>)
      | Some (request_lost e) # xs \<Rightarrow> (Inl e, v\<lparr>gv_rpc := xs\<rparr>)
      | Some (response_lost e) # xs \<Rightarrow> (Inl e, snd (f (v\<lparr>gv_rpc := xs\<rparr>))))"

definition on_platform :: "('c platform \<Rightarrow> 'a \<times> 'c platform) \<Rightarrow> 'c gw_world \<Rightarrow> 'a \<times> 'c gw_world" where
  "on_platform f v = (case f (gv_platform v) of (r, w) \<Rightarrow> (r, v\<lparr>gv_platform := w\<rparr>))"

definition on_merchants :: "(merchant_db \<Rightarrow> 'a \<times> merchant_db) \<Rightarrow> 'c gw_world \<Rightarrow> 'a \<times> 'c gw_world" where
  "on_merchants f v = (case f (gv_merchants v) of (r, s) \<Rightarrow> (r, v\<lparr>gv_merchants := s\<rparr>))"

definition pay_handler :: "'c bank_lib \<Rightarrow> uuid_codec \<Rightarrow> 'c platform Handler" where
  "pay_handler lib cdc =
     \<lparr>h_orch = platform_orc lib cdc, h_GetByID = (\<lambda>i. on_pay (GetByID i)),
      h_GetByIDAndMerchant = (\<lambda>i m. on_pay (GetByIDAndMerchant i m))\<rparr>"

definition platform_clients :: "bcrypt_lib \<Rightarrow> 'c bank_lib \<Rightarrow> uuid_codec \<Rightarrow> 'c gw_world gw_clients" where
  "platform_clients bc lib cdc =
     \<lparr>gc_RegisterMerchant = (\<lambda>rq. gv_call (on_merchants (rpc_RegisterMerchant bc rq))),
      gc_GetMerchant = (\<lambda>m. gv_call (on_merchants (rpc_GetMerchant m))),
      gc_GetMerchantByApiKey = (\<lambda>k. gv_call (on_merchants (rpc_GetMerchantByApiKey bc k))),
      gc_CreateConsent = (\<lambda>rq. gv_call (on_platform (on_con (rpc_CreateConsent rq)))),
      gc_GetConsent = (\<lambda>rq. gv_call (on_platform (on_con (rpc_GetConsent rq)))),
      gc_RevokeConsent = (\<lambda>rq. gv_call (on_platform (on_con (rpc_RevokeConsent rq)))),
      gc_ListConsents = (\<lambda>rq. gv_call (on_platform (on_con (rpc_ListConsents rq)))),
      gc_InitiatePayment = (\<lambda>rq. gv_call (on_platform (rpc_InitiatePayment (pay_handler lib cdc) (Some rq)))),
      gc_GetPayment = (\<lambda>rq. gv_call (on_platform (rpc_GetPayment (pay_handler lib cdc) (Some rq)))),
      gc_RetryPayment = (\<lambda>rq. gv_call (on_platform (rpc_RetryPayment (pay_handler lib cdc) (Some rq))))\<rparr>"

section \<open>Merchants kept apart\<close>

definition body_merchants :: "http_body \<Rightarrow> string set" where
  "body_merchants b =
     (case b of
        B_Registered x \<Rightarrow> {mr_ID (hgr_Merchant x)}
      | B_Merchant x \<Rightarrow> {mr_ID x}
      | B_Consent c \<Rightarrow> {cp_MerchantID c}
      | B_Consents l \<Rightarrow> cp_MerchantID ` set (hl_Consents l)
      | B_Payment p \<Rightarrow> {pq_MerchantID p}
      | _ \<Rightarrow> {})"

definition shows_only :: "string \<Rightarrow> http_response \<Rightarrow> bool" where
  "shows_only m resp \<longleftrightarrow> body_merchants (hr_Body resp) \<subseteq> {m}"

lemma shows_only_error [simp]: "shows_only m (writeError hdr r st c msg)"
  by (simp add: shows_only_def writeError_def gw_writeJSON_def body_merchants_def)

lemma shows_only_grpc [simp]: "shows_only m (mapGRPCError hdr r err)"
  by (auto simp: mapGRPCError_def status_response_def Let_def split: option.splits grpc_code.splits)

lemma shows_only_json [simp]:
  "shows_only m (gw_writeJSON hdr st (B_Merchant (merchantFromProto tm x))) \<longleftrightarrow> pm_Id x = m"
  "shows_only m (gw_writeJSON hdr st (B_Consent (consentFromProto tm c))) \<longleftrightarrow> cn_MerchantId c = m"
  "shows_only m (gw_writeJSON hdr st (B_Consents \<lparr>hl_Consents = map (consentFromProto tm) cs, hl_NextPageToken = t, hl_TotalCount = n\<rparr>)) \<longleftrightarrow>
     cn_MerchantId ` set cs \<subseteq> {m}"
  "shows_only m (gw_writeJSON hdr st (B_Payment (paymentFromProto tm p))) \<longleftrightarrow> pp_MerchantId p = m"
  by (simp_all add: shows_only_def gw_writeJSON_def body_merchants_def merchantFromProto_def consentFromProto_def
        paymentFromProto_def image_image)

lemma shows_only_call:
  assumes "\<And>x w. f (gw_services g) = (Inr x, w) \<Longrightarrow> shows_only m (fst (reply x (g\<lparr>gw_services := w\<rparr>)))"
  shows "shows_only m (fst (client_call f reply hdr r g))"
  using assms by (simp add: client_call_def split: prod.split sum.split)

lemma shows_only_bad [simp]: "shows_only m (fst (bad_request msg hdr r g))"
  by (simp add: bad_request_def)

text \<open>The routes whose replies are the data of the caller: all but the two that start a saga.\<close>

definition owned_routes :: "'w Handlers \<Rightarrow> 'w http_handler set" where
  "owned_routes h = {hd_GetMerchant h, hd_CreateConsent h, hd_ListConsents h, hd_GetConsent h, hd_RevokeConsent h, hd_GetPayment h}"

text \<open>The token of a request, if it is valid, is one of the merchant \<open>m\<close>.\<close>

definition bearer_of :: "'w RouterDeps \<Rightarrow> string \<Rightarrow> http_request \<Rightarrow> int \<Rightarrow> bool" where
  "bearer_of d m r t \<longleftrightarrow>
     (case token_Parse (hs_jwt (rd_Handlers d)) (rd_Tokens d) t (TrimSpace (drop 7 (rq_Header r ''Authorization''))) of
        Inl _ \<Rightarrow> True | Inr c \<Rightarrow> cl_MerchantID c = m)"

lemma find_route_in: "find_route chi r rs = Some (ps, hf) \<Longrightarrow> \<exists>pat. (rq_Method r, pat, hf) \<in> set rs"
  by (induction chi r rs rule: find_route.induct) (auto split: option.splits if_splits)

lemma rate_limit_next:
  assumes "RateLimitMiddleware limit hf hdr r g = (resp, g')"
  obtains (refused) "resp = writeError (header_Set ''Retry-After'' ''1'' hdr) r 429 ''RATE_LIMITED'' ''rate limit exceeded''"
        | (passed) g1 where "hf hdr r g1 = (resp, g')" "gw_services g1 = gw_services g"
proof (cases "\<not> gw_rdb g \<or> MerchantIDFrom (rq_Context r) = []")
  case True
  with assms show thesis by (intro passed [of g]) (auto simp: RateLimitMiddleware_def Let_def split: if_splits)
next
  case False
  let ?f = "rateLimitLua (rate_key (MerchantIDFrom (rq_Context r)) (now g div 10 ^ 9))"
  obtain q g1 where q: "pool_call ?f g = (q, g1)" by fastforce
  have keep: "gw_services (snd (rateLimitLua k x)) = gw_services x" for k and x :: "'a gateway"
    by (simp add: rateLimitLua_def split: option.split prod.split)
  from q have "gw_services g1 = gw_services g"
  proof (cases rule: pool_call_cases)
    case (fault e)
    then show ?thesis by (auto elim!: env_onlyE)
  next
    case (run s0)
    then show ?thesis using keep [of _ s0] by (metis env_onlyE snd_conv gateway.select_convs(3) gateway.surjective env.update_convs(2,3,5))
  qed
  with assms False q that show thesis
    by (cases q) (auto simp: RateLimitMiddleware_def Let_def split: if_splits)
qed

locale tenant_services =
  fixes cl :: "'w gw_clients" and sane :: "'w \<Rightarrow> bool" and ident :: "string \<Rightarrow> bool"
  assumes merchant_own: "sane w \<Longrightarrow> ident m \<Longrightarrow> gc_GetMerchant cl m w = (Inr x, w') \<Longrightarrow> pm_Id x = m"
    and create_own: "sane w \<Longrightarrow> ident (ccr_MerchantId cq) \<Longrightarrow> gc_CreateConsent cl cq w = (Inr c, w') \<Longrightarrow>
          cn_MerchantId c = ccr_MerchantId cq"
    and consent_own: "sane w \<Longrightarrow> ident (gcr_MerchantId gq) \<Longrightarrow> gc_GetConsent cl gq w = (Inr c, w') \<Longrightarrow>
          cn_MerchantId c = gcr_MerchantId gq"
    and revoke_own: "sane w \<Longrightarrow> ident (rcr_MerchantId vq) \<Longrightarrow> gc_RevokeConsent cl vq w = (Inr c, w') \<Longrightarrow>
          cn_MerchantId c = rcr_MerchantId vq"
    and list_own: "sane w \<Longrightarrow> ident (lcr_MerchantId lq) \<Longrightarrow> gc_ListConsents cl lq w = (Inr l, w') \<Longrightarrow>
          cn_MerchantId ` set (lcs_Consents l) \<subseteq> {lcr_MerchantId lq}"
    and payment_own: "sane w \<Longrightarrow> ident (gpr_MerchantId pq) \<Longrightarrow> gc_GetPayment cl pq w = (Inr p, w') \<Longrightarrow>
          pp_MerchantId p = gpr_MerchantId pq"
begin

lemma handler_own:
  assumes "hs_clients h = cl" and "hf \<in> owned_routes h" and "sane (gw_services g)" and "ident m"
    and "MerchantIDFrom (rq_Context r) = m"
  shows "shows_only m (fst (hf hdr r g))"
proof -
  note own = merchant_own [OF assms(3), rotated, folded assms(1)] create_own [OF assms(3), rotated, folded assms(1)]
    consent_own [OF assms(3), rotated, folded assms(1)] revoke_own [OF assms(3), rotated, folded assms(1)]
    list_own [OF assms(3), rotated, folded assms(1)] payment_own [OF assms(3), rotated, folded assms(1)]
  have "shows_only m (fst (hd_GetMerchant h hdr r g))" "shows_only m (fst (hd_GetConsent h hdr r g))"
    "shows_only m (fst (hd_RevokeConsent h hdr r g))" "shows_only m (fst (hd_GetPayment h hdr r g))"
    using assms(4,5)
    by (auto simp: hd_GetMerchant_def hd_GetConsent_def hd_RevokeConsent_def hd_GetPayment_def Let_def
          intro!: shows_only_call dest!: own)
  moreover have "shows_only m (fst (hd_CreateConsent h hdr r g))"
    using assms(4,5)
    by (auto simp: hd_CreateConsent_def Let_def intro!: shows_only_call dest!: own split: prod.split sum.split option.split)
  moreover have "shows_only m (fst (hd_ListConsents h hdr r g))"
    using assms(4,5)
    by (auto simp: hd_ListConsents_def Let_def intro!: shows_only_call dest!: own split: option.split)
  ultimately show ?thesis using assms(2) by (auto simp: owned_routes_def)
qed

lemma guarded_own:
  assumes "hs_clients (rd_Handlers d) = cl" and "hf \<in> owned_routes (rd_Handlers d)" and "sane (gw_services g)" and "ident m"
    and "bearer_of d m r (now g)" and "with_auth d (x, y, hf) = (x, y, gf)"
  shows "shows_only m (fst (gf hdr r g))"
proof -
  let ?r = "r\<lparr>rq_Context := (rq_Context r)\<lparr>cx_MerchantID := Some m\<rparr>\<rparr>"
  have "shows_only m (fst (RateLimitMiddleware (rd_RateLimitRPS d) hf hdr ?r g))"
  proof -
    obtain resp g' where eq: "RateLimitMiddleware (rd_RateLimitRPS d) hf hdr ?r g = (resp, g')" by fastforce
    then show ?thesis
    proof (cases rule: rate_limit_next)
      case (passed g1)
      with handler_own [OF assms(1,2) _ assms(4), of g1 ?r hdr] assms(3) eq show ?thesis by (simp add: MerchantIDFrom_def)
    qed (simp add: eq)
  qed
  with assms(5,6) show ?thesis
    by (auto simp: with_auth_def AuthMiddleware_def unauthorized_def bearer_of_def Let_def split: sum.splits)
qed

lemma router_own:
  assumes "hs_clients (rd_Handlers d) = cl" and "sane (gw_services g)" and "ident m" and "bearer_of d m r (now g)"
    and "rq_Method r \<noteq> ''POST''"
    and "\<And>r'. shows_only m (ch_NoRoute chi r')"
  shows "shows_only m (fst (NewRouter chi d hdr r g))"
proof -
  let ?rs = "RegisterSwaggerRoutes @ public_routes (rd_Handlers d) @ map (with_auth d) (private_routes (rd_Handlers d))"
  have "shows_only m (fst (dispatch chi ?rs hdr' r' g'))"
    if r': "rq_Method r' = rq_Method r" "rq_Header r' = rq_Header r" and g': "gw_services g' = gw_services g" "now g' = now g" for hdr' r' g'
  proof (cases "find_route chi r' ?rs")
    case None
    then show ?thesis by (simp add: dispatch_def assms(6))
  next
    case (Some z)
    then obtain ps hf where z: "find_route chi r' ?rs = Some (ps, hf)" by (cases z) auto
    from find_route_in [OF z] obtain pat where "(rq_Method r', pat, hf) \<in> set ?rs" ..
    then consider "hf = ServeOpenAPISpec \<or> hf = ServeSwaggerUI" | "hf = hd_Live \<or> hf = hd_Ready"
      | k where "k \<in> owned_routes (rd_Handlers d)" "with_auth d (rq_Method r', pat, k) = (rq_Method r', pat, hf)"
      using assms(5) r'(1) by (auto simp: RegisterSwaggerRoutes_def public_routes_def private_routes_def owned_routes_def with_auth_def)
    then show ?thesis
    proof cases
      case 1
      with z show ?thesis
        by (auto simp: dispatch_def ServeOpenAPISpec_def ServeSwaggerUI_def serve_text_def shows_only_def body_merchants_def)
    next
      case 2
      with z show ?thesis
        by (auto simp: dispatch_def hd_Live_def hd_Ready_def shows_only_def gw_writeJSON_def body_merchants_def)
    next
      case 3
      have "bearer_of d m (r'\<lparr>rq_Context := c\<rparr>) (now g')" for c using assms(4) r'(2) g'(2) by (simp add: bearer_of_def)
      with 3 z assms(1-3) g'(1) show ?thesis by (simp add: dispatch_def guarded_own)
    qed
  qed
  then show ?thesis by (simp add: NewRouter_def RequestIDMiddleware_def Let_def fresh_uuid_def)
qed

end

section \<open>The services keep merchants apart\<close>

definition gv_sane :: "uuid_codec \<Rightarrow> 'c gw_world \<Rightarrow> bool" where
  "gv_sane cdc v \<longleftrightarrow> codec_ok cdc \<and> codec (pl_con (gv_platform v)) = cdc \<and> codec (gv_merchants v) = cdc"

definition merchant_text :: "uuid_codec \<Rightarrow> string \<Rightarrow> bool" where
  "merchant_text cdc m \<longleftrightarrow> TrimSpace m = m \<and> (case uc_Parse cdc m of Some u \<Rightarrow> uc_String cdc u = m | None \<Rightarrow> False)"

lemma merchant_textE:
  assumes "merchant_text cdc m" and "codec_ok cdc"
  obtains u where "m = uc_String cdc u" "uc_Parse cdc m = Some u" "uc_pg cdc m = Some u" "TrimSpace m = m" "m \<noteq> []"
  using assms by (auto simp: merchant_text_def codec_ok_def split: option.splits)

lemma gv_call_Inr:
  assumes "gv_call f v = (Inr x, v')"
  obtains xs where "f (v\<lparr>gv_rpc := xs\<rparr>) = (Inr x, v')"
proof (cases "gv_rpc v")
  case Nil
  then have "v\<lparr>gv_rpc := []\<rparr> = v" by (cases v) simp
  with assms Nil that [of "[]"] show thesis by (simp add: gv_call_def)
next
  case (Cons y ys)
  with assms that [of ys] show thesis by (auto simp: gv_call_def split: option.splits rpc_fault.splits)
qed

lemma on_merchants_Inr:
  assumes "gv_call (on_merchants f) v = (Inr x, v')" and "gv_sane cdc v"
  obtains s s' where "f s = (Inr x, s')" "codec s = cdc"
  using assms by (elim gv_call_Inr) (auto simp: on_merchants_def gv_sane_def split: prod.splits)

lemma on_consents_Inr:
  assumes "gv_call (on_platform (on_con f)) v = (Inr x, v')" and "gv_sane cdc v"
  obtains s s' where "f s = (Inr x, s')" "codec s = cdc"
  using assms by (elim gv_call_Inr) (auto simp: on_platform_def on_con_def gv_sane_def split: prod.splits)

lemma merchant_Get_own:
  assumes "rpc_GetMerchant m s = (Inr x, s')" and "codec s = cdc" and "merchant_text cdc m" and "codec_ok cdc"
  shows "pm_Id x = m"
proof -
  obtain u where u: "m = uc_String cdc u" "uc_pg cdc m = Some u" "TrimSpace m = m" using assms(3,4) by (elim merchant_textE)
  obtain y where y: "merchant_Get m s = (Inr y, s')" "x = toProtoMerchant y"
    using assms(1) by (auto simp: rpc_GetMerchant_def map_res_def rpc_result_def split: sum.splits prod.splits)
  let ?q = "with_uuid m (\<lambda>u s. (case row_by mt_id u (merchants s) of None \<Rightarrow> Inl ErrNoRows | Some t \<Rightarrow> Inr (scanMerchant (codec s) t), s))"
  have "pool_call ?q s = (Inr y, s')"
    using y(1) u(3) by (auto simp: merchant_Get_def repo_GetMerchantByID_def merchant_row_def Let_def split: if_splits sum.splits prod.splits)
  then show ?thesis
  proof (cases rule: pool_call_cases)
    case (run s0)
    have c: "codec s0 = cdc" using env_only_now [OF run(1)] assms(2) by simp
    from run(3) c u(2) obtain t where "row_by mt_id u (merchants s0) = Some t" "y = scanMerchant cdc t"
      by (auto simp: with_uuid_def split: option.splits)
    with row_by_SomeD y(2) u(1) show ?thesis by (fastforce simp: scanMerchant_def toProtoMerchant_def)
  qed simp
qed

lemma insert_consent_own: "insert_consent row s = (Inr x, s') \<Longrightarrow> cr_MerchantID x = cr_MerchantID row"
  by (auto simp: insert_consent_def with_uuid_def Let_def fresh_uuid_def split: option.splits if_splits)

lemma consent_Create_own:
  assumes "rpc_CreateConsent rq s = (Inr c, s')"
  shows "cn_MerchantId c = ccr_MerchantId rq"
proof -
  from assms obtain inp x where x: "svc_CreateConsent inp s = (Inr x, s')" "cn_MerchantId c = cr_MerchantID x"
      "ci_MerchantID inp = ccr_MerchantId rq"
    by (auto simp: rpc_CreateConsent_def proto_result_def toProtoConsent_def split: sum.splits prod.splits)
  then obtain s1 where i: "repo_InsertConsent (new_consent inp) s = (Inr x, s1)"
    by (auto simp: svc_CreateConsent_def split: option.splits sum.splits prod.splits)
  from i [unfolded repo_InsertConsent_def] have "cr_MerchantID x = ci_MerchantID inp"
  proof (cases rule: pool_call_cases)
    case (run s0)
    from insert_consent_own [OF run(3)] show ?thesis by (simp add: new_consent_def)
  qed simp
  with x show ?thesis by simp
qed

lemma consent_Get_own:
  assumes "rpc_GetConsent rq s = (Inr c, s')" and "gcr_MerchantId rq \<noteq> []"
  shows "cn_MerchantId c = gcr_MerchantId rq"
  using assms
  by (auto simp: rpc_GetConsent_def svc_GetConsent_def proto_result_def toProtoConsent_def
        split: sum.splits prod.splits option.splits if_splits)

lemma consent_Revoke_own:
  assumes "rpc_RevokeConsent rq s = (Inr c, s')" and "codec s = cdc" and "merchant_text cdc (rcr_MerchantId rq)" and "codec_ok cdc"
  shows "cn_MerchantId c = rcr_MerchantId rq"
proof -
  let ?m = "rcr_MerchantId rq"
  obtain u where u: "?m = uc_String cdc u" "uc_pg cdc ?m = Some u" "?m \<noteq> []" using assms(3,4) by (elim merchant_textE)
  obtain x where x: "svc_RevokeConsent (rcr_ConsentId rq) ?m (rcr_Reason rq) s = (Inr x, s')" "cn_MerchantId c = cr_MerchantID x"
    using assms(1) by (auto simp: rpc_RevokeConsent_def proto_result_def toProtoConsent_def split: sum.splits prod.splits)
  obtain q s1 where g: "repo_GetConsent (rcr_ConsentId rq) s = (q, s1)" by fastforce
  then have e1: "env_only s s1" unfolding repo_GetConsent_def by (rule read_pool [rotated]) simp
  have "cr_MerchantID x = ?m \<or> (\<exists>s2. repo_RevokeConsent (rcr_ConsentId rq) ?m s1 = (Inr x, s2))"
    using x(1) g u(3) by (auto simp: svc_RevokeConsent_def split: sum.splits prod.splits if_splits)
  moreover have "cr_MerchantID x = ?m" if r: "repo_RevokeConsent (rcr_ConsentId rq) ?m s1 = (Inr x, s2)" for s2
    using r u(3) unfolding repo_RevokeConsent_def
  proof (cases rule: pool_call_cases)
    case (run s0)
    have "codec s0 = cdc" using env_only_now [OF e1] env_only_now [OF run(1)] assms(2) by simp
    with run(3) u show ?thesis
      by (auto simp: with_uuid_def update_revoked_def scanConsent_def Let_def split: option.splits if_splits)
  qed simp
  ultimately show ?thesis using x(2) by auto
qed

lemma consent_List_own:
  assumes "rpc_ListConsents rq s = (Inr l, s')" and "codec s = cdc" and "merchant_text cdc (lcr_MerchantId rq)" and "codec_ok cdc"
  shows "cn_MerchantId ` set (lcs_Consents l) \<subseteq> {lcr_MerchantId rq}"
proof -
  let ?m = "lcr_MerchantId rq"
  obtain u where u: "?m = uc_String cdc u" "uc_pg cdc ?m = Some u" "?m \<noteq> []" using assms(3,4) by (elim merchant_textE)
  obtain rows cnt k j where r: "svc_ListConsents (lcr_ConsumerId rq) ?m (status_filter (lcr_Status rq)) k j s = (Inr (rows, cnt), s')"
      "cn_MerchantId ` set (lcs_Consents l) = cr_MerchantID ` set rows"
    using assms(1) by (auto simp: rpc_ListConsents_def toProtoConsent_def image_image Let_def split: sum.splits prod.splits)
  then obtain k' j' where "pool_call (list_query (lcr_ConsumerId rq) ?m (status_filter (lcr_Status rq)) k' j') s = (Inr (rows, cnt), s')"
    by (auto simp: svc_ListConsents_def repo_ListConsents_def Let_def split: sum.splits prod.splits)
  then have "cr_MerchantID ` set rows \<subseteq> {?m}"
  proof (cases rule: pool_call_cases)
    case (run s0)
    have "codec s0 = cdc" using env_only_now [OF run(1)] assms(2) by simp
    with run(3) u show ?thesis
      by (auto simp: list_query_def with_uuid_def list_page_def list_filter_def scanConsent_def Let_def
            dest!: in_set_takeD in_set_dropD split: if_splits)
  qed simp
  with r(2) show ?thesis by simp
qed

lemma payment_Get_own:
  assumes "rpc_GetPayment (pay_handler lib cdc) (Some rq) w = (Inr p, w')" and "merchant_text cdc (gpr_MerchantId rq)" and "codec_ok cdc"
  shows "pp_MerchantId p = gpr_MerchantId rq"
proof -
  let ?m = "gpr_MerchantId rq"
  obtain u where u: "?m = uc_String cdc u" "uc_Parse cdc ?m = Some u" "TrimSpace ?m = ?m" "?m \<noteq> []"
    using assms(2,3) by (elim merchant_textE)
  obtain x where x: "find_payment (pay_handler lib cdc) (gpr_PaymentId rq) ?m w = (Inr x, w')" "pp_MerchantId p = uc_String cdc (py_MerchantID x)"
    using assms(1) by (auto simp: rpc_GetPayment_def toProto_def pay_handler_def platform_orc_def split: sum.splits prod.splits)
  then have "py_MerchantID x = u" using u
    by (auto simp: find_payment_def grpc_err_def pay_handler_def platform_orc_def on_pay_def GetByIDAndMerchant_def rpc_result_def Let_def
          split: if_splits option.splits sum.splits prod.splits)
  with x(2) u(1) show ?thesis by simp
qed

interpretation gv: tenant_services "platform_clients bc lib cdc" "gv_sane cdc" "merchant_text cdc" for bc lib cdc
proof unfold_locales
  fix v v' :: "'a gw_world" and m x
  assume a: "gv_sane cdc v" "merchant_text cdc m" "gc_GetMerchant (platform_clients bc lib cdc) m v = (Inr x, v')"
  from a(3) have "gv_call (on_merchants (rpc_GetMerchant m)) v = (Inr x, v')" by (simp add: platform_clients_def)
  then obtain s s' where "rpc_GetMerchant m s = (Inr x, s')" "codec s = cdc" using a(1) by (rule on_merchants_Inr)
  with a(1,2) show "pm_Id x = m" using merchant_Get_own by (auto simp: gv_sane_def)
next
  fix v v' :: "'a gw_world" and rq c
  assume a: "gv_sane cdc v" "gc_CreateConsent (platform_clients bc lib cdc) rq v = (Inr c, v')"
  from a(2) have "gv_call (on_platform (on_con (rpc_CreateConsent rq))) v = (Inr c, v')" by (simp add: platform_clients_def)
  then show "cn_MerchantId c = ccr_MerchantId rq" using a(1) by (rule on_consents_Inr) (rule consent_Create_own)
next
  fix v v' :: "'a gw_world" and rq c
  assume a: "gv_sane cdc v" "merchant_text cdc (gcr_MerchantId rq)" "gc_GetConsent (platform_clients bc lib cdc) rq v = (Inr c, v')"
  have "gcr_MerchantId rq \<noteq> []" using a(1,2) by (auto simp: gv_sane_def elim: merchant_textE)
  moreover from a(3) have "gv_call (on_platform (on_con (rpc_GetConsent rq))) v = (Inr c, v')" by (simp add: platform_clients_def)
  then obtain s s' where "rpc_GetConsent rq s = (Inr c, s')" using a(1) by (rule on_consents_Inr)
  ultimately show "cn_MerchantId c = gcr_MerchantId rq" by (rule consent_Get_own [rotated])
next
  fix v v' :: "'a gw_world" and rq c
  assume a: "gv_sane cdc v" "merchant_text cdc (rcr_MerchantId rq)" "gc_RevokeConsent (platform_clients bc lib cdc) rq v = (Inr c, v')"
  from a(3) have "gv_call (on_platform (on_con (rpc_RevokeConsent rq))) v = (Inr c, v')" by (simp add: platform_clients_def)
  then obtain s s' where "rpc_RevokeConsent rq s = (Inr c, s')" "codec s = cdc" using a(1) by (rule on_consents_Inr)
  with a(1,2) show "cn_MerchantId c = rcr_MerchantId rq" using consent_Revoke_own by (auto simp: gv_sane_def)
next
  fix v v' :: "'a gw_world" and rq l
  assume a: "gv_sane cdc v" "merchant_text cdc (lcr_MerchantId rq)" "gc_ListConsents (platform_clients bc lib cdc) rq v = (Inr l, v')"
  from a(3) have "gv_call (on_platform (on_con (rpc_ListConsents rq))) v = (Inr l, v')" by (simp add: platform_clients_def)
  then obtain s s' where "rpc_ListConsents rq s = (Inr l, s')" "codec s = cdc" using a(1) by (rule on_consents_Inr)
  with a(1,2) show "cn_MerchantId ` set (lcs_Consents l) \<subseteq> {lcr_MerchantId rq}"
    using consent_List_own [of rq s l s' cdc] by (simp add: gv_sane_def)
next
  fix v v' :: "'a gw_world" and rq p
  assume a: "gv_sane cdc v" "merchant_text cdc (gpr_MerchantId rq)" "gc_GetPayment (platform_clients bc lib cdc) rq v = (Inr p, v')"
  from a(3) obtain xs where "on_platform (rpc_GetPayment (pay_handler lib cdc) (Some rq)) (v\<lparr>gv_rpc := xs\<rparr>) = (Inr p, v')"
    by (auto simp: platform_clients_def elim: gv_call_Inr)
  then obtain w w' where "rpc_GetPayment (pay_handler lib cdc) (Some rq) w = (Inr p, w')" by (auto simp: on_platform_def split: prod.splits)
  with a(1,2) show "pp_MerchantId p = gpr_MerchantId rq" using payment_Get_own by (auto simp: gv_sane_def)
qed

end
