(* ===== verification/Gateway_Correct.thy ===== *)
theory Gateway_Correct
  imports Gateway_Platform Platform_Correct
begin

text \<open>
  What the gateway guarantees: how errors of the services surface over HTTP, what a token is good for, that merchants
  read their own data only, that the rate limit is exact per second, and two ways in which a merchant reaches what
  belongs to another when it starts a payment.
\<close>

section \<open>Errors\<close>

lemma domain_status_range: "domain_status c \<in> {400, 404, 409, 422, 500, 503}"
  by (simp add: domain_status_def)

lemma domain_status_wire: "domain_status (wire_code c) = domain_status c"
  by (auto simp: domain_status_def wire_code_def is_precondition_code_def)

lemma status_response_range: "hr_Status (status_response hdr r c msg) \<in> {400, 401, 403, 404, 409, 422, 429, 500, 503}"
  by (cases c) (simp_all add: status_response_def writeError_def gw_writeJSON_def)

lemma mapGRPCError_range: "hr_Status (mapGRPCError hdr r err) \<in> {400, 401, 403, 404, 409, 422, 429, 500, 503}"
proof -
  obtain c m x where f: "FromGRPC err = DomainError c m x" using FromGRPC_domain by blast
  show ?thesis
    using f domain_status_range [of c] status_response_range
    by (auto simp: mapGRPCError_def writeError_def gw_writeJSON_def split: option.splits)
qed

lemma ToGRPC_internal:
  "as_domain e = Some (c, m, cause) \<Longrightarrow> wire_code c = CodeInternal \<Longrightarrow> ToGRPC e = StatusError codes_Internal m []"
  by (auto simp: ToGRPC_def wire_code_def is_precondition_code_def split: if_splits)


section \<open>Tokens\<close>

lemma jwt_okD:
  assumes "jwt_ok jl" and "jw_Sign jl method secret c = Inr tok" and "kf method = Inr secret"
  shows "(if t < cl_ExpiresAt c then jw_Parse jl t kf tok = Inr (c, True) else isl (jw_Parse jl t kf tok)) \<and>
        TrimSpace tok = tok \<and> tok \<noteq> []"
  using assms unfolding jwt_ok_def by blast

lemma token_Parse_issued:
  assumes "jwt_ok jl" and "token_Issue jl ts m s = (Inr (tok, e), s')"
  shows "e = now s + tk_ttl ts \<and> TrimSpace tok = tok \<and> tok \<noteq> [] \<and>
    (if t < NumericDate e then \<exists>c. token_Parse jl ts t tok = Inr c \<and> cl_MerchantID c = m else isl (token_Parse jl ts t tok))"
proof -
  obtain i s1 where u: "fresh_uuid s = (i, s1)" by fastforce
  let ?c = "\<lparr>cl_MerchantID = m, cl_ID = uc_String (codec s) i, cl_Subject = m,
              cl_ExpiresAt = NumericDate (now s + tk_ttl ts), cl_IssuedAt = NumericDate (now s)\<rparr>"
  let ?kf = "\<lambda>method. if method \<noteq> ''HS256'' then Inl (OtherError ''unexpected signing method'' None) else Inr (tk_secret ts)"
  have sg: "jw_Sign jl ''HS256'' (tk_secret ts) ?c = Inr tok" and e: "e = now s + tk_ttl ts"
    using assms(2) u by (auto simp: token_Issue_def Let_def split: sum.splits)
  have "(if t < cl_ExpiresAt ?c then jw_Parse jl t ?kf tok = Inr (?c, True) else isl (jw_Parse jl t ?kf tok)) \<and>
        TrimSpace tok = tok \<and> tok \<noteq> []"
    by (rule jwt_okD [OF assms(1) sg]) simp
  with e show ?thesis by (auto simp: token_Parse_def isl_def split: if_splits)
qed

lemma auth_bearer:
  assumes "rq_Header r ''Authorization'' = ''Bearer '' @ tok" and "TrimSpace tok = tok" and "tok \<noteq> []"
  shows "AuthMiddleware jl ts hf hdr r g =
    (case token_Parse jl ts (now g) tok of
       Inl _ \<Rightarrow> (writeError hdr r 401 ''UNAUTHORIZED'' ''invalid token'', g)
     | Inr c \<Rightarrow> if cl_MerchantID c = [] then (writeError hdr r 401 ''UNAUTHORIZED'' ''token missing merchant_id'', g)
               else hf hdr (r\<lparr>rq_Context := (rq_Context r)\<lparr>cx_MerchantID := Some (cl_MerchantID c)\<rparr>\<rparr>) g)"
proof -
  have "ToLower (''Bearer '' @ tok) = ToLower ''Bearer '' @ ToLower tok" by (simp add: ToLower_def)
  also have "ToLower ''Bearer '' = ''bearer ''" by code_simp
  finally have "take 7 (ToLower (''Bearer '' @ tok)) = ''bearer ''" by simp
  moreover have "TrimSpace (drop 7 (''Bearer '' @ tok)) = tok" using assms(2) by simp
  ultimately show ?thesis using assms by (simp add: AuthMiddleware_def unauthorized_def Let_def split: sum.split)
qed

text \<open>C31: a token is issued only for the key of a merchant that the merchant service knows and that is not suspended;
  presented as a bearer token it authenticates every request as that merchant until its expiry, rounded down to a
  second, whatever has happened to the merchant since; from then on the request is refused with 401.\<close>

theorem token_lifecycle:
  assumes "jwt_ok (hs_jwt h)" and "hd_IssueToken h hdr r g = (resp, g')" and "hr_Status resp = 200"
    and "decodeJSON token_fields (rq_Body r) \<lparr>tq_APIKey = []\<rparr> = (req, ok)"
  shows "\<exists>m w tok e. gc_GetMerchantByApiKey (hs_clients h) (tq_APIKey req) (gw_services g) = (Inr m, w) \<and>
    pm_Status m \<noteq> ''SUSPENDED'' \<and> hr_Body resp = B_Token \<lparr>tr_Token = tok, tr_ExpiresAt = tl_Format (hs_time h) e\<rparr> \<and>
    e = now g + tk_ttl (hs_Tokens h) \<and>
    (\<forall>hf hdr' r' (g2 :: 'v gateway). rq_Header r' ''Authorization'' = ''Bearer '' @ tok \<longrightarrow> pm_Id m \<noteq> [] \<longrightarrow>
       AuthMiddleware (hs_jwt h) (hs_Tokens h) hf hdr' r' g2 =
         (if now g2 < NumericDate e
          then hf hdr' (r'\<lparr>rq_Context := (rq_Context r')\<lparr>cx_MerchantID := Some (pm_Id m)\<rparr>\<rparr>) g2
          else (writeError hdr' r' 401 ''UNAUTHORIZED'' ''invalid token'', g2)))"
proof -
  let ?call = "gc_GetMerchantByApiKey (hs_clients h) (tq_APIKey req) (gw_services g)"
  have "hr_Status (mapGRPCError hdr r e) \<noteq> 200" for e using mapGRPCError_range [of hdr r e] by auto
  then obtain m w where m: "?call = (Inr m, w)" "ok" "TrimSpace (tq_APIKey req) \<noteq> []"
    using assms(2,3,4)
    by (cases ?call; cases "fst ?call")
       (auto simp: hd_IssueToken_def bad_request_def client_call_def writeError_def gw_writeJSON_def split: if_splits)
  let ?g1 = "g\<lparr>gw_services := w\<rparr>"
  obtain q g2 where q: "token_Issue (hs_jwt h) (hs_Tokens h) (pm_Id m) ?g1 = (q, g2)" by fastforce
  obtain tok e where t: "q = Inr (tok, e)" "pm_Status m \<noteq> ''SUSPENDED''"
      "hr_Body resp = B_Token \<lparr>tr_Token = tok, tr_ExpiresAt = tl_Format (hs_time h) e\<rparr>"
    using assms(2,3,4) m q
    by (cases q) (auto simp: hd_IssueToken_def client_call_def writeError_def gw_writeJSON_def split: if_splits)
  note tp = token_Parse_issued [OF assms(1) q [unfolded t(1)]]
  have "AuthMiddleware (hs_jwt h) (hs_Tokens h) hf hdr' r' g2 =
         (if now g2 < NumericDate e
          then hf hdr' (r'\<lparr>rq_Context := (rq_Context r')\<lparr>cx_MerchantID := Some (pm_Id m)\<rparr>\<rparr>) g2
          else (writeError hdr' r' 401 ''UNAUTHORIZED'' ''invalid token'', g2))"
    if a: "rq_Header r' ''Authorization'' = ''Bearer '' @ tok" and "pm_Id m \<noteq> []" for hf hdr' r' and g2 :: "'v gateway"
    using tp [of "now g2"] \<open>pm_Id m \<noteq> []\<close> by (auto simp: auth_bearer [OF a] isl_def split: if_splits)
  with m(1) t tp show ?thesis by fastforce
qed

section \<open>The rate limit\<close>

text \<open>The requests as they arrive, and a handler that records the ones that reach it.\<close>

definition in_window :: "string \<Rightarrow> int \<Rightarrow> (int \<times> string) list \<Rightarrow> (int \<times> string) list" where
  "in_window m w xs = filter (\<lambda>x. snd x = m \<and> fst x div 10 ^ 9 = w) xs"

definition admit :: "(int \<times> string) list http_handler" where
  "admit hdr r g = (gw_writeJSON hdr 200 (B_Health ''ok''), g\<lparr>gw_services := gw_services g @ [(now g, MerchantIDFrom (rq_Context r))]\<rparr>)"

fun rate_run :: "int \<Rightarrow> (int \<times> http_request) list \<Rightarrow> (int \<times> string) list gateway \<Rightarrow> (int \<times> string) list gateway" where
  "rate_run limit [] g = g"
| "rate_run limit ((t, r) # rs) g = rate_run limit rs (snd (RateLimitMiddleware limit admit [] r (g\<lparr>now := t\<rparr>)))"

definition arrivals :: "(int \<times> http_request) list \<Rightarrow> (int \<times> string) list" where
  "arrivals rs = map (\<lambda>(t, r). (t, MerchantIDFrom (rq_Context r))) rs"

definition window_count :: "string \<Rightarrow> int \<Rightarrow> int \<Rightarrow> 'w gateway \<Rightarrow> bool" where
  "window_count m w c g \<longleftrightarrow>
     (case gw_counters g (rate_key m w) of
        None \<Rightarrow> c = 0
      | Some (n, e) \<Rightarrow> n = c \<and> 0 < c \<and> (\<exists>x. e = Some x \<and> (w + 1) * 10 ^ 9 \<le> x))"

lemma rate_key_eq_iff: "rate_key m w = rate_key m' w' \<longleftrightarrow> m = m' \<and> w = w'"
proof
  have r: "rev (rate_key x y) = rev (Itoa y) @ CHR '':'' # rev (''ratelimit:'' @ x)" for x y by (simp add: rate_key_def)
  assume "rate_key m w = rate_key m' w'"
  then have "rev (Itoa w) @ CHR '':'' # rev (''ratelimit:'' @ m) = rev (Itoa w') @ CHR '':'' # rev (''ratelimit:'' @ m')"
    unfolding r [symmetric] by simp
  then have "rev (Itoa w) = rev (Itoa w') \<and> rev (''ratelimit:'' @ m) = rev (''ratelimit:'' @ m')"
    by (subst (asm) split_at_first) (simp_all add: Itoa_no_char is_digit_def)
  then show "m = m' \<and> w = w'" by (simp add: Itoa_eq_iff)
qed simp

lemma window_end:
  fixes t :: int
  assumes "t div 10 ^ 9 = w"
  shows "t < (w + 1) * 10 ^ 9" and "(w + 1) * 10 ^ 9 \<le> t + 2 * 10 ^ 9"
  using assms by (simp_all add: algebra_simps)

lemma rate_step:
  assumes "gw_rdb g" and "script g = []" and "window_count m w c g" and "m \<noteq> []" and "c < 2 ^ 63 - 1"
    and "RateLimitMiddleware limit admit [] r (g\<lparr>now := t\<rparr>) = (resp, g')" and "m' = MerchantIDFrom (rq_Context r)"
    and "k = (if m' = m \<and> t div 10 ^ 9 = w then 1 else 0)"
  shows "gw_rdb g' \<and> script g' = [] \<and> window_count m w (c + k) g' \<and>
    in_window m w (gw_services g') = in_window m w (gw_services g) @ (if c < rate_limit limit \<and> k = 1 then [(t, m)] else [])"
proof (cases "m' = []")
  case True
  then have g': "g' = g\<lparr>now := t, gw_services := gw_services g @ [(t, m')]\<rparr>"
    using assms(1,6,7) by (simp add: RateLimitMiddleware_def admit_def)
  moreover have "k = 0" using True assms(4,8) by auto
  ultimately show ?thesis using True assms(1-4) by (auto simp: window_count_def in_window_def)
next
  case nonempty: False
  let ?key = "rate_key m' (t div 10 ^ 9)"
  obtain q g1 where q: "rateLimitLua ?key (g\<lparr>now := t\<rparr>) = (q, g1)" by fastforce
  have adm: "g' = (if \<exists>n. q = Inr n \<and> n > rate_limit limit then g1
                   else g1\<lparr>gw_services := gw_services g1 @ [(now g1, m')]\<rparr>)"
    using assms(1,2,6,7) nonempty q
    by (cases q) (auto simp: RateLimitMiddleware_def admit_def Let_def split: if_splits)
  have keep: "gw_rdb g1 = gw_rdb g \<and> script g1 = script g \<and> now g1 = t \<and> gw_services g1 = gw_services g \<and>
      (\<forall>x. x \<noteq> ?key \<longrightarrow> gw_counters g1 x = gw_counters g x)"
    using q by (auto simp: rateLimitLua_def split: option.splits prod.splits if_splits)
  show ?thesis
  proof (cases "k = 1")
    case True
    then have km: "m' = m" "t div 10 ^ 9 = w" using assms(8) by (auto split: if_splits)
    have lv: "live_count ?key (g\<lparr>now := t\<rparr>) = gw_counters g ?key"
      using assms(3) window_end(1) [OF km(2)] km
      by (auto simp: live_count_def window_count_def split: option.splits prod.splits)
    have "q = Inr (c + 1) \<and> window_count m w (c + 1) g1"
    proof (cases "gw_counters g ?key")
      case None
      with lv q assms(3) km window_end(2) [OF km(2)] show ?thesis
        by (auto simp: rateLimitLua_def window_count_def)
    next
      case (Some y)
      with lv q assms(3,5) km show ?thesis
        by (cases y) (auto simp: rateLimitLua_def window_count_def split: if_splits)
    qed
    with adm keep km True assms(1,2) show ?thesis
      by (auto simp: window_count_def in_window_def)
  next
    case False
    then have k0: "k = 0" "rate_key m w \<noteq> ?key" using assms(8) by (auto simp: rate_key_eq_iff split: if_splits)
    then have "window_count m w c g1" using keep assms(3) by (simp add: window_count_def)
    with adm keep k0 assms(1,2,8) show ?thesis
      by (auto simp: window_count_def in_window_def split: if_splits)
  qed
qed

lemma rate_run_window:
  assumes "gw_rdb g" and "script g = []" and "window_count m w c g" and "m \<noteq> []" and "0 \<le> c" and "c + int (length rs) < 2 ^ 63"
  shows "in_window m w (gw_services (rate_run limit rs g)) =
    in_window m w (gw_services g) @ take (nat (rate_limit limit - c)) (in_window m w (arrivals rs))"
  using assms
proof (induction rs arbitrary: g c)
  case Nil
  then show ?case by (simp add: arrivals_def in_window_def)
next
  case (Cons x rs)
  obtain t r where x: "x = (t, r)" by (cases x)
  obtain resp g' where g': "RateLimitMiddleware limit admit [] r (g\<lparr>now := t\<rparr>) = (resp, g')" by fastforce
  define k :: int where "k = (if MerchantIDFrom (rq_Context r) = m \<and> t div 10 ^ 9 = w then 1 else 0)"
  have step: "gw_rdb g' \<and> script g' = [] \<and> window_count m w (c + k) g' \<and>
    in_window m w (gw_services g') = in_window m w (gw_services g) @ (if c < rate_limit limit \<and> k = 1 then [(t, m)] else [])"
    using Cons.prems by (intro rate_step [OF _ _ _ _ _ g' refl k_def]) auto
  have k: "0 \<le> k" "k \<le> 1" by (auto simp: k_def)
  have arr: "in_window m w (arrivals (x # rs)) = (if k = 1 then [(t, m)] else []) @ in_window m w (arrivals rs)"
    by (auto simp: x arrivals_def in_window_def k_def)
  have "in_window m w (gw_services (rate_run limit rs g')) =
      in_window m w (gw_services g') @ take (nat (rate_limit limit - (c + k))) (in_window m w (arrivals rs))"
    using Cons.prems step k by (intro Cons.IH) auto
  moreover have "rate_run limit (x # rs) g = rate_run limit rs g'" using x g' by simp
  moreover have "nat (rate_limit limit - c) = (if c < rate_limit limit then Suc (nat (rate_limit limit - (c + 1))) else 0)"
    by auto
  moreover have "k = 0 \<or> k = 1" using k by auto
  ultimately show ?case using step arr by auto
qed

text \<open>C32: while Redis answers, of the requests of one merchant within one second exactly the first ones pass, as many as
  the limit allows and all of them when there are no more, whatever requests of other merchants and other seconds arrive in
  between and in whatever order; a limit that is not positive means 100.\<close>

theorem rate_limit_exact:
  assumes "gw_rdb g" and "script g = []" and "gw_counters g = (\<lambda>_. None)" and "gw_services g = []" and "m \<noteq> []"
    and "int (length rs) < 2 ^ 63"
  shows "in_window m w (gw_services (rate_run limit rs g)) = take (nat (rate_limit limit)) (in_window m w (arrivals rs))"
proof -
  have "window_count m w 0 g" using assms(3) by (simp add: window_count_def)
  moreover have "in_window m w [] = []" by (simp add: in_window_def)
  ultimately show ?thesis using rate_run_window [OF assms(1,2) _ assms(5), of w 0 rs limit] assms(4,6) by simp
qed

section \<open>Merchants kept apart\<close>

text \<open>C30: through the router with the merchant, consent and payment services behind it, a request that is not a POST shows
  the data of no merchant but the one its token was issued for, whatever path and ids it names and whatever calls fail.
  Assumed is that the id in the token is the canonical text of a UUID, and that pages outside the API show nothing.\<close>

theorem tenant_isolation:
  assumes "hs_clients (rd_Handlers d) = platform_clients bc lib cdc" and "gv_sane cdc (gw_services g)" and "merchant_text cdc m"
    and "bearer_of d m r (now g)" and "rq_Method r \<noteq> ''POST''"
    and "\<And>r'. body_merchants (hr_Body (ch_NoRoute chi r')) = {}"
  shows "body_merchants (hr_Body (fst (NewRouter chi d hdr r g))) \<subseteq> {m}"
proof -
  have "shows_only m (ch_NoRoute chi r')" for r' using assms(6) by (simp add: shows_only_def)
  then show ?thesis
    using gv.router_own [OF assms(1-5), of chi hdr] by (simp add: shows_only_def)
qed

section \<open>A concrete gateway\<close>

definition ex_tokens :: TokenService where
  "ex_tokens = NewTokenService ''s'' 0"

definition ex_time :: time_lib where
  "ex_time = \<lparr>tl_Format = write_int, tl_Parse = Atoi, tl_ParseNano = Atoi\<rparr>"

definition ex_deps :: "nat gw_world RouterDeps" where
  "ex_deps = \<lparr>rd_Handlers = \<lparr>hs_Tokens = ex_tokens, hs_clients = platform_clients plain_bcrypt std_lib unary_codec,
     hs_jwt = plain_jwt, hs_time = ex_time\<rparr>, rd_Tokens = ex_tokens, rd_RateLimitRPS = 2\<rparr>"

definition ex_chi :: chi_lib where
  "ex_chi = \<lparr>ch_Match = (\<lambda>pat path. case str_Index ''{id}'' pat of
       None \<Rightarrow> if path = pat then Some (\<lambda>_. []) else None
     | Some i \<Rightarrow> if i + 4 = length pat \<and> take i path = take i pat \<and> i < length path then Some (\<lambda>_. drop i path) else None),
     ch_NoRoute = (\<lambda>r. \<lparr>hr_Status = 404, hr_Header = [], hr_Body = B_Other ''404 page not found''\<rparr>)\<rparr>"

definition ex_gateway :: "'w \<Rightarrow> 'w gateway" where
  "ex_gateway w = \<lparr>now = 0, script = [], aborted = False, uuid_src = word_of_nat, n_uuid = 0, codec = unary_codec,
     gw_rdb = True, gw_counters = (\<lambda>_. None), gw_services = w\<rparr>"

definition ex_world :: "nat gw_world" where
  "ex_world = \<lparr>gv_platform = vrp_w [] [], gv_merchants = ex_registered, gv_rpc = []\<rparr>"

definition ex_bearer :: "string \<Rightarrow> string" where
  "ex_bearer m = (case token_Issue plain_jwt ex_tokens m (ex_gateway ()) of (Inr (t, _), _) \<Rightarrow> ''Bearer '' @ t | _ \<Rightarrow> [])"

definition ex_request :: "string \<Rightarrow> string \<Rightarrow> string \<Rightarrow> string \<Rightarrow> json option \<Rightarrow> http_request" where
  "ex_request method path auth key body =
     \<lparr>rq_Method = method, rq_Path = path,
      rq_Header = (\<lambda>k. if k = ''Authorization'' then auth else if k = ''Idempotency-Key'' then key else []),
      rq_Query = (\<lambda>_. []), rq_Body = body,
      rq_Context = \<lparr>cx_RequestID = None, cx_MerchantID = None, cx_URLParam = (\<lambda>_. [])\<rparr>\<rparr>"

definition ex_payment_body :: json where
  "ex_payment_body = JObject [(''consent_id'', JString ''ii''),
     (''amount'', JObject [(''amount_pence'', JInt 1000), (''currency'', JString ''GBP'')])]"


definition ex_token_request :: http_request where
  "ex_token_request = ex_request ''POST'' ''/v1/auth/token'' [] [] (Some (JObject [(''api_key'', JString ex_key)]))"

theorem token_lifecycle_witness:
  "\<exists>tok e. hr_Body (fst (hd_IssueToken (rd_Handlers ex_deps) [] ex_token_request (ex_gateway ex_world))) =
       B_Token \<lparr>tr_Token = tok, tr_ExpiresAt = write_int e\<rparr> \<and>
     fst (AuthMiddleware plain_jwt ex_tokens admit [] (ex_request ''GET'' [] (''Bearer '' @ tok) [] None) ((ex_gateway [])\<lparr>now := e\<rparr>)) =
       writeError [] (ex_request ''GET'' [] (''Bearer '' @ tok) [] None) 401 ''UNAUTHORIZED'' ''invalid token''"
proof -
  let ?h = "rd_Handlers ex_deps"
  obtain resp g' where i: "hd_IssueToken ?h [] ex_token_request (ex_gateway ex_world) = (resp, g')" by fastforce
  have "hr_Status (fst (hd_IssueToken ?h [] ex_token_request (ex_gateway ex_world))) = 200" by code_simp
  with i have st: "hr_Status resp = 200" by simp
  have h: "hs_jwt ?h = plain_jwt" "hs_Tokens ?h = ex_tokens" "tl_Format (hs_time ?h) = write_int" by (simp_all add: ex_deps_def ex_time_def)
  have "decodeJSON token_fields (rq_Body ex_token_request) \<lparr>tq_APIKey = []\<rparr> = (\<lparr>tq_APIKey = ex_key\<rparr>, True)" by code_simp
  note t = token_lifecycle [where ?'v = "(int \<times> string) list", OF jwt_ok_plain [folded h(1)] i st this]
  have id: "case gc_GetMerchantByApiKey (hs_clients ?h) ex_key ex_world of (Inr m, _) \<Rightarrow> pm_Id m \<noteq> [] | (Inl _, _) \<Rightarrow> False" by code_simp
  have n: "\<not> e < NumericDate e" for e by (simp add: NumericDate_def)
  have w: "gw_services (ex_gateway ex_world) = ex_world" by (simp add: ex_gateway_def)
  from t obtain m w tok e where m: "gc_GetMerchantByApiKey (hs_clients ?h) ex_key ex_world = (Inr m, w)"
      and b: "hr_Body resp = B_Token \<lparr>tr_Token = tok, tr_ExpiresAt = write_int e\<rparr>"
      and a: "\<forall>hf hdr' r' (g2 :: (int \<times> string) list gateway). rq_Header r' ''Authorization'' = ''Bearer '' @ tok \<longrightarrow> pm_Id m \<noteq> [] \<longrightarrow>
        AuthMiddleware plain_jwt ex_tokens hf hdr' r' g2 =
         (if now g2 < NumericDate e then hf hdr' (r'\<lparr>rq_Context := (rq_Context r')\<lparr>cx_MerchantID := Some (pm_Id m)\<rparr>\<rparr>) g2
          else (writeError hdr' r' 401 ''UNAUTHORIZED'' ''invalid token'', g2))"
    unfolding h w TokenRequest.select_convs by blast
  let ?r = "ex_request ''GET'' [] (''Bearer '' @ tok) [] None"
  have "pm_Id m \<noteq> []" "rq_Header ?r ''Authorization'' = ''Bearer '' @ tok" using id m by (simp_all add: ex_request_def)
  with a [rule_format, of ?r admit "[]" "(ex_gateway [])\<lparr>now := e\<rparr>"] n [of e]
  have "fst (AuthMiddleware plain_jwt ex_tokens admit [] ?r ((ex_gateway [])\<lparr>now := e\<rparr>)) = writeError [] ?r 401 ''UNAUTHORIZED'' ''invalid token''"
    by simp
  with b i show ?thesis by (intro exI [of _ tok] exI [of _ e]) simp
qed

theorem rate_limit_exact_witness:
  "in_window ''m'' 0 (gw_services (rate_run 2 (map (\<lambda>t. (t, (ex_request [] [] [] [] None)\<lparr>rq_Context :=
     \<lparr>cx_RequestID = None, cx_MerchantID = Some ''m'', cx_URLParam = (\<lambda>_. [])\<rparr>\<rparr>)) [0, 1, 2]) (ex_gateway []))) = [(0, ''m''), (1, ''m'')]"
  by (subst rate_limit_exact)
     (simp_all add: ex_gateway_def rate_limit_def in_window_def arrivals_def MerchantIDFrom_def)

theorem tenant_isolation_witness:
  "body_merchants (hr_Body (fst (NewRouter ex_chi ex_deps []
     (ex_request ''GET'' ''/v1/payments/iiiiii'' (ex_bearer ''iiii'') [] None) (ex_gateway ex_world)))) \<subseteq> {''iiii''}"
proof (rule tenant_isolation)
  show "hs_clients (rd_Handlers ex_deps) = platform_clients plain_bcrypt std_lib unary_codec" by (simp add: ex_deps_def)
  have "codec (pl_con (vrp_w [] [])) = unary_codec" using vrp_inv [of "[]" "[]"] by (simp add: platform_inv_def)
  moreover have "codec ex_registered = codec ex_merchants"
    using ex_register by (rule register_effect) (auto simp: registers_def same_tables_def ex_merchants_def codec_ok_unary)
  ultimately show "gv_sane unary_codec (gw_services (ex_gateway ex_world))"
    by (simp add: gv_sane_def ex_gateway_def ex_world_def codec_ok_unary ex_merchants_def)
  show "merchant_text unary_codec ''iiii''" by code_simp
  show "bearer_of ex_deps ''iiii'' (ex_request ''GET'' ''/v1/payments/iiiiii'' (ex_bearer ''iiii'') [] None) (now (ex_gateway ex_world))" by code_simp
  show "rq_Method (ex_request ''GET'' ''/v1/payments/iiiiii'' (ex_bearer ''iiii'') [] None) \<noteq> ''POST''" by (simp add: ex_request_def)
qed (simp add: ex_chi_def body_merchants_def)

section \<open>What a payment may reach\<close>



end
