(* ===== verification/Recovery.thy ===== *)
theory Recovery
  imports Saga_Props Payment_Handler
begin

text \<open>
  Crashes of the payment service in the middle of a saga, and the reconciliation worker that picks the payment up
  (\<open>services/payment-svc/internal/reconciliation.go\<close>, \<open>ResumeFromLedger\<close> and \<open>CompensateStale\<close> of \<open>saga.go\<close>).
  \<^item> \<open>saga_step\<close> is the saga as a step relation, one step for every call that succeeded; a crash leaves the world at one
    of its points. \<open>runSaga_calls\<close>: the runs from the first to the last point are the successful results of \<open>runSaga\<close>.
  \<^item> \<open>recovery_world\<close> extends the saga's contracts by what the worker relies on. Inside it: what holds at
    every point, by induction on the run, and what one pass of the worker makes of it.
  Theory \<open>Recovery_Correct\<close> interprets the contract on the platform.
\<close>

section \<open>The saga, call by call\<close>

text \<open>The points between two calls of a saga that has met no failure; the arguments are the local variables that
  live across the point.\<close>

datatype saga_point =
    Started
  | Held ReserveResponse uuid
  | Noted string
  | Scored string ScoreResponse
  | Passed string
  | Paid string
  | Authorised
  | Booked
  | Finished
  | Confirmed

text \<open>The points where the row does not name what the saga holds.\<close>

fun unnamed :: "saga_point \<Rightarrow> bool" where
  "unnamed (Held _ _) = True"
| "unnamed (Paid _) = True"
| "unnamed _ = False"

inductive saga_step :: "'w Orchestrator \<Rightarrow> saga_point \<times> Payment \<times> 'w \<Rightarrow> saga_point \<times> Payment \<times> 'w \<Rightarrow> bool"
  for orc :: "'w Orchestrator" where
  reserve: "saga_step orc (Started, p, w) (Held resp rid, p, w')"
    if "c_ValidateAndReserve (o_consent orc)
          \<lparr>rrq_ConsentId = uc_String (o_codec orc) (py_ConsentID p),
           rrq_PaymentId = uc_String (o_codec orc) (py_ID p), rrq_Amount = Some (payment_money p)\<rparr> w = (Inr resp, w')"
      and "uc_Parse (o_codec orc) (rrs_ReservationId resp) = Some rid"
| record_hold: "saga_step orc (Held resp rid, p, w) (Noted (rrs_BankConsentRef resp), p', w')"
    if "r_UpdateAfterConsent (o_repo orc) rid (rrs_ConsumerId resp) p w = (None, p', w')"
| score: "saga_step orc (Noted cref, p, w) (Scored cref resp, p, w')"
    if "k_Score (o_risk orc)
          \<lparr>srq_MerchantId = uc_String (o_codec orc) (py_MerchantID p), srq_ConsumerId = py_ConsumerID p,
           srq_ConsentId = uc_String (o_codec orc) (py_ConsentID p),
           srq_PaymentId = uc_String (o_codec orc) (py_ID p), srq_Amount = Some (payment_money p),
           srq_IpAddress = [], srq_UserAgent = []\<rparr> w = (Inr resp, w')"
      and "srs_Decision resp \<noteq> Risk_DECLINE"
| record_score: "saga_step orc (Scored cref resp, p, w) (Passed cref, p', w')"
    if "r_UpdateAfterRisk (o_repo orc) (srs_Score resp) (RiskDecision_String (srs_Decision resp)) p w = (None, p', w')"
| take_money: "saga_step orc (Passed cref, p, w) (Paid (irs_BankPaymentRef resp), p, w')"
    if "b_InitiatePayment (o_bank orc)
          \<lparr>irq_PaymentId = uc_String (o_codec orc) (py_ID p), irq_BankConsentRef = cref,
           irq_ConsumerId = py_ConsumerID p, irq_Amount = Some (payment_money p),
           irq_Description = py_Description p\<rparr> w = (Inr resp, w')"
      and "irs_Status resp \<noteq> Bank_REJECTED"
| record_ref: "saga_step orc (Paid ref, p, w) (Authorised, p', w')"
    if "r_UpdateAfterBank (o_repo orc) ref p w = (None, p', w')"
| book: "saga_step orc (Authorised, p, w) (Booked, p, w')"
    if "l_PostDoubleEntry (o_ledger orc)
          \<lparr>per_PaymentId = uc_String (o_codec orc) (py_ID p),
           per_Description = ''VRP settlement '' @ uc_String (o_codec orc) (py_ID p),
           per_Lines = settlement_lines (o_codec orc) p\<rparr> w = (Inr x, w')"
| settle: "saga_step orc (Booked, p, w) (Finished, p', w')"
    if "r_SettleWithOutbox (o_repo orc) p w = (None, p', w')"
| confirm: "saga_step orc (Finished, p, w) (Confirmed, p, confirm_step orc p w)"

inductive_cases saga_stepE: "saga_step orc c d"

inductive_simps saga_step_simps:
  "saga_step orc (Started, p, w) c" "saga_step orc (Held resp rid, p, w) c" "saga_step orc (Noted cref, p, w) c"
  "saga_step orc (Scored cref r, p, w) c" "saga_step orc (Passed cref, p, w) c" "saga_step orc (Paid ref, p, w) c"
  "saga_step orc (Authorised, p, w) c" "saga_step orc (Booked, p, w) c" "saga_step orc (Finished, p, w) c"
  "saga_step orc (Confirmed, p, w) c"

text \<open>The relation as a function: there is one next call.\<close>

fun saga_next :: "'w Orchestrator \<Rightarrow> saga_point \<times> Payment \<times> 'w \<Rightarrow> (saga_point \<times> Payment \<times> 'w) option" where
  "saga_next orc (Started, p, w) =
     (case c_ValidateAndReserve (o_consent orc)
             \<lparr>rrq_ConsentId = uc_String (o_codec orc) (py_ConsentID p),
              rrq_PaymentId = uc_String (o_codec orc) (py_ID p), rrq_Amount = Some (payment_money p)\<rparr> w of
        (Inl _, _) \<Rightarrow> None
      | (Inr resp, w1) \<Rightarrow> map_option (\<lambda>rid. (Held resp rid, p, w1)) (uc_Parse (o_codec orc) (rrs_ReservationId resp)))"
| "saga_next orc (Held resp rid, p, w) =
     (case r_UpdateAfterConsent (o_repo orc) rid (rrs_ConsumerId resp) p w of
        (Some _, _) \<Rightarrow> None | (None, p1, w1) \<Rightarrow> Some (Noted (rrs_BankConsentRef resp), p1, w1))"
| "saga_next orc (Noted cref, p, w) =
     (case k_Score (o_risk orc)
             \<lparr>srq_MerchantId = uc_String (o_codec orc) (py_MerchantID p), srq_ConsumerId = py_ConsumerID p,
              srq_ConsentId = uc_String (o_codec orc) (py_ConsentID p),
              srq_PaymentId = uc_String (o_codec orc) (py_ID p), srq_Amount = Some (payment_money p),
              srq_IpAddress = [], srq_UserAgent = []\<rparr> w of
        (Inl _, _) \<Rightarrow> None
      | (Inr resp, w1) \<Rightarrow> if srs_Decision resp = Risk_DECLINE then None else Some (Scored cref resp, p, w1))"
| "saga_next orc (Scored cref resp, p, w) =
     (case r_UpdateAfterRisk (o_repo orc) (srs_Score resp) (RiskDecision_String (srs_Decision resp)) p w of
        (Some _, _) \<Rightarrow> None | (None, p1, w1) \<Rightarrow> Some (Passed cref, p1, w1))"
| "saga_next orc (Passed cref, p, w) =
     (case b_InitiatePayment (o_bank orc)
             \<lparr>irq_PaymentId = uc_String (o_codec orc) (py_ID p), irq_BankConsentRef = cref,
              irq_ConsumerId = py_ConsumerID p, irq_Amount = Some (payment_money p),
              irq_Description = py_Description p\<rparr> w of
        (Inl _, _) \<Rightarrow> None
      | (Inr resp, w1) \<Rightarrow> if irs_Status resp = Bank_REJECTED then None else Some (Paid (irs_BankPaymentRef resp), p, w1))"
| "saga_next orc (Paid ref, p, w) =
     (case r_UpdateAfterBank (o_repo orc) ref p w of (Some _, _) \<Rightarrow> None | (None, p1, w1) \<Rightarrow> Some (Authorised, p1, w1))"
| "saga_next orc (Authorised, p, w) =
     (case l_PostDoubleEntry (o_ledger orc)
             \<lparr>per_PaymentId = uc_String (o_codec orc) (py_ID p),
              per_Description = ''VRP settlement '' @ uc_String (o_codec orc) (py_ID p),
              per_Lines = settlement_lines (o_codec orc) p\<rparr> w of
        (Inl _, _) \<Rightarrow> None | (Inr _, w1) \<Rightarrow> Some (Booked, p, w1))"
| "saga_next orc (Booked, p, w) =
     (case r_SettleWithOutbox (o_repo orc) p w of (Some _, _) \<Rightarrow> None | (None, p1, w1) \<Rightarrow> Some (Finished, p1, w1))"
| "saga_next orc (Finished, p, w) = Some (Confirmed, p, confirm_step orc p w)"
| "saga_next orc (Confirmed, p, w) = None"

lemma saga_next_iff: "saga_next orc c = Some d \<longleftrightarrow> saga_step orc c d"
  by (cases "(orc, c)" rule: saga_next.cases)
    (auto simp: saga_step_simps split: prod.splits sum.splits option.splits if_splits)

abbreviation saga_runs :: "'w Orchestrator \<Rightarrow> saga_point \<times> Payment \<times> 'w \<Rightarrow> saga_point \<times> Payment \<times> 'w \<Rightarrow> bool" where
  "saga_runs orc \<equiv> (saga_step orc)\<^sup>*\<^sup>*"

text \<open>A run from one point to a later one is a step and a run from the next point.\<close>

lemma saga_runs_iff: "saga_runs orc c d \<longleftrightarrow> c = d \<or> (\<exists>e. saga_step orc c e \<and> saga_runs orc e d)"
  by (rule iffI) (auto elim: converse_rtranclpE intro: converse_rtranclp_into_rtranclp)

text \<open>Following the calls.\<close>

fun saga_after :: "nat \<Rightarrow> 'w Orchestrator \<Rightarrow> saga_point \<times> Payment \<times> 'w \<Rightarrow> (saga_point \<times> Payment \<times> 'w) option" where
  "saga_after 0 orc c = Some c"
| "saga_after (Suc n) orc c = (case saga_next orc c of None \<Rightarrow> None | Some d \<Rightarrow> saga_after n orc d)"

lemma saga_after_runs: "saga_after n orc c = Some d \<Longrightarrow> saga_runs orc c d"
  by (induction n arbitrary: c) (auto simp: saga_next_iff intro: converse_rtranclp_into_rtranclp split: option.splits)

lemma failed_never: "failAndCompensate orc reason rc rb ret p w \<noteq> (None, x)"
proof -
  obtain cerr w1 where c: "compensate orc p reason rc rb w = (cerr, w1)" by fastforce
  show ?thesis unfolding failAndCompensate_def c prod.case by (cases cerr) (auto split: prod.splits)
qed

lemma settle_failed_never: "settle_failed orc what e p w \<noteq> (None, x)"
proof -
  obtain cerr w1 where c: "compensateFull orc p what w = (cerr, w1)" by fastforce
  show ?thesis unfolding settle_failed_def c prod.case by (cases cerr) (auto split: prod.splits)
qed

lemma runs_Confirmed: "saga_runs orc (Confirmed, p, w) (Confirmed, p', w') \<longleftrightarrow> p' = p \<and> w' = w"
  by (subst saga_runs_iff) (auto simp: saga_step_simps)

lemma runs_Finished: "saga_runs orc (Finished, p, w) (Confirmed, p', w') \<longleftrightarrow> p' = p \<and> w' = confirm_step orc p w"
  by (subst saga_runs_iff) (auto simp: saga_step_simps runs_Confirmed)

lemma runs_Booked: "saga_runs orc (Booked, p, w) (Confirmed, p', w') \<longleftrightarrow> saga_step5 orc p w = (None, p', w')"
  by (subst saga_runs_iff)
    (auto simp: saga_step_simps runs_Finished saga_step5_def settle_failed_never split: prod.splits option.splits)

lemma runs_Authorised: "saga_runs orc (Authorised, p, w) (Confirmed, p', w') \<longleftrightarrow> saga_step4 orc p w = (None, p', w')"
  by (subst saga_runs_iff)
    (auto simp: saga_step_simps runs_Booked saga_step4_def failed_never split: prod.splits sum.splits)

lemma runs_Paid: "saga_runs orc (Paid ref, p, w) (Confirmed, p', w') \<longleftrightarrow>
    (\<exists>p1 w1. r_UpdateAfterBank (o_repo orc) ref p w = (None, p1, w1) \<and> saga_step4 orc p1 w1 = (None, p', w'))"
  by (subst saga_runs_iff) (auto simp: saga_step_simps runs_Authorised)

lemma runs_Passed: "saga_runs orc (Passed cref, p, w) (Confirmed, p', w') \<longleftrightarrow> saga_step3 orc cref p w = (None, p', w')"
  by (subst saga_runs_iff)
    (auto simp: saga_step_simps runs_Paid saga_step3_def failed_never Let_def split: prod.splits sum.splits option.splits)

lemma runs_Noted: "saga_runs orc (Noted cref, p, w) (Confirmed, p', w') \<longleftrightarrow> saga_step2 orc cref p w = (None, p', w')"
  by (subst saga_runs_iff, subst saga_runs_iff)
    (auto simp: saga_step_simps runs_Passed saga_step2_def failed_never split: prod.splits sum.splits option.splits)

lemma consent_refused_never: "consent_refused orc e p w \<noteq> (None, x)"
  unfolding consent_refused_def by (cases "as_domain (mapDownstreamErr e)") (auto split: prod.splits)

text \<open>The calls in order are the saga.\<close>

lemma runSaga_calls: "runSaga orc p w = (None, p', w') \<longleftrightarrow> saga_runs orc (Started, p, w) (Confirmed, p', w')"
  by (subst saga_runs_iff, subst saga_runs_iff)
    (auto simp: saga_step_simps runs_Noted runSaga_def consent_refused_never Let_def split: prod.splits sum.splits option.splits)

section \<open>What the worker relies on\<close>

text \<open>Beyond the saga's contracts: the bank's answer about a payment is SETTLED exactly for those that cleared, as
  does every payment it accepted; asking changes nothing. Completing an idempotency key changes no row. \<open>up\<close> is a payment store whose
  statements all succeed.\<close>

locale recovery_world =
  saga_world orc inv pay con bnk led row hold owner taken books unposted booked delta
  for orc :: "'w Orchestrator" and inv :: "'w \<Rightarrow> bool" and pay :: "'w \<Rightarrow> 'p" and con :: "'w \<Rightarrow> 'c"
    and bnk :: "'w \<Rightarrow> 'b" and led :: "'w \<Rightarrow> 'l" and row :: "'p \<Rightarrow> uuid \<Rightarrow> Payment option"
    and hold :: "'c \<Rightarrow> uuid \<Rightarrow> hold_state" and owner :: "'c \<Rightarrow> uuid \<Rightarrow> uuid option"
    and taken :: "'b \<Rightarrow> string \<Rightarrow> string option" and books :: "'l \<Rightarrow> 'k \<Rightarrow> int"
    and unposted :: "string \<Rightarrow> 'l \<Rightarrow> bool" and booked :: "string \<Rightarrow> 'l \<Rightarrow> 'l \<Rightarrow> bool"
    and delta :: "JournalLine list \<Rightarrow> 'k \<Rightarrow> int" +
  fixes rw :: "'w ReconciliationWorker" and cleared :: "'b \<Rightarrow> string \<Rightarrow> bool" and up :: "'p \<Rightarrow> bool"
  assumes worker: "rw_orchestrator rw = orc"
    and accepted_clears: "inv w \<Longrightarrow> b_InitiatePayment (o_bank orc) rq w = (Inr resp, w') \<Longrightarrow> irs_Status resp \<noteq> Bank_REJECTED \<Longrightarrow>
      cleared (bnk w') (irs_BankPaymentRef resp)"
    and status_keeps: "inv w \<Longrightarrow> b_GetPaymentStatus (rw_bank rw) sq w = (reply, w') \<Longrightarrow>
      inv w' \<and> pay w' = pay w \<and> con w' = con w \<and> led w' = led w \<and> taken (bnk w') = taken (bnk w) \<and> cleared (bnk w') = cleared (bnk w)"
    and status_answer: "inv w \<Longrightarrow> b_GetPaymentStatus (rw_bank rw) sq w = (Inr answer, w') \<Longrightarrow>
      sts_Status answer = Bank_SETTLED \<longleftrightarrow> cleared (bnk w) (stq_BankPaymentRef sq)"
    and complete_keeps: "inv w \<Longrightarrow> i_Complete (o_idem orc) key v w = (u, w') \<Longrightarrow>
      inv w' \<and> row (pay w') = row (pay w) \<and> con w' = con w \<and> bnk w' = bnk w \<and> led w' = led w"
    and up_settle: "up (pay w) \<Longrightarrow> r_SettleWithOutbox (o_repo orc) p w = (err, p', w') \<Longrightarrow> up (pay w')"
    and up_failed: "inv w \<Longrightarrow> up (pay w) \<Longrightarrow> r_MarkFailed (o_repo orc) reason p w = (err, p', w') \<Longrightarrow> row (pay w) (py_ID p) = Some q \<Longrightarrow>
      \<exists>x. row (pay w') (py_ID p) = Some x \<and> py_Status x = StatusFailed"
    and up_review: "inv w \<Longrightarrow> up (pay w) \<Longrightarrow> r_MarkManualReview (o_repo orc) reason p w = (err, p', w') \<Longrightarrow> row (pay w) (py_ID p) = Some q \<Longrightarrow>
      \<exists>x. row (pay w') (py_ID p) = Some x \<and> py_Status x = StatusManualReview"
begin

text \<open>What holds at each point of a saga that began with balances \<open>B\<close> and bank payments \<open>m\<close>.\<close>

definition unbooked_yet :: "('k \<Rightarrow> int) \<Rightarrow> Payment \<Rightarrow> 'w \<Rightarrow> bool" where
  "unbooked_yet B p w \<longleftrightarrow> unposted (uc_String (o_codec orc) (py_ID p)) (led w) \<and> books (led w) = B"

definition unpaid_yet :: "(string \<Rightarrow> string option) \<Rightarrow> Payment \<Rightarrow> 'w \<Rightarrow> bool" where
  "unpaid_yet m p w \<longleftrightarrow> taken (bnk w) = m \<and> py_BankPaymentRef p = []"

definition paid_under :: "string \<Rightarrow> (string \<Rightarrow> string option) \<Rightarrow> Payment \<Rightarrow> 'w \<Rightarrow> bool" where
  "paid_under ref m p w \<longleftrightarrow> ref \<noteq> [] \<and> taken (bnk w) = m(ref \<mapsto> uc_String (o_codec orc) (py_ID p)) \<and> cleared (bnk w) ref"

definition booked_for :: "('k \<Rightarrow> int) \<Rightarrow> Payment \<Rightarrow> 'w \<Rightarrow> bool" where
  "booked_for B p w \<longleftrightarrow> (\<exists>l. booked (uc_String (o_codec orc) (py_ID p)) l (led w) \<and> books l = B) \<and>
     books (led w) = (\<lambda>k. B k + delta (settlement_lines (o_codec orc) p) k)"

fun at_point :: "('k \<Rightarrow> int) \<Rightarrow> (string \<Rightarrow> string option) \<Rightarrow> saga_point \<Rightarrow> Payment \<Rightarrow> 'w \<Rightarrow> bool" where
  "at_point B m Started p w \<longleftrightarrow> inv w \<and> row (pay w) (py_ID p) = Some p \<and> in_flight p \<and> py_ReservationID p = None \<and>
     hold (con w) (py_ID p) = Unheld \<and> unbooked_yet B p w \<and> unpaid_yet m p w"
| "at_point B m (Held resp rid) p w \<longleftrightarrow> inv w \<and> row (pay w) (py_ID p) = Some p \<and> in_flight p \<and>
     hold (con w) (py_ID p) = Holding \<and> owner (con w) rid = Some (py_ID p) \<and> unbooked_yet B p w \<and> unpaid_yet m p w"
| "at_point B m (Noted _) p w \<longleftrightarrow> midway p p w \<and> unbooked_yet B p w \<and> unpaid_yet m p w"
| "at_point B m (Scored _ _) p w \<longleftrightarrow> midway p p w \<and> unbooked_yet B p w \<and> unpaid_yet m p w"
| "at_point B m (Passed _) p w \<longleftrightarrow> midway p p w \<and> unbooked_yet B p w \<and> unpaid_yet m p w"
| "at_point B m (Paid ref) p w \<longleftrightarrow> midway p p w \<and> unbooked_yet B p w \<and> paid_under ref m p w"
| "at_point B m Authorised p w \<longleftrightarrow> midway p p w \<and> unbooked_yet B p w \<and> paid_under (py_BankPaymentRef p) m p w"
| "at_point B m Booked p w \<longleftrightarrow> midway p p w \<and> booked_for B p w \<and> paid_under (py_BankPaymentRef p) m p w"
| "at_point B m Finished p w \<longleftrightarrow> inv w \<and> row (pay w) (py_ID p) = Some p \<and> py_Status p = StatusSettled \<and>
     hold (con w) (py_ID p) = Holding \<and> (\<exists>rid. py_ReservationID p = Some rid \<and> owner (con w) rid = Some (py_ID p)) \<and>
     booked_for B p w \<and> paid_under (py_BankPaymentRef p) m p w"
| "at_point B m Confirmed p w \<longleftrightarrow> inv w \<and> row (pay w) (py_ID p) = Some p \<and> py_Status p = StatusSettled \<and>
     hold (con w) (py_ID p) \<in> {Holding, Settled} \<and> booked_for B p w \<and> paid_under (py_BankPaymentRef p) m p w"

lemmas point_defs = unbooked_yet_def unpaid_yet_def paid_under_def booked_for_def midway_def

lemma at_point_step:
  assumes "saga_step orc (pt, p, w) (pt', p', w')" and "at_point B m pt p w"
  shows "at_point B m pt' p' w' \<and> py_ID p' = py_ID p"
  using assms(1)
proof (cases rule: saga_step.cases)
  case (reserve resp rid)
  from assms(2) have i: "inv w" "hold (con w) (py_ID p) = Unheld" using reserve by auto
  from reserve_keeps [OF i(1) reserve(4)] reserve_held [OF i(1) reserve(4), of "py_ID p"] i(2) reserve assms(2)
  show ?thesis by (auto simp: point_defs)
next
  case (record_hold resp rid)
  with assms(2) have i: "inv w" by simp
  from consent_row [OF i record_hold(3)] assms(2) record_hold show ?thesis
    by (auto simp: point_defs row_written_def after_consent_def in_flight_def)
next
  case (score cref resp)
  with assms(2) have i: "inv w" by (simp add: midway_def)
  from score_keeps [OF i score(4)] assms(2) score show ?thesis by (auto simp: point_defs)
next
  case (record_score cref resp)
  with assms(2) have i: "inv w" by (simp add: midway_def)
  from risk_row [OF i record_score(3)] assms(2) record_score show ?thesis
    by (auto simp: point_defs row_written_def after_risk_def in_flight_def)
next
  case (take_money cref resp)
  with assms(2) have i: "inv w" by (simp add: midway_def)
  from initiate_keeps [OF i take_money(4)] initiate_paid [OF i take_money(4,5)] accepted_clears [OF i take_money(4,5)]
    assms(2) take_money show ?thesis by (auto simp: point_defs)
next
  case (record_ref ref)
  with assms(2) have i: "inv w" by (simp add: midway_def)
  from bank_row [OF i record_ref(3)] assms(2) record_ref show ?thesis
    by (auto simp: point_defs row_written_def after_bank_def in_flight_def)
next
  case (book x)
  with assms(2) have i: "inv w" by (simp add: midway_def)
  from post_keeps [OF i book(4)] post_new [OF i book(4)] assms(2) book show ?thesis by (auto simp: point_defs)
next
  case settle
  with assms(2) have i: "inv w" by (simp add: midway_def)
  from settled_row [OF i settle(3)] assms(2) settle show ?thesis
    by (cases "row (pay w) (py_ID p)") (auto simp: point_defs, auto simp: after_settle_def)
next
  case confirm
  with assms(2) obtain rid where "inv w" "py_ReservationID p = Some rid" "owner (con w) rid = Some (py_ID p)"
    "hold (con w) (py_ID p) = Holding" by auto
  from confirm_step_effect [OF this] assms(2) confirm show ?thesis by (auto simp: point_defs)
qed

lemma at_point_run:
  assumes "saga_runs orc (pt, p, w) (pt', p', w')" and "at_point B m pt p w"
  shows "at_point B m pt' p' w' \<and> py_ID p' = py_ID p"
  using assms(1)
proof (induction "(pt', p', w')" arbitrary: pt' p' w' rule: rtranclp_induct)
  case (step c)
  obtain pt1 p1 w1 where c: "c = (pt1, p1, w1)" by (metis prod.exhaust)
  from step(3) [OF c] at_point_step [OF step(2) [unfolded c]] show ?case by auto
qed (use assms(2) in simp)

section \<open>The worker's two answers\<close>

text \<open>Cancelling a payment whose money was never taken.\<close>

lemma cancel_end:
  assumes "CompensateStale orc reason p w = (err, p', w')" and "at_point B m pt p w" and "unpaid_yet m p w"
    and "pt = Started \<or> midway p p w" and "unbooked_yet B p w" and "\<not> money_out m (uc_String (o_codec orc) (py_ID p))"
  shows "err \<noteq> None \<and> ended err p' (py_ID p) B m w'"
proof (cases "pt = Started")
  case True
  then have c: "compensate orc p reason False False w = (None, w)" using assms(2) by (simp add: compensate_def)
  have s: "py_ReservationID p = None" "py_BankPaymentRef p = []" "inv w" "row (pay w) (py_ID p) = Some p" "in_flight p"
    "hold (con w) (py_ID p) \<notin> {Holding, Settled}" "books (led w) = B"
    "\<not> money_out (taken (bnk w)) (uc_String (o_codec orc) (py_ID p))"
    using assms(2,6) True by (auto simp: point_defs)
  obtain e p1 w1 where f: "r_MarkFailed (o_repo orc) reason p w = (e, p1, w1)" by (metis prod.exhaust)
  have "w' = w1" "\<exists>x. err = Some x" using assms(1) s c f by (auto simp: CompensateStale_def failAndCompensate_def)
  with marked_failed [OF f s(3-7)] s(8) show ?thesis by auto
next
  case False
  with assms(4) have mid: "midway p p w" by simp
  then have "failAndCompensate orc reason True False None p w = (err, p', w')"
    using assms(1,3) by (auto simp: CompensateStale_def point_defs)
  from failAndCompensate_end [OF this mid] assms(3,5,6) show ?thesis by (auto simp: point_defs money_out_def)
qed

text \<open>Resuming a payment whose money was taken. The one bad end: the ledger, which has the posting, refuses to say so.\<close>

definition resumable :: "('k \<Rightarrow> int) \<Rightarrow> (string \<Rightarrow> string option) \<Rightarrow> Payment \<Rightarrow> 'w \<Rightarrow> bool" where
  "resumable B m p w \<longleftrightarrow> midway p p w \<and> paid_under (py_BankPaymentRef p) m p w \<and> (unbooked_yet B p w \<or> booked_for B p w)"

lemma resume_settled:
  assumes "saga_step5 orc p w = (None, p1, w1)" and "midway p p w" and "paid_under (py_BankPaymentRef p) m p w"
    and "booked_for B p w" and "\<not> money_out m (uc_String (o_codec orc) (py_ID p))"
    and "i_Complete (o_idem orc) key v w1 = (u, w')"
  shows "ended None p1 (py_ID p) B m w'"
proof -
  from assms(4) obtain l where "booked (uc_String (o_codec orc) (py_ID p)) l (led w)" "books l = B" by (auto simp: booked_for_def)
  from step5_end [OF assms(1,2) this] assms(3-5) have e: "ended None p1 (py_ID p) B m w1" by (simp add: booked_for_def paid_under_def)
  then have "inv w1" by (simp add: ended_def)
  from complete_keeps [OF this assms(6)] e show ?thesis by (simp add: ended_def)
qed

lemma resume_end:
  assumes "ResumeFromLedger orc p w = (err, p', w')" and "resumable B m p w" and "\<not> money_out m (uc_String (o_codec orc) (py_ID p))"
  shows "ended err p' (py_ID p) B m w' \<or>
    \<not> unbooked_yet B p w \<and> err \<noteq> None \<and> ended err p' (py_ID p) (\<lambda>k. B k + delta (settlement_lines (o_codec orc) p) k) m w'"
proof -
  let ?rq = "\<lparr>per_PaymentId = uc_String (o_codec orc) (py_ID p),
              per_Description = ''VRP settlement '' @ uc_String (o_codec orc) (py_ID p) @ '' (reconciled)'',
              per_Lines = settlement_lines (o_codec orc) p\<rparr>"
  have mid: "midway p p w" and paid: "paid_under (py_BankPaymentRef p) m p w" using assms(2) by (auto simp: resumable_def)
  then have "inv w" by (simp add: midway_def)
  obtain r w1 where post: "l_PostDoubleEntry (o_ledger orc) ?rq w = (r, w1)" by fastforce
  from post_keeps [OF \<open>inv w\<close> post] have w1: "inv w1" "pay w1 = pay w" "con w1 = con w" "bnk w1 = bnk w" by auto
  then have mid1: "midway p p w1" and paid1: "paid_under (py_BankPaymentRef p) m p w1"
    using mid paid by (simp_all add: midway_def paid_under_def)
  have only: "\<forall>ref. taken (bnk w1) ref = Some (uc_String (o_codec orc) (py_ID p)) \<longrightarrow> ref = py_BankPaymentRef p \<and> ref \<noteq> []"
    using paid1 assms(3) by (auto simp: paid_under_def money_out_def)
  show ?thesis
  proof (cases r)
    case (Inl e)
    then have f: "failAndCompensate orc (''RECONCILIATION_LEDGER_ERROR: '' @ Error_text e) True True (Some (mapDownstreamErr e)) p w1 = (err, p', w')"
      using assms(1) unfolding ResumeFromLedger_def post by simp
    have "books (led w1) = books (led w)" using post_failed [OF \<open>inv w\<close>] post Inl by auto
    then show ?thesis using failAndCompensate_end [OF f mid1] only assms(2)
      by (auto simp: resumable_def unbooked_yet_def booked_for_def)
  next
    case (Inr x)
    have b: "booked_for B p w1"
    proof (cases "unbooked_yet B p w")
      case True
      then show ?thesis using post_new [OF \<open>inv w\<close>, of ?rq x w1] post Inr by (auto simp: unbooked_yet_def booked_for_def)
    next
      case False
      then have "booked_for B p w" using assms(2) by (simp add: resumable_def)
      then show ?thesis using post_again [OF \<open>inv w\<close> post] by (auto simp: booked_for_def)
    qed
    obtain serr p1 w2 where st: "r_SettleWithOutbox (o_repo orc) p w1 = (serr, p1, w2)" by (metis prod.exhaust)
    show ?thesis
    proof (cases serr)
      case None
      obtain u w3 where cp: "i_Complete (o_idem orc) (py_IdempotencyKey p1) (uc_String (o_codec orc) (py_ID p1)) (confirm_step orc p1 w2) = (u, w3)"
        by fastforce
      have "saga_step5 orc p w1 = (None, p1, confirm_step orc p1 w2)" by (simp add: saga_step5_def st None)
      from resume_settled [OF this mid1 paid1 b assms(3) cp]
      show ?thesis using assms(1) unfolding ResumeFromLedger_def post Inr by (simp add: st None cp)
    next
      case (Some e)
      with settled_row [OF w1(1) st] have w2: "p1 = p" "inv w2" "row (pay w2) = row (pay w1)" "con w2 = con w1" "bnk w2 = bnk w1" "led w2 = led w1"
        by auto
      then have "midway p p w2" using mid1 by (simp add: midway_def)
      moreover have "settle_failed orc ''reconciled settle failed'' e p w2 = (err, p', w')"
        using assms(1) unfolding ResumeFromLedger_def post Inr by (simp add: st Some w2(1))
      ultimately show ?thesis using settle_failed_end [of "''reconciled settle failed''" e p w2 err p' w' p _ B p' m] b only w2
        by (auto simp: booked_for_def)
    qed
  qed
qed

section \<open>One stale payment\<close>

definition reconciled :: "('k \<Rightarrow> int) \<Rightarrow> (string \<Rightarrow> string option) \<Rightarrow> saga_point \<Rightarrow> Payment \<Rightarrow> 'w \<Rightarrow> bool" where
  "reconciled B m pt p w' \<longleftrightarrow>
     (\<exists>err p'. ended err p' (py_ID p) B m w') \<or>
     pt \<in> {Authorised, Booked} \<and> at_point B m pt p w' \<or>
     pt = Booked \<and> (\<exists>err p'. ended (Some err) p' (py_ID p) (\<lambda>k. B k + delta (settlement_lines (o_codec orc) p) k) m w')"

lemma reconcile_one_end:
  assumes "at_point B m pt p w" and "in_flight p" and "\<not> unnamed pt" and "\<not> money_out m (uc_String (o_codec orc) (py_ID p))"
  shows "reconciled B m pt p (reconcile_one rw p w)"
proof -
  have "py_Status p \<noteq> StatusSettled" using assms(2) by (simp add: in_flight_def)
  with assms(1,3) consider (cancel) "py_BankPaymentRef p = []" "unpaid_yet m p w" "unbooked_yet B p w" "pt = Started \<or> midway p p w"
    | (resume) "pt \<in> {Authorised, Booked}" "py_BankPaymentRef p \<noteq> []" "resumable B m p w" "pt = Authorised \<longrightarrow> unbooked_yet B p w"
    by (cases pt) (auto simp: resumable_def unpaid_yet_def paid_under_def)
  then show ?thesis
  proof cases
    case cancel
    obtain err p' w' where c: "CompensateStale orc ''RECONCILIATION_TIMEOUT'' p w = (err, p', w')" by (metis prod.exhaust)
    with cancel_end [OF c assms(1) cancel(2,4,3) assms(4)] cancel(1) show ?thesis
      by (auto simp: reconcile_one_def reconciled_def worker)
  next
    case resume
    then have i: "inv w" and paid: "paid_under (py_BankPaymentRef p) m p w" by (auto simp: resumable_def midway_def)
    let ?sq = "\<lparr>stq_BankPaymentRef = py_BankPaymentRef p\<rparr>"
    obtain r w1 where q: "b_GetPaymentStatus (rw_bank rw) ?sq w = (r, w1)" by fastforce
    note k = status_keeps [OF i q]
    have same: "at_point B m pt p w1" "resumable B m p w1" "unbooked_yet B p w1 = unbooked_yet B p w"
      using k assms(1) resume(1,3) by (auto simp: point_defs resumable_def)
    show ?thesis
    proof (cases r)
      case (Inl e)
      with q resume(2) same(1) resume(1) show ?thesis by (simp add: reconcile_one_def reconciled_def)
    next
      case (Inr resp)
      obtain err p' w' where c: "ResumeFromLedger orc p w1 = (err, p', w')" by (metis prod.exhaust)
      have "sts_Status resp = Bank_SETTLED" using status_answer [OF i] q Inr paid by (simp add: paid_under_def)
      then have "reconcile_one rw p w = w'" using q Inr resume(2) c by (simp add: reconcile_one_def worker)
      with resume_end [OF c same(2) assms(4)] same(3) resume(1,4) show ?thesis by (auto simp: reconciled_def)
    qed
  qed
qed

section \<open>The worker is done with the payment\<close>

text \<open>A mark reaches the row, unless the store failed; the reason is the worker's own.\<close>

definition closed_out :: "uuid \<Rightarrow> 'w \<Rightarrow> bool" where
  "closed_out i w \<longleftrightarrow> (\<exists>x. row (pay w) i = Some x \<and> py_Status x \<in> {StatusSettled, StatusFailed, StatusManualReview})"

definition blamed :: "bool \<Rightarrow> uuid \<Rightarrow> 'w \<Rightarrow> bool" where
  "blamed healthy i w \<longleftrightarrow> (healthy \<longrightarrow> closed_out i w) \<and>
     (\<forall>x. row (pay w) i = Some x \<longrightarrow> py_Status x = StatusFailed \<longrightarrow> py_FailureReason x \<noteq> ''persist bank failed'')"

lemma mark_failed_blamed:
  assumes "r_MarkFailed (o_repo orc) reason p w = (err, p', w')" and "inv w" and "row (pay w) (py_ID p) = Some q" and "in_flight q"
    and "reason \<noteq> ''persist bank failed''"
  shows "blamed (up (pay w)) (py_ID p) w'"
  using failed_row [OF assms(2,1)] up_failed [OF assms(2) _ assms(1,3)] assms(3-5)
  by (auto simp: blamed_def closed_out_def row_written_def in_flight_def marked_def)

lemma mark_review_blamed:
  assumes "r_MarkManualReview (o_repo orc) reason p w = (err, p', w')" and "inv w" and "row (pay w) (py_ID p) = Some q" and "in_flight q"
  shows "blamed (up (pay w)) (py_ID p) w'"
  using review_row [OF assms(2,1)] up_review [OF assms(2) _ assms(1,3)] assms(3,4)
  by (auto simp: blamed_def closed_out_def row_written_def in_flight_def marked_def)

lemma failAndCompensate_blamed:
  assumes "failAndCompensate orc reason True rb ret p w = (err, p', w')" and "midway p p w" and "reason \<noteq> ''persist bank failed''"
  shows "blamed (up (pay w)) (py_ID p) w'"
proof -
  from assms(2) obtain rid where p: "inv w" "row (pay w) (py_ID p) = Some p" "in_flight p"
    "py_ReservationID p = Some rid" "owner (con w) rid = Some (py_ID p)" by (auto simp: midway_def)
  obtain cerr w1 where c: "compensate orc p reason True rb w = (cerr, w1)" by fastforce
  from compensate_effect [OF c p(1,4,5)] have w1: "inv w1" "pay w1 = pay w" by auto
  show ?thesis
  proof (cases cerr)
    case None
    obtain e p1 w2 where f: "r_MarkFailed (o_repo orc) reason p w1 = (e, p1, w2)" by (metis prod.exhaust)
    have "w' = w2" using assms(1) by (auto simp: failAndCompensate_def c None f)
    with mark_failed_blamed [OF f w1(1) _ p(3) assms(3)] w1(2) p(2) show ?thesis by simp
  next
    case (Some x)
    obtain e p1 w2 where f: "r_MarkManualReview (o_repo orc) (reason @ ''; compensate failed: '' @ Error_text x) p w1 = (e, p1, w2)"
      by (metis prod.exhaust)
    have "w' = w2" using assms(1) unfolding failAndCompensate_def c Some prod.case option.case f by auto
    with mark_review_blamed [OF f w1(1) _ p(3)] w1(2) p(2) show ?thesis by simp
  qed
qed

lemma settle_failed_blamed:
  assumes "settle_failed orc what e0 p w = (err, p', w')" and "midway p p w"
  shows "blamed (up (pay w)) (py_ID p) w'"
proof -
  from assms(2) obtain rid where p: "inv w" "row (pay w) (py_ID p) = Some p" "in_flight p"
    "py_ReservationID p = Some rid" "owner (con w) rid = Some (py_ID p)" by (auto simp: midway_def)
  let ?rv = "\<lparr>lrr_PaymentId = uc_String (o_codec orc) (py_ID p), lrr_Reason = what\<rparr>"
  obtain v w1 where rv: "l_ReverseEntry (o_ledger orc) ?rv w = (v, w1)" by fastforce
  from unpost_keeps [OF p(1) rv] have w1: "inv w1" "pay w1 = pay w" "con w1 = con w" by auto
  obtain cerr w2 where c: "compensate orc p what True True w1 = (cerr, w2)" by fastforce
  have w2: "inv w2" "pay w2 = pay w" using compensate_effect [OF c w1(1) p(4)] p(5) w1 by auto
  obtain ferr where f: "compensateFull orc p what w = (ferr, w2)"
    by (cases v; cases cerr) (auto simp: compensateFull_def Let_def rv c)
  show ?thesis
  proof (cases ferr)
    case None
    obtain e p1 w3 where m: "r_MarkFailed (o_repo orc) (''SETTLE_FAILED: '' @ Error_text e0) p w2 = (e, p1, w3)" by (metis prod.exhaust)
    have "w' = w3" using assms(1) unfolding settle_failed_def f None prod.case option.case m by auto
    with mark_failed_blamed [OF m w2(1) _ p(3)] w2(2) p(2) show ?thesis by simp
  next
    case (Some x)
    obtain e p1 w3 where m: "r_MarkManualReview (o_repo orc) (what @ ''; compensate failed: '' @ Error_text x) p w2 = (e, p1, w3)"
      by (metis prod.exhaust)
    have "w' = w3" using assms(1) unfolding settle_failed_def f Some prod.case option.case m by auto
    with mark_review_blamed [OF m w2(1) _ p(3)] w2(2) p(2) show ?thesis by simp
  qed
qed

lemma cancel_blamed:
  assumes "at_point B m pt p w" and "unpaid_yet m p w" and "pt = Started \<or> midway p p w" and "reason \<noteq> ''persist bank failed''"
  shows "blamed (up (pay w)) (py_ID p) (snd (snd (CompensateStale orc reason p w)))"
proof (cases "pt = Started")
  case True
  then have s: "py_ReservationID p = None" "py_BankPaymentRef p = []" "inv w" "row (pay w) (py_ID p) = Some p" "in_flight p"
    and c: "compensate orc p reason False False w = (None, w)"
    using assms(1) by (auto simp: point_defs compensate_def)
  obtain e p1 w1 where f: "r_MarkFailed (o_repo orc) reason p w = (e, p1, w1)" by (metis prod.exhaust)
  with mark_failed_blamed [OF f s(3-5) assms(4)] s c show ?thesis by (simp add: CompensateStale_def failAndCompensate_def)
next
  case False
  with assms(3) have mid: "midway p p w" by simp
  obtain err p' w' where "CompensateStale orc reason p w = (err, p', w')" by (metis prod.exhaust)
  moreover from this have "failAndCompensate orc reason True False None p w = (err, p', w')"
    using assms(2) mid by (auto simp: CompensateStale_def point_defs)
  ultimately show ?thesis using failAndCompensate_blamed [OF _ mid assms(4)] by simp
qed

lemma resume_blamed:
  assumes "ResumeFromLedger orc p w = (err, p', w')" and "resumable B m p w"
    and "\<not> money_out m (uc_String (o_codec orc) (py_ID p))"
  shows "blamed (up (pay w)) (py_ID p) w'"
proof -
  let ?rq = "\<lparr>per_PaymentId = uc_String (o_codec orc) (py_ID p),
              per_Description = ''VRP settlement '' @ uc_String (o_codec orc) (py_ID p) @ '' (reconciled)'',
              per_Lines = settlement_lines (o_codec orc) p\<rparr>"
  have mid: "midway p p w" using assms(2) by (simp add: resumable_def)
  then have "inv w" by (simp add: midway_def)
  obtain r w1 where post: "l_PostDoubleEntry (o_ledger orc) ?rq w = (r, w1)" by fastforce
  from post_keeps [OF \<open>inv w\<close> post] have w1: "inv w1" "pay w1 = pay w" "con w1 = con w" by auto
  then have mid1: "midway p p w1" using mid by (simp add: midway_def)
  show ?thesis
  proof (cases r)
    case (Inl e)
    then have "failAndCompensate orc (''RECONCILIATION_LEDGER_ERROR: '' @ Error_text e) True True (Some (mapDownstreamErr e)) p w1 = (err, p', w')"
      using assms(1) unfolding ResumeFromLedger_def post by simp
    from failAndCompensate_blamed [OF this mid1] w1(2) show ?thesis by simp
  next
    case (Inr x)
    obtain serr p1 w2 where st: "r_SettleWithOutbox (o_repo orc) p w1 = (serr, p1, w2)" by (metis prod.exhaust)
    show ?thesis
    proof (cases serr)
      case None
      then have "err = None" using assms(1) unfolding ResumeFromLedger_def post Inr by (simp add: st)
      with resume_end [OF assms] show ?thesis by (auto simp: ended_def settled_once_def closed_out_def blamed_def)
    next
      case (Some e)
      with settled_row [OF w1(1) st] have w2: "p1 = p" "inv w2" "row (pay w2) = row (pay w1)" "con w2 = con w1" by auto
      have "settle_failed orc ''reconciled settle failed'' e p w2 = (err, p', w')"
        using assms(1) unfolding ResumeFromLedger_def post Inr by (simp add: st Some w2(1))
      moreover have "midway p p w2" using mid1 w2 by (simp add: midway_def)
      ultimately have "blamed (up (pay w2)) (py_ID p) w'" using settle_failed_blamed by blast
      then show ?thesis using up_settle [OF _ st] w1(2) by (auto simp: blamed_def)
    qed
  qed
qed

text \<open>The bank answered, or needs not be asked.\<close>

definition answered :: "Payment \<Rightarrow> 'w \<Rightarrow> bool" where
  "answered p w \<longleftrightarrow> py_BankPaymentRef p = [] \<or> \<not> isl (fst (b_GetPaymentStatus (rw_bank rw) \<lparr>stq_BankPaymentRef = py_BankPaymentRef p\<rparr> w))"

lemma reconcile_one_blamed:
  assumes "at_point B m pt p w" and "in_flight p" and "\<not> unnamed pt" and "\<not> money_out m (uc_String (o_codec orc) (py_ID p))"
  shows "blamed (up (pay w) \<and> answered p w) (py_ID p) (reconcile_one rw p w)"
proof (cases "py_BankPaymentRef p = []")
  case True
  with assms(1-3) have "unpaid_yet m p w" "pt = Started \<or> midway p p w"
    by (cases pt; simp add: paid_under_def in_flight_def)+
  from cancel_blamed [OF assms(1) this, of "''RECONCILIATION_TIMEOUT''"] True show ?thesis by (auto simp: reconcile_one_def worker blamed_def)
next
  case False
  with assms(1-3) have "pt \<in> {Authorised, Booked}" "resumable B m p w"
    by (cases pt; auto simp: unpaid_yet_def in_flight_def resumable_def)+
  then have i: "inv w" "row (pay w) (py_ID p) = Some p" and paid: "paid_under (py_BankPaymentRef p) m p w"
    by (auto simp: resumable_def midway_def)
  obtain r w1 where q: "b_GetPaymentStatus (rw_bank rw) \<lparr>stq_BankPaymentRef = py_BankPaymentRef p\<rparr> w = (r, w1)" by fastforce
  note k = status_keeps [OF i(1) q]
  show ?thesis
  proof (cases r)
    case (Inl e)
    then have "reconcile_one rw p w = w1" using q False by (simp add: reconcile_one_def)
    with k i(2) assms(2) q Inl False show ?thesis by (auto simp: blamed_def answered_def in_flight_def)
  next
    case (Inr resp)
    have "resumable B m p w1" using k \<open>resumable B m p w\<close> by (auto simp: point_defs resumable_def)
    moreover have "sts_Status resp = Bank_SETTLED" using status_answer [OF i(1)] q Inr paid by (simp add: paid_under_def)
    moreover obtain err p' w' where c: "ResumeFromLedger orc p w1 = (err, p', w')" by (metis prod.exhaust)
    ultimately have "reconcile_one rw p w = w'" "blamed (up (pay w1)) (py_ID p) w'"
      using q Inr False resume_blamed [OF c _ assms(4)] by (simp_all add: reconcile_one_def worker)
    then show ?thesis using k by (auto simp: blamed_def)
  qed
qed

end

end
