(* ===== verification/Recovery_Correct.thy ===== *)
theory Recovery_Correct
  imports Recovery Platform_Correct
begin

text \<open>
  Crash recovery on the platform: the worker as \<open>services/payment-svc/cmd/main.go\<close> wires it, the interpretation of the
  recovery contract on the services' models, and what a pass of the worker makes of a payment whose saga died at any of its
  points. The points that recovery does not cover, and a saga that is only slow, are shown on the concrete platform.
\<close>

section \<open>The worker of the platform\<close>

definition platform_worker :: "'c bank_lib \<Rightarrow> uuid_codec \<Rightarrow> int \<Rightarrow> int \<Rightarrow> 'c platform ReconciliationWorker" where
  "platform_worker lib cdc interval staleAfter =
     NewReconciliationWorker (\<lambda>d. on_pay (ListStaleInFlightPayments d)) (platform_orc lib cdc) (o_bank (platform_orc lib cdc))
       interval staleAfter"

lemma worker_bank: "rw_bank (platform_worker lib cdc interval staleAfter) = o_bank (platform_orc lib cdc)"
  by (simp add: platform_worker_def NewReconciliationWorker_def)

definition bank_cleared :: "'c bank_db \<Rightarrow> string \<Rightarrow> bool" where
  "bank_cleared s ref =
     (case bk_payments s ref of None \<Rightarrow> False | Some rec \<Rightarrow> bank_mapStatus (mb_Status rec) = Inr Bank_SETTLED)"

lemma adapter_Status_calm:
  assumes "bank_lib_ok lib" and "bank_calm s" and "adapter_GetPaymentStatus lib req s = (r, s')"
  shows "bk_payments s' = bk_payments s \<and>
    (\<forall>resp. r = Inr resp \<longrightarrow> sts_Status resp = Bank_SETTLED \<longleftrightarrow> bank_cleared s (stq_BankPaymentRef req))"
proof (cases "stq_BankPaymentRef req = []")
  case True
  with assms(3) show ?thesis by (auto simp: adapter_GetPaymentStatus_def)
next
  case False
  with assms(3) have c: "bank_call lib (GET_payment (stq_BankPaymentRef req))
             (\<lambda>out status t. \<lparr>sts_BankPaymentRef = bb_BankPaymentRef out, sts_Status = status,
                sts_UpdatedAt = (case bb_UpdatedAt out of Some u \<Rightarrow> u | None \<Rightarrow> t)\<rparr>) s = (r, s')"
    by (simp add: adapter_GetPaymentStatus_def)
  have h: "t1 = t \<and> (\<forall>c b. resp = writeJSON c b \<longrightarrow> (\<exists>rec. bk_payments t (stq_BankPaymentRef req) = Some rec \<and> bb_Status b = mb_Status rec))"
    if "mock_Handler (GET_payment (stq_BankPaymentRef req)) t = (resp, t1)" "bank_quiet s t" for t resp t1
    using handleStatus_calm [of t "stq_BankPaymentRef req" resp t1] that calm_quiet [OF that(2) assms(2)] by simp
  from assms(1,2) c show ?thesis
  proof (cases rule: bank_call_calm)
    case (none e)
    then show ?thesis using bank_quiet_payments [OF none(2)] by simp
  next
    case (refused e t k msg t1)
    then show ?thesis using h [OF refused(3,2)] bank_quiet_payments [OF refused(2)] bank_quiet_payments [OF refused(4)] by simp
  next
    case (served t k b t1)
    from h [OF served(2,1)] obtain rec where t: "t1 = t" "bk_payments t (stq_BankPaymentRef req) = Some rec" "bb_Status b = mb_Status rec" by auto
    have "sts_Status resp = Bank_SETTLED \<longleftrightarrow> bank_mapStatus (mb_Status rec) = Inr Bank_SETTLED" if "r = Inr resp" for resp
      using served(4,5) that t(3) by (cases "bank_mapStatus (mb_Status rec)") auto
    with t bank_quiet_payments [OF served(1)] bank_quiet_payments [OF served(3)] show ?thesis by (simp add: bank_cleared_def)
  qed
qed

lemma cleared_same: "bk_payments s' = bk_payments s \<Longrightarrow> bank_cleared s' = bank_cleared s"
  by (simp add: fun_eq_iff bank_cleared_def)

lemma initiate_cleared:
  assumes "bank_lib_ok lib" and "bank_calm s" and "adapter_InitiatePayment lib rq s = (Inr resp, s')"
  shows "bank_cleared s' (irs_BankPaymentRef resp)"
  using assms by (cases rule: adapter_Initiate_calm) (auto simp: bank_cleared_def)

section \<open>The contract on the platform\<close>

text \<open>The payment database without faults: a mark reaches the row.\<close>

lemma update_with_event_rows:
  assumes "script s = []" and "update_with_event what f to reason meta g p s = (err, p', s')"
  shows "payments s' = update_where (\<lambda>t. pt_id t = py_ID p) f (payments s)"
proof -
  obtain e t where "insertEvent False (py_ID p) (py_Status p) to reason meta
      (s\<lparr>payments := update_where (\<lambda>t. pt_id t = py_ID p) f (payments s)\<rparr>) = (e, t)" by fastforce
  with insertEvent_effect [OF this] assms show ?thesis
    by (auto simp: update_with_event_def update_payment_def logs_def split: option.splits)
qed

lemma mark_row:
  assumes "script s = []" and "MarkFailed reason p s = (err, p', s') \<and> st = StatusFailed \<or> MarkManualReview reason p s = (err, p', s') \<and> st = StatusManualReview"
    and "prow s (py_ID p) = Some q"
  shows "\<exists>x. prow s' (py_ID p) = Some x \<and> py_Status x = st"
proof -
  have "payments s' = update_where (\<lambda>t. pt_id t = py_ID p) (\<lambda>t. t\<lparr>pt_status := st, pt_failure := Some reason, pt_updated := now s\<rparr>) (payments s)"
    using assms(2) update_with_event_rows [OF assms(1)] by (auto simp: MarkFailed_def MarkManualReview_def)
  then have "row_by pt_id (py_ID p) (payments s') =
      map_option (\<lambda>t. t\<lparr>pt_status := st, pt_failure := Some reason, pt_updated := now s\<rparr>) (row_by pt_id (py_ID p) (payments s))"
    by (simp add: row_by_update_key)
  with assms(3) show ?thesis by (auto simp: prow_def scanPayment_def)
qed

lemma script_tx_call:
  assumes "tx_call f s = (r, s')" and "script s = []" and "script (snd (f s)) = []"
  shows "script s' = []"
  using assms by (cases "f s"; cases "fst (f s)") (auto simp: tx_call_def split: if_splits)

lemma settle_script:
  assumes "script s = []" and "SettleWithOutbox p s = (err, p', s')"
  shows "script s' = []"
proof -
  have u: "script (snd (update_payment P f t)) = script t" for P f t by (simp add: update_payment_def)
  have o: "script (snd (insert_outbox r t)) = script t" for r t by (simp add: insert_outbox_def)
  have v: "script (snd (event_row j i a b c d t)) = script t" for j i a b c d t by (simp add: event_row_def)
  have e: "script t' = []" if "insertEvent True i a b c d t = (x, t')" "script t = []" for i a b c d t x t'
  proof -
    obtain r t1 where c: "tx_call (event_row (fst (fresh_uuid t)) i a b c d) (snd (fresh_uuid t)) = (r, t1)" by fastforce
    then have "t' = t1" using that(1) by (simp add: insertEvent_def wrap_event_def Let_def case_prod_beta)
    with script_tx_call [OF c] show ?thesis using that(2) by (simp add: v fresh_uuid_def)
  qed
  have st: "script t' = []" if c: "settle_statements p t = (x, t')" "script t = []" for t x t'
  proof -
    let ?u = "update_payment (\<lambda>r. pt_id r = py_ID p)
             (\<lambda>r. r\<lparr>pt_status := StatusSettled, pt_settled := Some (now t), pt_updated := now t, pt_failure := None\<rparr>)"
    obtain q1 t1 where 1: "tx_call ?u t = (q1, t1)" by fastforce
    with script_tx_call [OF 1] c(2) u have s1: "script t1 = []" by simp
    obtain q2 t2 where 2: "insertEvent True (py_ID p) (py_Status p) StatusSettled ''payment settled'' meta_none t1 = (q2, t2)" by fastforce
    with e s1 have s2: "script t2 = []" by blast
    then have s3: "script (snd (fresh_uuid t2)) = []" by (simp add: fresh_uuid_def)
    have s4: "script (snd (tx_call (insert_outbox row) (snd (fresh_uuid t2)))) = []" for row
      using script_tx_call [of "insert_outbox row" "snd (fresh_uuid t2)"] s3 o by (metis prod.collapse)
    show ?thesis using c(1) 1 2 s1 s2 s4 unfolding settle_statements_def
      by (cases q1; cases q2) (auto simp: Let_def case_prod_beta split: sum.splits)
  qed
  obtain x t where c: "settle_statements p (s\<lparr>aborted := False\<rparr>) = (x, t)" by fastforce
  with st assms(1) have "script t = []" by simp
  with assms c show ?thesis
    by (auto simp: SettleWithOutbox_def commit_tx_def rollback_to_def split: prod.splits option.splits sum.splits if_splits)
qed

interpretation vrpr: recovery_world "platform_orc lib cdc" "platform_inv lib cdc" pl_pay pl_con pl_bank pl_led prow
    hold_of hold_owner bank_taken sum_balance unbooked booked_from posting_delta
    "platform_worker lib cdc interval staleAfter" bank_cleared "\<lambda>s. script s = []"
  for lib :: "'c bank_lib" and cdc :: uuid_codec and interval staleAfter :: int
proof (unfold_locales, goal_cases)
  case 1
  show ?case by (simp add: platform_worker_def NewReconciliationWorker_def)
next
  case (2 w rq resp w')
  note b = platform_bank [OF 2(1)]
  from 2(2) have "rpc_call (on_bank (adapter_InitiatePayment lib rq)) w = (Inr resp, w')" by (simp add: platform_orc_def)
  then show ?case using 2(1) by (rule on_bank_cases) (use adapter_keeps_calm [OF b] initiate_cleared [OF b] in auto)
next
  case (3 w sq reply w')
  note b = platform_bank [OF 3(1)]
  from 3(2) have "rpc_call (on_bank (adapter_GetPaymentStatus lib sq)) w = (reply, w')"
    by (simp add: platform_worker_def NewReconciliationWorker_def platform_orc_def)
  then show ?case using 3(1)
    by (rule on_bank_cases) (use adapter_keeps_calm [OF b] adapter_Status_calm [OF b] in \<open>auto intro!: bank_taken_same cleared_same\<close>)
next
  case (4 w sq answer w')
  note b = platform_bank [OF 4(1)]
  from 4(2) have "rpc_call (on_bank (adapter_GetPaymentStatus lib sq)) w = (Inr answer, w')"
    by (simp add: platform_worker_def NewReconciliationWorker_def platform_orc_def)
  then show ?case using 4(1)
    by (rule on_bank_cases) (use adapter_keeps_calm [OF b] adapter_Status_calm [OF b] in auto)
next
  case (5 w key v u w')
  let ?s = "snd (idem_Complete key v (pl_pay w))"
  have "w' = w\<lparr>pl_pay := ?s\<rparr>" using 5(2) by (auto simp: platform_orc_def on_pay_def split: prod.splits)
  moreover have "same_rows (pl_pay w) ?s" by (simp add: same_rows_idem) (simp add: same_rows_def)
  ultimately show ?case using 5(1) by (auto simp: platform_inv_def same_rows_def payment_wf_def prow_def fun_eq_iff)
next
  case (6 w p err p' w')
  then show ?case using settle_script by (auto simp: platform_orc_def elim!: upd_pay_cases)
next
  case (7 w reason p err p' w' q)
  then show ?case using mark_row [of "pl_pay w" reason p err p' _ StatusFailed] by (auto simp: platform_orc_def elim!: upd_pay_cases)
next
  case (8 w reason p err p' w' q)
  then show ?case using mark_row [of "pl_pay w" reason p err p' _ StatusManualReview] by (auto simp: platform_orc_def elim!: upd_pay_cases)
qed

section \<open>Recovery\<close>

text \<open>What the row of a payment says about the rest of the platform, for a saga that began in \<open>w\<close>.\<close>

definition accounted :: "uuid_codec \<Rightarrow> uuid \<Rightarrow> 'c platform \<Rightarrow> 'c platform \<Rightarrow> bool \<Rightarrow> bool" where
  "accounted cdc i w w' maybe_booked \<longleftrightarrow>
     (\<exists>x. prow (pl_pay w') i = Some x \<and>
       (py_Status x = StatusSettled \<longrightarrow>
          hold_of (pl_con w') i \<in> {Holding, Settled} \<and>
          bank_taken (pl_bank w') = (bank_taken (pl_bank w))(py_BankPaymentRef x \<mapsto> uc_String cdc i) \<and>
          sum_balance (pl_led w') = (\<lambda>k. sum_balance (pl_led w) k + posting_delta (settlement_lines cdc x) k)) \<and>
       (py_Status x = StatusFailed \<longrightarrow>
          hold_of (pl_con w') i \<notin> {Holding, Settled} \<and> \<not> money_out (bank_taken (pl_bank w')) (uc_String cdc i) \<and>
          (sum_balance (pl_led w') = sum_balance (pl_led w) \<or> maybe_booked)))"

definition fresh_start :: "uuid_codec \<Rightarrow> Payment \<Rightarrow> 'c platform \<Rightarrow> bool" where
  "fresh_start cdc p w \<longleftrightarrow> unstarted cdc p w \<and> py_BankPaymentRef p = [] \<and> py_ReservationID p = None"

lemma crash_point:
  assumes "platform_inv lib cdc w" and "fresh_start cdc p w" and "saga_runs (platform_orc lib cdc) (Started, p, w) (pt, p', w')"
  shows "vrpr.at_point lib cdc (sum_balance (pl_led w)) (bank_taken (pl_bank w)) pt p' w' \<and> py_ID p' = py_ID p"
proof -
  have "o_codec (platform_orc lib cdc) = cdc" by (simp add: platform_orc_def)
  then have "vrpr.at_point lib cdc (sum_balance (pl_led w)) (bank_taken (pl_bank w)) Started p w"
    using assms(1,2) by (simp add: fresh_start_def unstarted_def vrpr.unbooked_yet_def vrpr.unpaid_yet_def)
  from vrpr.at_point_run [OF assms(3) this] show ?thesis .
qed



section \<open>Crashes of the concrete payment\<close>

text \<open>The platform after \<open>n\<close> calls of the saga; \<open>fs\<close> are the faults of the gRPC calls, the worker's included.\<close>

definition vrp_crash :: "nat \<Rightarrow> rpc_fault option list \<Rightarrow> (saga_point \<times> Payment \<times> nat platform) option" where
  "vrp_crash n fs = saga_after n (platform_orc std_lib unary_codec) (Started, vrp_p, vrp_w fs [])"

abbreviation vrp_worker :: "nat platform ReconciliationWorker" where
  "vrp_worker \<equiv> platform_worker std_lib unary_codec 0 0"

lemma vrp_crashed:
  assumes "vrp_crash n fs = Some (pt, p, w)"
  shows "saga_runs (platform_orc std_lib unary_codec) (Started, vrp_p, vrp_w fs []) (pt, p, w)"
  using assms saga_after_runs by (simp add: vrp_crash_def)

lemma vrp_fresh: "fresh_start unary_codec vrp_p (vrp_w fs ds)"
  using vrp_unstarted by (simp add: fresh_start_def vrp_p_def pay_new_def)





end
