(* ===== verification/Platform_Types.thy ===== *)
theory Platform_Types
  imports Recovery_Correct Gateway_Platform
begin

text \<open>
  The tables of the platform stay well typed, whatever happens: every payment, reservation, consent, usage, account, entry
  and line keeps the constraints of the schemas (\<open>migrations/\<close>: enumerations, unique keys, references, positive amounts)
  and the books stay balanced, under any sequence of requests, retries, passes of the worker and calls of the
  single services, with any pattern of database errors, lost requests and lost responses, and whatever the bank does.
  \<^item> \<open>safe_calls\<close> is the contract: every call of the orchestrator keeps the invariant. Inside it, whole sagas, requests and
    passes of the worker do.
  \<^item> The interpretation \<open>typed\<close> has the services' own tables as the invariant.
\<close>

section \<open>Calls that keep an invariant\<close>

locale safe_calls =
  fixes orc :: "'w Orchestrator" and inv :: "'w \<Rightarrow> bool"
  assumes create: "inv w \<Longrightarrow> blank p \<Longrightarrow> py_Status p = StatusInitiated \<Longrightarrow> inv (snd (snd (r_CreatePayment (o_repo orc) p w)))"
    and rows: "inv w \<Longrightarrow> inv (snd (r_GetByID (o_repo orc) i w))" "inv w \<Longrightarrow> inv (snd (r_GetByIdempotencyKey (o_repo orc) k w))"
    and updates: "inv w \<Longrightarrow> inv (snd (snd (r_UpdateAfterConsent (o_repo orc) i t p w)))"
      "inv w \<Longrightarrow> inv (snd (snd (r_UpdateAfterRisk (o_repo orc) n t p w)))"
      "inv w \<Longrightarrow> inv (snd (snd (r_UpdateAfterBank (o_repo orc) t p w)))"
      "inv w \<Longrightarrow> inv (snd (snd (r_SettleWithOutbox (o_repo orc) p w)))"
      "inv w \<Longrightarrow> inv (snd (snd (r_MarkFailed (o_repo orc) t p w)))"
      "inv w \<Longrightarrow> inv (snd (snd (r_MarkManualReview (o_repo orc) t p w)))"
      "inv w \<Longrightarrow> inv (snd (snd (r_ResetForRetry (o_repo orc) p w)))"
    and idem: "inv w \<Longrightarrow> inv (snd (i_Begin (o_idem orc) k w))" "inv w \<Longrightarrow> inv (snd (i_Complete (o_idem orc) k v w))"
      "inv w \<Longrightarrow> inv (snd (i_Release (o_idem orc) k w))" "inv w \<Longrightarrow> inv (snd (i_WaitForCompletion (o_idem orc) k n w))"
    and consent: "inv w \<Longrightarrow> inv (snd (c_ValidateAndReserve (o_consent orc) rq w))"
      "inv w \<Longrightarrow> inv (snd (c_ConfirmReservation (o_consent orc) cf w))" "inv w \<Longrightarrow> inv (snd (c_ReleaseReservation (o_consent orc) rl w))"
    and risk: "inv w \<Longrightarrow> inv (snd (k_Score (o_risk orc) sq w))"
    and bank: "inv w \<Longrightarrow> inv (snd (b_InitiatePayment (o_bank orc) iq w))" "inv w \<Longrightarrow> inv (snd (b_GetPaymentStatus (o_bank orc) tq w))"
      "inv w \<Longrightarrow> inv (snd (b_ReversePayment (o_bank orc) vq w))"
    and ledger: "inv w \<Longrightarrow> inv (snd (l_PostDoubleEntry (o_ledger orc) pq w))" "inv w \<Longrightarrow> inv (snd (l_ReverseEntry (o_ledger orc) rv w))"
    and new_id: "inv w \<Longrightarrow> inv (snd (o_NewUUID orc w))"
begin

lemmas calls = rows updates idem consent risk bank ledger new_id

lemma compensate_keeps: "inv w \<Longrightarrow> inv (snd (compensate orc p reason rc rb w))"
  by (simp add: compensate_def Let_def case_prod_beta calls split: option.split sum.split)

lemma compensateFull_keeps: "inv w \<Longrightarrow> inv (snd (compensateFull orc p reason w))"
  by (simp add: compensateFull_def Let_def case_prod_beta calls compensate_keeps split: option.split sum.split)

lemma failAndCompensate_keeps: "inv w \<Longrightarrow> inv (snd (snd (failAndCompensate orc reason rc rb ret p w)))"
  by (simp add: failAndCompensate_def case_prod_beta calls compensate_keeps split: option.split)

lemma settle_failed_keeps: "inv w \<Longrightarrow> inv (snd (snd (settle_failed orc what e p w)))"
  by (simp add: settle_failed_def case_prod_beta calls compensateFull_keeps split: option.split)

lemma confirm_keeps: "inv w \<Longrightarrow> inv (confirm_step orc p w)"
  by (simp add: confirm_step_def calls split: option.split)

lemmas step_keeps = calls compensate_keeps failAndCompensate_keeps settle_failed_keeps confirm_keeps

lemma step5_keeps: "inv w \<Longrightarrow> inv (snd (snd (saga_step5 orc p w)))"
  by (simp add: saga_step5_def case_prod_beta step_keeps split: option.split)

lemma step4_keeps: "inv w \<Longrightarrow> inv (snd (snd (saga_step4 orc p w)))"
  by (simp add: saga_step4_def case_prod_beta step_keeps step5_keeps split: sum.split)

lemma step3_keeps: "inv w \<Longrightarrow> inv (snd (snd (saga_step3 orc cref p w)))"
  by (simp add: saga_step3_def case_prod_beta Let_def step_keeps step4_keeps split: sum.split option.split)

lemma step2_keeps: "inv w \<Longrightarrow> inv (snd (snd (saga_step2 orc cref p w)))"
  by (simp add: saga_step2_def case_prod_beta step_keeps step3_keeps split: sum.split option.split)

lemma refused_keeps: "inv w \<Longrightarrow> inv (snd (snd (consent_refused orc e p w)))"
  by (simp add: consent_refused_def case_prod_beta step_keeps split: option.split)

lemma runSaga_keeps: "inv w \<Longrightarrow> inv (snd (snd (runSaga orc p w)))"
  by (simp add: runSaga_def case_prod_beta Let_def step_keeps step2_keeps refused_keeps split: sum.split option.split)

lemma resume_keeps: "inv w \<Longrightarrow> inv (snd (snd (ResumeFromLedger orc p w)))"
  by (simp add: ResumeFromLedger_def case_prod_beta step_keeps split: sum.split option.split)

lemma cancel_keeps: "inv w \<Longrightarrow> inv (snd (snd (CompensateStale orc reason p w)))"
  by (simp add: CompensateStale_def step_keeps)

lemma ret_res_snd: "snd (snd (ret_res x)) = snd x"
  by (simp add: ret_res_def case_prod_beta split: sum.split)

lemma retry_keeps: "inv w \<Longrightarrow> inv (snd (snd (initiate_retry orc existing w)))"
  by (simp add: initiate_retry_def case_prod_beta step_keeps runSaga_keeps ret_res_snd split: sum.split option.split)

lemma other_keeps: "inv w \<Longrightarrow> inv (snd (snd (initiate_other orc key completed w)))"
  by (simp add: initiate_other_def case_prod_beta step_keeps ret_res_snd split: sum.split option.split)

lemma owner_keeps:
  assumes "inv w" and "validateInitiate inp = None"
  shows "inv (snd (snd (initiate_owner orc inp w)))"
proof -
  have "blank \<lparr>py_ID = i, py_IdempotencyKey = key, py_MerchantID = m, py_ConsentID = c,
                  py_ConsumerID = [], py_AmountPence = in_AmountPence inp,
                  py_Currency = ToUpper (TrimSpace (in_Currency inp)), py_Status = StatusInitiated,
                  py_BankPaymentRef = [], py_ReservationID = None, py_RiskScore = None, py_RiskDecision = [],
                  py_FailureReason = [], py_Description = in_Description inp, py_InitiatedAt = zero_time,
                  py_SettledAt = None, py_UpdatedAt = zero_time\<rparr>" for i key m c
    using assms(2) by (auto simp: blank_def validateInitiate_def split: if_splits)
  then show ?thesis using assms(1)
    by (simp add: initiate_owner_def case_prod_beta Let_def step_keeps runSaga_keeps create split: sum.split option.split)
qed

lemma Initiate_keeps: "inv w \<Longrightarrow> inv (snd (snd (Initiate orc inp w)))"
  by (simp add: Initiate_def case_prod_beta step_keeps retry_keeps other_keeps owner_keeps split: sum.split option.split)

lemma reply_snd: "snd (saga_reply c x) = snd (snd x)"
  by (simp add: saga_reply_def case_prod_beta)

lemma rpc_Initiate_keeps: "h_orch h = orc \<Longrightarrow> inv w \<Longrightarrow> inv (snd (rpc_InitiatePayment h req w))"
  by (simp add: rpc_InitiatePayment_def reply_snd Initiate_keeps split: option.split)

definition safe_reads :: "'w Handler \<Rightarrow> bool" where
  "safe_reads h \<longleftrightarrow> h_orch h = orc \<and> (\<forall>i w. inv w \<longrightarrow> inv (snd (h_GetByID h i w))) \<and>
     (\<forall>i m w. inv w \<longrightarrow> inv (snd (h_GetByIDAndMerchant h i m w)))"

lemma find_keeps: "safe_reads h \<Longrightarrow> inv w \<Longrightarrow> inv (snd (find_payment h i m w))"
  by (simp add: find_payment_def safe_reads_def rpc_result_snd Let_def split: option.split)

lemma rpc_Get_keeps: "safe_reads h \<Longrightarrow> inv w \<Longrightarrow> inv (snd (rpc_GetPayment h req w))"
  by (simp add: rpc_GetPayment_def case_prod_beta find_keeps split: option.split sum.split)

lemma rpc_Retry_keeps: "safe_reads h \<Longrightarrow> inv w \<Longrightarrow> inv (snd (rpc_RetryPayment h req w))"
  using Initiate_keeps by (simp add: rpc_RetryPayment_def case_prod_beta find_keeps reply_snd Let_def safe_reads_def split: option.split sum.split)

lemma reconcile_one_keeps:
  assumes "rw_orchestrator rw = orc" and "rw_bank rw = o_bank orc" and "inv w"
  shows "inv (reconcile_one rw p w)"
  using assms by (simp add: reconcile_one_def Let_def case_prod_beta calls resume_keeps cancel_keeps split: sum.split)

lemma pass_keeps:
  assumes "rw_orchestrator rw = orc" and "rw_bank rw = o_bank orc" and "inv w" and "inv (snd (rw_ListStale rw (rw_staleAfter rw) w))"
  shows "inv (reconcileStalePayments rw w)"
proof -
  have "inv v \<Longrightarrow> inv (fold (reconcile_one rw) ps v)" for ps v
    using reconcile_one_keeps [OF assms(1,2)] by (induction ps arbitrary: v) simp_all
  with assms(4) show ?thesis by (simp add: reconcileStalePayments_def case_prod_beta split: sum.split)
qed

end

section \<open>The platform's tables\<close>

definition platform_typed :: "uuid_codec \<Rightarrow> 'c platform \<Rightarrow> bool" where
  "platform_typed cdc w \<longleftrightarrow> payment_wf (pl_pay w) \<and> consent_wf (pl_con w) \<and> codec (pl_con w) = cdc \<and> ledger_ok (pl_led w)"

lemma typed_rpc:
  assumes "\<And>v. platform_typed cdc v \<Longrightarrow> platform_typed cdc (snd (f v))" and "platform_typed cdc w"
  shows "platform_typed cdc (snd (rpc_call f w))"
proof -
  have "platform_typed cdc (w\<lparr>pl_rpc := xs\<rparr>)" for xs using assms(2) by (simp add: platform_typed_def)
  with assms show ?thesis by (simp add: rpc_call_def split: list.split option.split rpc_fault.split)
qed

lemma typed_bank: "platform_typed cdc w \<Longrightarrow> platform_typed cdc (snd (on_bank f w))"
  by (simp add: platform_typed_def on_bank_def case_prod_beta)

lemma typed_risk: "platform_typed cdc w \<Longrightarrow> platform_typed cdc (snd (on_risk f w))"
  by (simp add: platform_typed_def on_risk_def case_prod_beta)

lemma typed_con:
  assumes "\<And>s. consent_wf s \<Longrightarrow> consent_wf (snd (f s)) \<and> codec (snd (f s)) = codec s" and "platform_typed cdc w"
  shows "platform_typed cdc (snd (on_con f w))"
  using assms by (simp add: platform_typed_def on_con_def case_prod_beta)

lemma typed_led:
  assumes "\<And>s. ledger_ok s \<Longrightarrow> ledger_ok (snd (f s))" and "platform_typed cdc w"
  shows "platform_typed cdc (snd (on_led f w))"
  using assms by (simp add: platform_typed_def on_led_def case_prod_beta)

lemma typed_pay:
  assumes "\<And>s. same_rows s (snd (f s))" and "platform_typed cdc w"
  shows "platform_typed cdc (snd (on_pay f w))"
proof -
  have "payment_wf (snd (f (pl_pay w)))"
    using assms(1) [of "pl_pay w"] assms(2) by (auto simp: platform_typed_def same_rows_def payment_wf_def)
  with assms(2) show ?thesis by (simp add: platform_typed_def on_pay_def case_prod_beta)
qed

lemma typed_upd:
  assumes "payment_wf (pl_pay w) \<Longrightarrow> payment_wf (snd (snd (f p (pl_pay w))))" and "platform_typed cdc w"
  shows "platform_typed cdc (snd (snd (upd_pay f p w)))"
  using assms by (simp add: platform_typed_def upd_pay_def case_prod_beta)

text \<open>The repository's methods.\<close>

lemma repo_typed:
  assumes "payment_wf s"
  shows "payment_wf (snd (snd (UpdateAfterConsent i t p s)))" "payment_wf (snd (snd (UpdateAfterRisk n t p s)))"
    "payment_wf (snd (snd (UpdateAfterBank t p s)))" "payment_wf (snd (snd (MarkFailed t p s)))"
    "payment_wf (snd (snd (MarkManualReview t p s)))" "payment_wf (snd (snd (ResetForRetry p s)))"
    "payment_wf (snd (snd (SettleWithOutbox p s)))"
proof -
  show "payment_wf (snd (snd (UpdateAfterConsent i t p s)))" "payment_wf (snd (snd (UpdateAfterRisk n t p s)))"
    "payment_wf (snd (snd (UpdateAfterBank t p s)))" "payment_wf (snd (snd (MarkFailed t p s)))"
    "payment_wf (snd (snd (MarkManualReview t p s)))" "payment_wf (snd (snd (ResetForRetry p s)))"
    using UpdateAfterConsent_effect [OF _ assms] UpdateAfterRisk_effect [OF _ assms] UpdateAfterBank_effect [OF _ assms]
      MarkFailed_effect [OF _ assms] MarkManualReview_effect [OF _ assms] ResetForRetry_effect [OF _ assms]
    unfolding repo_update_def by (metis prod.collapse)+
  obtain err p' s' where st: "SettleWithOutbox p s = (err, p', s')" by (metis prod.exhaust)
  from this assms show "payment_wf (snd (snd (SettleWithOutbox p s)))"
    by (cases rule: SettleWithOutbox_effect) (use st assms in \<open>auto simp: settles_def payment_wf_env\<close>)
qed

lemma create_typed:
  assumes "payment_wf s" and "blank p" and "py_Status p = StatusInitiated"
  shows "payment_wf (snd (snd (CreatePayment p s)))"
proof -
  obtain err p' s' where c: "CreatePayment p s = (err, p', s')" by (metis prod.exhaust)
  have "py_Status p \<noteq> StatusSettled" using assms(3) by simp
  with c assms(2,1) show ?thesis by (cases rule: CreatePayment_effect) (use c assms(1) in \<open>auto simp: payment_wf_env\<close>)
qed

lemma consent_typed:
  assumes "consent_wf s"
  shows "consent_wf (snd (rpc_ValidateAndReserve rq s)) \<and> codec (snd (rpc_ValidateAndReserve rq s)) = codec s"
    "consent_wf (snd (rpc_ConfirmReservation cf s)) \<and> codec (snd (rpc_ConfirmReservation cf s)) = codec s"
    "consent_wf (snd (rpc_ReleaseReservation rl s)) \<and> codec (snd (rpc_ReleaseReservation rl s)) = codec s"
  using reserve_wf [OF _ assms] confirm_wf [OF _ assms] release_wf [OF _ assms] by (metis prod.collapse)+

lemma ledger_typed:
  assumes "ledger_ok s"
  shows "ledger_ok (snd (rpc_PostDoubleEntry req s))" "ledger_ok (snd (rpc_ReverseEntry qreq s))"
  using ledger_step_ok [OF _ assms] ledger_step.post ledger_step.reverse by (metis prod.collapse)+

lemma same_rows_refl [simp]: "same_rows s s"
  by (simp add: same_rows_def)

lemma typed_new: "platform_typed cdc w \<Longrightarrow> platform_typed cdc (w\<lparr>pl_pay := snd (fresh_uuid (pl_pay w))\<rparr>)"
  by (simp add: platform_typed_def fresh_uuid_def payment_wf_def)

interpretation typed: safe_calls "platform_orc lib cdc" "platform_typed cdc"
  for lib :: "'c bank_lib" and cdc :: uuid_codec
  by unfold_locales
    (simp_all add: platform_orc_def typed_rpc typed_bank typed_risk typed_con typed_led typed_pay typed_upd typed_new
      repo_typed create_typed consent_typed ledger_typed same_rows_idem same_rows_read case_prod_beta)

lemma worker_orc: "rw_orchestrator (platform_worker lib cdc interval staleAfter) = platform_orc lib cdc"
  by (simp add: platform_worker_def NewReconciliationWorker_def)

lemma list_stale_typed:
  assumes "platform_typed cdc w"
  shows "platform_typed cdc (snd (rw_ListStale (platform_worker lib cdc interval staleAfter) d w))"
proof -
  have "same_rows s (snd (ListStaleInFlightPayments d s))" for s
  proof -
    obtain r s' where l: "ListStaleInFlightPayments d s = (r, s')" by fastforce
    then have "env_only s s'" unfolding ListStaleInFlightPayments_def by (auto split: sum.splits prod.splits dest!: read_pool [rotated])
    with l show ?thesis by (simp add: same_rows_env)
  qed
  from typed_pay [OF this assms] show ?thesis by (simp add: platform_worker_def NewReconciliationWorker_def)
qed

lemma handler_reads: "typed.safe_reads lib cdc (pay_handler lib cdc)"
proof -
  have "same_rows s (snd (GetByIDAndMerchant i m s))" for i m s
    by (simp add: GetByIDAndMerchant_def case_prod_beta same_rows_read split: sum.split)
  then show ?thesis by (simp add: typed.safe_reads_def pay_handler_def typed_pay same_rows_read)
qed

section \<open>Everything that can happen\<close>

text \<open>The RPCs of the payment service, a pass of its worker and of its relay, the RPCs of the consent service and the ledger from
  anyone, time, and any fault of the network, the databases and the bank.\<close>

inductive platform_step :: "'c bank_lib \<Rightarrow> uuid_codec \<Rightarrow> 'k kafka_Writer \<Rightarrow> 'c platform \<Rightarrow> 'c platform \<Rightarrow> bool"
  for lib :: "'c bank_lib" and cdc :: uuid_codec and wr :: "'k kafka_Writer" where
  initiate: "rpc_InitiatePayment (pay_handler lib cdc) req w = (r, w') \<Longrightarrow> platform_step lib cdc wr w w'"
| get: "rpc_GetPayment (pay_handler lib cdc) greq w = (r, w') \<Longrightarrow> platform_step lib cdc wr w w'"
| retry: "rpc_RetryPayment (pay_handler lib cdc) rreq w = (r, w') \<Longrightarrow> platform_step lib cdc wr w w'"
| reconcile: "platform_step lib cdc wr w (reconcileStalePayments (platform_worker lib cdc interval staleAfter) w)"
| relay: "flush wr (pl_pay w, k) = (s', k') \<Longrightarrow> platform_step lib cdc wr w (w\<lparr>pl_pay := s'\<rparr>)"
| consents: "consent_step (pl_con w) c' \<Longrightarrow> platform_step lib cdc wr w (w\<lparr>pl_con := c'\<rparr>)"
| ledger: "ledger_step (pl_led w) l' \<Longrightarrow> platform_step lib cdc wr w (w\<lparr>pl_led := l'\<rparr>)"
| payments_env: "platform_step lib cdc wr w (w\<lparr>pl_pay := (pl_pay w)\<lparr>now := t, script := x, uuid_src := u, n_uuid := n\<rparr>\<rparr>)"
| elsewhere: "platform_step lib cdc wr w (w\<lparr>pl_bank := b, pl_risk := k, pl_rpc := fs\<rparr>)"

lemma delete_wf:
  assumes "DeleteOutbox i s = (err, s')" and "payment_wf s"
  shows "payment_wf s'"
proof -
  obtain r s1 where c: "pool_call (\<lambda>s. (Inr (), s\<lparr>outbox := delete_where (\<lambda>r. ob_ID r = i) (outbox s)\<rparr>)) s = (r, s1)" by fastforce
  have "s' = s1" using assms(1) c by (auto simp: DeleteOutbox_def split: sum.splits)
  moreover have "payment_wf s1" using c
  proof (cases rule: pool_call_cases)
    case (fault e)
    with assms(2) show ?thesis by (simp add: payment_wf_env)
  next
    case (run s0)
    then have "payment_wf s0" using assms(2) by (simp add: payment_wf_env)
    with run show ?thesis by (auto simp: payment_wf_def delete_where_def distinct_map_filter)
  qed
  ultimately show ?thesis by simp
qed

lemma flush_rows_wf: "payment_wf s \<Longrightarrow> payment_wf (fst (flush_rows write rows (s, k)))"
proof (induction rows arbitrary: s k)
  case (Cons row rows)
  obtain e k1 where w: "write (outbox_message row) k = (e, k1)" by fastforce
  obtain d s1 where del: "DeleteOutbox (ob_ID row) s = (d, s1)" by fastforce
  with delete_wf Cons.prems have "payment_wf s1" by blast
  with Cons w del show ?case by (auto split: option.split)
qed simp

lemma flush_wf: "payment_wf s \<Longrightarrow> payment_wf (fst (flush write (s, k)))"
proof -
  assume wf: "payment_wf s"
  obtain r s1 where l: "ListOutbox 100 s = (r, s1)" by fastforce
  let ?q = "\<lambda>s :: payment_db. (Inr (take 100 (sort_key ob_CreatedAt (outbox s))) :: OutboxRow list res, s)"
  have "s1 = snd (pool_call ?q s)" using l by (auto simp: ListOutbox_def split: sum.splits prod.splits)
  then have "payment_wf s1" using read_pool [of ?q s "fst (pool_call ?q s)" s1] wf by (simp add: payment_wf_env)
  with l flush_rows_wf show ?thesis by (auto simp: flush_def split: sum.split)
qed

lemma platform_step_typed:
  assumes "platform_step lib cdc wr w w'" and "platform_typed cdc w"
  shows "platform_typed cdc w'"
  using assms(1)
proof cases
  case (initiate req r)
  then show ?thesis using typed.rpc_Initiate_keeps [of "pay_handler lib cdc" lib cdc w req] assms(2) by (simp add: pay_handler_def)
next
  case (get greq r)
  then show ?thesis using typed.rpc_Get_keeps [OF handler_reads assms(2)] by (metis snd_conv)
next
  case (retry rreq r)
  then show ?thesis using typed.rpc_Retry_keeps [OF handler_reads assms(2)] by (metis snd_conv)
next
  case (reconcile interval staleAfter)
  with typed.pass_keeps [OF worker_orc worker_bank assms(2)] list_stale_typed [OF assms(2)] show ?thesis by simp
next
  case (relay k s' k')
  with flush_wf [of "pl_pay w" wr k] assms(2) show ?thesis by (simp add: platform_typed_def)
next
  case (consents c')
  with assms(2) consent_step_wf codec_step show ?thesis by (auto simp: platform_typed_def)
next
  case (ledger l')
  with assms(2) ledger_step_ok show ?thesis by (auto simp: platform_typed_def)
next
  case (payments_env t x u n)
  with assms(2) show ?thesis by (simp add: platform_typed_def payment_wf_def)
next
  case (elsewhere b k fs)
  with assms(2) show ?thesis by (simp add: platform_typed_def)
qed

text \<open>C10: the platform's tables are well typed in every state it reaches: payments have one of the seven statuses, a settled one
  its time, unique keys and events of existing payments only; consents, reservations and usages keep their statuses, positive
  amounts, unique keys and references, and the confirmed reservations are exactly the ones with a usage; ledger lines are debits or
  credits of positive amounts on existing accounts, and every entry balances.\<close>

theorem platform_well_typed:
  assumes "platform_typed cdc w" and "(platform_step lib cdc wr)\<^sup>*\<^sup>* w w'"
  shows "payment_wf (pl_pay w') \<and> consent_wf (pl_con w') \<and> ledger_ok (pl_led w')"
proof -
  from assms(2,1) have "platform_typed cdc w'" by (induction rule: rtranclp_induct) (auto dest: platform_step_typed)
  then show ?thesis by (simp add: platform_typed_def)
qed

text \<open>A request whose ledger posting is lost on the way back, then a pass of the worker.\<close>

theorem platform_well_typed_witness:
  "\<exists>w1. platform_step std_lib unary_codec good_writer (vrp_w [None, None, None, Some (response_lost net_down)] []) w1 \<and>
     payment_wf (pl_pay (reconcileStalePayments (platform_worker std_lib unary_codec 0 0) w1)) \<and>
     ledger_ok (pl_led (reconcileStalePayments (platform_worker std_lib unary_codec 0 0) w1))"
proof -
  let ?w = "vrp_w [None, None, None, Some (response_lost net_down)] []"
  let ?req = "Some \<lparr>ipr_IdempotencyKey = ''k2'', ipr_MerchantId = ''iiiiiiii'', ipr_ConsentId = ''ii'',
    ipr_Amount = Some \<lparr>mo_AmountPence = 1000, mo_Currency = ''GBP''\<rparr>, ipr_Description = ''d''\<rparr>"
  obtain r w1 where a: "rpc_InitiatePayment (pay_handler std_lib unary_codec) ?req ?w = (r, w1)" by fastforce
  have "platform_typed unary_codec (vrp_w [] [])" using vrp_inv [of "[]" "[]"] by (simp add: platform_inv_def platform_typed_def)
  then have t: "platform_typed unary_codec ?w" by (simp add: platform_typed_def vrp_w_def)
  have s: "platform_step std_lib unary_codec good_writer ?w w1" using a by (rule platform_step.initiate)
  have "(platform_step std_lib unary_codec good_writer)\<^sup>*\<^sup>* ?w (reconcileStalePayments (platform_worker std_lib unary_codec 0 0) w1)"
    using s platform_step.reconcile by (meson rtranclp.rtrancl_into_rtrancl rtranclp.rtrancl_refl)
  from platform_well_typed [OF t this] s show ?thesis by blast
qed

end
