(* ===== verification/Workers.thy ===== *)
theory Workers
  imports Payment_Correct
begin

text \<open>
  The two background loops of the payment service: \<open>OutboxRelay.Run\<close> (\<open>outbox.go\<close>) and \<open>ReconciliationWorker.Start\<close>
  (\<open>reconciliation.go\<close>).
  \<^item> Both wait on a ticker and on the context. A loop is run on the list of what it sees: a tick, the cancellation of the
    context, and in between whatever the rest of the system does to the state.
  \<^item> \<open>relay_drains\<close>: left alone with a broker and a database that answer, the relay empties the outbox, and publishes every
    message once and in the order of creation.
\<close>

section \<open>Loops on a ticker\<close>

datatype 'w loop_event = Tick | Done | Meanwhile "'w \<Rightarrow> 'w"

fun ticker_loop :: "('w \<Rightarrow> 'w) \<Rightarrow> 'w loop_event list \<Rightarrow> 'w \<Rightarrow> 'w" where
  "ticker_loop body [] w = w"
| "ticker_loop body (Tick # es) w = ticker_loop body es (body w)"
| "ticker_loop body (Done # es) w = w"
| "ticker_loop body (Meanwhile f # es) w = ticker_loop body es (f w)"

definition relay_Run :: "'k kafka_Writer \<Rightarrow> (payment_db \<times> 'k) loop_event list \<Rightarrow> payment_db \<times> 'k \<Rightarrow> payment_db \<times> 'k" where
  "relay_Run write = ticker_loop (flush write)"

definition reconciler_Start :: "'w ReconciliationWorker \<Rightarrow> 'w loop_event list \<Rightarrow> 'w \<Rightarrow> 'w" where
  "reconciler_Start rw = ticker_loop (reconcileStalePayments rw)"

text \<open>\<open>time.NewTicker\<close> panics for an interval that is not positive; the constructor never leaves one.\<close>

lemma ticker_interval_positive: "0 < rw_interval (NewReconciliationWorker ls orch bank interval staleAfter)"
  by (simp add: NewReconciliationWorker_def)

text \<open>Nothing happens after the context is done.\<close>

lemma loop_stops: "ticker_loop body (es @ Done # fs) w = ticker_loop body es w"
  by (induction body es w rule: ticker_loop.induct) auto

section \<open>Draining the outbox\<close>

definition sent :: "'k kafka_Writer \<Rightarrow> OutboxRow list \<Rightarrow> 'k \<Rightarrow> 'k" where
  "sent write rows k = fold (\<lambda>row k. snd (write (outbox_message row) k)) rows k"

lemma flush_rows_calm:
  assumes "script s = []" and "\<forall>m k. fst (write m k) = None"
  shows "flush_rows write rows (s, k) =
    (s\<lparr>outbox := filter (\<lambda>r. ob_ID r \<notin> ob_ID ` set rows) (outbox s)\<rparr>, sent write rows k)"
  using assms(1)
proof (induction rows arbitrary: s k)
  case (Cons row rows)
  let ?s = "s\<lparr>outbox := delete_where (\<lambda>r. ob_ID r = ob_ID row) (outbox s)\<rparr>"
  have "DeleteOutbox (ob_ID row) s = (None, ?s)" using Cons.prems by (simp add: DeleteOutbox_def)
  moreover obtain k1 where k1: "write (outbox_message row) k = (None, k1)" using assms(2) by (metis prod.collapse)
  ultimately have "flush_rows write (row # rows) (s, k) = flush_rows write rows (?s, k1)" by simp
  also have "\<dots> = (?s\<lparr>outbox := filter (\<lambda>r. ob_ID r \<notin> ob_ID ` set rows) (outbox ?s)\<rparr>, sent write rows k1)"
    using Cons.prems by (intro Cons.IH) simp
  finally show ?case using k1 by (simp add: sent_def delete_where_def conj_commute)
qed (simp add: sent_def)

lemma filter_not_taken:
  assumes "distinct (map f xs)"
  shows "filter (\<lambda>x. f x \<notin> f ` set (take n xs)) xs = drop n xs"
proof -
  have d: "distinct (map f (take n xs @ drop n xs))" using assms by simp
  have "filter (\<lambda>x. f x \<notin> f ` set (take n xs)) (take n xs) = []" by (simp add: filter_empty_conv)
  moreover have "filter (\<lambda>x. f x \<notin> f ` set (take n xs)) (drop n xs) = drop n xs"
    using d unfolding map_append distinct_append by (auto simp: filter_id_conv)
  ultimately have "filter (\<lambda>x. f x \<notin> f ` set (take n xs)) (take n xs @ drop n xs) = drop n xs"
    unfolding filter_append by simp
  then show ?thesis unfolding append_take_drop_id .
qed

lemma flush_calm:
  assumes "script s = []" and "\<forall>m k. fst (write m k) = None" and "distinct (map ob_ID (outbox s))"
    and "flush write (s, k) = (s', k')"
  shows "sort_key ob_CreatedAt (outbox s') = drop 100 (sort_key ob_CreatedAt (outbox s)) \<and> script s' = [] \<and>
    distinct (map ob_ID (outbox s')) \<and> k' = sent write (take 100 (sort_key ob_CreatedAt (outbox s))) k"
proof -
  let ?xs = "sort_key ob_CreatedAt (outbox s)"
  have d: "distinct (map ob_ID ?xs)" using assms(3) by (simp add: distinct_map)
  have "flush write (s, k) = flush_rows write (take 100 ?xs) (s, k)" using assms(1) by (simp add: flush_def ListOutbox_def)
  then have r: "s' = s\<lparr>outbox := filter (\<lambda>r. ob_ID r \<notin> ob_ID ` set (take 100 ?xs)) (outbox s)\<rparr>"
    "k' = sent write (take 100 ?xs) k" using flush_rows_calm [OF assms(1,2)] assms(4) by simp_all
  then have "sort_key ob_CreatedAt (outbox s') = filter (\<lambda>r. ob_ID r \<notin> ob_ID ` set (take 100 ?xs)) ?xs"
    by (simp add: filter_sort)
  also have "\<dots> = drop 100 ?xs" using d by (rule filter_not_taken)
  finally show ?thesis using r assms(1,3) by (simp add: distinct_map_filter)
qed

lemma sent_append: "sent write (xs @ ys) k = sent write ys (sent write xs k)"
  by (simp add: sent_def)

lemma relay_run_calm:
  assumes "payment_wf s" and "script s = []" and "\<forall>m k. fst (write m k) = None" and "length (outbox s) \<le> 100 * n"
    and "relay_Run write (replicate n Tick) (s, k) = (s', k')"
  shows "outbox s' = [] \<and> k' = sent write (sort_key ob_CreatedAt (outbox s)) k"
proof -
  have "distinct (map ob_ID (outbox s))" using assms(1) by (simp add: payment_wf_def)
  from this assms(2,4,5) show ?thesis
  proof (induction n arbitrary: s k)
    case 0
    then show ?case by (simp add: relay_Run_def sent_def)
  next
    case (Suc n)
    obtain s1 k1 where f: "flush write (s, k) = (s1, k1)" by fastforce
    note c = flush_calm [OF Suc.prems(2) assms(3) Suc.prems(1) f]
    have "length (sort_key ob_CreatedAt (outbox s1)) \<le> 100 * n" using c Suc.prems(3) by simp
    then have "length (outbox s1) \<le> 100 * n" by simp
    moreover have "relay_Run write (replicate n Tick) (s1, k1) = (s', k')" using Suc.prems(4) f by (simp add: relay_Run_def)
    ultimately have "outbox s' = [] \<and> k' = sent write (sort_key ob_CreatedAt (outbox s1)) k1" using Suc.IH c by blast
    with c show ?case by (simp add: sent_append [symmetric])
  qed
qed

text \<open>C16: left alone with a database and a broker that answer, the relay empties the outbox in as many ticks as there are
  batches of a hundred, and the broker has got every message exactly once, in the order the rows were created.\<close>

theorem relay_drains:
  assumes "payment_wf s" and "script s = []" and "\<forall>m k. fst (write m k) = None" and "length (outbox s) \<le> 100 * n"
    and "relay_Run write (replicate n Tick) (s, k) = (s', k')"
  shows "outbox s' = [] \<and> k' = sent write (sort_key ob_CreatedAt (outbox s)) k"
  using assms by (rule relay_run_calm)

theorem relay_drains_witness:
  "\<exists>s' k'. relay_Run good_writer (replicate 1 Tick) (pay_s3, []) = (s', k') \<and> outbox s' = [] \<and> length k' = 1"
proof -
  have e: "script pay_s3 = []" "length (outbox pay_s3) \<le> 100 * 1"
    "length (sent good_writer (sort_key ob_CreatedAt (outbox pay_s3)) []) = 1" by code_simp+
  obtain s' k' where r: "relay_Run good_writer (replicate 1 Tick) (pay_s3, []) = (s', k')" by fastforce
  have w: "\<forall>m k. fst (good_writer m k) = None" by (simp add: good_writer_def)
  from relay_drains [OF conjunct2 [OF pay_s3_settled] e(1) w e(2) r] e(3) r show ?thesis by blast
qed

end
