(* ===== verification/Config.thy ===== *)
theory Config
  imports Domain_Error
begin

text \<open>
  Configuration from the environment: \<open>pkg/shared/config/env.go\<close>, the pool limits of \<open>pkg/shared/db/pgx.go\<close> and the
  helpers of the services' \<open>cmd/main.go\<close>.
  \<^item> The process environment is a function from names to values, empty for an unset variable as \<open>os.Getenv\<close> has it.
  \<^item> \<open>ParseDuration\<close> is \<open>time.ParseDuration\<close>. Go scales the digits after the point in floating point; here the product
    is exact and rounded down. \<open>GetFloat\<close> takes the reader of decimals as an argument: floating-point numbers are
    not modelled.
  \<^item> The connection pool (\<open>pgxpool\<close>) is a parameter: \<open>pg_lib\<close>.
\<close>

section \<open>Strings of the standard library\<close>

text \<open>\<open>strings.Split(s, sep)\<close> and \<open>strings.Cut(s, sep)\<close> for a separator of one byte.\<close>

fun str_Split :: "char \<Rightarrow> string \<Rightarrow> string list" where
  "str_Split c [] = [[]]"
| "str_Split c (x # xs) =
     (if x = c then [] # str_Split c xs
      else case str_Split c xs of [] \<Rightarrow> [[x]] | y # ys \<Rightarrow> (x # y) # ys)"

definition str_Cut :: "char \<Rightarrow> string \<Rightarrow> (string \<times> string) option" where
  "str_Cut c s = (if c \<in> set s then Some (takeWhile (\<lambda>x. x \<noteq> c) s, tl (dropWhile (\<lambda>x. x \<noteq> c) s)) else None)"

text \<open>\<open>time.ParseDuration\<close>, in nanoseconds: a sign, then one or more numbers each with its unit. \<open>None\<close> is its error.\<close>

definition duration_unit :: "string \<Rightarrow> int option" where
  "duration_unit u =
     (if u = ''ns'' then Some 1
      else if u = ''us'' \<or> u = [CHR 0xC2, CHR 0xB5, CHR ''s''] \<or> u = [CHR 0xCE, CHR 0xBC, CHR ''s''] then Some (10 ^ 3)
      else if u = ''ms'' then Some (10 ^ 6) else if u = ''s'' then Some (10 ^ 9)
      else if u = ''m'' then Some (60 * 10 ^ 9) else if u = ''h'' then Some (3600 * 10 ^ 9) else None)"

text \<open>The digits after the point with their scale; digits that would overflow are dropped.\<close>

definition fraction_digit :: "bool \<times> int \<times> int \<Rightarrow> char \<Rightarrow> bool \<times> int \<times> int" where
  "fraction_digit = (\<lambda>(full, x, scale) c.
     if full \<or> x > (2 ^ 63 - 1) div 10 then (True, x, scale)
     else let y = x * 10 + (of_char c - 48) in if y > 2 ^ 63 then (True, x, scale) else (False, y, scale * 10))"

definition leading_fraction :: "string \<Rightarrow> int \<times> int" where
  "leading_fraction ds = snd (foldl fraction_digit (False, 0, 1) ds)"

definition leading_int :: "string \<Rightarrow> int" where
  "leading_int ds = foldl (\<lambda>v c. v * 10 + (of_char c - 48)) 0 ds"

text \<open>One number and its unit: its value and what is left.\<close>

definition duration_part :: "string \<Rightarrow> (int \<times> string) option" where
  "duration_part s =
     (let ds = takeWhile is_digit s; s1 = dropWhile is_digit s;
          dot = (s1 \<noteq> [] \<and> hd s1 = CHR ''.'');
          fs = (if dot then takeWhile is_digit (tl s1) else []);
          s2 = (if dot then dropWhile is_digit (tl s1) else s1);
          u = takeWhile (\<lambda>c. c \<noteq> CHR ''.'' \<and> \<not> is_digit c) s2; s3 = dropWhile (\<lambda>c. c \<noteq> CHR ''.'' \<and> \<not> is_digit c) s2;
          v = leading_int ds; (f, scale) = leading_fraction fs
      in if ds = [] \<and> fs = [] then None
         else case duration_unit u of
                None \<Rightarrow> None
              | Some n \<Rightarrow>
                  if v > 2 ^ 63 \<or> v > 2 ^ 63 div n then None
                  else let w = v * n + (f * n) div scale in if w > 2 ^ 63 then None else Some (w, s3))"

lemma duration_part_shorter: "duration_part s = Some (v, r) \<Longrightarrow> length r < length s"
proof -
  assume d: "duration_part s = Some (v, r)"
  let ?s1 = "dropWhile is_digit s"
  let ?dot = "?s1 \<noteq> [] \<and> hd ?s1 = CHR ''.''"
  let ?s2 = "if ?dot then dropWhile is_digit (tl ?s1) else ?s1"
  have r: "r = dropWhile (\<lambda>c. c \<noteq> CHR ''.'' \<and> \<not> is_digit c) ?s2" and ne: "takeWhile is_digit s \<noteq> [] \<or> ?dot"
    using d by (auto simp: duration_part_def Let_def split: if_splits option.splits prod.splits)
  have "length r \<le> length ?s2" by (simp add: r length_dropWhile_le)
  also have "length ?s2 < length s"
  proof (cases ?dot)
    case True
    have "length (dropWhile is_digit (tl ?s1)) \<le> length (tl ?s1)" by (rule length_dropWhile_le)
    also have "\<dots> < length ?s1" using True by (cases ?s1) auto
    also have "\<dots> \<le> length s" by (rule length_dropWhile_le)
    finally show ?thesis using True by simp
  next
    case False
    with ne have "takeWhile is_digit s \<noteq> []" by blast
    then have "length ?s1 < length s" by (cases s) (auto split: if_splits simp: le_imp_less_Suc length_dropWhile_le)
    then show ?thesis unfolding if_not_P [OF False] .
  qed
  finally show ?thesis .
qed

function duration_sum :: "string \<Rightarrow> int option" where
  "duration_sum s =
     (if s = [] then Some 0
      else case duration_part s of
             None \<Rightarrow> None
           | Some (v, r) \<Rightarrow>
               (case duration_sum r of None \<Rightarrow> None | Some d \<Rightarrow> if v + d > 2 ^ 63 then None else Some (v + d)))"
  by pat_completeness auto
termination by (relation "measure length") (auto dest: duration_part_shorter)

declare duration_sum.simps [simp del]

definition ParseDuration :: "string \<Rightarrow> int option" where
  "ParseDuration t =
     (let neg = (t \<noteq> [] \<and> hd t = CHR ''-''); s = (if t \<noteq> [] \<and> hd t \<in> {CHR ''-'', CHR ''+''} then tl t else t)
      in if s = ''0'' then Some 0
         else if s = [] then None
         else case duration_sum s of
                None \<Rightarrow> None
              | Some d \<Rightarrow> if neg then Some (- d) else if d > 2 ^ 63 - 1 then None else Some d)"

section \<open>Reading the environment\<close>

type_synonym environ = "string \<Rightarrow> string"

definition config_Get :: "environ \<Rightarrow> string \<Rightarrow> string \<Rightarrow> string" where
  "config_Get ev key def = (if ev key \<noteq> [] then ev key else def)"

definition config_GetInt :: "environ \<Rightarrow> string \<Rightarrow> int \<Rightarrow> int" where
  "config_GetInt ev key def =
     (let v = ev key in if v = [] then def else case Atoi v of None \<Rightarrow> def | Some n \<Rightarrow> n)"

definition config_GetDuration :: "environ \<Rightarrow> string \<Rightarrow> int \<Rightarrow> int" where
  "config_GetDuration ev key def =
     (let v = ev key in if v = [] then def else case ParseDuration v of None \<Rightarrow> def | Some d \<Rightarrow> d)"

definition config_GetFloat :: "(string \<Rightarrow> 'f option) \<Rightarrow> environ \<Rightarrow> string \<Rightarrow> 'f \<Rightarrow> 'f" where
  "config_GetFloat parseFloat ev key def =
     (let v = ev key in if v = [] then def else case parseFloat v of None \<Rightarrow> def | Some f \<Rightarrow> f)"

section \<open>The database pool\<close>

record pool_config =
  pgc_URL :: string
  pgc_MaxConns :: int
  pgc_MinConns :: int
  pgc_MaxConnLifetime :: int
  pgc_MaxConnIdleTime :: int
  pgc_HealthCheckPeriod :: int

record pg_lib =
  pg_ParseConfig :: "string \<Rightarrow> goerror + pool_config"
  pg_NewWithConfig :: "pool_config \<Rightarrow> goerror option"
  pg_Ping :: "pool_config \<Rightarrow> goerror option"

definition pool_limits :: "environ \<Rightarrow> pool_config \<Rightarrow> pool_config" where
  "pool_limits ev cfg =
     (let maxConns = wrap32 (config_GetInt ev ''DB_MAX_CONNS'' 20);
          minConns = wrap32 (config_GetInt ev ''DB_MIN_CONNS'' 2);
          idleTime = config_GetDuration ev ''DB_MAX_IDLE_TIME'' (30 * 60 * 10 ^ 9);
          lifeTime = config_GetDuration ev ''DB_MAX_LIFETIME'' (3600 * 10 ^ 9);
          cfg1 = (if maxConns > 0 then cfg\<lparr>pgc_MaxConns := maxConns\<rparr> else cfg);
          cfg2 = (if minConns \<ge> 0 then cfg1\<lparr>pgc_MinConns := minConns\<rparr> else cfg1)
      in cfg2\<lparr>pgc_MaxConnLifetime := lifeTime, pgc_MaxConnIdleTime := idleTime, pgc_HealthCheckPeriod := 60 * 10 ^ 9\<rparr>)"

definition db_NewPool :: "pg_lib \<Rightarrow> environ \<Rightarrow> string \<Rightarrow> goerror + pool_config" where
  "db_NewPool pg ev databaseURL =
     (case pg_ParseConfig pg databaseURL of
        Inl err \<Rightarrow> Inl (OtherError (''parse db url: '' @ Error_text err) (Some err))
      | Inr cfg0 \<Rightarrow>
          (let cfg = pool_limits ev cfg0 in
           case pg_NewWithConfig pg cfg of
             Some err \<Rightarrow> Inl (OtherError (''connect db: '' @ Error_text err) (Some err))
           | None \<Rightarrow>
               (case pg_Ping pg cfg of
                  Some err \<Rightarrow> Inl (OtherError (''ping db: '' @ Error_text err) (Some err))
                | None \<Rightarrow> Inr cfg)))"

section \<open>Helpers of the processes\<close>

definition splitCSV :: "string \<Rightarrow> string list" where
  "splitCSV s = filter (\<lambda>p. p \<noteq> []) (map TrimSpace (str_Split (CHR '','') s))"

datatype slog_Level = LevelDebug | LevelInfo | LevelWarn | LevelError

definition level_named :: "string \<Rightarrow> slog_Level" where
  "level_named t =
     (if t = ''debug'' then LevelDebug else if t = ''warn'' \<or> t = ''warning'' then LevelWarn
      else if t = ''error'' then LevelError else LevelInfo)"

definition parseLogLevel :: "string \<Rightarrow> slog_Level" where
  "parseLogLevel s = level_named (ToLower (TrimSpace s))"

text \<open>The notification service has its own, which does not trim.\<close>

definition parseLogLevel_notification :: "string \<Rightarrow> slog_Level" where
  "parseLogLevel_notification s = level_named (ToLower s)"

text \<open>The payment service's listen address.\<close>

definition listen_addr :: "string \<Rightarrow> string" where
  "listen_addr addr =
     (if has_prefix '':'' addr then addr
      else case str_Cut (CHR '':'') addr of
             Some (host, port) \<Rightarrow>
               if host = [] \<or> host = ''localhost'' \<or> host = ''127.0.0.1'' then '':'' @ port else addr
           | None \<Rightarrow> '':'' @ addr)"

section \<open>Properties\<close>

lemma str_Split_ne [simp]: "str_Split c s \<noteq> []"
  by (cases s) (auto split: list.split)

lemma str_Split_append: "c \<notin> set x \<Longrightarrow> str_Split c (x @ c # ys) = x # str_Split c ys"
  by (induction x) auto

lemma str_Split_none: "c \<notin> set x \<Longrightarrow> str_Split c x = [x]"
  by (induction x) auto

lemma str_Split_Join:
  assumes "ps \<noteq> []" and "\<forall>p \<in> set ps. c \<notin> set p"
  shows "str_Split c (str_Join [c] ps) = ps"
  using assms by (induction "[c]" ps rule: str_Join.induct) (auto simp: str_Split_none str_Split_append)

text \<open>A list of broker addresses written with commas is read back.\<close>

theorem brokers_roundtrip:
  assumes "\<forall>p \<in> set ps. p \<noteq> [] \<and> TrimSpace p = p \<and> CHR '','' \<notin> set p"
  shows "splitCSV (str_Join '','' ps) = ps"
proof (cases "ps = []")
  case True
  then show ?thesis by (simp add: splitCSV_def)
next
  case False
  then have "str_Split (CHR '','') (str_Join '','' ps) = ps" using assms by (intro str_Split_Join) auto
  moreover have "map TrimSpace ps = ps" using assms by (intro map_idI) auto
  ultimately show ?thesis using assms by (simp add: splitCSV_def filter_id_conv)
qed

lemma has_prefix_in: "has_prefix (c # cs) s \<Longrightarrow> c \<in> set s"
  by (cases s) auto

text \<open>The payment service's listen address always has a port, and normalising it twice changes nothing.\<close>

theorem listen_addr_stable:
  "listen_addr (listen_addr a) = listen_addr a \<and> CHR '':'' \<in> set (listen_addr a)"
  using has_prefix_in [of "CHR '':''" "[]" a]
  by (auto simp: listen_addr_def str_Cut_def split: option.splits if_splits)

text \<open>The pool's limits are 32-bit values and never negative ones from the environment; a value of the environment beyond
  32 bits wraps.\<close>

theorem pool_limits_bounds:
  assumes "0 \<le> pgc_MinConns cfg" and "0 < pgc_MaxConns cfg" and "pgc_MinConns cfg < 2 ^ 31" and "pgc_MaxConns cfg < 2 ^ 31"
  shows "0 \<le> pgc_MinConns (pool_limits ev cfg) \<and> pgc_MinConns (pool_limits ev cfg) < 2 ^ 31 \<and>
    0 < pgc_MaxConns (pool_limits ev cfg) \<and> pgc_MaxConns (pool_limits ev cfg) < 2 ^ 31"
proof -
  have "wrap32 x < 2 ^ 31" for x by (simp add: wrap32_def)
  then show ?thesis using assms by (simp add: pool_limits_def Let_def)
qed

end
