(* ===== verification/Json_Text.thy ===== *)
theory Json_Text
  imports Gateway_Http Notification_Correct
begin

text \<open>
  JSON as text, the way \<open>encoding/json\<close> reads and writes it, and what crosses a process boundary in that form: the payload of the outbox
  (\<open>buildSettledPayload\<close>, \<open>services/payment-svc/internal/repo.go\<close>), which the notification service unmarshals
  (\<open>consumer.go\<close>), and the body of the webhook.
  \<^item> \<open>json_value\<close> is the recursive reader, with fuel for two calls per character of the text, which is enough
    (\<open>json_value_enough\<close>). A number without fraction and exponent is a \<open>JInt\<close>, any other a \<open>JFloat\<close> with its text.
  \<^item> \<open>json_print\<close> writes a value; reading it back gives the value (\<open>json_print_read\<close>).
  \<^item> \<open>dec_lax\<close> fills a struct and passes over unknown fields, \<open>unmarshal_event\<close> is \<open>json.Unmarshal\<close> into a \<open>PaymentEvent\<close>.
  Texts are taken to be UTF-8: bytes beyond ASCII are copied in both directions. The bound of 10000 on the nesting is not modelled.
\<close>

section \<open>Reading\<close>

definition skip_ws :: "string \<Rightarrow> string" where
  "skip_ws s = dropWhile (\<lambda>c. c = CHR '' '' \<or> c = CHR 0x09 \<or> c = CHR 0x0A \<or> c = CHR 0x0D) s"

definition hex_value :: "char \<Rightarrow> int option" where
  "hex_value c =
     (let n = of_char c :: int in
      if 48 \<le> n \<and> n \<le> 57 then Some (n - 48) else if 97 \<le> n \<and> n \<le> 102 then Some (n - 87)
      else if 65 \<le> n \<and> n \<le> 70 then Some (n - 55) else None)"

definition hex4 :: "string \<Rightarrow> (int \<times> string) option" where
  "hex4 s =
     (case s of
        a # b # c # d # r \<Rightarrow>
          (case (hex_value a, hex_value b, hex_value c, hex_value d) of
             (Some w, Some x, Some y, Some z) \<Rightarrow> Some (((w * 16 + x) * 16 + y) * 16 + z, r)
           | _ \<Rightarrow> None)
      | _ \<Rightarrow> None)"

definition utf8 :: "int \<Rightarrow> string" where
  "utf8 r =
     (if r < 0x80 then [char_of r]
      else if r < 0x800 then [char_of (0xC0 + r div 64), char_of (0x80 + r mod 64)]
      else if r < 0x10000 then [char_of (0xE0 + r div 4096), char_of (0x80 + r div 64 mod 64), char_of (0x80 + r mod 64)]
      else [char_of (0xF0 + r div 262144), char_of (0x80 + r div 4096 mod 64), char_of (0x80 + r div 64 mod 64),
            char_of (0x80 + r mod 64)])"

text \<open>The second half of a surrogate pair.\<close>

definition low_surrogate :: "int \<Rightarrow> string \<Rightarrow> (int \<times> string) option" where
  "low_surrogate hi s =
     (if has_prefix [CHR 0x5C, CHR ''u''] s then
        (case hex4 (drop 2 s) of
           Some (lo, r) \<Rightarrow>
             if hi < 0xDC00 \<and> 0xDC00 \<le> lo \<and> lo < 0xE000 then Some ((hi - 0xD800) * 1024 + (lo - 0xDC00) + 0x10000, r) else None
         | None \<Rightarrow> None)
      else None)"

text \<open>What a backslash stands for, and the text behind it.\<close>

definition escaped :: "string \<Rightarrow> (string \<times> string) option" where
  "escaped s =
     (case s of
        [] \<Rightarrow> None
      | e # r \<Rightarrow>
          if e = CHR 0x22 \<or> e = CHR 0x5C \<or> e = CHR ''/'' then Some ([e], r)
          else if e = CHR ''b'' then Some ([CHR 0x08], r) else if e = CHR ''f'' then Some ([CHR 0x0C], r)
          else if e = CHR ''n'' then Some ([CHR 0x0A], r) else if e = CHR ''r'' then Some ([CHR 0x0D], r)
          else if e = CHR ''t'' then Some ([CHR 0x09], r)
          else if e = CHR ''u'' then
            (case hex4 r of
               None \<Rightarrow> None
             | Some (u, r1) \<Rightarrow>
                 if 0xD800 \<le> u \<and> u < 0xE000 then
                   (case low_surrogate u r1 of Some (v, r2) \<Rightarrow> Some (utf8 v, r2) | None \<Rightarrow> Some (utf8 0xFFFD, r1))
                 else Some (utf8 u, r1))
          else None)"

lemma hex4_shorter: "hex4 s = Some (v, r) \<Longrightarrow> length r < length s"
  by (auto simp: hex4_def split: list.splits option.splits)

lemma low_surrogate_shorter: "low_surrogate hi s = Some (v, r) \<Longrightarrow> length r < length s"
  using hex4_shorter [of "drop 2 s"] by (fastforce simp: low_surrogate_def split: if_splits option.splits)

lemma escaped_shorter: "escaped s = Some (t, r) \<Longrightarrow> length r < length s"
  by (fastforce simp: escaped_def split: list.splits if_splits option.splits dest: hex4_shorter low_surrogate_shorter)

text \<open>A string after its opening quote.\<close>

function json_string :: "string \<Rightarrow> (string \<times> string) option" where
  "json_string [] = None"
| "json_string (c # cs) =
     (if c = CHR 0x22 then Some ([], cs)
      else if c = CHR 0x5C then
        (case escaped cs of None \<Rightarrow> None | Some (t, r) \<Rightarrow> map_option (apfst ((@) t)) (json_string r))
      else if of_char c < (32 :: int) then None
      else map_option (apfst (Cons c)) (json_string cs))"
  by pat_completeness auto
termination by (relation "measure length") (auto dest: escaped_shorter)

definition frac_part :: "string \<Rightarrow> (string \<times> string) option" where
  "frac_part s =
     (case s of
        [] \<Rightarrow> Some ([], [])
      | c # r \<Rightarrow>
          if c = CHR ''.'' then
            (let ds = takeWhile is_digit r in if ds = [] then None else Some (c # ds, dropWhile is_digit r))
          else Some ([], s))"

definition exp_part :: "string \<Rightarrow> (string \<times> string) option" where
  "exp_part s =
     (case s of
        [] \<Rightarrow> Some ([], [])
      | c # r \<Rightarrow>
          if c = CHR ''e'' \<or> c = CHR ''E'' then
            (let sg = (if r \<noteq> [] \<and> (hd r = CHR ''+'' \<or> hd r = CHR ''-'') then [hd r] else []);
                 r1 = drop (length sg) r; ds = takeWhile is_digit r1
             in if ds = [] then None else Some (c # sg @ ds, dropWhile is_digit r1))
          else Some ([], s))"

definition json_number :: "string \<Rightarrow> (json \<times> string) option" where
  "json_number s =
     (let sg = (if s \<noteq> [] \<and> hd s = CHR ''-'' then ''-'' else []);
          s1 = drop (length sg) s; ds = takeWhile is_digit s1;
          ip = (if ds \<noteq> [] \<and> hd ds = CHR ''0'' then ''0'' else ds)
      in if ds = [] then None
         else case frac_part (drop (length ip) s1) of
                None \<Rightarrow> None
              | Some (fr, s2) \<Rightarrow>
                  (case exp_part s2 of
                     None \<Rightarrow> None
                   | Some (ex, s3) \<Rightarrow>
                       if fr = [] \<and> ex = [] then Some (JInt (if sg = [] then int (digits_value ip) else - int (digits_value ip)), s3)
                       else Some (JFloat (sg @ ip @ fr @ ex), s3)))"

fun json_value :: "nat \<Rightarrow> string \<Rightarrow> (json \<times> string) option"
  and json_members :: "nat \<Rightarrow> string \<Rightarrow> ((string \<times> json) list \<times> string) option"
  and json_elements :: "nat \<Rightarrow> string \<Rightarrow> (json list \<times> string) option" where
  "json_value 0 s = None"
| "json_value (Suc n) s =
     (case skip_ws s of
        [] \<Rightarrow> None
      | c # r \<Rightarrow>
          if c = CHR 0x22 then map_option (apfst JString) (json_string r)
          else if c = CHR ''{'' then
            (if has_prefix ''}'' (skip_ws r) then Some (JObject [], tl (skip_ws r)) else map_option (apfst JObject) (json_members n r))
          else if c = CHR ''['' then
            (if has_prefix '']'' (skip_ws r) then Some (JArray [], tl (skip_ws r)) else map_option (apfst JArray) (json_elements n r))
          else if has_prefix ''null'' (c # r) then Some (JNull, drop 4 (c # r))
          else if has_prefix ''true'' (c # r) then Some (JBool True, drop 4 (c # r))
          else if has_prefix ''false'' (c # r) then Some (JBool False, drop 5 (c # r))
          else json_number (c # r))"
| "json_members 0 s = None"
| "json_members (Suc n) s =
     (if \<not> has_prefix [CHR 0x22] (skip_ws s) then None
      else case json_string (tl (skip_ws s)) of
             None \<Rightarrow> None
           | Some (k, r1) \<Rightarrow>
               if \<not> has_prefix '':'' (skip_ws r1) then None
               else case json_value n (tl (skip_ws r1)) of
                      None \<Rightarrow> None
                    | Some (v, r2) \<Rightarrow>
                        if has_prefix ''}'' (skip_ws r2) then Some ([(k, v)], tl (skip_ws r2))
                        else if has_prefix '','' (skip_ws r2)
                        then map_option (apfst (Cons (k, v))) (json_members n (tl (skip_ws r2)))
                        else None)"
| "json_elements 0 s = None"
| "json_elements (Suc n) s =
     (case json_value n s of
        None \<Rightarrow> None
      | Some (v, r) \<Rightarrow>
          if has_prefix '']'' (skip_ws r) then Some ([v], tl (skip_ws r))
          else if has_prefix '','' (skip_ws r) then map_option (apfst (Cons v)) (json_elements n (tl (skip_ws r)))
          else None)"

text \<open>\<open>json.Unmarshal\<close>: one value, with nothing but white space behind it; a decoder stops after the value.\<close>

definition json_first :: "string \<Rightarrow> json option" where
  "json_first t = map_option fst (json_value (2 * length t + 1) t)"

definition json_read :: "string \<Rightarrow> json option" where
  "json_read t =
     (case json_value (2 * length t + 1) t of None \<Rightarrow> None | Some (j, r) \<Rightarrow> if skip_ws r = [] then Some j else None)"

section \<open>The reader consumes its text\<close>

lemma length_skip_ws [simp]: "length (skip_ws s) \<le> length s"
  by (simp add: skip_ws_def length_dropWhile_le)

lemma has_prefix_ne: "has_prefix [c] t \<Longrightarrow> length (tl t) < length t"
  by (cases t) auto

lemma tl_skip_ws: "has_prefix [c] (skip_ws s) \<Longrightarrow> length (tl (skip_ws s)) < length s"
  using has_prefix_ne [of c "skip_ws s"] length_skip_ws [of s] by linarith

lemma json_string_shorter: "json_string s = Some (t, r) \<Longrightarrow> length r < length s"
proof (induction s arbitrary: t r rule: json_string.induct)
  case (2 c cs)
  consider "c = CHR 0x22" | "c = CHR 0x5C" | "c \<noteq> CHR 0x22" "c \<noteq> CHR 0x5C" by blast
  then show ?case
  proof cases
    case 1
    with "2.prems" show ?thesis by simp
  next
    case 2
    then obtain t1 r1 where "escaped cs = Some (t1, r1)" "\<exists>t2. json_string r1 = Some (t2, r)"
      using "2.prems" by (auto split: option.splits)
    with "2.IH"(1) [of "(t1, r1)" t1 r1] 2 show ?thesis using escaped_shorter [of cs t1 r1] by fastforce
  next
    case 3
    then have "\<not> of_char c < (32 :: int)" "\<exists>u. json_string cs = Some (u, r)" using "2.prems" by (auto split: if_splits)
    with "2.IH"(2) 3 show ?thesis by fastforce
  qed
qed simp

lemma frac_part_le: "frac_part s = Some (t, r) \<Longrightarrow> length r \<le> length s"
  using length_dropWhile_le [of is_digit "tl s"] by (auto simp: frac_part_def Let_def split: list.splits if_splits)

lemma exp_part_le: "exp_part s = Some (t, r) \<Longrightarrow> length r \<le> length s"
proof (cases s)
  case (Cons c cs)
  have l: "length (dropWhile is_digit (drop k cs)) \<le> Suc (length cs)" for k
    using length_dropWhile_le [of is_digit "drop k cs"] by simp
  assume "exp_part s = Some (t, r)"
  then have "r = s \<or> r = dropWhile is_digit (drop 0 cs) \<or> r = dropWhile is_digit (drop 1 cs)"
    unfolding exp_part_def Cons Let_def by (simp only: list.case split: if_splits) auto
  with l [of 0] l [of 1] Cons show ?thesis by auto
qed (simp add: exp_part_def)

lemma json_number_shorter: "json_number s = Some (j, r) \<Longrightarrow> length r < length s"
proof -
  assume n: "json_number s = Some (j, r)"
  let ?sg = "if s \<noteq> [] \<and> hd s = CHR ''-'' then ''-'' else []"
  let ?ds = "takeWhile is_digit (drop (length ?sg) s)"
  let ?ip = "if ?ds \<noteq> [] \<and> hd ?ds = CHR ''0'' then ''0'' else ?ds"
  obtain fr s2 ex where f: "frac_part (drop (length ?ip) (drop (length ?sg) s)) = Some (fr, s2)" "exp_part s2 = Some (ex, r)" and d: "?ds \<noteq> []"
    using n unfolding json_number_def Let_def by (auto split: if_splits option.splits)
  from d have "s \<noteq> []" by auto
  with d have "length (drop (length ?ip) (drop (length ?sg) s)) < length s" by (cases s) auto
  with frac_part_le [OF f(1)] exp_part_le [OF f(2)] show ?thesis by linarith
qed

lemma json_shorter:
  "json_value n s = Some (j, r) \<Longrightarrow> length r < length s"
  "json_members n s = Some (ms, r) \<Longrightarrow> length r < length s"
  "json_elements n s = Some (js, r) \<Longrightarrow> length r < length s"
proof (induction n s and n s and n s arbitrary: j r and ms r and js r rule: json_value_json_members_json_elements.induct)
  case (2 n s)
  obtain c cs where c: "skip_ws s = c # cs" using "2.prems" by (cases "skip_ws s") auto
  then have l: "length cs < length s" using length_skip_ws [of s] by simp
  consider "c = CHR 0x22" | "c = CHR ''{''" "has_prefix ''}'' (skip_ws cs)" | "c = CHR ''{''" "\<not> has_prefix ''}'' (skip_ws cs)"
    | "c = CHR ''[''" "has_prefix '']'' (skip_ws cs)" | "c = CHR ''[''" "\<not> has_prefix '']'' (skip_ws cs)"
    | "c \<noteq> CHR 0x22" "c \<noteq> CHR ''{''" "c \<noteq> CHR ''[''" by blast
  then show ?case
  proof cases
    case 1
    with "2.prems" c l show ?thesis by (auto dest: json_string_shorter)
  next
    case 2
    with "2.prems" c l tl_skip_ws [of "CHR ''}''" cs] show ?thesis by auto
  next
    case 3
    with "2.prems" c l "2.IH"(1) [OF c] show ?thesis by fastforce
  next
    case 4
    with "2.prems" c l tl_skip_ws [of "CHR '']''" cs] show ?thesis by auto
  next
    case 5
    with "2.prems" c l "2.IH"(2) [OF c] show ?thesis by fastforce
  next
    case 6
    then have "json_value (Suc n) s =
        (if has_prefix ''null'' (c # cs) then Some (JNull, drop 4 (c # cs)) else if has_prefix ''true'' (c # cs) then Some (JBool True, drop 4 (c # cs))
         else if has_prefix ''false'' (c # cs) then Some (JBool False, drop 5 (c # cs)) else json_number (c # cs))"
      using c by (simp only: json_value.simps list.case if_False)
    with "2.prems" have "r = drop 4 (c # cs) \<or> r = drop 5 (c # cs) \<or> json_number (c # cs) = Some (j, r)"
      by (metis option.inject prod.inject)
    with l show ?thesis using json_number_shorter [of "c # cs" j r] c length_skip_ws [of s] by auto
  qed
next
  case (4 n s)
  then obtain k r1 v r2 where a: "has_prefix [CHR 0x22] (skip_ws s)" "json_string (tl (skip_ws s)) = Some (k, r1)"
      "has_prefix '':'' (skip_ws r1)" "json_value n (tl (skip_ws r1)) = Some (v, r2)"
      "has_prefix ''}'' (skip_ws r2) \<and> r = tl (skip_ws r2) \<or> has_prefix '','' (skip_ws r2) \<and> (\<exists>m. json_members n (tl (skip_ws r2)) = Some (m, r))"
    by (auto split: if_splits option.splits)
  have "length r1 < length s" using tl_skip_ws [OF a(1)] json_string_shorter [OF a(2)] by linarith
  moreover have "length r2 < length r1" using tl_skip_ws [OF a(3)] "4.IH"(1) a by fastforce
  moreover have "length r < length r2" using a(5)
  proof (elim disjE conjE exE)
    assume "has_prefix ''}'' (skip_ws r2)" "r = tl (skip_ws r2)"
    then show ?thesis using tl_skip_ws [of "CHR ''}''" r2] by simp
  next
    fix m assume "has_prefix '','' (skip_ws r2)" "json_members n (tl (skip_ws r2)) = Some (m, r)"
    moreover have "\<not> has_prefix ''}'' (skip_ws r2)" using calculation(1) by (cases "skip_ws r2") auto
    ultimately show ?thesis using tl_skip_ws [of "CHR '',''" r2] "4.IH"(2) a by fastforce
  qed
  ultimately show ?case by linarith
next
  case (6 n s)
  then obtain v r1 where a: "json_value n s = Some (v, r1)"
      "has_prefix '']'' (skip_ws r1) \<and> r = tl (skip_ws r1) \<or> has_prefix '','' (skip_ws r1) \<and> (\<exists>m. json_elements n (tl (skip_ws r1)) = Some (m, r))"
    by (auto split: if_splits option.splits)
  have "length r1 < length s" using "6.IH"(1) a by blast
  moreover have "length r < length r1" using a(2)
  proof (elim disjE conjE exE)
    assume "has_prefix '']'' (skip_ws r1)" "r = tl (skip_ws r1)"
    then show ?thesis using tl_skip_ws [of "CHR '']''" r1] by simp
  next
    fix m assume "has_prefix '','' (skip_ws r1)" "json_elements n (tl (skip_ws r1)) = Some (m, r)"
    moreover have "\<not> has_prefix '']'' (skip_ws r1)" using calculation(1) by (cases "skip_ws r1") auto
    ultimately show ?thesis using tl_skip_ws [of "CHR '',''" r1] "6.IH"(2) a by fastforce
  qed
  ultimately show ?case by linarith
qed simp_all

text \<open>More fuel than two calls per character changes nothing.\<close>

lemma json_fuel:
  "(2 * length s < n \<longrightarrow> 2 * length s < m \<longrightarrow> json_value n s = json_value m s) \<and>
   (2 * length s + 1 < n \<longrightarrow> 2 * length s + 1 < m \<longrightarrow> json_members n s = json_members m s) \<and>
   (2 * length s + 1 < n \<longrightarrow> 2 * length s + 1 < m \<longrightarrow> json_elements n s = json_elements m s)"
proof (induction n arbitrary: s m)
  case (Suc n)
  note IHv = mp [OF mp [OF conjunct1 [OF Suc.IH]]]
    and IHm = mp [OF mp [OF conjunct1 [OF conjunct2 [OF Suc.IH]]]] and IHe = mp [OF mp [OF conjunct2 [OF conjunct2 [OF Suc.IH]]]]
  have "json_value (Suc n) s = json_value m s" if h: "2 * length s < Suc n" "2 * length s < m"
  proof (cases "skip_ws s")
    case Nil
    then show ?thesis using h by (cases m) simp_all
  next
    case (Cons c r)
    obtain m' where m: "m = Suc m'" using h(2) by (cases m) auto
    have "length r < length s" using Cons length_skip_ws [of s] by simp
    then have "json_members n r = json_members m' r" "json_elements n r = json_elements m' r" using h m by (auto intro!: IHm IHe)
    then show ?thesis using Cons m by simp
  qed
  moreover have "json_members (Suc n) s = json_members m s" if h: "2 * length s + 1 < Suc n" "2 * length s + 1 < m"
  proof -
    obtain m' where m: "m = Suc m'" using h(2) by (cases m) auto
    have v: "json_value n (tl (skip_ws r)) = json_value m' (tl (skip_ws r))"
      if "has_prefix '':'' (skip_ws r)" "length r < length s" for r
      using tl_skip_ws [OF that(1)] that(2) h m by (intro IHv) auto
    have e: "json_members n (tl (skip_ws r)) = json_members m' (tl (skip_ws r))"
      if "has_prefix '','' (skip_ws r)" "length r < length s" for r
      using tl_skip_ws [OF that(1)] that(2) h m by (intro IHm) auto
    have l1: "length r < length s" if "has_prefix [CHR 0x22] (skip_ws s)" "json_string (tl (skip_ws s)) = Some (k, r)" for k r
      using tl_skip_ws [OF that(1)] json_string_shorter [OF that(2)] by linarith
    have l2: "length r2 < length s" if "has_prefix '':'' (skip_ws r)" "length r < length s" "json_value m' (tl (skip_ws r)) = Some (v, r2)" for r v r2
      using tl_skip_ws [OF that(1)] json_shorter(1) [OF that(3)] that(2) by linarith
    show ?thesis
    proof (cases "has_prefix [CHR 0x22] (skip_ws s)")
      case q: True
      show ?thesis
      proof (cases "\<exists>k r. json_string (tl (skip_ws s)) = Some (k, r) \<and> has_prefix '':'' (skip_ws r)")
        case True
        then obtain k r where r: "json_string (tl (skip_ws s)) = Some (k, r)" "has_prefix '':'' (skip_ws r)" by blast
        note v = v [OF r(2) l1 [OF q r(1)]] and l2 = l2 [OF r(2) l1 [OF q r(1)]]
        show ?thesis
        proof (cases "json_value m' (tl (skip_ws r))")
          case (Some x)
          moreover obtain y r2 where "x = (y, r2)" by fastforce
          ultimately show ?thesis using q r v m l2 e [of r2] by simp
        qed (use q r v m in simp)
      qed (use m in \<open>auto split: option.split\<close>)
    qed (use m in simp)
  qed
  moreover have "json_elements (Suc n) s = json_elements m s" if h: "2 * length s + 1 < Suc n" "2 * length s + 1 < m"
  proof -
    obtain m' where m: "m = Suc m'" using h(2) by (cases m) auto
    have v: "json_value n s = json_value m' s" using h m by (intro IHv) auto
    have "json_elements n (tl (skip_ws r)) = json_elements m' (tl (skip_ws r))"
      if "json_value m' s = Some (x, r)" "has_prefix '','' (skip_ws r)" for x r
      using tl_skip_ws [OF that(2)] json_shorter(1) [OF that(1)] h m by (intro IHe) auto
    then show ?thesis unfolding m by (auto simp: v split: option.split)
  qed
  ultimately show ?case by blast
qed simp

lemma json_value_enough: "2 * length s < n \<Longrightarrow> json_value n s = json_value (2 * length s + 1) s"
  using json_fuel [of s n "2 * length s + 1"] by simp

section \<open>Writing\<close>

primrec json_print :: "json \<Rightarrow> string" where
  "json_print JNull = ''null''"
| "json_print (JBool b) = (if b then ''true'' else ''false'')"
| "json_print (JInt i) = Itoa i"
| "json_print (JFloat t) = t"
| "json_print (JString t) = json_str t"
| "json_print (JArray js) = ''['' @ str_Join '','' (map json_print js) @ '']''"
| "json_print (JObject kvs) = json_obj (map (map_prod id json_print) kvs)"

text \<open>A value whose numbers are integers.\<close>

primrec integral :: "json \<Rightarrow> bool" where
  "integral JNull = True"
| "integral (JBool b) = True"
| "integral (JInt i) = True"
| "integral (JFloat t) = False"
| "integral (JString t) = True"
| "integral (JArray js) = list_all id (map integral js)"
| "integral (JObject kvs) = list_all snd (map (map_prod id integral) kvs)"

lemma hex_value_digit: "n < 16 \<Longrightarrow> hex_value (Merchant_Service.hex_digit n) = Some (int n)"
proof -
  have "list_all (\<lambda>n. hex_value (Merchant_Service.hex_digit n) = Some (int n)) [0..<16]" by code_simp
  then show "n < 16 \<Longrightarrow> ?thesis" by (simp add: list_all_iff)
qed

lemma escaped_unicode:
  assumes "(of_char c :: nat) < 128"
  shows "escaped (CHR ''u'' # CHR ''0'' # CHR ''0'' # Merchant_Service.hex_digit (of_char c div 16) #
    Merchant_Service.hex_digit (of_char c mod 16) # s) = Some ([c], s)"
proof -
  let ?n = "of_char c :: nat"
  have h: "hex_value (CHR ''0'') = Some 0" by code_simp
  have "hex4 (CHR ''0'' # CHR ''0'' # Merchant_Service.hex_digit (?n div 16) # Merchant_Service.hex_digit (?n mod 16) # s)
      = Some (int (?n div 16) * 16 + int (?n mod 16), s)"
    using assms by (simp add: hex4_def h hex_value_digit)
  also have "int (?n div 16) * 16 + int (?n mod 16) = int ?n" by (metis div_mult_mod_eq of_nat_add of_nat_mult of_nat_numeral)
  also have "int ?n = of_char c" by (rule of_nat_of_char)
  finally have "hex4 (CHR ''0'' # CHR ''0'' # Merchant_Service.hex_digit (?n div 16) # Merchant_Service.hex_digit (?n mod 16) # s)
      = Some (of_char c, s)" .
  moreover have "(of_char c :: int) < 128" using assms of_nat_of_char [of c, where ?'a = int] by linarith
  ultimately show ?thesis by (simp add: escaped_def utf8_def)
qed

lemma json_char_cases:
  obtains (plain) "json_char c = [c]" "c \<noteq> CHR 0x22" "c \<noteq> CHR 0x5C" "\<not> of_char c < (32 :: int)"
        | (escape) e where "json_char c = CHR 0x5C # e" "\<And>s. escaped (e @ s) = Some ([c], s)"
proof -
  let ?n = "of_char c :: nat"
  consider "c = CHR 0x22 \<or> c = CHR 0x5C" | "?n \<in> {8, 9, 10, 12, 13}" "c \<noteq> CHR 0x22" "c \<noteq> CHR 0x5C"
    | "?n < 32 \<or> c \<in> {CHR ''<'', CHR ''>'', CHR ''&''}" "?n \<notin> {8, 9, 10, 12, 13}" "c \<noteq> CHR 0x22" "c \<noteq> CHR 0x5C"
    | "32 \<le> ?n" "c \<notin> {CHR ''<'', CHR ''>'', CHR ''&''}" "c \<noteq> CHR 0x22" "c \<noteq> CHR 0x5C"
    by force
  then show thesis
  proof cases
    case 1
    then show thesis by (intro escape [of "[c]"]) (auto simp: json_char_def escaped_def)
  next
    case 2
    then have "?n \<in> of_char ` {CHR 0x08, CHR 0x09, CHR 0x0A, CHR 0x0C, CHR 0x0D}" by simp
    then have "c \<in> {CHR 0x08, CHR 0x09, CHR 0x0A, CHR 0x0C, CHR 0x0D}" by (simp only: image_iff of_char_eq_iff) blast
    then show thesis using escape by (auto simp: json_char_def escaped_def)
  next
    case 3
    have "?n < 128" using 3(1) by auto
    from escaped_unicode [OF this] 3 show thesis
      by (intro escape [of "[CHR ''u'', CHR ''0'', CHR ''0'', Merchant_Service.hex_digit (?n div 16), Merchant_Service.hex_digit (?n mod 16)]"])
        (simp_all add: json_char_def Let_def)
  next
    case 4
    moreover have "\<not> (of_char c :: int) < 32" using 4(1) of_nat_of_char [of c, where ?'a = int] by linarith
    ultimately show thesis by (intro plain) (simp_all add: json_char_def Let_def)
  qed
qed

lemma json_string_char: "json_string (json_char c @ s) = map_option (apfst (Cons c)) (json_string s)"
proof -
  have "(@) [c] = (#) c" by (rule ext) simp
  then show ?thesis by (cases c rule: json_char_cases) simp_all
qed

lemma json_string_read: "json_string (concat (map json_char t) @ CHR 0x22 # r) = Some (t, r)"
  by (induction t) (simp_all add: json_string_char)

lemma nat_digits_hd: "hd (nat_digits n) = CHR ''0'' \<Longrightarrow> n = 0"
proof (induction n rule: nat_digits.induct)
  case (1 n)
  show ?case
  proof (cases "n < 10")
    case True
    then have "hd (nat_digits n) = digit n" by (simp add: nat_digits.simps)
    with 1 True of_char_digit [of n] show ?thesis by simp
  next
    case False
    then have "hd (nat_digits n) = hd (nat_digits (n div 10))" using nat_digits_correct [of "n div 10"] by (simp add: nat_digits.simps [of n])
    with 1 False show ?thesis by auto
  qed
qed

text \<open>What may follow a number so that it ends there.\<close>

definition ends_number :: "string \<Rightarrow> bool" where
  "ends_number r \<longleftrightarrow> r = [] \<or> \<not> is_digit (hd r) \<and> hd r \<notin> {CHR ''.'', CHR ''e'', CHR ''E''}"

lemma parts_end: "ends_number r \<Longrightarrow> frac_part r = Some ([], r) \<and> exp_part r = Some ([], r)"
  by (cases r) (auto simp: ends_number_def frac_part_def exp_part_def)

lemma json_number_read:
  assumes "ends_number r"
  shows "json_number (Itoa i @ r) = Some (JInt i, r)"
proof -
  have d: "takeWhile is_digit (nat_digits n @ r) = nat_digits n" for n
    using nat_digits_correct [of n] assms by (cases r) (auto simp: list_all_iff ends_number_def takeWhile_append2)
  have t: "takeWhile is_digit r = []" "is_digit (CHR ''0'')" using assms by (cases r; simp add: ends_number_def is_digit_def)+
  have z: "nat_digits n = ''0''" if "hd (nat_digits n) = CHR ''0''" for n
  proof -
    have "nat_digits 0 = ''0''" by code_simp
    then show ?thesis using nat_digits_hd [OF that] by simp
  qed
  have m: "hd (nat_digits n @ r) \<noteq> CHR ''-''" "nat_digits n \<noteq> []" for n
    using nat_digits_correct [of n] by (cases "nat_digits n"; auto simp: is_digit_def)+
  show ?thesis
  proof (cases "i < 0")
    case True
    then have "Itoa i @ r = CHR ''-'' # nat_digits (nat (- i)) @ r" by (simp add: Itoa_def)
    moreover have "- int (digits_value (nat_digits (nat (- i)))) = i" using nat_digits_correct True by simp
    ultimately show ?thesis using parts_end [OF assms] m(2) [of "nat (- i)"] unfolding json_number_def Let_def
      by (cases "hd (nat_digits (nat (- i))) = CHR ''0''") (simp_all add: d t z)
  next
    case False
    then have "Itoa i @ r = nat_digits (nat i) @ r" by (simp add: Itoa_def)
    moreover have "int (digits_value (nat_digits (nat i))) = i" using nat_digits_correct False by simp
    ultimately show ?thesis using parts_end [OF assms] m [of "nat i"] unfolding json_number_def Let_def
      by (cases "hd (nat_digits (nat i)) = CHR ''0''") (simp_all add: d t z)
  qed
qed

section \<open>Reading back what was written\<close>

lemma skip_ws_Cons: "c \<notin> {CHR '' '', CHR 0x09, CHR 0x0A, CHR 0x0D} \<Longrightarrow> skip_ws (c # s) = c # s"
  by (simp add: skip_ws_def)

lemma ends_number_Cons: "c \<in> {CHR '','', CHR ''}'', CHR '']''} \<Longrightarrow> ends_number (c # s)"
  by (auto simp: ends_number_def is_digit_def)

definition reads_back :: "json \<Rightarrow> bool" where
  "reads_back j \<longleftrightarrow>
     (\<forall>n r. ends_number r \<longrightarrow> 2 * length (json_print j @ r) < n \<longrightarrow> json_value n (json_print j @ r) = Some (j, r))"

lemma reads_backD: "reads_back j \<Longrightarrow> ends_number r \<Longrightarrow> 2 * length (json_print j @ r) < n \<Longrightarrow> json_value n (json_print j @ r) = Some (j, r)"
  by (simp add: reads_back_def)

abbreviation members_text :: "(string \<times> json) list \<Rightarrow> string" where
  "members_text kvs \<equiv> str_Join '','' (map (\<lambda>(k, v). json_str k @ '':'' @ json_print v) kvs)"

lemma json_print_object: "json_print (JObject kvs) = ''{'' @ members_text kvs @ ''}''"
  by (simp add: json_obj_def comp_def case_prod_unfold)

declare json_print.simps(7) [simp del]

lemma json_member_read:
  assumes "reads_back v" and "ends_number x" and "2 * length (json_str k @ '':'' @ json_print v @ x) < n"
  shows "json_members (Suc n) (json_str k @ '':'' @ json_print v @ x) =
    (if has_prefix ''}'' (skip_ws x) then Some ([(k, v)], tl (skip_ws x))
     else if has_prefix '','' (skip_ws x) then map_option (apfst (Cons (k, v))) (json_members n (tl (skip_ws x))) else None)"
proof -
  have "json_value n (json_print v @ x) = Some (v, x)" using assms by (intro reads_backD) auto
  then show ?thesis by (simp add: json_str_def skip_ws_Cons json_string_read)
qed

lemma json_members_read:
  assumes "kvs \<noteq> []" and "\<forall>kv \<in> set kvs. reads_back (snd kv)" and "2 * length (members_text kvs @ ''}'' @ r) + 1 < n"
  shows "json_members n (members_text kvs @ ''}'' @ r) = Some (kvs, r)"
  using assms
proof (induction kvs arbitrary: n)
  case (Cons kv kvs)
  obtain k v where kv: "kv = (k, v)" by fastforce
  obtain m where m: "n = Suc m" using Cons.prems(3) by (cases n) auto
  let ?x = "if kvs = [] then ''}'' @ r else '','' @ members_text kvs @ ''}'' @ r"
  have t: "members_text (kv # kvs) @ ''}'' @ r = json_str k @ '':'' @ json_print v @ ?x"
    using kv by (cases kvs) simp_all
  have "ends_number ?x" by (simp add: ends_number_Cons)
  moreover have "reads_back v" using Cons.prems(2) kv by simp
  moreover have "2 * length (json_str k @ '':'' @ json_print v @ ?x) < m" using Cons.prems(3) m unfolding t by linarith
  ultimately have j: "json_members n (members_text (kv # kvs) @ ''}'' @ r) =
      (if has_prefix ''}'' (skip_ws ?x) then Some ([(k, v)], tl (skip_ws ?x))
       else if has_prefix '','' (skip_ws ?x) then map_option (apfst (Cons (k, v))) (json_members m (tl (skip_ws ?x))) else None)"
    unfolding t m by (intro json_member_read)
  show ?case
  proof (cases "kvs = []")
    case True
    with j kv show ?thesis by (simp add: skip_ws_Cons)
  next
    case False
    have "2 * length (members_text kvs @ ''}'' @ r) + 1 < m" using Cons.prems(3) False m unfolding t by simp
    then have "json_members m (members_text kvs @ ''}'' @ r) = Some (kvs, r)"
      by (rule Cons.IH [OF False, rotated]) (use Cons.prems(2) in simp)
    with j kv False show ?thesis by (simp add: skip_ws_Cons)
  qed
qed simp

lemma json_elements_read:
  assumes "js \<noteq> []" and "\<forall>j \<in> set js. reads_back j" and "2 * length (str_Join '','' (map json_print js) @ '']'' @ r) + 1 < n"
  shows "json_elements n (str_Join '','' (map json_print js) @ '']'' @ r) = Some (js, r)"
  using assms
proof (induction js arbitrary: n)
  case (Cons j js)
  obtain m where m: "n = Suc m" using Cons.prems(3) by (cases n) auto
  let ?x = "if js = [] then '']'' @ r else '','' @ str_Join '','' (map json_print js) @ '']'' @ r"
  have t: "str_Join '','' (map json_print (j # js)) @ '']'' @ r = json_print j @ ?x" by (cases js) simp_all
  have "ends_number ?x" by (simp add: ends_number_Cons)
  moreover have "2 * length (json_print j @ ?x) < m" using Cons.prems(3) m unfolding t by linarith
  ultimately have v: "json_value m (json_print j @ ?x) = Some (j, ?x)" using Cons.prems(2) by (intro reads_backD) simp_all
  show ?case
  proof (cases "js = []")
    case True
    with v show ?thesis unfolding t m by (simp add: skip_ws_Cons)
  next
    case False
    have "2 * length (str_Join '','' (map json_print js) @ '']'' @ r) + 1 < m + 1" using Cons.prems(3) False m unfolding t by simp
    moreover have "json_print j \<noteq> []"
    proof
      assume "json_print j = []"
      moreover have "json_value 10 '']'' = None" by code_simp
      ultimately show False using Cons.prems(2) reads_backD [of j "'']''" 10] by (simp add: ends_number_Cons)
    qed
    ultimately have "2 * length (str_Join '','' (map json_print js) @ '']'' @ r) + 1 < m"
      using Cons.prems(3) False m unfolding t by (cases "json_print j") simp_all
    then have "json_elements m (str_Join '','' (map json_print js) @ '']'' @ r) = Some (js, r)"
      by (rule Cons.IH [OF False, rotated]) (use Cons.prems(2) in simp)
    with v False show ?thesis unfolding t m by (simp add: skip_ws_Cons)
  qed
qed simp

lemma Itoa_Cons:
  obtains c t where "Itoa i = c # t" "c \<notin> {CHR '' '', CHR 0x09, CHR 0x0A, CHR 0x0D, CHR 0x22, CHR ''{'', CHR ''['', CHR '']'', CHR ''n'', CHR ''t'', CHR ''f''}"
proof -
  obtain d ds where d: "nat_digits (nat i) = d # ds" "is_digit d"
    using nat_digits_correct [of "nat i"] by (cases "nat_digits (nat i)") auto
  then have "d \<notin> {CHR '' '', CHR 0x09, CHR 0x0A, CHR 0x0D, CHR 0x22, CHR ''{'', CHR ''['', CHR '']'', CHR ''n'', CHR ''t'', CHR ''f''}"
    by (auto simp: is_digit_def)
  with d(1) show thesis using that [of "CHR ''-''" "nat_digits (nat (- i))"] that [of d ds] by (cases "i < 0") (simp_all add: Itoa_def)
qed

lemma json_print_Cons:
  assumes "integral j"
  obtains c t where "json_print j = c # t" "c \<notin> {CHR '' '', CHR 0x09, CHR 0x0A, CHR 0x0D, CHR '']''}"
proof (cases j)
  case (JInt i)
  then show thesis using that by (cases i rule: Itoa_Cons) auto
next
  case (JBool b)
  then show thesis using that by (cases b) auto
qed (use assms that in \<open>auto simp: json_str_def json_print_object\<close>)

lemma json_print_reads_back: "integral j \<Longrightarrow> reads_back j"
proof (induction j)
  case (JInt i)
  obtain c t where c: "Itoa i = c # t" "c \<notin> {CHR '' '', CHR 0x09, CHR 0x0A, CHR 0x0D, CHR 0x22, CHR ''{'', CHR ''['', CHR '']'', CHR ''n'', CHR ''t'', CHR ''f''}"
    by (rule Itoa_Cons)
  have "json_value n (Itoa i @ r) = Some (JInt i, r)" if "ends_number r" "2 * length (Itoa i @ r) < n" for n r
    using that c json_number_read [OF that(1), of i] by (cases n) (auto simp: skip_ws_Cons)
  then show ?case by (simp add: reads_back_def)
next
  case (JString t)
  have "json_value n (json_str t @ r) = Some (JString t, r)" if "2 * length (json_str t @ r) < n" for n r
    using that by (cases n) (simp_all add: json_str_def skip_ws_Cons json_string_read)
  then show ?case by (simp add: reads_back_def)
next
  case (JArray js)
  then have a: "\<forall>j \<in> set js. reads_back j" by (auto simp: list_all_iff)
  have "json_value n (json_print (JArray js) @ r) = Some (JArray js, r)" if h: "2 * length (json_print (JArray js) @ r) < n" for n r
  proof (cases "js = []")
    case True
    with h show ?thesis by (cases n) (simp_all add: skip_ws_Cons)
  next
    case False
    obtain m where m: "n = Suc m" using h by (cases n) auto
    have "json_elements m (str_Join '','' (map json_print js) @ '']'' @ r) = Some (js, r)"
      using h m by (intro json_elements_read [OF False a]) simp
    moreover have "\<not> has_prefix '']'' (skip_ws (str_Join '','' (map json_print js) @ '']'' @ r))"
    proof -
      obtain j js' where js: "js = j # js'" using False by (cases js) auto
      moreover from js JArray.prems have "integral j" by simp
      then obtain c t where "json_print j = c # t" "c \<notin> {CHR '' '', CHR 0x09, CHR 0x0A, CHR 0x0D, CHR '']''}" by (rule json_print_Cons)
      ultimately show ?thesis by (cases js') (auto simp: skip_ws_Cons)
    qed
    ultimately show ?thesis using m by (simp add: skip_ws_Cons)
  qed
  then show ?case by (simp add: reads_back_def)
next
  case (JObject kvs)
  then have a: "\<forall>kv \<in> set kvs. reads_back (snd kv)" by (fastforce simp: list_all_iff)
  have "json_value n (json_print (JObject kvs) @ r) = Some (JObject kvs, r)" if h: "2 * length (json_print (JObject kvs) @ r) < n" for n r
  proof (cases "kvs = []")
    case True
    with h show ?thesis by (cases n) (simp_all add: json_print_object skip_ws_Cons)
  next
    case False
    obtain m where m: "n = Suc m" using h by (cases n) auto
    have t: "json_print (JObject kvs) @ r = CHR ''{'' # members_text kvs @ ''}'' @ r" by (simp add: json_print_object)
    have "json_members m (members_text kvs @ ''}'' @ r) = Some (kvs, r)"
      using h m unfolding t by (intro json_members_read [OF False a]) simp
    moreover obtain x where "members_text kvs @ ''}'' @ r = CHR 0x22 # x"
      using False by (cases kvs; cases "tl kvs") (auto simp: json_str_def split: prod.splits)
    ultimately show ?thesis unfolding t m by (simp add: skip_ws_Cons)
  qed
  then show ?case by (simp add: reads_back_def)
next
  case JNull
  have "json_value n (''null'' @ r) = Some (JNull, r)" if "2 * length (''null'' @ r) < n" for n r
    using that by (cases n) (simp_all add: skip_ws_Cons)
  then show ?case by (simp add: reads_back_def)
next
  case (JBool b)
  have "json_value n (json_print (JBool b) @ r) = Some (JBool b, r)" if "2 * length (json_print (JBool b) @ r) < n" for n r
    using that by (cases n; cases b) (simp_all add: skip_ws_Cons)
  then show ?case by (simp add: reads_back_def)
qed simp

lemma json_print_read:
  assumes "integral j"
  shows "json_read (json_print j) = Some j"
proof -
  have "json_value (2 * length (json_print j) + 1) (json_print j @ []) = Some (j, [])"
    using json_print_reads_back [OF assms] by (intro reads_backD) (simp_all add: ends_number_def)
  then show ?thesis by (simp add: json_read_def skip_ws_def)
qed

section \<open>The event of a settled payment\<close>

text \<open>\<open>json.Marshal\<close> of the map that \<open>buildSettledPayload\<close> makes: its keys in order, null for a missing score.\<close>

definition payload_json :: "(int \<Rightarrow> string) \<Rightarrow> SettledPayload \<Rightarrow> json" where
  "payload_json rfc p = JObject
     [(''amount_pence'', JInt (sp_amount_pence p)), (''bank_payment_ref'', JString (sp_bank_payment_ref p)),
      (''consent_id'', JString (sp_consent_id p)), (''consumer_id'', JString (sp_consumer_id p)),
      (''currency'', JString (sp_currency p)), (''description'', JString (sp_description p)),
      (''event_type'', JString (sp_event_type p)), (''idempotency_key'', JString (sp_idempotency_key p)),
      (''initiated_at'', JString (rfc (sp_initiated_at p))), (''merchant_id'', JString (sp_merchant_id p)),
      (''payment_id'', JString (sp_payment_id p)), (''risk_decision'', JString (sp_risk_decision p)),
      (''risk_score'', (case sp_risk_score p of None \<Rightarrow> JNull | Some n \<Rightarrow> JInt n)),
      (''settled_at'', JString (rfc (sp_settled_at p))), (''status'', JString (sp_status p))]"

definition payload_text :: "(int \<Rightarrow> string) \<Rightarrow> SettledPayload \<Rightarrow> string" where
  "payload_text rfc p = json_print (payload_json rfc p)"

text \<open>\<open>json.Unmarshal\<close> into a struct: unknown fields are passed over, a value of the wrong type is an error that does not stop the
  other fields.\<close>

definition dec_int32 :: "(int \<Rightarrow> 'r \<Rightarrow> 'r) \<Rightarrow> 'r json_dec" where
  "dec_int32 put j r =
     (case j of JInt i \<Rightarrow> if - (2 ^ 31) \<le> i \<and> i < 2 ^ 31 then (put i r, True) else (r, False)
      | JNull \<Rightarrow> (r, True) | _ \<Rightarrow> (r, False))"

fun dec_lax :: "(string \<times> 'r json_dec) list \<Rightarrow> (string \<times> json) list \<Rightarrow> 'r \<Rightarrow> 'r \<times> bool" where
  "dec_lax fs [] r = (r, True)"
| "dec_lax fs ((k, v) # kvs) r =
     (case json_field fs k of
        None \<Rightarrow> dec_lax fs kvs r
      | Some d \<Rightarrow> (case d v r of (r1, ok) \<Rightarrow> (case dec_lax fs kvs r1 of (r2, ok') \<Rightarrow> (r2, ok \<and> ok'))))"

definition event_fields :: "(string \<times> PaymentEvent json_dec) list" where
  "event_fields =
     [(''event_type'', dec_string (\<lambda>t r. r\<lparr>pe_EventType := t\<rparr>)), (''id'', dec_string (\<lambda>t r. r\<lparr>pe_ID := t\<rparr>)),
      (''payment_id'', dec_string (\<lambda>t r. r\<lparr>pe_PaymentID := t\<rparr>)), (''merchant_id'', dec_string (\<lambda>t r. r\<lparr>pe_MerchantID := t\<rparr>)),
      (''consent_id'', dec_string (\<lambda>t r. r\<lparr>pe_ConsentID := t\<rparr>)), (''consumer_id'', dec_string (\<lambda>t r. r\<lparr>pe_ConsumerID := t\<rparr>)),
      (''amount_pence'', dec_int64 (\<lambda>i r. r\<lparr>pe_AmountPence := i\<rparr>)), (''currency'', dec_string (\<lambda>t r. r\<lparr>pe_Currency := t\<rparr>)),
      (''status'', dec_string (\<lambda>t r. r\<lparr>pe_Status := t\<rparr>)), (''bank_payment_ref'', dec_string (\<lambda>t r. r\<lparr>pe_BankPaymentRef := t\<rparr>)),
      (''description'', dec_string (\<lambda>t r. r\<lparr>pe_Description := t\<rparr>)), (''risk_score'', dec_int32 (\<lambda>i r. r\<lparr>pe_RiskScore := i\<rparr>)),
      (''risk_decision'', dec_string (\<lambda>t r. r\<lparr>pe_RiskDecision := t\<rparr>)), (''initiated_at'', dec_string (\<lambda>t r. r\<lparr>pe_InitiatedAt := t\<rparr>)),
      (''settled_at'', dec_string (\<lambda>t r. r\<lparr>pe_SettledAt := t\<rparr>))]"

definition no_event :: PaymentEvent where
  "no_event = \<lparr>pe_EventType = [], pe_ID = [], pe_PaymentID = [], pe_MerchantID = [], pe_ConsentID = [], pe_ConsumerID = [],
     pe_AmountPence = 0, pe_Currency = [], pe_Status = [], pe_BankPaymentRef = [], pe_Description = [], pe_RiskScore = 0,
     pe_RiskDecision = [], pe_InitiatedAt = [], pe_SettledAt = []\<rparr>"

definition unmarshal_event :: "string \<Rightarrow> PaymentEvent option" where
  "unmarshal_event t =
     (case json_read t of
        None \<Rightarrow> None
      | Some j \<Rightarrow>
          (case (case j of JObject kvs \<Rightarrow> dec_lax event_fields kvs no_event | JNull \<Rightarrow> (no_event, True) | _ \<Rightarrow> (no_event, False)) of
             (e, ok) \<Rightarrow> if ok then Some e else None))"

lemma event_field:
  "json_field event_fields ''event_type'' = Some (dec_string (\<lambda>x r. r\<lparr>pe_EventType := x\<rparr>))"
  "json_field event_fields ''payment_id'' = Some (dec_string (\<lambda>x r. r\<lparr>pe_PaymentID := x\<rparr>))"
  "json_field event_fields ''merchant_id'' = Some (dec_string (\<lambda>x r. r\<lparr>pe_MerchantID := x\<rparr>))"
  "json_field event_fields ''consent_id'' = Some (dec_string (\<lambda>x r. r\<lparr>pe_ConsentID := x\<rparr>))"
  "json_field event_fields ''consumer_id'' = Some (dec_string (\<lambda>x r. r\<lparr>pe_ConsumerID := x\<rparr>))"
  "json_field event_fields ''amount_pence'' = Some (dec_int64 (\<lambda>x r. r\<lparr>pe_AmountPence := x\<rparr>))"
  "json_field event_fields ''currency'' = Some (dec_string (\<lambda>x r. r\<lparr>pe_Currency := x\<rparr>))"
  "json_field event_fields ''status'' = Some (dec_string (\<lambda>x r. r\<lparr>pe_Status := x\<rparr>))"
  "json_field event_fields ''bank_payment_ref'' = Some (dec_string (\<lambda>x r. r\<lparr>pe_BankPaymentRef := x\<rparr>))"
  "json_field event_fields ''description'' = Some (dec_string (\<lambda>x r. r\<lparr>pe_Description := x\<rparr>))"
  "json_field event_fields ''risk_score'' = Some (dec_int32 (\<lambda>x r. r\<lparr>pe_RiskScore := x\<rparr>))"
  "json_field event_fields ''risk_decision'' = Some (dec_string (\<lambda>x r. r\<lparr>pe_RiskDecision := x\<rparr>))"
  "json_field event_fields ''initiated_at'' = Some (dec_string (\<lambda>x r. r\<lparr>pe_InitiatedAt := x\<rparr>))"
  "json_field event_fields ''settled_at'' = Some (dec_string (\<lambda>x r. r\<lparr>pe_SettledAt := x\<rparr>))"
  by (simp_all add: json_field_def event_fields_def)

text \<open>Exactly the payloads whose numbers fit the struct are read, and then as they were meant.\<close>

definition payload_fits :: "SettledPayload \<Rightarrow> bool" where
  "payload_fits p \<longleftrightarrow> is_int64 (sp_amount_pence p) \<and> (\<forall>n. sp_risk_score p = Some n \<longrightarrow> - (2 ^ 31) \<le> n \<and> n < 2 ^ 31)"

lemma payload_read:
  "unmarshal_event (payload_text rfc p) = (if payload_fits p then Some (event_of_payload rfc p) else None)"
proof -
  have "integral (payload_json rfc p)" by (simp add: payload_json_def split: option.split)
  then have r: "json_read (payload_text rfc p) = Some (payload_json rfc p)" by (simp add: payload_text_def json_print_read)
  have k: "json_field event_fields ''idempotency_key'' = None" by code_simp
  show ?thesis
    by (cases "sp_risk_score p")
      (simp_all add: unmarshal_event_def r payload_json_def event_field k dec_string_def dec_int64_def dec_int32_def
        no_event_def event_of_payload_def payload_fits_def)
qed



section \<open>The body of the webhook\<close>

definition webhook_json :: "WebhookBody \<Rightarrow> json" where
  "webhook_json b =
     (let d = wb_Payment b; opt = (\<lambda>k v. if v = [] then [] else [(k, JString v)]) in
      JObject
        [(''event_type'', JString (wb_EventType b)),
         (''payment'', JObject
           ([(''id'', JString (wd_ID d)), (''merchant_id'', JString (wd_MerchantID d)), (''consent_id'', JString (wd_ConsentID d)),
             (''consumer_id'', JString (wd_ConsumerID d)), (''amount_pence'', JInt (wd_AmountPence d)),
             (''currency'', JString (wd_Currency d)), (''status'', JString (wd_Status d))] @
            opt ''bank_payment_ref'' (wd_BankPaymentRef d) @
            (if wd_RiskScore d = 0 then [] else [(''risk_score'', JInt (wd_RiskScore d))]) @
            opt ''risk_decision'' (wd_RiskDecision d) @ opt ''settled_at'' (wd_SettledAt d) @ opt ''description'' (wd_Description d))),
         (''delivered_at'', JString (wb_DeliveredAt b))])"

text \<open>The body is JSON, and it says what the service meant.\<close>

lemma webhook_body_read: "json_read (json_webhook b) = Some (webhook_json b)"
proof -
  have "json_webhook b = json_print (webhook_json b)"
    by (simp add: json_webhook_def json_payment_def webhook_json_def json_print.simps(7) omitempty_def Let_def)
  moreover have "integral (webhook_json b)" by (simp add: webhook_json_def Let_def)
  ultimately show ?thesis by (simp add: json_print_read)
qed

definition body_of_payment :: "json \<Rightarrow> string \<Rightarrow> string \<Rightarrow> int \<Rightarrow> bool" where
  "body_of_payment j pid mid amount \<longleftrightarrow>
     (\<exists>kvs d. j = JObject [(''event_type'', JString ''payment.settled''), (''payment'', JObject kvs), (''delivered_at'', d)] \<and>
        map_of kvs ''id'' = Some (JString pid) \<and> map_of kvs ''merchant_id'' = Some (JString mid) \<and>
        map_of kvs ''amount_pence'' = Some (JInt amount) \<and> map_of kvs ''status'' = Some (JString ''SETTLED''))"

lemma built_body_read:
  "\<exists>j. json_read (buildWebhookBody rfc t (event_of_payload rfc (buildSettledPayload c p u))) = Some j \<and>
     body_of_payment j (uc_String c (py_ID p)) (uc_String c (py_MerchantID p)) (py_AmountPence p)"
  unfolding buildWebhookBody_def webhook_body_read
  by (simp add: webhook_json_def body_of_payment_def webhook_data_def PaymentKey_def event_of_payload_def buildSettledPayload_def Let_def)

end
