(* ===== verification/End_To_End.thy ===== *)
theory End_To_End
  imports Json_Text Workers Recovery_Correct
begin

text \<open>
  From the saga to the merchant's endpoint, across five processes and the broker: the saga settles a payment and its event lands in the
  outbox (\<open>saga.go\<close>, \<open>repo.go\<close>), the relay publishes it (\<open>outbox.go\<close>), the notification service unmarshals its text
  and posts the webhook (\<open>consumer.go\<close>, \<open>deliver.go\<close>).
  \<^item> \<open>handle_text\<close> is the consumer's \<open>handle\<close> on the value of a message, \<open>consume\<close> its loop over the messages of a partition.
  \<^item> \<open>saga_outbox\<close>: a successful saga has added exactly one event, the one of its payment, whatever was lost between the services.
  \<^item> \<open>webhook_end_to_end\<close> is the composition.
\<close>

section \<open>What a saga leaves in the outbox\<close>

lemma rpc_call_keeps:
  assumes "rpc_call f w = (r, w')" and "\<And>u. g (snd (f u)) = g u" and "\<And>u xs. g (u\<lparr>pl_rpc := xs\<rparr>) = g u"
  shows "g w' = g w"
proof -
  have "g (snd (rpc_call f w)) = g w"
    using assms(2,3) by (simp add: rpc_call_def split: list.split option.split rpc_fault.split)
  with assms(1) show ?thesis by simp
qed

lemma served_elsewhere:
  "rpc_call (on_con f) w = (r, w') \<Longrightarrow> pl_pay w' = pl_pay w"
  "rpc_call (on_risk g) w = (r', w') \<Longrightarrow> pl_pay w' = pl_pay w"
  "rpc_call (on_bank h) w = (r'', w') \<Longrightarrow> pl_pay w' = pl_pay w"
  "rpc_call (on_led l) w = (r3, w') \<Longrightarrow> pl_pay w' = pl_pay w"
  by (erule rpc_call_keeps; simp add: on_con_def on_risk_def on_bank_def on_led_def split: prod.split)+

text \<open>The saga's own record and the outbox at a point of its run.\<close>

definition event_written :: "payment_db \<Rightarrow> Payment \<Rightarrow> payment_db \<Rightarrow> bool" where
  "event_written s p s' \<longleftrightarrow>
     (\<exists>row t. outbox s' = outbox s @ [row] \<and> ob_Topic row = TopicPaymentEvents \<and> ob_Payload row = buildSettledPayload (codec s) p t)"

definition outbox_at :: "Payment \<Rightarrow> 'c platform \<Rightarrow> saga_point \<times> Payment \<times> 'c platform \<Rightarrow> bool" where
  "outbox_at p w = (\<lambda>(pt, p', w'). payment_wf (pl_pay w') \<and> codec (pl_pay w') = codec (pl_pay w) \<and>
     py_ID p' = py_ID p \<and> py_MerchantID p' = py_MerchantID p \<and> py_AmountPence p' = py_AmountPence p \<and>
     (if pt \<in> {Finished, Confirmed} then event_written (pl_pay w) p' (pl_pay w') else outbox (pl_pay w') = outbox (pl_pay w)))"

lemma repo_step:
  assumes "upd_pay f p w = (None, p', w')" and "\<And>s. f p (pl_pay w) = (None, p', s) \<Longrightarrow> repo_update g None p p' (pl_pay w) s"
  shows "payment_wf (pl_pay w') \<and> codec (pl_pay w') = codec (pl_pay w) \<and> outbox (pl_pay w') = outbox (pl_pay w) \<and> p' = g p"
  using assms(1) by (rule upd_pay_cases) (use assms(2) in \<open>auto simp: repo_update_def pay_base_def row_written_def\<close>)

lemma outbox_step:
  assumes "saga_step (platform_orc lib cdc) c d" and "outbox_at p w c"
  shows "outbox_at p w d"
  using assms
proof (cases rule: saga_step.cases)
  case (reserve q u resp u' rid)
  then show ?thesis using assms(2) served_elsewhere(1) by (fastforce simp: outbox_at_def platform_orc_def)
next
  case (record_hold rid resp q u q' u')
  then have "upd_pay (UpdateAfterConsent rid (rrs_ConsumerId resp)) q u = (None, q', u')" by (simp add: platform_orc_def)
  from repo_step [OF this UpdateAfterConsent_effect [of rid "rrs_ConsumerId resp"]] record_hold assms(2) show ?thesis
    by (simp add: outbox_at_def after_consent_def)
next
  case (score q u resp u' cref)
  then show ?thesis using assms(2) served_elsewhere(2) by (fastforce simp: outbox_at_def platform_orc_def)
next
  case (record_score resp q u q' u' cref)
  then have "upd_pay (UpdateAfterRisk (srs_Score resp) (RiskDecision_String (srs_Decision resp))) q u = (None, q', u')" by (simp add: platform_orc_def)
  from repo_step [OF this UpdateAfterRisk_effect [of "srs_Score resp" "RiskDecision_String (srs_Decision resp)"]] record_score assms(2) show ?thesis
    by (simp add: outbox_at_def after_risk_def)
next
  case (take_money q cref u resp u')
  then show ?thesis using assms(2) served_elsewhere(3) by (fastforce simp: outbox_at_def platform_orc_def)
next
  case (record_ref ref q u q' u')
  then have "upd_pay (UpdateAfterBank ref) q u = (None, q', u')" by (simp add: platform_orc_def)
  from repo_step [OF this UpdateAfterBank_effect [of ref]] record_ref assms(2) show ?thesis
    by (simp add: outbox_at_def after_bank_def)
next
  case (book q u x u')
  then show ?thesis using assms(2) served_elsewhere(4) by (fastforce simp: outbox_at_def platform_orc_def)
next
  case (settle q u q' u')
  then have "upd_pay SettleWithOutbox q u = (None, q', u')" by (simp add: platform_orc_def)
  then obtain s where s: "SettleWithOutbox q (pl_pay u) = (None, q', s)" "u' = u\<lparr>pl_pay := s\<rparr>" by (rule upd_pay_cases)
  have "payment_wf (pl_pay u)" using assms(2) settle by (simp add: outbox_at_def)
  with s(1) have "q' = after_settle (now (pl_pay u)) q \<and> settles q (pl_pay u) s" by (cases rule: SettleWithOutbox_effect) auto
  with settle s(2) assms(2) show ?thesis
    by (auto simp: outbox_at_def settles_def pay_base_def event_written_def after_settle_def buildSettledPayload_def)
next
  case (confirm q u)
  have "pl_pay (confirm_step (platform_orc lib cdc) q u) = pl_pay u"
    using served_elsewhere(1) [OF surjective_pairing] by (auto simp: confirm_step_def platform_orc_def split: option.split)
  with confirm assms(2) show ?thesis by (simp add: outbox_at_def)
qed

lemma saga_outbox:
  assumes "runSaga (platform_orc lib cdc) p w = (None, p', w')" and "payment_wf (pl_pay w)"
  shows "outbox_at p w (Confirmed, p', w')"
proof -
  have "saga_runs (platform_orc lib cdc) (Started, p, w) (Confirmed, p', w')" by (rule runSaga_calls [THEN iffD1, OF assms(1)])
  moreover have "outbox_at p w (Started, p, w)" using assms(2) by (simp add: outbox_at_def)
  ultimately show ?thesis by (induction rule: rtranclp_induct) (auto intro: outbox_step)
qed

section \<open>The consumer on texts\<close>

definition handle_text :: "(int \<Rightarrow> string) \<Rightarrow> string \<Rightarrow> notif_db \<Rightarrow> goerror option \<times> notif_db" where
  "handle_text rfc val = consumer_handle rfc (unmarshal_event val)"

definition consume :: "(int \<Rightarrow> string) \<Rightarrow> kafka_Message list \<Rightarrow> nat \<times> notif_db \<Rightarrow> goerror option \<times> nat \<times> notif_db" where
  "consume rfc ms = consumer_Run rfc 0 (map (\<lambda>m. unmarshal_event (payload_text rfc (km_Value m))) ms)"

text \<open>A notification service whose calls all pass: what it keeps, and what it adds.\<close>

definition calm_step :: "notif_db \<Rightarrow> notif_db \<Rightarrow> bool" where
  "calm_step s s' \<longleftrightarrow> script s' = [] \<and> nd_merchants s' = nd_merchants s \<and> nd_has_dlq s' = nd_has_dlq s \<and> now s' = now s \<and>
     (\<exists>ps. nd_posts s' = nd_posts s @ ps) \<and> (\<exists>ds. nd_dlq s' = nd_dlq s @ ds)"

lemma calm_step_trans: "calm_step s t \<Longrightarrow> calm_step t u \<Longrightarrow> calm_step s u"
  by (auto simp: calm_step_def)

lemma http_post_calm: "script s = [] \<Longrightarrow> http_post p s = (r, s') \<Longrightarrow> calm_step s s' \<and> nd_keys s' = nd_keys s"
  by (auto simp: http_post_def calm_step_def split: list.splits)

lemma postWebhook_calm:
  assumes "script s = []" and "postWebhook url secret body s = (err, s')"
  shows "calm_step s s' \<and> nd_keys s' = nd_keys s"
proof -
  obtain r t where h: "http_post \<lparr>wp_url = url, wp_signature = Sign secret (now s) body, wp_timestamp = TimestampHeader (now s), wp_body = body\<rparr> s = (r, t)"
    by fastforce
  then have "s' = t" using assms(2) by (cases r) (auto simp: postWebhook_def Let_def)
  with http_post_calm [OF assms(1) h] show ?thesis by simp
qed

lemma delivery_loop_calm:
  assumes "script s = []" and "delivery_loop n url secret body l s = (r, s')"
  shows "calm_step s s' \<and> nd_keys s' = nd_keys s \<and> \<not> isl r"
  using assms
proof (induction n arbitrary: l s)
  case 0
  then show ?case by (auto simp: calm_step_def)
next
  case (Suc n)
  obtain err t where p: "postWebhook url secret body s = (err, t)" by fastforce
  note c = postWebhook_calm [OF Suc.prems(1) p]
  then have st: "script t = []" by (simp add: calm_step_def)
  show ?case
  proof (cases "err = None \<or> n = 0")
    case True
    with Suc.prems p c show ?thesis by (auto split: if_splits option.splits)
  next
    case False
    then have "delivery_loop n url secret body err t = (r, s')" using Suc.prems p st by auto
    from Suc.IH [OF st this] c show ?thesis by (auto intro: calm_step_trans)
  qed
qed

lemma publishDLQ_calm:
  assumes "script s = []" and "nd_has_dlq s" and "publishDLQ rfc e url body n l s = (err, s')"
  shows "calm_step s s' \<and> nd_keys s' = nd_keys s \<and> err = None"
  using assms by (auto simp: publishDLQ_def calm_step_def)

lemma Deliver_calm:
  assumes "script s = []" and "nd_has_dlq s" and "Deliver rfc e s = (err, s')"
  shows "calm_step s s' \<and> nd_keys s' = nd_keys s \<and>
    (PaymentKey e \<noteq> [] \<and> pe_MerchantID e \<noteq> [] \<and> \<not> isl (nd_merchants s (pe_MerchantID e)) \<longrightarrow> err = None)"
proof (cases "PaymentKey e = [] \<or> pe_MerchantID e = [] \<or> isl (nd_merchants s (pe_MerchantID e))")
  case True
  with assms show ?thesis by (auto simp: Deliver_def calm_step_def isl_def split: if_splits sum.splits)
next
  case False
  then obtain cfg where cfg: "nd_merchants s (pe_MerchantID e) = Inr cfg" by (cases "nd_merchants s (pe_MerchantID e)") auto
  let ?b = "buildWebhookBody rfc (now s) e"
  obtain r t where l: "delivery_loop notify_maxAttempts (pw_WebhookUrl cfg) (pw_HmacSecret cfg) ?b None s = (r, t)" by fastforce
  note c = delivery_loop_calm [OF assms(1) l]
  then obtain q where q: "r = Inr q" by (cases r) auto
  have t: "script t = []" "nd_has_dlq t" using c assms(2) by (auto simp: calm_step_def)
  obtain perr u where pd: "publishDLQ rfc e (pw_WebhookUrl cfg) ?b notify_maxAttempts q t = (perr, u)" by fastforce
  note d = publishDLQ_calm [OF t pd]
  show ?thesis
  proof (cases "pw_WebhookUrl cfg = []")
    case True
    with assms False cfg show ?thesis by (auto simp: Deliver_def calm_step_def)
  next
    case url: False
    then have "Deliver rfc e s = (case q of None \<Rightarrow> (None, t) | Some _ \<Rightarrow> (None, u))"
      using False assms(1) cfg l q pd d by (cases q) (simp_all add: Deliver_def Let_def)
    with assms(3) c d show ?thesis by (cases q) (auto intro: calm_step_trans)
  qed
qed

lemma handle_calm:
  assumes "script s = []" and "nd_has_dlq s" and "consumer_handle rfc m s = (err, s')"
  shows "calm_step s s' \<and> (\<forall>k. (\<forall>e. m = Some e \<longrightarrow> k \<noteq> deliveredKey (PaymentKey e)) \<longrightarrow> nd_keys s' k = nd_keys s k) \<and>
    (\<forall>e. m = Some e \<longrightarrow> pe_MerchantID e \<noteq> [] \<longrightarrow> \<not> isl (nd_merchants s (pe_MerchantID e)) \<longrightarrow> err = None)"
proof (cases m)
  case None
  with assms show ?thesis by (auto simp: consumer_handle_def calm_step_def)
next
  case (Some e)
  obtain derr t where d: "Deliver rfc e s = (derr, t)" by fastforce
  note c = Deliver_calm [OF assms(1,2) d]
  have k: "calm_step s (t\<lparr>nd_keys := x\<rparr>)" for x using c by (auto simp: calm_step_def)
  have t: "script t = []" using c by (simp add: calm_step_def)
  show ?thesis
  proof (cases "settled_event e \<and> \<not> (case nd_keys s (deliveredKey (PaymentKey e)) of None \<Rightarrow> False | Some t \<Rightarrow> now s < t)")
    case False
    then have "err = None \<and> s' = s"
      using assms Some by (auto simp: consumer_handle_def alreadyDelivered_def split: if_splits)
    with assms(1) show ?thesis by (auto simp: calm_step_def)
  next
    case True
    then have "consumer_handle rfc m s = (case derr of Some x \<Rightarrow> (Some x, t)
        | None \<Rightarrow> (None, t\<lparr>nd_keys := (nd_keys t)(deliveredKey (PaymentKey e) \<mapsto> now t + deliveredKeyTTL)\<rparr>))"
      using assms(1) Some d t by (auto simp: consumer_handle_def alreadyDelivered_def markDelivered_def split: option.split)
    with assms(3) c k Some True show ?thesis by (cases derr) auto
  qed
qed

lemma deliveredKey_inj: "deliveredKey a = deliveredKey b \<longleftrightarrow> a = b"
  by (simp add: deliveredKey_def)

lemma run_calm:
  assumes "script s = []" and "nd_has_dlq s" and "consumer_Run rfc off ms (c, s) = (err, c', s')"
  shows "err = None \<and> calm_step s s'"
  using assms
proof (induction ms arbitrary: off c s)
  case Nil
  then show ?case by (auto simp: calm_step_def)
next
  case (Cons m ms)
  obtain e1 t where h: "consumer_handle rfc m s = (e1, t)" by fastforce
  note k = conjunct1 [OF handle_calm [OF Cons.prems(1,2) h]]
  then have t: "script t = []" "nd_has_dlq t" using Cons.prems(2) by (auto simp: calm_step_def)
  obtain c1 where "consumer_Run rfc (Suc off) ms (c1, t) = (err, c', s')" using Cons.prems(3) h t by (cases e1) auto
  from Cons.IH [OF t this] k show ?case by (auto intro: calm_step_trans)
qed

lemma notified_mono: "notified cfg t b e ps ds \<Longrightarrow> set ps \<subseteq> set ps' \<Longrightarrow> set ds \<subseteq> set ds' \<Longrightarrow> notified cfg t b e ps' ds'"
  unfolding notified_def by blast

lemma run_notifies:
  assumes "script s = []" and "nd_has_dlq s" and "Some e \<in> set ms" and "settled_event e" and "pe_MerchantID e \<noteq> []"
    and "nd_merchants s (pe_MerchantID e) = Inr cfg" and "nd_keys s (deliveredKey (PaymentKey e)) = None"
    and "\<forall>e'. Some e' \<in> set ms \<longrightarrow> PaymentKey e' = PaymentKey e \<longrightarrow> e' = e"
    and "consumer_Run rfc off ms (c, s) = (err, c', s')"
  shows "notified cfg (now s) (buildWebhookBody rfc (now s) e) e (nd_posts s') (nd_dlq s')"
  using assms
proof (induction ms arbitrary: off c s)
  case (Cons m ms)
  obtain e1 t where h: "consumer_handle rfc m s = (e1, t)" by fastforce
  note k = handle_calm [OF Cons.prems(1,2) h]
  then have t: "script t = []" "nd_has_dlq t" "nd_merchants t = nd_merchants s" "now t = now s"
    using Cons.prems(2) by (auto simp: calm_step_def)
  obtain c1 where r: "consumer_Run rfc (Suc off) ms (c1, t) = (err, c', s')" using Cons.prems(9) h t by (cases e1) auto
  show ?case
  proof (cases "m = Some e")
    case True
    then have "e1 = None" using k Cons.prems(5,6) by auto
    with h True have "notified cfg (now s) (buildWebhookBody rfc (now s) e) e (drop (length (nd_posts s)) (nd_posts t)) (drop (length (nd_dlq s)) (nd_dlq t))"
      using handle_notifies [of rfc e s t] Cons.prems(4,6,7) by simp
    moreover have "calm_step t s'" using run_calm [OF t(1,2) r] by simp
    ultimately show ?thesis
      by (elim notified_mono) (auto simp: calm_step_def dest: in_set_dropD)
  next
    case False
    then have "\<forall>e2. m = Some e2 \<longrightarrow> deliveredKey (PaymentKey e) \<noteq> deliveredKey (PaymentKey e2)"
      using Cons.prems(8) by (auto simp: deliveredKey_inj)
    then have "nd_keys t (deliveredKey (PaymentKey e)) = None" using k Cons.prems(7) by simp
    moreover have "Some e \<in> set ms" using Cons.prems(3) False by auto
    ultimately show ?thesis using Cons.IH [OF t(1,2) _ Cons.prems(4,5), of off c1] Cons.IH [OF t(1,2) _ Cons.prems(4,5) _ _ _ r] t(3,4) Cons.prems(6,8) by auto
  qed
qed simp

section \<open>The composition\<close>

lemma sent_log: "sent good_writer rows k = k @ map outbox_message rows"
  by (induction rows arbitrary: k) (simp_all add: sent_def good_writer_def)

definition payment_fits :: "Payment \<Rightarrow> bool" where
  "payment_fits p \<longleftrightarrow> is_int64 (py_AmountPence p) \<and> (\<forall>n. py_RiskScore p = Some n \<longrightarrow> - (2 ^ 31) \<le> n \<and> n < 2 ^ 31)"

text \<open>C4: the merchant of a settled payment is told. When a saga has succeeded, whatever was lost between the services on its way, and the relay then
  runs while its database and the broker answer, the outbox is empty; and when the notification service then works through
  the broker's messages while Redis, the merchant service and the dead-letter topic answer, then, unless the merchant has no webhook
  URL, its endpoint has accepted a POST whose signature verifies under the merchant's secret and whose body is JSON naming the payment,
  the merchant, the amount and the status SETTLED, or that body waits in the dead letters under the merchant's key.\<close>

theorem webhook_end_to_end:
  assumes "payment_wf (pl_pay w)" and "codec (pl_pay w) = cdc" and "codec_ok cdc"
    and "runSaga (platform_orc lib cdc) p w = (None, p', w')" and "payment_fits p'"
    and "\<forall>row \<in> set (outbox (pl_pay w)). sp_payment_id (ob_Payload row) \<noteq> uc_String cdc (py_ID p)"
    and "script (pl_pay w') = []" and "length (outbox (pl_pay w')) \<le> 100 * n"
    and "relay_Run good_writer (replicate n Tick) (pl_pay w', []) = (s1, msgs)"
    and "script s = []" and "nd_has_dlq s" and "nd_merchants s (uc_String cdc (py_MerchantID p)) = Inr cfg"
    and "nd_keys s (deliveredKey (uc_String cdc (py_ID p))) = None" and "consume rfc msgs (0, s) = (err, commit, s')"
  shows "outbox s1 = [] \<and> err = None \<and>
    (pw_WebhookUrl cfg = [] \<or>
     (\<exists>body j. json_read body = Some j \<and>
        body_of_payment j (uc_String cdc (py_ID p)) (uc_String cdc (py_MerchantID p)) (py_AmountPence p) \<and>
        ((\<exists>post code. (post, Inr code) \<in> set (nd_posts s') \<and> 200 \<le> code \<and> code < 300 \<and> wp_url post = pw_WebhookUrl cfg \<and>
            wp_body post = body \<and> Verify (now s) (pw_HmacSecret cfg) (wp_signature post) (now s) (wp_body post)) \<or>
         (\<exists>d. (uc_String cdc (py_MerchantID p), d) \<in> set (nd_dlq s') \<and> dl_PaymentID d = uc_String cdc (py_ID p) \<and> dl_Payload d = body))))"
proof -
  have o: "outbox_at p w (Confirmed, p', w')" by (rule saga_outbox [OF assms(4,1)])
  then obtain row t where row: "outbox (pl_pay w') = outbox (pl_pay w) @ [row]" "ob_Payload row = buildSettledPayload cdc p' t"
      and p': "py_ID p' = py_ID p" "py_MerchantID p' = py_MerchantID p" "py_AmountPence p' = py_AmountPence p" and wf: "payment_wf (pl_pay w')"
    using assms(2) by (auto simp: outbox_at_def event_written_def)
  have "\<forall>m k. fst (good_writer m k) = None" by (simp add: good_writer_def)
  from relay_run_calm [OF wf assms(7) this assms(8,9)]
  have r: "outbox s1 = []" "msgs = map outbox_message (sort_key ob_CreatedAt (outbox (pl_pay w')))" by (simp_all add: sent_log)
  let ?ev = "\<lambda>m. unmarshal_event (payload_text rfc (km_Value m))" and ?e = "event_of_payload rfc (buildSettledPayload cdc p' t)"
  have e: "settled_event ?e" "PaymentKey ?e = uc_String cdc (py_ID p)" "pe_MerchantID ?e = uc_String cdc (py_MerchantID p)" "pe_MerchantID ?e \<noteq> []"
    using assms(3) p' by (simp_all add: PaymentKey_def event_of_payload_def buildSettledPayload_def codec_ok_def)
  have fits: "payload_fits (buildSettledPayload cdc p' t)" using assms(5) by (simp add: payment_fits_def payload_fits_def buildSettledPayload_def)
  have evs: "set (map ?ev msgs) = (\<lambda>x. unmarshal_event (payload_text rfc (ob_Payload x))) ` (set (outbox (pl_pay w)) \<union> {row})"
    using r(2) row(1) by (simp add: image_image outbox_message_def)
  have here: "Some ?e \<in> set (map ?ev msgs)" unfolding evs using row(2) fits by (simp add: payload_read)
  have only: "e' = ?e" if "Some e' \<in> set (map ?ev msgs)" "PaymentKey e' = PaymentKey ?e" for e'
  proof -
    have "Some e' \<in> (\<lambda>x. unmarshal_event (payload_text rfc (ob_Payload x))) ` (set (outbox (pl_pay w)) \<union> {row})" using that(1) unfolding evs .
    then obtain x where m: "Some e' = unmarshal_event (payload_text rfc (ob_Payload x))" "x \<in> set (outbox (pl_pay w)) \<union> {row}"
      by (rule imageE)
    have x: "x \<in> set (outbox (pl_pay w)) \<or> x = row" using m(2) by blast
    have "e' = event_of_payload rfc (ob_Payload x)" using m(1) unfolding payload_read by (simp split: if_splits)
    moreover have "x = row" using x assms(6) that(2) e(2) calculation by (auto simp: PaymentKey_def event_of_payload_def)
    ultimately show ?thesis using row(2) by simp
  qed
  have k: "nd_merchants s (pe_MerchantID ?e) = Inr cfg" "nd_keys s (deliveredKey (PaymentKey ?e)) = None" unfolding e(2,3) by (rule assms)+
  have n: "notified cfg (now s) (buildWebhookBody rfc (now s) ?e) ?e (nd_posts s') (nd_dlq s')"
    by (rule run_notifies [OF assms(10,11) here e(1,4) k _ assms(14) [unfolded consume_def]]) (use only in blast)
  have "err = None" using run_calm [OF assms(10,11) assms(14) [unfolded consume_def]] by simp
  moreover obtain j where "json_read (buildWebhookBody rfc (now s) ?e) = Some j"
      "body_of_payment j (uc_String cdc (py_ID p)) (uc_String cdc (py_MerchantID p)) (py_AmountPence p)"
    using built_body_read [of rfc "now s" cdc p' t] p' by auto
  ultimately show ?thesis using r(1) n [unfolded notified_def e(2,3)] by blast
qed

theorem webhook_end_to_end_witness:
  "\<exists>p' w' s1 msgs commit s' body j. vrp_run [] [] = (None, p', w') \<and> relay_Run good_writer [Tick] (pl_pay w', []) = (s1, msgs) \<and>
     outbox s1 = [] \<and> consume (\<lambda>_. ''2025-01-01T00:00:00Z'') msgs (0, ex_notif) = (None, commit, s') \<and>
     json_read body = Some j \<and> body_of_payment j ''iiiiii'' ''iiiiiiii'' 1000 \<and>
     (body \<in> (\<lambda>(post, _). wp_body post) ` set (nd_posts s') \<or> body \<in> (\<lambda>(_, d). dl_Payload d) ` set (nd_dlq s'))"
proof -
  let ?rfc = "\<lambda>_. ''2025-01-01T00:00:00Z''"
  have c: "case vrp_run [] [] of (err, p', w') \<Rightarrow> err = None \<and> script (pl_pay w') = [] \<and> length (outbox (pl_pay w')) \<le> 100 * 1 \<and>
      is_int64 (py_AmountPence p') \<and> (case py_RiskScore p' of None \<Rightarrow> True | Some n \<Rightarrow> - (2 ^ 31) \<le> n \<and> n < 2 ^ 31)" by code_simp
  obtain err p' w' where r: "vrp_run [] [] = (err, p', w')" by (metis prod.exhaust)
  obtain s1 msgs where m: "relay_Run good_writer (replicate 1 Tick) (pl_pay w', []) = (s1, msgs)" by fastforce
  obtain e commit s' where k: "consume ?rfc msgs (0, ex_notif) = (e, commit, s')" by (metis prod.exhaust)
  from c r have ok: "vrp_run [] [] = (None, p', w')" "script (pl_pay w') = []" "length (outbox (pl_pay w')) \<le> 100 * 1" "payment_fits p'"
    by (simp_all add: payment_fits_def split: option.splits)
  have i: "uc_String unary_codec (py_ID vrp_p) = ''iiiiii''" "uc_String unary_codec (py_MerchantID vrp_p) = ''iiiiiiii''" "py_AmountPence vrp_p = 1000"
    "outbox (pl_pay (vrp_w [] [])) = []" by code_simp+
  have cd: "codec (pl_pay (vrp_w [] [])) = unary_codec"
  proof -
    obtain x q t where x: "CreatePayment vrp_p pay_s0 = (x, q, t)" by (metis prod.exhaust)
    moreover have "blank vrp_p" "payment_wf pay_s0" "py_Status vrp_p \<noteq> StatusSettled" by (simp_all add: vrp_p_def pay_new_def blank_def pay_s0_wf)
    ultimately have "codec t = codec pay_s0"
    proof (cases rule: CreatePayment_effect)
      case refused
      then show ?thesis by (auto elim: env_onlyE)
    next
      case created
      then show ?thesis by (simp add: pay_base_def)
    qed
    with x show ?thesis by (simp add: vrp_w_def pay_s0_def)
  qed
  have n: "script ex_notif = []" "nd_has_dlq ex_notif" "nd_merchants ex_notif ''iiiiiiii'' = Inr ex_cfg" "nd_keys ex_notif (deliveredKey x) = None" for x
    by (simp_all add: ex_notif_def)
  have "pw_WebhookUrl ex_cfg \<noteq> []" by (simp add: ex_cfg_def)
  with webhook_end_to_end [OF vrp_created(1) cd codec_ok_unary ok(1,4) _ ok(2,3) m n(1,2) _ n(4) k, of ex_cfg] i(4) n(3)
  show ?thesis using ok(1) m k unfolding i by (fastforce intro: image_eqI)
qed

end
