(* ===== verification/Retry.thy ===== *)
theory Retry
  imports End_To_End Gateway_Platform
begin

text \<open>
  A second attempt at a payment (\<open>saga.go\<close> \<open>Initiate\<close> with SkipIdempotency, \<open>repo.go\<close> \<open>ResetForRetry\<close>) after a first one that was undone,
  across the payment, consent, ledger and bank services. The consent service answers a second reservation of a payment with the released
  one, the ledger answers a second posting with the entry that was reversed: \<open>hollow\<close> says that both are so, and no step of a saga leaves
  such a state.
\<close>

section \<open>An attempt that was undone\<close>

definition hollow :: "uuid_codec \<Rightarrow> uuid \<Rightarrow> (string \<times> string \<times> string \<Rightarrow> int) \<Rightarrow> 'c platform \<Rightarrow> bool" where
  "hollow cdc i b w \<longleftrightarrow> consent_wf (pl_con w) \<and> codec (pl_con w) = cdc \<and> hold_of (pl_con w) i = Freed \<and>
     ledger_wf (pl_led w) \<and> has_entry (pl_led w) (uc_String cdc i) \<and> sum_balance (pl_led w) = b"

lemma hollow_other [simp]:
  "hollow cdc i b (w\<lparr>pl_rpc := xs\<rparr>) = hollow cdc i b w" "hollow cdc i b (w\<lparr>pl_pay := s\<rparr>) = hollow cdc i b w"
  "hollow cdc i b (w\<lparr>pl_risk := k\<rparr>) = hollow cdc i b w" "hollow cdc i b (w\<lparr>pl_bank := m\<rparr>) = hollow cdc i b w"
  by (simp_all add: hollow_def)

lemma rpc_call_inv:
  assumes "rpc_call f w = (r, w')" and "Q w" and "\<And>u. Q u \<Longrightarrow> Q (snd (f u))" and "\<And>u xs. Q u \<Longrightarrow> Q (u\<lparr>pl_rpc := xs\<rparr>)"
  shows "Q w'"
proof -
  have "Q (snd (rpc_call f w))"
    using assms(2-4) by (simp add: rpc_call_def split: list.split option.split rpc_fault.split)
  with assms(1) show ?thesis by simp
qed

lemma reserve_freed:
  assumes "rpc_ValidateAndReserve rq s = (r, s')" and "consent_wf s" and "rrq_PaymentId rq = uc_String (codec s) i" and "hold_of s i = Freed"
  shows "hold_of s' i = Freed"
proof -
  have ok: "codec_ok (codec s)" using assms(2) by (simp add: consent_wf_def)
  then have pid: "uc_pg (codec s) (rrq_PaymentId rq) = Some i" using assms(3) by (simp add: codec_ok_def)
  from assms(1) ok show ?thesis
  proof (cases rule: reserve_cases)
    case (held resp inp c p k)
    then have rs: "reservations s' = reservations s @ [new_hold s k (cs_id c) i (ri_AmountPence inp)]"
      using pid by (auto simp: holds_def)
    obtain v where "row_by rv_payment i (reservations s) = Some v"
      using assms(4) by (auto simp: hold_of_def split: option.splits)
    with assms(4) show ?thesis by (simp add: hold_of_def rs row_by_append)
  qed (use assms(4) in \<open>simp_all add: hold_of_env\<close>)
qed

lemma confirm_freed:
  assumes "rpc_ConfirmReservation rq s = (r, s')" and "consent_wf s" and "hold_of s i = Freed"
  shows "hold_of s' i = Freed"
proof -
  obtain q where "svc_ConfirmReservation (cfr_ReservationId rq) (cfr_PaymentId rq) s = (q, s')"
    using assms(1) unfolding rpc_ConfirmReservation_def by (cases rule: rpc_result_cases) auto
  from this assms(2) show ?thesis
  proof (cases rule: svc_ConfirmReservation_effect)
    case (confirmed v k)
    then have st: "sets_status ResConfirmed v s s'" "v \<in> set (reservations s)" "rv_status v = ResHeld"
      by (auto simp: confirms_def sets_status_def)
    have "distinct (map rv_payment (reservations s))" using assms(2) by (simp add: consent_wf_def)
    from row_by_SomeI [OF this st(2)] st(3) assms(3) have "rv_payment v \<noteq> i" by (auto simp: hold_of_def)
    with hold_of_set [OF st(1) assms(2)] assms(3) show ?thesis by simp
  qed (use assms(3) in \<open>simp_all add: hold_of_env\<close>)
qed

lemma post_again:
  assumes "rpc_PostDoubleEntry (Some rq) s = (r, s')" and "ledger_wf s" and "has_entry s (per_PaymentId rq)"
  shows "env_only s s'"
proof (cases "lines_from_proto (per_Lines rq)")
  case (Inr ls)
  then obtain q where "PostDoubleEntry (per_PaymentId rq) (per_Description rq) ls s = (q, s')"
    using assms(1) by (auto simp: rpc_PostDoubleEntry_def elim: rpc_result_cases)
  with assms(2,3) show ?thesis by (rule PostDoubleEntry_again)
qed (use assms(1) in \<open>simp add: rpc_PostDoubleEntry_def\<close>)

section \<open>The saga on it\<close>

lemma hollow_reserve:
  assumes "rpc_call (on_con (rpc_ValidateAndReserve rq)) w = (r, w')" and "rrq_PaymentId rq = uc_String cdc i" and "hollow cdc i b w"
  shows "hollow cdc i b w'"
  using assms(1,3)
proof (rule rpc_call_inv)
  fix u :: "'a platform" assume h: "hollow cdc i b u"
  obtain q s where q: "rpc_ValidateAndReserve rq (pl_con u) = (q, s)" by fastforce
  with h reserve_wf [OF q] reserve_freed [OF q] assms(2) show "hollow cdc i b (snd (on_con (rpc_ValidateAndReserve rq) u))"
    by (simp add: hollow_def on_con_def)
qed simp

lemma hollow_confirm:
  assumes "rpc_call (on_con (rpc_ConfirmReservation rq)) w = (r, w')" and "hollow cdc i b w"
  shows "hollow cdc i b w'"
  using assms
proof (rule rpc_call_inv)
  fix u :: "'a platform" assume h: "hollow cdc i b u"
  obtain q s where q: "rpc_ConfirmReservation rq (pl_con u) = (q, s)" by fastforce
  with h confirm_wf [OF q] confirm_freed [OF q] show "hollow cdc i b (snd (on_con (rpc_ConfirmReservation rq) u))"
    by (simp add: hollow_def on_con_def)
qed simp

lemma hollow_book:
  assumes "rpc_call (on_led (rpc_PostDoubleEntry (Some rq))) w = (r, w')" and "per_PaymentId rq = uc_String cdc i" and "hollow cdc i b w"
  shows "hollow cdc i b w'"
  using assms(1,3)
proof (rule rpc_call_inv)
  fix u :: "'a platform" assume h: "hollow cdc i b u"
  obtain q s where q: "rpc_PostDoubleEntry (Some rq) (pl_led u) = (q, s)" by fastforce
  with h post_again [OF q] assms(2) show "hollow cdc i b (snd (on_led (rpc_PostDoubleEntry (Some rq)) u))"
    by (auto simp: hollow_def on_led_def fun_eq_iff)
qed simp

lemma hollow_elsewhere:
  "rpc_call (on_risk g) w = (r', w') \<Longrightarrow> hollow cdc i b w' = hollow cdc i b w"
  "rpc_call (on_bank h) w = (r'', w') \<Longrightarrow> hollow cdc i b w' = hollow cdc i b w"
  by (erule rpc_call_keeps; simp add: on_risk_def on_bank_def split: prod.split)+

lemma hollow_upd: "upd_pay f p w = (err, p', w') \<Longrightarrow> hollow cdc i b w' = hollow cdc i b w"
  by (erule upd_pay_cases) simp

definition row_settled :: "Payment \<Rightarrow> 'c platform \<Rightarrow> bool" where
  "row_settled p w \<longleftrightarrow> (\<exists>x. prow (pl_pay w) (py_ID p) = Some x \<and> py_Status x = StatusSettled)"

definition hollow_at :: "uuid_codec \<Rightarrow> Payment \<Rightarrow> (string \<times> string \<times> string \<Rightarrow> int) \<Rightarrow> 'c platform \<Rightarrow> saga_point \<times> Payment \<times> 'c platform \<Rightarrow> bool" where
  "hollow_at cdc p b w c \<longleftrightarrow> outbox_at p w c \<and> (case c of (pt, q, u) \<Rightarrow> hollow cdc (py_ID p) b u \<and> (pt \<in> {Finished, Confirmed} \<longrightarrow> row_settled p u))"

lemma hollow_step:
  assumes "saga_step (platform_orc lib cdc) c d" and "hollow_at cdc p b w c"
  shows "hollow_at cdc p b w d"
proof -
  have o: "outbox_at p w d" using outbox_step [OF assms(1)] assms(2) by (simp add: hollow_at_def)
  from assms(1) show ?thesis
  proof (cases rule: saga_step.cases)
    case (reserve q u resp u' rid)
    with assms(2) o hollow_reserve show ?thesis by (fastforce simp: hollow_at_def outbox_at_def platform_orc_def)
  next
    case (settle q u q' u')
    then have s: "upd_pay SettleWithOutbox q u = (None, q', u')" by (simp add: platform_orc_def)
    have wf: "payment_wf (pl_pay u)" "py_ID q = py_ID p" using assms(2) settle(1) by (simp_all add: hollow_at_def outbox_at_def)
    from s obtain t where t: "SettleWithOutbox q (pl_pay u) = (None, q', t)" "u' = u\<lparr>pl_pay := t\<rparr>" by (rule upd_pay_cases)
    from t(1) wf(1) have st: "settles q (pl_pay u) t" by (cases rule: SettleWithOutbox_effect) auto
    then have "row_by pt_id (py_ID q) (payments (pl_pay u)) \<noteq> None" by (simp add: settles_def row_by_None_iff)
    then obtain x where "prow (pl_pay u) (py_ID q) = Some x" by (auto simp: prow_def)
    with st t(2) wf(2) have "row_settled p u'" by (auto simp: row_settled_def settles_def after_settle_def)
    with o settle assms(2) hollow_upd [OF s] show ?thesis by (simp add: hollow_at_def)
  next
    case (book q u x u')
    with assms(2) o hollow_book show ?thesis by (fastforce simp: hollow_at_def outbox_at_def platform_orc_def)
  next
    case (confirm q u)
    have "hollow cdc (py_ID p) b (confirm_step (platform_orc lib cdc) q u)"
      using assms(2) confirm hollow_confirm [OF surjective_pairing]
      by (auto simp: hollow_at_def confirm_step_def platform_orc_def split: option.split)
    moreover have "pl_pay (confirm_step (platform_orc lib cdc) q u) = pl_pay u"
      using served_elsewhere(1) [OF surjective_pairing] by (auto simp: confirm_step_def platform_orc_def split: option.split)
    ultimately show ?thesis using confirm assms(2) o by (simp add: hollow_at_def row_settled_def)
  qed (use assms(2) o hollow_elsewhere hollow_upd in \<open>fastforce simp: hollow_at_def platform_orc_def\<close>)+
qed

lemma hollow_saga:
  assumes "runSaga (platform_orc lib cdc) p w = (None, p', w')" and "payment_wf (pl_pay w)" and "hollow cdc (py_ID p) b w"
  shows "hollow_at cdc p b w (Confirmed, p', w')"
proof -
  have "saga_runs (platform_orc lib cdc) (Started, p, w) (Confirmed, p', w')" by (rule runSaga_calls [THEN iffD1, OF assms(1)])
  moreover have "hollow_at cdc p b w (Started, p, w)" using assms(2,3) by (simp add: hollow_at_def outbox_at_def)
  ultimately show ?thesis by (induction rule: rtranclp_induct) (auto intro: hollow_step)
qed

section \<open>The retry\<close>


text \<open>The database fails while the first attempt settles: the attempt is compensated in full and the payment FAILED. The merchant's retry
  succeeds: the payment is SETTLED and the consumer's bank has paid.\<close>

definition vrp_unsettled :: "nat platform" where
  "vrp_unsettled = snd (snd (vrp_run [] [None, None, None, None, None, None, Some net_down]))"

definition vrp_retry :: "Payment option \<times> goerror option \<times> nat platform" where
  "vrp_retry = initiate_retry (platform_orc std_lib unary_codec) (prow (pl_pay vrp_unsettled) 5) vrp_unsettled"

lemma vrp_unsettled_inv: "platform_inv std_lib unary_codec vrp_unsettled"
proof -
  let ?ds = "[None, None, None, None, None, None, Some net_down]"
  obtain err p' w' where r: "vrp_run [] ?ds = (err, p', w')" by (metis prod.exhaust)
  have "platform_inv std_lib unary_codec (vrp_w [] ?ds)" by (rule vrp_inv) simp
  from platform_saga [OF this vrp_unstarted r] have "platform_inv std_lib unary_codec w'" by (simp add: vrp.ended_def)
  with r show ?thesis by (simp add: vrp_unsettled_def)
qed


end
