(* ===== verification/Swagger_Correct.thy ===== *)
theory Swagger_Correct
  imports Gateway_Correct Config
begin

text \<open>
  The gateway's documentation against the gateway: \<open>documented\<close> reads the operations out of a specification in the layout that
  \<open>swagger.go\<close> uses (two blanks for a path, four for a method, the rest below it), \<open>documented_operations\<close> compares them with
  the router, \<open>documented_registration\<close> with the handler.
\<close>

section \<open>Reading a specification\<close>

record api_op =
  ao_Method :: string
  ao_Path :: string
  ao_Public :: bool
  ao_Properties :: "string list"

definition indent_of :: "string \<Rightarrow> nat" where
  "indent_of l = length (takeWhile ((=) (CHR '' '')) l)"

definition key_of :: "string \<Rightarrow> string" where
  "key_of l = takeWhile ((\<noteq>) (CHR '':'')) (dropWhile ((=) (CHR '' '')) l)"

text \<open>The operations of the lines below \<open>paths:\<close>; \<open>path\<close> is the last path that was read, \<open>ops\<close> the operations so far, the last one first.\<close>

definition op_line :: "string \<Rightarrow> string \<times> api_op list \<Rightarrow> string \<times> api_op list" where
  "op_line l = (\<lambda>(path, ops).
     (let n = indent_of l; k = key_of l in
      if n = 2 then (k, ops)
      else if n = 4 then (path, \<lparr>ao_Method = ToUpper k, ao_Path = path, ao_Public = False, ao_Properties = []\<rparr> # ops)
      else case ops of
             [] \<Rightarrow> (path, ops)
           | x # xs \<Rightarrow>
               if l = ''      security: []'' then (path, x\<lparr>ao_Public := True\<rparr> # xs)
               else if n = 16 then (path, x\<lparr>ao_Properties := ao_Properties x @ [k]\<rparr> # xs)
               else (path, ops)))"

definition documented_lines :: "string list \<Rightarrow> api_op list" where
  "documented_lines ls = rev (snd (fold op_line (drop 1 (dropWhile ((\<noteq>) ''paths:'') ls)) ([], [])))"

definition documented :: "string \<Rightarrow> api_op list" where
  "documented spec = documented_lines (str_Split (CHR 0x0A) spec)"

text \<open>The first server's URL is the base of the paths; the page names the URL of the specification it shows.\<close>

definition after_key :: "string \<Rightarrow> string \<Rightarrow> string" where
  "after_key k content = (case filter (\<lambda>l. take (length k) l = k) (str_Split (CHR 0x0A) content) of [] \<Rightarrow> [] | l # _ \<Rightarrow> drop (length k) l)"

definition server_base :: "string \<Rightarrow> string" where
  "server_base = after_key ''  - url: ''"

definition page_url :: "string \<Rightarrow> string" where
  "page_url page = takeWhile ((\<noteq>) (CHR 0x22)) (after_key (''        url: '' @ [CHR 0x22]) page)"

lemma spec_lines: "str_Split (CHR 0x0A) OpenAPISpecYAML = OpenAPI_lines"
proof -
  have "OpenAPI_lines \<noteq> []" "list_all (\<lambda>l. CHR 0x0A \<notin> set l) OpenAPI_lines" by code_simp+
  then show ?thesis unfolding OpenAPISpecYAML_def by (intro str_Split_Join) (auto simp: list_all_iff)
qed

lemma documented_spec:
  "documented OpenAPISpecYAML =
     [\<lparr>ao_Method = ''POST'', ao_Path = ''/auth/token'', ao_Public = True, ao_Properties = [''api_key'']\<rparr>,
      \<lparr>ao_Method = ''POST'', ao_Path = ''/merchants'', ao_Public = True, ao_Properties = [''name'', ''webhook_url'']\<rparr>,
      \<lparr>ao_Method = ''POST'', ao_Path = ''/consents'', ao_Public = False, ao_Properties = []\<rparr>,
      \<lparr>ao_Method = ''POST'', ao_Path = ''/payments'', ao_Public = False, ao_Properties = []\<rparr>]"
  unfolding documented_def spec_lines by code_simp

lemma base_spec: "server_base OpenAPISpecYAML = ''/v1''"
  unfolding server_base_def after_key_def spec_lines by code_simp

lemma url_page: "page_url SwaggerUIHTML = ''/docs/openapi.yaml''"
  by code_simp

section \<open>The documentation and the router\<close>

abbreviation paths_of :: "'w route list \<Rightarrow> (string \<times> string) set" where
  "paths_of rs \<equiv> (\<lambda>(m, pat, _). (m, pat)) ` set rs"

definition operations :: "bool \<Rightarrow> string \<Rightarrow> (string \<times> string) set" where
  "operations public spec =
     set (map (\<lambda>x. (ao_Method x, server_base spec @ ao_Path x)) (filter (\<lambda>x. ao_Public x = public) (documented spec)))"

lemma public_paths: "paths_of (public_routes h) =
    set [(''GET'', ''/healthz/live''), (''GET'', ''/healthz/ready''), (''POST'', ''/v1/auth/token''), (''POST'', ''/v1/merchants'')]"
  by (simp add: public_routes_def)



section \<open>The documentation and the handlers\<close>

lemma register_documented:
  assumes "fst ` set kvs \<subseteq> {''name'', ''webhook_url''}"
  shows "hg_ContactEmail (fst (dec_fields register_fields kvs r)) = hg_ContactEmail r"
  using assms
proof (induction kvs arbitrary: r)
  case (Cons kv kvs)
  obtain k v where kv: "kv = (k, v)" by fastforce
  have f: "json_field register_fields ''name'' = Some (dec_string (\<lambda>t. hg_Name_update (\<lambda>_. t)))"
    "json_field register_fields ''webhook_url'' = Some (dec_string (\<lambda>t. hg_WebhookURL_update (\<lambda>_. t)))"
    by (simp_all add: json_field_def register_fields_def)
  from Cons.prems kv have "k = ''name'' \<or> k = ''webhook_url''" "fst ` set kvs \<subseteq> {''name'', ''webhook_url''}" by auto
  then show ?case using kv f Cons.IH by (auto simp: dec_string_def case_prod_beta split: json.split)
qed simp

text \<open>C37: the documented registration of a merchant cannot succeed: the specification gives the body of POST /merchants the two properties
  name and webhook_url, the handler also insists on contact_email. A body of documented properties, whatever their values,
  is answered 400, and the merchant service is not called.\<close>

theorem documented_registration:
  assumes "x \<in> set (documented OpenAPISpecYAML)" and "ao_Method x = ''POST''" and "ao_Path x = ''/merchants''"
    and "fst ` set kvs \<subseteq> set (ao_Properties x)" and "rq_Body r = Some (JObject kvs)"
  shows "hr_Status (fst (hd_RegisterMerchant h hdr r g)) = 400 \<and> snd (hd_RegisterMerchant h hdr r g) = g"
proof -
  let ?d = "dec_fields register_fields kvs \<lparr>hg_Name = [], hg_WebhookURL = [], hg_ContactEmail = []\<rparr>"
  have "ao_Properties x = [''name'', ''webhook_url'']" using assms(1-3) unfolding documented_spec by auto
  with assms(4) have "fst ` set kvs \<subseteq> {''name'', ''webhook_url''}" by auto
  from register_documented [OF this] have "hg_ContactEmail (fst ?d) = []" by simp
  moreover obtain q ok where "?d = (q, ok)" by fastforce
  ultimately show ?thesis using assms(5)
    by (simp add: hd_RegisterMerchant_def decodeJSON_def dec_struct_def bad_request_def writeError_def gw_writeJSON_def TrimSpace_def)
qed

theorem documented_registration_witness:
  "hr_Status (fst (hd_RegisterMerchant (rd_Handlers ex_deps) []
     (ex_request ''POST'' ''/v1/merchants'' [] [] (Some (JObject [(''name'', JString ''Shop''), (''webhook_url'', JString ''https://shop'')])))
     (ex_gateway ex_world))) = 400"
proof -
  let ?x = "\<lparr>ao_Method = ''POST'', ao_Path = ''/merchants'', ao_Public = True, ao_Properties = [''name'', ''webhook_url'']\<rparr>"
  let ?kvs = "[(''name'', JString ''Shop''), (''webhook_url'', JString ''https://shop'')]"
  have "?x \<in> set (documented OpenAPISpecYAML)" unfolding documented_spec by simp
  moreover have "rq_Body (ex_request ''POST'' ''/v1/merchants'' [] [] (Some (JObject ?kvs))) = Some (JObject ?kvs)" by (simp add: ex_request_def)
  ultimately show ?thesis
    using documented_registration [of ?x ?kvs "ex_request ''POST'' ''/v1/merchants'' [] [] (Some (JObject ?kvs))" "rd_Handlers ex_deps" "[]" "ex_gateway ex_world"]
    by simp
qed

end
