(* ===== verification/Spec2Isabelle.thy ===== *)
theory Spec2Isabelle
  imports Ledger_Correct Consent_Correct Risk_Correct Money Payment_Correct Bank_Correct Platform_Correct
    Merchant_Correct Notification_Correct Gateway_Correct Recovery_Correct Platform_Types Workers Process_Correct
    Json_Text End_To_End Retry Swagger_Correct
begin

text \<open>
  A verification of the VRP one-click deposit platform (\<open>vrp-oneclick-deposit-platform\<close>, Go).

  \<^bold>\<open>The program.\<close> A merchant calls the HTTP gateway with a bearer token and an idempotency key. The payment service
  runs a saga: it reserves the amount on the consumer's consent, scores the risk, tells the bank adapter to take the
  money, posts a double entry to the ledger, settles the payment together with an outbox message in one
  transaction, and confirms the reservation; when a step fails it compensates the earlier ones. A relay publishes the
  outbox to Kafka; the notification service posts a signed webhook to the merchant. The services are separate
  processes that talk over gRPC, each with its own PostgreSQL schema or Redis keys.

  \<^bold>\<open>Theories and sources.\<close>
  \<^item> \<open>Prelude\<close>: Go's integers with wrap-around, the functions of its string library the sources use, tables as lists of rows.
    \<open>Domain_Error\<close>: \<open>pkg/shared/domainerr/errors.go\<close> and the dynamic types of \<open>error\<close>.
    \<open>Infra\<close>: clock, random UUIDs, calls of a database that may fail, transactions.
    \<open>Proto\<close>: the messages and enumerations of \<open>gen/*/v1/*.pb.go\<close>.
  \<^item> \<open>Ledger\<close>, \<open>Ledger_Props\<close>, \<open>Ledger_Correct\<close>: \<open>services/ledger-svc/internal\<close> with the constraints and the deferred
    balance trigger of \<open>migrations/ledger\<close>. In every reachable state all entries balance; a payment is posted at most once
    and a reversal cancels it; unbalanced postings are refused, also when the sums wrap.
  \<^item> \<open>Consent\<close>, \<open>Consent_Props\<close>, \<open>Consent_Correct\<close>: \<open>services/consent-svc/internal\<close>, repository, service, cache and handler.
    Settled and held amounts stay within the monthly limit as long as no expired hold is confirmed; a
    new hold is granted only on an active consent within its limits; a hold moves forward only; paging visits every row once.
  \<^item> \<open>Risk\<close>, \<open>Risk_Correct\<close>: \<open>services/risk-svc/internal\<close>. The decision equals the documented one, blocked parties are
    declined, and a failing Redis is an error and never an approval.
  \<^item> \<open>Money\<close>: \<open>pkg/shared/money\<close>. \<open>Idempotency\<close>: \<open>pkg/shared/idempotency\<close>; one owner per key, and waiting ends.
  \<^item> \<open>Payment_Repo\<close>, \<open>Payment_Saga\<close>, \<open>Payment_Handler\<close>, \<open>Payment_Props\<close>, \<open>Payment_Correct\<close>: \<open>services/payment-svc/internal\<close>, with
    \<open>repo.go\<close>, \<open>saga.go\<close>, \<open>handler.go\<close>, \<open>reconciliation.go\<close> and \<open>outbox.go\<close>. Settling is atomic with its outbox
    message, the record in memory tracks the row, the relay loses no message, the fee and the share add up.
  \<^item> \<open>Bank\<close>, \<open>Bank_Correct\<close>: \<open>services/bank-adapter/internal\<close>, the adapter and the mock bank.
  \<^item> \<open>Saga_Props\<close>, \<open>Platform\<close>, \<open>Platform_Correct\<close>: the contracts of the saga's four collaborators as locales
    (\<open>consent_client\<close>, \<open>bank_client\<close>, \<open>ledger_client\<close>, \<open>payment_store\<close>, joined in \<open>saga_world\<close>), what a saga achieves in any world
    that satisfies them, and the interpretation on the models of the services wired together. A saga that
    succeeds has settled the row, confirmed or kept the hold, taken the money once and booked it once; one that ends FAILED
    has left no hold, no booking and no money at the bank; a known idempotency key starts nothing.
  \<^item> \<open>Recovery\<close>, \<open>Recovery_Correct\<close>: the saga call by call, as a step relation (\<open>saga_step\<close>) whose runs are those of \<open>runSaga\<close>,
    so that the process may die between any two calls, and the pass of the reconciliation worker that finds the payment. Away
    from two points, where the row does not name what the saga holds, the pass leaves a row that is true of the other services, and
    it ends the payment if the database and the bank's status call answer; what happens at the two points, and
    to a saga that was only slow, is shown by example.
  \<^item> \<open>Platform_Types\<close>: requests, the worker, the relay and the RPCs of the services as steps of the platform
    (\<open>platform_step\<close>); every state reached is well typed.
  \<^item> \<open>Workers\<close>: the loops \<open>OutboxRelay.Run\<close> and \<open>ReconciliationWorker.Start\<close> on the events they see; the relay drains the outbox.
  \<^item> \<open>Merchant_Service\<close>, \<open>Merchant_Correct\<close>: \<open>services/merchant-svc/internal\<close>. Registration is atomic, the key shown once
    identifies its merchant, a suspension is visible at once.
  \<^item> \<open>Webhook\<close>: \<open>pkg/shared/webhook/hmac.go\<close> down to SHA-256. \<open>Notification\<close>, \<open>Notification_Correct\<close>:
    \<open>services/notification-svc/internal\<close>. An event handled without error reached the merchant or the dead letters.
  \<^item> \<open>Json_Text\<close>: the event of a settled payment as the text that \<open>buildSettledPayload\<close> marshals and the consumer unmarshals, with a reader
    of JSON as \<open>encoding/json\<close> accepts it; what is written is read back, and the body of a webhook says what it should.
    \<open>End_To_End\<close>: saga, outbox, relay, consumer and delivery in a row; a payment that settles reaches its merchant or the dead letters.
    \<open>Retry\<close>: a second attempt at a payment whose first one was undone settles it without a hold and without a booking.
  \<^item> \<open>Swagger\<close>, \<open>Swagger_Correct\<close>: the specification and the page of \<open>swagger.go\<close>, byte for byte, and their routes. What the specification says of access is
    true of the router; what it says of registering a merchant is not true of the handler.
  \<^item> \<open>Gateway_Http\<close>, \<open>Gateway\<close>, \<open>Gateway_Platform\<close>, \<open>Gateway_Correct\<close>: \<open>services/gateway/internal/httpapi\<close> and
    \<open>pkg/shared/auth/jwt.go\<close>. The locale \<open>tenant_services\<close> is what the gateway needs of the services to keep merchants
    apart; it is interpreted on them. A merchant reads its own data only, a token lasts until it expires, the rate
    limit is exact per second, errors keep their meaning.
  \<^item> \<open>Config\<close>: \<open>pkg/shared/config/env.go\<close>, \<open>pkg/shared/db/pgx.go\<close> and the helpers of the \<open>main\<close> functions.
    \<open>Process\<close>, \<open>Process_Correct\<close>: every \<open>services/*/cmd/main.go\<close>, \<open>pkg/shared/grpcutil/server.go\<close> and \<open>pkg/shared/logutil/trace.go\<close>.
    In production the gateway runs with a key of its own only; every RPC returns, a panic as the status Internal.

  \<^bold>\<open>State and operations.\<close> A service's state is a record that extends \<open>env\<close> by its tables; a method becomes a function
  from the state to a result and a new state, with an error as the left value of a sum. The names are those of the source, with
  a prefix where two packages share one (\<open>repo_\<close>, \<open>svc_\<close>, \<open>rpc_\<close>, \<open>hd_\<close>). A struct is a record, a nil pointer \<open>None\<close>,
  an \<open>int64\<close> an \<open>int\<close> whose operations wrap.

  \<^bold>\<open>Failures.\<close> Every call of a database or cache takes an entry of the fault script of its service and may fail,
  with no effect; every call between services takes an entry of a list of faults and may lose its request or its response;
  the mock bank draws its simulated failures from a source. Theorems about outcomes quantify over all of these unless they name
  the failures they exclude: the outcome of a saga is stated for runs without lost responses, and two theorems show by
  example what a lost response or a lost update does. A commit that fails has no effect; that a commit succeeds while its
  acknowledgement is lost is covered only by the loss of the response of the whole call.

  \<^bold>\<open>Bounds and fuel.\<close> Loops are structural or bounded by constants of the source: at most 5 attempts of a serializable
  transaction, 3 of the bank adapter (inside the retry library, a parameter) and of a webhook. Waiting for a completed
  idempotency key polls with fuel: \<open>waiting_ends\<close> shows that more fuel than the deadline divided by the polling interval never
  changes the result. The reader of JSON has fuel for twice the length of its text, and \<open>json_value_enough\<close> shows that more changes nothing.
  Nothing else needs fuel: the endless loops of the workers and the consumer run on the list of the events they see,
  and \<open>time.ParseDuration\<close> consumes its text.

  \<^bold>\<open>Parameters.\<close> Code outside the repository is an argument with its documented behaviour as a predicate, and an
  instance that satisfies it: the text form of UUIDs (\<open>codec_ok\<close>), bcrypt (\<open>bcrypt_ok\<close>), golang-jwt (\<open>jwt_ok\<close>), the
  circuit breaker and retry of the bank adapter (\<open>bank_lib_ok\<close>), chi's route matching, the Kafka writer, the connection pool, the
  dialling, listening and Redis ping at start-up (\<open>externals\<close>), the reader of floating-point numbers.

  \<^bold>\<open>Abstractions.\<close> The clock stands still during one operation, waiting and back-off included. Operations of one service
  do not interleave: a row lock or an atomic Redis command is what makes them atomic in the source, and the idempotency store is
  the only place where callers meet, modelled by explicit sequences of steps. A request of the gateway carries the value of its JSON body; the texts of events and of webhook
  bodies are modelled to the byte. RFC 3339 texts and the truncation of times to microseconds by PostgreSQL are left out; letters and spaces are those of
  ASCII; a text column takes any bytes; rows without an order come in insertion order; an error while scanning a row
  is one of the failures of its query.

  \<^bold>\<open>Not modelled.\<close> The generated serialisation of messages, the log lines outside of the
  interceptors, the durations in them, the delivery of signals and deferred closes. The settings of the circuit breaker, the Kafka clients and
  the dialled connections are data; what the libraries make of them is a parameter. \<open>time.ParseDuration\<close> scales a fraction exactly where Go uses floating point.
\<close>

end
